(* ===== verification/Cpp_Prelude.thy ===== *)
theory Cpp_Prelude
  imports Main "HOL-Library.Word" "HOL-Library.List_Lexorder" "HOL-Library.Char_ord"
begin

text \<open>
  Shared material of the development: the outcome of a C++ call (a value, an exception, undefined
  behaviour, a call to \<open>exit\<close>, a system call that has not answered yet), a state-passing monad over
  it, the parts of \<open>std::string\<close>, \<open>std::stoi\<close>, \<open>std::to_string\<close> and \<open>std::map\<close> that the programs use,
  and the generic lemmas and locales the component theories share.
\<close>

named_theorems cpp_run \<open>one-step evaluation of the state-passing combinators\<close>
named_theorems cpp_eval \<open>evaluation of the combinators by cases on the first outcome\<close>
named_theorems cpp_defs \<open>definitions of operations that are unfolded by the component proofs\<close>

type_synonym u16 = "16 word"
type_synonym u32 = "32 word"
type_synonym u64 = "64 word"

section \<open>Outcomes and state passing\<close>

datatype exn = RuntimeError string | InvalidArgument string | StdOutOfRange string

datatype 'a outcome = Val 'a | Throw exn | Undef string | Exit int | Pending

type_synonym ('s, 'a) cpp = "'s \<Rightarrow> 'a outcome \<times> 's"

definition ret :: "'a \<Rightarrow> ('s, 'a) cpp" where
  "ret a = (\<lambda>s. (Val a, s))"

definition throw :: "exn \<Rightarrow> ('s, 'a) cpp" where
  "throw e = (\<lambda>s. (Throw e, s))"

definition undef :: "string \<Rightarrow> ('s, 'a) cpp" where
  "undef msg = (\<lambda>s. (Undef msg, s))"

definition gets :: "('s \<Rightarrow> 'a) \<Rightarrow> ('s, 'a) cpp" where
  "gets f = (\<lambda>s. (Val (f s), s))"

definition modify :: "('s \<Rightarrow> 's) \<Rightarrow> ('s, unit) cpp" where
  "modify f = (\<lambda>s. (Val (), f s))"

definition bnd :: "('s, 'a) cpp \<Rightarrow> ('a \<Rightarrow> ('s, 'b) cpp) \<Rightarrow> ('s, 'b) cpp" where
  "bnd m f = (\<lambda>s. case m s of
       (Val a, s') \<Rightarrow> f a s'
     | (Throw e, s') \<Rightarrow> (Throw e, s')
     | (Undef u, s') \<Rightarrow> (Undef u, s')
     | (Exit n, s') \<Rightarrow> (Exit n, s')
     | (Pending, s') \<Rightarrow> (Pending, s'))"

text \<open>\<open>sq m k\<close> is the statement sequence \<open>m; k\<close>.\<close>

definition sq :: "('s, unit) cpp \<Rightarrow> ('s, 'b) cpp \<Rightarrow> ('s, 'b) cpp" where
  "sq m k = bnd m (\<lambda>_. k)"

definition skip :: "('s, unit) cpp" where
  "skip = ret ()"

definition whenb :: "bool \<Rightarrow> ('s, unit) cpp \<Rightarrow> ('s, unit) cpp" where
  "whenb b m = (if b then m else skip)"

text \<open>\<open>try { m } catch (const std::exception& e) { h e }\<close>.\<close>

definition try_catch :: "('s, 'a) cpp \<Rightarrow> (exn \<Rightarrow> ('s, 'a) cpp) \<Rightarrow> ('s, 'a) cpp" where
  "try_catch m h = (\<lambda>s. case m s of
       (Throw e, s') \<Rightarrow> h e s'
     | r \<Rightarrow> r)"

lemma ret_run [cpp_run]: "ret a s = (Val a, s)"
  by (simp add: ret_def)

lemma throw_run [cpp_run]: "throw e s = (Throw e, s)"
  by (simp add: throw_def)

lemma undef_run [cpp_run]: "undef u s = (Undef u, s)"
  by (simp add: undef_def)

lemma gets_run [cpp_run]: "gets f s = (Val (f s), s)"
  by (simp add: gets_def)

lemma modify_run [cpp_run]: "modify f s = (Val (), f s)"
  by (simp add: modify_def)

lemma skip_run [cpp_run]: "skip s = (Val (), s)"
  by (simp add: skip_def ret_def)

lemma whenb_run [cpp_run]: "whenb b m s = (if b then m s else (Val (), s))"
  by (simp add: whenb_def skip_run)

lemma bnd_run [cpp_run]:
  "m s = (Val a, s') \<Longrightarrow> bnd m f s = f a s'"
  "m s = (Throw e, s') \<Longrightarrow> bnd m f s = (Throw e, s')"
  "m s = (Undef u, s') \<Longrightarrow> bnd m f s = (Undef u, s')"
  "m s = (Exit n, s') \<Longrightarrow> bnd m f s = (Exit n, s')"
  "m s = (Pending, s') \<Longrightarrow> bnd m f s = (Pending, s')"
  by (simp_all add: bnd_def)

lemma sq_run [cpp_run]:
  "m s = (Val (), s') \<Longrightarrow> sq m k s = k s'"
  "m s = (Throw e, s') \<Longrightarrow> sq m k s = (Throw e, s')"
  "m s = (Undef u, s') \<Longrightarrow> sq m k s = (Undef u, s')"
  "m s = (Exit n, s') \<Longrightarrow> sq m k s = (Exit n, s')"
  "m s = (Pending, s') \<Longrightarrow> sq m k s = (Pending, s')"
  by (simp_all add: sq_def bnd_def)

lemma sq_whenb [cpp_run]: "sq (whenb b m) k s = (if b then sq m k s else k s)"
  by (simp add: sq_def bnd_def whenb_def skip_def ret_def)

lemma try_catch_run [cpp_run]:
  "m s = (Val a, s') \<Longrightarrow> try_catch m h s = (Val a, s')"
  "m s = (Throw e, s') \<Longrightarrow> try_catch m h s = h e s'"
  "m s = (Undef u, s') \<Longrightarrow> try_catch m h s = (Undef u, s')"
  "m s = (Exit n, s') \<Longrightarrow> try_catch m h s = (Exit n, s')"
  "m s = (Pending, s') \<Longrightarrow> try_catch m h s = (Pending, s')"
  by (simp_all add: try_catch_def)

text \<open>The same as unconditional equations: the first call is evaluated once, however deep the nesting.\<close>

lemma bnd_eval: "bnd m f s = (case m s of
       (Val a, s') \<Rightarrow> f a s' | (Throw e, s') \<Rightarrow> (Throw e, s') | (Undef u, s') \<Rightarrow> (Undef u, s')
     | (Exit n, s') \<Rightarrow> (Exit n, s') | (Pending, s') \<Rightarrow> (Pending, s'))"
  by (simp add: bnd_def)

lemma sq_eval: "sq m k s = (case m s of
       (Val u, s') \<Rightarrow> k s' | (Throw e, s') \<Rightarrow> (Throw e, s') | (Undef u, s') \<Rightarrow> (Undef u, s')
     | (Exit n, s') \<Rightarrow> (Exit n, s') | (Pending, s') \<Rightarrow> (Pending, s'))"
  by (simp add: sq_def bnd_def)

lemmas [cpp_eval] = ret_run throw_run undef_run gets_run modify_run skip_run whenb_run bnd_eval sq_eval

lemma bnd_ValE:
  assumes "bnd m f s = (Val b, t)"
  obtains a s' where "m s = (Val a, s')" and "f a s' = (Val b, t)"
  using assms by (auto simp: bnd_def split: prod.splits outcome.splits)

lemma sq_ValE:
  assumes "sq m k s = (Val b, t)"
  obtains s' where "m s = (Val (), s')" and "k s' = (Val b, t)"
  using assms by (auto simp: sq_def elim: bnd_ValE)

text \<open>\<open>keeps P m\<close>: however the call \<open>m\<close> ends, it leaves the state property \<open>P\<close> intact.\<close>

definition keeps :: "('s \<Rightarrow> bool) \<Rightarrow> ('s, 'a) cpp \<Rightarrow> bool" where
  "keeps P m \<longleftrightarrow> (\<forall>s. P s \<longrightarrow> P (snd (m s)))"

lemma keepsI [intro?]: "(\<And>s. P s \<Longrightarrow> P (snd (m s))) \<Longrightarrow> keeps P m"
  by (simp add: keeps_def)

lemma keepsD: "keeps P m \<Longrightarrow> P s \<Longrightarrow> P (snd (m s))"
  by (simp add: keeps_def)

lemma keeps_ret [simp, intro]: "keeps P (ret a)"
  and keeps_throw [simp, intro]: "keeps P (throw e)"
  and keeps_undef [simp, intro]: "keeps P (undef u)"
  and keeps_gets [simp, intro]: "keeps P (gets f)"
  and keeps_skip [simp, intro]: "keeps P skip"
  by (simp_all add: keeps_def cpp_run)

lemma keeps_modify: "(\<And>s. P s \<Longrightarrow> P (f s)) \<Longrightarrow> keeps P (modify f)"
  by (simp add: keeps_def cpp_run)

lemma keeps_bnd [intro]:
  assumes "keeps P m" and "\<And>a. keeps P (f a)"
  shows "keeps P (bnd m f)"
proof
  fix s assume "P s"
  then have m: "P (snd (m s))" using assms(1) by (simp add: keeps_def)
  obtain r s' where r: "m s = (r, s')" by fastforce
  with m have "P s'" by simp
  with r show "P (snd (bnd m f s))"
    using assms(2) by (cases r) (auto simp: bnd_def keeps_def)
qed

lemma keeps_sq [intro]: "keeps P m \<Longrightarrow> keeps P k \<Longrightarrow> keeps P (sq m k)"
  unfolding sq_def by (rule keeps_bnd)

lemma keeps_whenb [intro]: "(b \<Longrightarrow> keeps P m) \<Longrightarrow> keeps P (whenb b m)"
  by (simp add: whenb_def)

lemma keeps_if [intro]: "(b \<Longrightarrow> keeps P m) \<Longrightarrow> (\<not> b \<Longrightarrow> keeps P k) \<Longrightarrow> keeps P (if b then m else k)"
  by simp

lemma keeps_try_catch [intro]:
  assumes "keeps P m" and "\<And>e. keeps P (h e)"
  shows "keeps P (try_catch m h)"
proof
  fix s assume "P s"
  then have m: "P (snd (m s))" using assms(1) by (simp add: keeps_def)
  obtain r s' where r: "m s = (r, s')" by fastforce
  with m have "P s'" by simp
  with r show "P (snd (try_catch m h s))"
    using assms(2) by (cases r) (auto simp: try_catch_def keeps_def)
qed

section \<open>Lists of program points\<close>

text \<open>A 32-bit signed integer and a natural number, where the sum does not overflow.\<close>

lemma sint_plus_nat:
  fixes a :: "32 word"
  assumes "- 2147483648 \<le> sint a + int k" "sint a + int k < 2147483648"
  shows "sint (a + of_nat k) = sint a + int k"
proof -
  have "a + of_nat k = word_of_int (sint a + int k)" by simp
  then show ?thesis using assms by (simp only: sint_sbintrunc') (simp add: signed_take_bit_int_eq_self)
qed

lemma sum_list_update_less: "i < length xs \<Longrightarrow> f y < f (xs ! i) \<Longrightarrow> sum_list (map f (xs[i := y])) < sum_list (map f xs :: nat list)"
  by (induction xs arbitrary: i) (auto split: nat.splits)

text \<open>A system in which every state of an invariant that is not at its goal has a step that brings it nearer can get there.\<close>

lemma progress_reaches:
  fixes m :: "'s \<Rightarrow> nat"
  assumes "I s" and "\<And>s. I s \<Longrightarrow> \<not> G s \<Longrightarrow> \<exists>s'. R s s' \<and> I s' \<and> m s' < m s"
  shows "\<exists>s'. R\<^sup>*\<^sup>* s s' \<and> G s'"
  using assms(1)
proof (induction "m s" arbitrary: s rule: less_induct)
  case less
  show ?case
  proof (cases "G s")
    case False
    with assms(2) less(2) obtain s1 where "R s s1" "I s1" "m s1 < m s" by blast
    with less(1)[of s1] show ?thesis using converse_rtranclp_into_rtranclp[of R s s1] by blast
  qed blast
qed

lemma filter_update_length:
  "t < length ps \<Longrightarrow> length (filter P (ps[t := p])) + (if P (ps ! t) then 1 else 0) =
     length (filter P ps) + (if P p then 1 else 0)"
proof -
  assume t: "t < length ps"
  have "length (filter P ps) = length (filter P (take t ps @ ps ! t # drop (Suc t) ps))"
    using id_take_nth_drop[OF t] by simp
  with t show ?thesis by (simp add: upd_conv_take_nth_drop)
qed


end
