(* ===== verification/Cpp_Strings.thy ===== *)
theory Cpp_Strings
  imports Cpp_Prelude
begin

text \<open>
  The part of \<open>std::string\<close> and of the numeric conversions of \<open><string>\<close> that the programs use:
  \<open>find\<close> of a character and of a literal (\<open>npos\<close> is \<open>None\<close>), \<open>substr\<close>, \<open>erase\<close>, \<open>isspace\<close> of the
  default C locale, \<open>std::to_string\<close> and \<open>std::stoi\<close> (base 10, 32-bit \<open>int\<close>).
  A C string read out of a byte buffer ends at its first zero byte; a buffer without one is read
  past its end, which is undefined behaviour (\<open>None\<close>).
\<close>

section \<open>Searching and cutting\<close>

fun find_char :: "char \<Rightarrow> string \<Rightarrow> nat option" where
  "find_char c [] = None"
| "find_char c (x # xs) = (if x = c then Some 0 else map_option Suc (find_char c xs))"

fun starts_with :: "string \<Rightarrow> string \<Rightarrow> bool" where
  "starts_with [] s = True"
| "starts_with (p # ps) [] = False"
| "starts_with (p # ps) (x # xs) = (p = x \<and> starts_with ps xs)"

fun find_str :: "string \<Rightarrow> string \<Rightarrow> nat option" where
  "find_str p [] = (if p = [] then Some 0 else None)"
| "find_str p (x # xs) =
     (if starts_with p (x # xs) then Some 0 else map_option Suc (find_str p xs))"

definition substr :: "nat \<Rightarrow> nat \<Rightarrow> string \<Rightarrow> string" where
  "substr pos n s = take n (drop pos s)"

definition crlf :: string where
  "crlf = [CHR 0x0D, CHR 0x0A]"

definition newline :: string where
  "newline = [CHR 0x0A]"

definition isspace :: "char \<Rightarrow> bool" where
  "isspace c \<longleftrightarrow> c = CHR 0x20 \<or> c = CHR 0x09 \<or> c = CHR 0x0A \<or> c = CHR 0x0B \<or> c = CHR 0x0C \<or> c = CHR 0x0D"

fun c_str :: "string \<Rightarrow> string option" where
  "c_str [] = None"
| "c_str (c # cs) = (if c = CHR 0x00 then Some [] else map_option (Cons c) (c_str cs))"

lemma find_char_None: "find_char c s = None \<longleftrightarrow> c \<notin> set s"
  by (induction s) auto

lemma find_char_SomeD:
  "find_char c s = Some i \<Longrightarrow> i < length s \<and> s ! i = c \<and> c \<notin> set (take i s)"
  by (induction s arbitrary: i) (auto split: if_splits)

lemma find_char_append:
  "find_char c s = Some i \<Longrightarrow> find_char c (s @ t) = Some i"
  by (induction s arbitrary: i) (auto split: if_splits)

lemma find_char_skip:
  "c \<notin> set s \<Longrightarrow> find_char c (s @ t) = map_option ((+) (length s)) (find_char c t)"
  by (induction s; cases "find_char c t") auto

lemma find_char_first: "c \<notin> set s \<Longrightarrow> find_char c (s @ c # t) = Some (length s)"
  by (simp add: find_char_skip)

lemma starts_with_iff: "starts_with p s \<longleftrightarrow> (\<exists>t. s = p @ t)"
  by (induction p s rule: starts_with.induct) auto

lemma starts_with_append [simp]: "starts_with p (p @ t)"
  by (auto simp: starts_with_iff)

lemma starts_with_length: "starts_with p s \<Longrightarrow> length p \<le> length s"
  by (auto simp: starts_with_iff)

lemma find_str_SomeD:
  "find_str p s = Some i \<Longrightarrow> i + length p \<le> length s \<and> (\<exists>t. drop i s = p @ t)"
proof (induction p s arbitrary: i rule: find_str.induct)
  case (1 p)
  then show ?case by (simp split: if_splits)
next
  case (2 p x xs)
  show ?case
  proof (cases "starts_with p (x # xs)")
    case True
    with 2 show ?thesis using starts_with_length[OF True] by (auto simp: starts_with_iff)
  next
    case False
    with 2 show ?thesis by auto
  qed
qed

lemma find_str_append:
  "find_str p s = Some i \<Longrightarrow> find_str p (s @ t) = Some i"
proof (induction p s arbitrary: i rule: find_str.induct)
  case (1 p)
  then show ?case by (cases t) (auto split: if_splits)
next
  case (2 p x xs)
  show ?case
  proof (cases "starts_with p (x # xs)")
    case True
    then obtain u where "x # xs = p @ u" by (auto simp: starts_with_iff)
    then have "starts_with p (x # (xs @ t))"
      by (metis append_Cons append_assoc starts_with_append)
    with True 2 show ?thesis by simp
  next
    case False
    with 2 obtain j where j: "find_str p xs = Some j" "i = Suc j" by auto
    have "\<not> starts_with p (x # (xs @ t))"
    proof
      assume "starts_with p (x # (xs @ t))"
      then obtain u where u: "x # (xs @ t) = p @ u" by (auto simp: starts_with_iff)
      have "length p \<le> length (x # xs)" using find_str_SomeD[OF j(1)] by simp
      then have "take (length p) (x # xs) = take (length p) ((x # xs) @ t)"
        by (simp del: append_Cons)
      then have "take (length p) (x # xs) = p" using u by simp
      then have "x # xs = p @ drop (length p) (x # xs)" by (metis append_take_drop_id)
      with False show False by (auto simp: starts_with_iff)
    qed
    with j 2 False show ?thesis by simp
  qed
qed

text \<open>
  The scanner only ever looks for the two-byte line end. A piece of text that contains no carriage
  return is skipped as a whole.
\<close>

lemma find_crlf_skip:
  "CHR 0x0D \<notin> set s \<Longrightarrow> find_str crlf (s @ crlf @ t) = Some (length s)"
  by (induction s) (auto simp: crlf_def)

lemma drop_front: "n = length p \<Longrightarrow> drop n (p @ q) = q"
  by simp

lemma isspace_simps [simp]:
  "isspace CHR 0x20" "isspace CHR 0x09" "isspace CHR 0x0D" "isspace CHR 0x0A"
  by (simp_all add: isspace_def)

lemma c_str_None: "c_str b = None \<longleftrightarrow> CHR 0x00 \<notin> set b"
  by (induction b) auto

lemma c_str_no_zero: "CHR 0x00 \<notin> set s \<Longrightarrow> c_str (s @ CHR 0x00 # t) = Some s"
  by (induction s) auto

lemma c_str_eq: "c_str b = Some s \<Longrightarrow> s = takeWhile (\<lambda>c. c \<noteq> CHR 0x00) b"
  by (induction b arbitrary: s) (auto split: if_splits)

lemma c_str_zero: "CHR 0x00 \<in> set b \<Longrightarrow> c_str b = Some (takeWhile (\<lambda>c. c \<noteq> CHR 0x00) b)"
  using c_str_None[of b] c_str_eq[of b] by (cases "c_str b") auto

section \<open>Numbers\<close>

definition digit_char :: "nat \<Rightarrow> char" where
  "digit_char d = char_of (48 + d)"

definition is_digit :: "char \<Rightarrow> bool" where
  "is_digit c \<longleftrightarrow> 48 \<le> (of_char c :: nat) \<and> (of_char c :: nat) \<le> 57"

definition digit_val :: "char \<Rightarrow> nat" where
  "digit_val c = of_char c - 48"

fun to_string_nat :: "nat \<Rightarrow> string" where
  "to_string_nat n =
     (if n < 10 then [digit_char n] else to_string_nat (n div 10) @ [digit_char (n mod 10)])"

declare to_string_nat.simps [simp del]

definition to_string_int :: "int \<Rightarrow> string" where
  "to_string_int i = (if i < 0 then CHR ''-'' # to_string_nat (nat (- i)) else to_string_nat (nat i))"

fun digits_value :: "nat \<Rightarrow> string \<Rightarrow> nat" where
  "digits_value acc [] = acc"
| "digits_value acc (c # cs) =
     (if is_digit c then digits_value (10 * acc + digit_val c) cs else acc)"

definition starts_with_digit :: "string \<Rightarrow> bool" where
  "starts_with_digit s \<longleftrightarrow> s \<noteq> [] \<and> is_digit (hd s)"

definition int_min :: int where "int_min = - (2 ^ 31)"
definition int_max :: int where "int_max = 2 ^ 31 - 1"

definition stoi :: "string \<Rightarrow> exn + int" where
  "stoi s =
     (let s1 = dropWhile isspace s;
          neg = (s1 \<noteq> [] \<and> hd s1 = CHR ''-'');
          s2 = (if s1 \<noteq> [] \<and> (hd s1 = CHR ''-'' \<or> hd s1 = CHR ''+'') then tl s1 else s1);
          v = (if neg then - int (digits_value 0 s2) else int (digits_value 0 s2))
      in if \<not> starts_with_digit s2 then Inl (InvalidArgument ''stoi'')
         else if v < int_min \<or> int_max < v then Inl (StdOutOfRange ''stoi'')
         else Inr v)"

definition lift_sum :: "exn + 'a \<Rightarrow> ('s, 'a) cpp" where
  "lift_sum r = (case r of Inl e \<Rightarrow> throw e | Inr a \<Rightarrow> ret a)"

lemma lift_sum_run [cpp_run]:
  "lift_sum (Inl e) s = (Throw e, s)"
  "lift_sum (Inr a) s = (Val a, s)"
  by (simp_all add: lift_sum_def cpp_run)

lemma of_char_digit: "d < 10 \<Longrightarrow> (of_char (digit_char d) :: nat) = 48 + d"
  by (simp add: digit_char_def of_char_of)

lemma digit_char_props [simp]:
  assumes "d < 10"
  shows "is_digit (digit_char d)" "digit_val (digit_char d) = d"
  using assms by (simp_all add: is_digit_def digit_val_def of_char_digit)

lemma to_string_nat_digits: "c \<in> set (to_string_nat n) \<Longrightarrow> is_digit c"
proof (induction n rule: to_string_nat.induct)
  case (1 n)
  then show ?case
    by (subst (asm) to_string_nat.simps) (auto split: if_splits)
qed

lemma to_string_nat_nonempty [simp]: "to_string_nat n \<noteq> []"
  by (subst to_string_nat.simps) simp

lemma digits_value_append:
  "(\<forall>c \<in> set s. is_digit c) \<Longrightarrow> digits_value acc (s @ t) = digits_value (digits_value acc s) t"
  by (induction s arbitrary: acc) auto

lemma digits_value_to_string: "digits_value 0 (to_string_nat n) = n"
proof (induction n rule: to_string_nat.induct)
  case (1 n)
  show ?case
  proof (cases "n < 10")
    case True
    then show ?thesis by (simp add: to_string_nat.simps[of n])
  next
    case False
    with 1 have "digits_value 0 (to_string_nat (n div 10)) = n div 10" by simp
    with False show ?thesis
      by (simp add: to_string_nat.simps[of n] digits_value_append to_string_nat_digits)
  qed
qed

lemma digit_not_special:
  assumes "is_digit c"
  shows "\<not> isspace c" "c \<noteq> CHR ''-''" "c \<noteq> CHR ''+''" "c \<noteq> CHR 0x0D" "c \<noteq> CHR '':''" "c \<noteq> CHR 0x00"
  using assms by (auto simp: is_digit_def isspace_def)

lemma hd_to_string_digit: "is_digit (hd (to_string_nat n))"
  by (rule to_string_nat_digits[of _ n]) simp

lemma to_string_nat_not_space: "dropWhile isspace (to_string_nat n) = to_string_nat n"
  using hd_to_string_digit[of n] digit_not_special(1)
  by (cases "to_string_nat n") auto

text \<open>\<open>std::stoi\<close> reads back what \<open>std::to_string\<close> printed, for every non-negative \<open>int\<close>.\<close>

lemma stoi_to_string_nat:
  assumes "int n \<le> int_max"
  shows "stoi (to_string_nat n) = Inr (int n)"
  using assms hd_to_string_digit[of n] digit_not_special[OF hd_to_string_digit[of n]]
  by (simp add: stoi_def to_string_nat_not_space starts_with_digit_def digits_value_to_string
      Let_def int_min_def)

lemma to_string_nat_no_char:
  "\<not> is_digit c \<Longrightarrow> c \<notin> set (to_string_nat n)"
  using to_string_nat_digits by blast

lemma stoi_to_string_big:
  assumes "int_max < int n"
  shows "stoi (to_string_nat n) = Inl (StdOutOfRange ''stoi'')"
  using assms hd_to_string_digit[of n] digit_not_special[OF hd_to_string_digit[of n]]
  by (simp add: stoi_def to_string_nat_not_space starts_with_digit_def digits_value_to_string Let_def)

lemma stoi_range: "stoi s = Inr v \<Longrightarrow> int_min \<le> v \<and> v \<le> int_max"
  by (auto simp: stoi_def Let_def split: if_splits)

text \<open>The same for every \<open>int\<close>.\<close>

lemma stoi_to_string_int:
  assumes "int_min \<le> v" "v \<le> int_max"
  shows "stoi (to_string_int v) = Inr v"
proof (cases "v < 0")
  case True
  with assms hd_to_string_digit[of "nat (- v)"] show ?thesis
    by (simp add: to_string_int_def stoi_def Let_def starts_with_digit_def digits_value_to_string isspace_def)
qed (use assms stoi_to_string_nat[of "nat v"] in \<open>simp add: to_string_int_def\<close>)

lemma to_string_int_chars: "c \<in> set (to_string_int v) \<Longrightarrow> is_digit c \<or> c = CHR ''-''"
  by (auto simp: to_string_int_def dest: to_string_nat_digits split: if_splits)

end
