(* ===== verification/Posix_Io.thy ===== *)
theory Posix_Io
  imports Cpp_Strings
begin

text \<open>
  The kernel is outside the repository, so every system call is answered by a script: a list of
  answers that is a part of the state the model is run in, consumed one answer per call. A call
  that finds its script empty has not returned yet (\<open>Pending\<close>). A theorem over every script is a
  theorem over every behaviour of the kernel; what a theorem needs of the kernel (a read never
  yields more bytes than the buffer holds, a write never claims more bytes than it was given) is a
  hypothesis on the script.

  The locales \<open>chunk_reader\<close> and \<open>partial_writer\<close> are the contract that every non-blocking read loop
  and every non-blocking write loop of the repository keeps.
\<close>

unbundle bit_operations_syntax

datatype read_ans = ReadErr int | ReadOk string
datatype write_ans = WriteErr int | WriteOk nat
datatype sys_ans = SysErr int | SysOk int

definition EAGAIN :: int where "EAGAIN = 11"
definition EINTR :: int where "EINTR = 4"

text \<open>The other system calls of the servers, as the model records them, and the answers of \<open>accept\<close> and \<open>epoll_wait\<close>.\<close>

datatype sys_call =
    SysSocket | SysBind u16 | SysListen int | SysEpollCreate | SysGetFl int | SysSetFl int int
  | SysCtlAdd int u32 | SysCtlDel int | SysClose int | SysSignal
  | SysRead int | SysWrite int string

datatype accept_ans = AcceptErr int | AcceptOk int "int + string" u16

record wait_ans =
  wa_result :: "int + (int \<times> u32) list"
  wa_sigint :: bool

definition EPOLLIN :: u32 where "EPOLLIN = 1"
definition EPOLLOUT :: u32 where "EPOLLOUT = 4"
definition EPOLLERR :: u32 where "EPOLLERR = 8"
definition EPOLLET :: u32 where "EPOLLET = 2147483648"

definition O_NONBLOCK :: int where "O_NONBLOCK = 2048"

text \<open>Byte order conversion on a little-endian machine.\<close>

definition htons :: "u16 \<Rightarrow> u16" where
  "htons x = push_bit 8 x OR drop_bit 8 x"

definition ntohs :: "u16 \<Rightarrow> u16" where
  "ntohs x = push_bit 8 x OR drop_bit 8 x"

lemma ntohs_htons: "ntohs (htons p) = p"
  unfolding ntohs_def htons_def by (rule bit_word_eqI) (auto simp: bit_simps)

definition buffer_after :: "nat \<Rightarrow> string \<Rightarrow> string" where
  \<comment> \<open>a zero-filled buffer of the given size after \<open>read\<close> stored the bytes at its front\<close>
  "buffer_after bufSize bs = bs @ replicate (bufSize - length bs) (CHR 0x00)"

lemma c_str_buffer:
  assumes "CHR 0x00 \<notin> set bs" and "length bs < n"
  shows "c_str (buffer_after n bs) = Some bs"
proof -
  from assms(2) obtain m where "n - length bs = Suc m"
    by (metis Suc_diff_Suc)
  with assms(1) show ?thesis by (simp add: buffer_after_def c_str_no_zero)
qed

lemma c_str_buffer_full:
  "CHR 0x00 \<notin> set bs \<Longrightarrow> length bs = n \<Longrightarrow> c_str (buffer_after n bs) = None"
  by (simp add: buffer_after_def c_str_None)

lemma c_str_buffer_zero:
  "length bs < n \<Longrightarrow> c_str (buffer_after n bs) = Some (takeWhile (\<lambda>c. c \<noteq> CHR 0x00) bs)"
proof -
  assume n: "length bs < n"
  show ?thesis
  proof (cases "CHR 0x00 \<in> set bs")
    case True
    then show ?thesis
      by (subst c_str_zero) (auto simp: buffer_after_def takeWhile_append1)
  next
    case False
    then have eq: "takeWhile (\<lambda>c. c \<noteq> CHR 0x00) bs = bs" by (auto simp: takeWhile_eq_all_conv)
    show ?thesis unfolding eq using False n by (rule c_str_buffer)
  qed
qed

section \<open>Non-blocking readers\<close>

text \<open>
  \<open>rd s as\<close>: the loop has collected \<open>s\<close> and the kernel will answer \<open>as\<close>. \<open>res s eof\<close> is what it returns.
  \<open>good\<close> says which chunks the loop takes over unchanged.
\<close>

locale chunk_reader =
  fixes rd :: "string \<Rightarrow> read_ans list \<Rightarrow> 'r outcome \<times> read_ans list"
    and res :: "string \<Rightarrow> bool \<Rightarrow> 'r"
    and good :: "string \<Rightarrow> bool"
  assumes rd_pending: "rd s [] = (Pending, [])"
    and rd_again: "rd s (ReadErr EAGAIN # as) = (Val (res s False), as)"
    and rd_error: "e \<noteq> EAGAIN \<Longrightarrow> \<exists>x. rd s (ReadErr e # as) = (Throw x, as)"
    and rd_eof: "rd s (ReadOk [] # as) = (Val (res s True), as)"
    and rd_chunk: "good c \<Longrightarrow> c \<noteq> [] \<Longrightarrow> rd s (ReadOk c # as) = rd (s @ c) as"
begin

lemma rd_chunks:
  "\<forall>c \<in> set cs. good c \<and> c \<noteq> [] \<Longrightarrow> rd s (map ReadOk cs @ as) = rd (s @ concat cs) as"
  by (induction cs arbitrary: s) (auto simp: rd_chunk)

lemma rd_until_again:
  "\<forall>c \<in> set cs. good c \<and> c \<noteq> [] \<Longrightarrow>
   rd s (map ReadOk cs @ ReadErr EAGAIN # as) = (Val (res (s @ concat cs) False), as)"
  by (simp add: rd_chunks rd_again)

lemma rd_until_eof:
  "\<forall>c \<in> set cs. good c \<and> c \<noteq> [] \<Longrightarrow>
   rd s (map ReadOk cs @ ReadOk [] # as) = (Val (res (s @ concat cs) True), as)"
  by (simp add: rd_chunks rd_eof)

lemma rd_total:
  assumes "\<forall>c. ReadOk c \<in> set as \<longrightarrow> good c"
    and "ReadOk [] \<in> set as \<or> (\<exists>e. ReadErr e \<in> set as)"
  shows "(\<exists>v as'. rd s as = (Val v, as')) \<or> (\<exists>x as'. rd s as = (Throw x, as'))"
  using assms
proof (induction as arbitrary: s)
  case (Cons a as)
  show ?case
  proof (cases a)
    case (ReadErr e)
    then show ?thesis using rd_again rd_error[of e s as] by (cases "e = EAGAIN") fastforce+
  next
    case (ReadOk c)
    show ?thesis
    proof (cases "c = []")
      case True
      with ReadOk show ?thesis by (simp add: rd_eof)
    next
      case False
      with ReadOk Cons.prems have "rd s (a # as) = rd (s @ c) as"
        by (simp add: rd_chunk)
      moreover have "\<forall>c. ReadOk c \<in> set as \<longrightarrow> good c" using Cons.prems(1) by simp
      moreover have "ReadOk [] \<in> set as \<or> (\<exists>e. ReadErr e \<in> set as)"
        using Cons.prems(2) ReadOk False by auto
      ultimately show ?thesis using Cons.IH by simp
    qed
  qed
qed simp

end

section \<open>Non-blocking writers\<close>

fun accepted :: "write_ans list \<Rightarrow> nat" where
  "accepted [] = 0"
| "accepted (WriteOk n # as) = n + accepted as"
| "accepted (WriteErr e # as) = accepted as"

text \<open>
  The documented behaviour of \<open>write\<close>: the answers never claim more bytes than were offered.
\<close>

fun answers_fit :: "write_ans list \<Rightarrow> nat \<Rightarrow> bool" where
  "answers_fit [] len = True"
| "answers_fit (WriteErr e # as) len = True"
| "answers_fit (WriteOk n # as) len = (n \<le> len \<and> (len - n = 0 \<or> answers_fit as (len - n)))"

locale partial_writer =
  fixes wr :: "string \<Rightarrow> write_ans list \<Rightarrow> string outcome \<times> write_ans list"
  assumes wr_done: "wr [] as = (Val [], as)"
    and wr_pending: "s \<noteq> [] \<Longrightarrow> wr s [] = (Pending, [])"
    and wr_again: "s \<noteq> [] \<Longrightarrow> wr s (WriteErr EAGAIN # as) = (Val s, as)"
    and wr_error: "s \<noteq> [] \<Longrightarrow> e \<noteq> EAGAIN \<Longrightarrow> \<exists>x. wr s (WriteErr e # as) = (Throw x, as)"
    and wr_some: "s \<noteq> [] \<Longrightarrow> n \<le> length s \<Longrightarrow> wr s (WriteOk n # as) = wr (drop n s) as"
begin

text \<open>
  What is not returned was accepted by the kernel, in order and without a gap: the returned rest is
  the input without the bytes the consumed answers took.
\<close>

lemma wr_conserves:
  assumes "answers_fit as (length s)" and "wr s as = (Val r, as')"
  shows "\<exists>used. as = used @ as' \<and> r = drop (accepted used) s \<and> accepted used \<le> length s"
  using assms
proof (induction as arbitrary: s)
  case Nil
  show ?case
  proof (cases "s = []")
    case True
    with Nil show ?thesis by (simp add: wr_done)
  next
    case False
    with Nil show ?thesis by (simp add: wr_pending)
  qed
next
  case (Cons a as)
  show ?case
  proof (cases "s = []")
    case True
    with Cons.prems(2) have "as' = a # as" "r = []" by (auto simp: wr_done)
    with True show ?thesis by (intro exI[of _ "[]"]) simp
  next
    case False
    show ?thesis
    proof (cases a)
      case (WriteErr e)
      with False Cons.prems(2) have "e = EAGAIN" using wr_error[OF False, of e as] by fastforce
      with WriteErr False Cons.prems(2) show ?thesis
        by (intro exI[of _ "[WriteErr EAGAIN]"]) (simp add: wr_again)
    next
      case (WriteOk n)
      with Cons.prems(1) have n: "n \<le> length s" by simp
      with WriteOk False Cons.prems(2) have step: "wr (drop n s) as = (Val r, as')"
        by (simp add: wr_some)
      have "\<exists>used. as = used @ as' \<and> r = drop (accepted used) (drop n s) \<and>
          accepted used \<le> length (drop n s)"
      proof (cases "length s - n = 0")
        case True
        with step have "r = []" "as' = as" by (auto simp: wr_done)
        with True show ?thesis by (intro exI[of _ "[]"]) simp
      next
        case left: False
        with Cons.prems(1) WriteOk have "answers_fit as (length (drop n s))" by simp
        from Cons.IH[OF this step] show ?thesis .
      qed
      then obtain used where "as = used @ as'" "r = drop (accepted used) (drop n s)"
        "accepted used \<le> length (drop n s)" by blast
      with WriteOk n show ?thesis
        by (intro exI[of _ "WriteOk n # used"]) (auto simp: add.commute)
    qed
  qed
qed

lemma wr_all:
  assumes "s \<noteq> []"
  shows "wr s (WriteOk (length s) # as) = (Val [], as)"
  using assms by (simp add: wr_some wr_done)

end

end
