(* ===== verification/Http_Utils.thy ===== *)
theory Http_Utils
  imports Posix_Io
begin

text \<open>
  \<open>simple_http/tcp_server/include/utils.h\<close>: the trimming helpers, the error text and the
  \<open>EventNotifier\<close>, an auto-reset event built from a flag, a mutex and a condition variable.
\<close>

definition GetErrorMsg :: "(int \<Rightarrow> string) \<Rightarrow> string \<Rightarrow> int \<Rightarrow> string" where
  "GetErrorMsg strerror info errorCode =
     info @ '', error code('' @ to_string_int errorCode @ ''), '' @ strerror errorCode"

definition Ltrim :: "string \<Rightarrow> string" where
  "Ltrim s = dropWhile isspace s"

definition Rtrim :: "string \<Rightarrow> string" where
  "Rtrim s = rev (dropWhile isspace (rev s))"

definition Trim :: "string \<Rightarrow> string" where
  "Trim s = Rtrim (Ltrim s)"

lemma Trim_decompose:
  "\<exists>l r. s = l @ Trim s @ r \<and> (\<forall>c \<in> set l. isspace c) \<and> (\<forall>c \<in> set r. isspace c)"
proof -
  let ?t = "dropWhile isspace s"
  have l: "s = takeWhile isspace s @ ?t" by simp
  have r: "?t = Trim s @ rev (takeWhile isspace (rev ?t))"
    unfolding Trim_def Rtrim_def Ltrim_def
    by (metis rev_append rev_rev_ident takeWhile_dropWhile_id)
  from l r have "s = takeWhile isspace s @ Trim s @ rev (takeWhile isspace (rev ?t))" by metis
  then show ?thesis
    by (intro exI[of _ "takeWhile isspace s"] exI[of _ "rev (takeWhile isspace (rev ?t))"])
      (auto dest: set_takeWhileD)
qed

definition trimmed :: "string \<Rightarrow> bool" where
  "trimmed s \<longleftrightarrow> s = [] \<or> (\<not> isspace (hd s) \<and> \<not> isspace (last s))"

lemma Trim_trimmed [simp]: "trimmed s \<Longrightarrow> Trim s = s"
proof (cases s)
  case (Cons a t)
  assume "trimmed s"
  with Cons have "\<not> isspace a" "\<not> isspace (last s)" "s \<noteq> []" by (auto simp: trimmed_def)
  then have "Ltrim s = s" "\<not> isspace (hd (rev s))" "rev s \<noteq> []"
    using Cons hd_rev[of s] by (simp_all add: Ltrim_def)
  then show ?thesis
    by (cases "rev s") (auto simp: Trim_def Rtrim_def)
qed (simp add: Trim_def Rtrim_def Ltrim_def)

lemma trimmed_Trim: "trimmed (Trim s)"
proof (cases "Trim s = []")
  case False
  then have "last (Trim s) = hd (dropWhile isspace (rev (Ltrim s)))"
    by (simp add: Trim_def Rtrim_def last_rev)
  moreover have "dropWhile isspace (rev (Ltrim s)) \<noteq> []"
    using False by (simp add: Trim_def Rtrim_def)
  ultimately have l: "\<not> isspace (last (Trim s))"
    by (metis hd_dropWhile)
  have lt: "Ltrim s = Trim s @ rev (takeWhile isspace (rev (Ltrim s)))"
    unfolding Trim_def Rtrim_def by (metis rev_append rev_rev_ident takeWhile_dropWhile_id)
  then have "hd (Trim s) = hd (Ltrim s)" "Ltrim s \<noteq> []"
    using False by (metis hd_append2, metis Nil_is_append_conv)
  moreover have "\<not> isspace (hd (Ltrim s))"
    using \<open>Ltrim s \<noteq> []\<close> unfolding Ltrim_def by (rule hd_dropWhile)
  ultimately show ?thesis using l by (simp add: trimmed_def)
qed (simp add: trimmed_def)

lemma Trim_idem [simp]: "Trim (Trim s) = Trim s"
  by (simp add: trimmed_Trim)

lemma Trim_pad:
  assumes "\<forall>c \<in> set l. isspace c" "\<forall>c \<in> set r. isspace c" "trimmed s"
  shows "Trim (l @ s @ r) = s"
proof (cases "s = []")
  case True
  with assms show ?thesis
    by (simp add: Trim_def Ltrim_def Rtrim_def dropWhile_append2 dropWhile_eq_Nil_conv[THEN iffD2])
next
  case False
  with assms(3) have "\<not> isspace (hd s)" "\<not> isspace (last s)" by (auto simp: trimmed_def)
  then have "Ltrim (l @ s @ r) = s @ r"
    using assms(1) False by (cases s) (auto simp: Ltrim_def dropWhile_append2)
  moreover have "dropWhile isspace (rev r @ rev s) = rev s"
    using assms(2) False \<open>\<not> isspace (last s)\<close> dropWhile_append2[of "rev r" isspace "rev s"]
    by (cases s rule: rev_cases) auto
  then have "Rtrim (s @ r) = s" by (simp add: Rtrim_def)
  ultimately show ?thesis by (simp add: Trim_def)
qed

lemma Trim_Nil [simp]: "Trim [] = []"
  by (simp add: trimmed_def)

section \<open>The event notifier\<close>

text \<open>
  The flag is the whole state: \<open>Set\<close> raises it; \<open>Wait\<close> returns only from a state in which it is raised
  and lowers it in the same critical section. A \<open>Wait\<close> on a lowered flag has not returned.
\<close>

record event_notifier =
  signaled :: bool

definition EventNotifier_new :: event_notifier where
  "EventNotifier_new = \<lparr>signaled = False\<rparr>"

definition EventNotifier_Set :: "event_notifier \<Rightarrow> event_notifier" where
  "EventNotifier_Set e = e\<lparr>signaled := True\<rparr>"

definition EventNotifier_Wait :: "(event_notifier, unit) cpp" where
  "EventNotifier_Wait = (\<lambda>e.
     if signaled e then (Val (), e\<lparr>signaled := False\<rparr>) else (Pending, e))"

lemma EventNotifier_Set_Wait:
  "EventNotifier_Wait (EventNotifier_Set e) = (Val (), e\<lparr>signaled := False\<rparr>)"
  by (simp add: EventNotifier_Wait_def EventNotifier_Set_def)

lemma EventNotifier_Wait_once:
  "EventNotifier_Wait e = (Val (), e') \<Longrightarrow> EventNotifier_Wait e' = (Pending, e')"
  by (auto simp: EventNotifier_Wait_def split: if_splits)

end
