(* ===== verification/Http_Log.thy ===== *)
theory Http_Log
  imports Http_Utils
begin

text \<open>
  \<open>simple_http/log\<close>: the logger writes the same text to a file and to standard output; a message of a
  given severity is written only when the level is at least that severity. The arguments of a log
  call are their printed forms. The \<open>Log...\<close> macros put the calling function's name in front; the
  name is \<open>__PRETTY_FUNCTION__\<close>, in g++'s spelling.
\<close>

definition LEVEL_ERROR :: int where "LEVEL_ERROR = 0"
definition LEVEL_WARN :: int where "LEVEL_WARN = 1"
definition LEVEL_INFO :: int where "LEVEL_INFO = 2"
definition LEVEL_DEBUG :: int where "LEVEL_DEBUG = 3"
definition LEVEL_ALWAYS :: int where "LEVEL_ALWAYS = 4"

lemmas log_levels = LEVEL_ERROR_def LEVEL_WARN_def LEVEL_INFO_def LEVEL_DEBUG_def LEVEL_ALWAYS_def

record logger =
  logLevel :: int
  log_fs :: string
  log_cout :: string

definition Logger_new :: "bool \<Rightarrow> logger outcome" where
  "Logger_new is_open =
     (if \<not> is_open then Exit 1
      else Val \<lparr>logLevel = LEVEL_ALWAYS, log_fs = [], log_cout = []\<rparr>)"

definition log_emit :: "string \<Rightarrow> logger \<Rightarrow> logger" where
  "log_emit t l = l\<lparr>log_fs := log_fs l @ t, log_cout := log_cout l @ t\<rparr>"

fun Logger_Log :: "string list \<Rightarrow> logger \<Rightarrow> logger" where
  "Logger_Log [] l = l"
| "Logger_Log [t] l = log_emit newline (log_emit t l)"
| "Logger_Log (t # ts) l = Logger_Log ts (log_emit t l)"

definition Logger_LogAlways :: "string list \<Rightarrow> logger \<Rightarrow> logger" where
  "Logger_LogAlways args l = Logger_Log args l"

definition Logger_LogInfo :: "string list \<Rightarrow> logger \<Rightarrow> logger" where
  "Logger_LogInfo args l =
     (if logLevel l < LEVEL_INFO then l else Logger_Log (''[Info]'' # args) l)"

definition Logger_LogWarn :: "string list \<Rightarrow> logger \<Rightarrow> logger" where
  "Logger_LogWarn args l =
     (if logLevel l < LEVEL_WARN then l else Logger_Log (''[Warn]'' # args) l)"

definition Logger_LogError :: "string list \<Rightarrow> logger \<Rightarrow> logger" where
  "Logger_LogError args l =
     (if logLevel l < LEVEL_ERROR then l else Logger_Log (''[Error]'' # args) l)"

definition Logger_LogDebug :: "string list \<Rightarrow> logger \<Rightarrow> logger" where
  "Logger_LogDebug args l =
     (if logLevel l < LEVEL_DEBUG then l else Logger_Log (''[Debug]'' # args) l)"

definition log_prefix :: "string \<Rightarrow> string" where
  "log_prefix fn = ''['' @ fn @ ''] ''"

definition Logger_SetLogLevel :: "string \<Rightarrow> logger \<Rightarrow> logger" where
  "Logger_SetLogLevel s l =
     (let say = (\<lambda>m. Logger_LogAlways [log_prefix ''void Logger::SetLogLevel(std::string)'', m]) in
      if s = ''error'' then say ''SetLogLevel: error'' (l\<lparr>logLevel := LEVEL_ERROR\<rparr>)
      else if s = ''warn'' then say ''SetLogLevel: warn'' (l\<lparr>logLevel := LEVEL_WARN\<rparr>)
      else if s = ''info'' then say ''SetLogLevel: info'' (l\<lparr>logLevel := LEVEL_INFO\<rparr>)
      else if s = ''debug'' then say ''SetLogLevel: debug'' (l\<lparr>logLevel := LEVEL_DEBUG\<rparr>)
      else l)"

section \<open>What a log call writes\<close>

lemma Logger_Log_text:
  "ts \<noteq> [] \<Longrightarrow> Logger_Log ts l = log_emit (concat ts @ newline) l"
  by (induction ts l rule: Logger_Log.induct) (auto simp: log_emit_def)

lemma log_emit_level [simp]: "logLevel (log_emit t l) = logLevel l"
  by (simp add: log_emit_def)

lemma Logger_Log_level [simp]: "logLevel (Logger_Log ts l) = logLevel l"
  by (cases "ts = []") (auto simp: Logger_Log_text)

lemmas Logger_calls =
  Logger_LogAlways_def Logger_LogInfo_def Logger_LogWarn_def Logger_LogError_def Logger_LogDebug_def

lemma Logger_level_kept [simp]:
  "logLevel (Logger_LogAlways ts l) = logLevel l"
  "logLevel (Logger_LogInfo ts l) = logLevel l"
  "logLevel (Logger_LogWarn ts l) = logLevel l"
  "logLevel (Logger_LogError ts l) = logLevel l"
  "logLevel (Logger_LogDebug ts l) = logLevel l"
  by (simp_all add: Logger_calls)

definition log_threshold :: "string \<Rightarrow> int option" where
  "log_threshold s =
     map_of [(''error'', LEVEL_ERROR), (''warn'', LEVEL_WARN), (''info'', LEVEL_INFO),
             (''debug'', LEVEL_DEBUG)] s"

lemma SetLogLevel_level:
  "logLevel (Logger_SetLogLevel s l) = (case log_threshold s of Some v \<Rightarrow> v | None \<Rightarrow> logLevel l)"
  by (simp add: Logger_SetLogLevel_def log_threshold_def Let_def)

text \<open>
  The five log calls against the severity order: after \<open>SetLogLevel\<close> with one of the four names, an
  error line is always written, a warning from level warn on, an info line from info on, a debug
  line at debug only, and a suppressed call leaves file and standard output untouched; the text
  written is the tag, the arguments in order and one newline, on both sinks.
\<close>

theorem log_filter:
  assumes "log_threshold name = Some v"
  shows "let l' = Logger_SetLogLevel name l in
    Logger_LogError ts l' = log_emit (''[Error]'' @ concat ts @ newline) l' \<and>
    Logger_LogWarn ts l' = (if 1 \<le> v then log_emit (''[Warn]'' @ concat ts @ newline) l' else l') \<and>
    Logger_LogInfo ts l' = (if 2 \<le> v then log_emit (''[Info]'' @ concat ts @ newline) l' else l') \<and>
    Logger_LogDebug ts l' = (if v = 3 then log_emit (''[Debug]'' @ concat ts @ newline) l' else l')"
proof -
  have v: "v = 0 \<or> v = 1 \<or> v = 2 \<or> v = 3"
    using assms by (auto simp: log_threshold_def log_levels split: if_splits)
  have lv: "logLevel (Logger_SetLogLevel name l) = v"
    using assms by (simp add: SetLogLevel_level)
  show ?thesis
    using v by (auto simp: Let_def Logger_calls lv log_levels Logger_Log_text)
qed

lemma log_filter_witness:
  "log_threshold ''warn'' = Some 1 \<and>
   Logger_LogDebug [''x''] (Logger_SetLogLevel ''warn'' \<lparr>logLevel = 4, log_fs = [], log_cout = []\<rparr>) =
   Logger_SetLogLevel ''warn'' \<lparr>logLevel = 4, log_fs = [], log_cout = []\<rparr>"
proof -
  have h: "log_threshold ''warn'' = Some 1" by (simp add: log_threshold_def log_levels)
  show ?thesis
    using h log_filter[OF h, of "\<lparr>logLevel = 4, log_fs = [], log_cout = []\<rparr>" "[''x'']"]
    by (simp add: Let_def)
qed

end
