(* ===== verification/Http_Config.thy ===== *)
theory Http_Config
  imports Http_Utils
begin

text \<open>
  \<open>simple_http/config\<close>: the configuration file is read line by line; a line \<open>name = value\<close> with name
  \<open>port\<close> or \<open>log_level\<close> sets a field, every other line is skipped. The port is \<open>std::stoi\<close>'s 32-bit
  result narrowed to 16 bits.
\<close>

record config =
  cfg_logLevel :: string
  cfg_port :: u16
  cfg_epEventCount :: u64

definition DEFAULT_PORT :: u16 where "DEFAULT_PORT = 5666"
definition EP_EVENT_COUNT :: u64 where "EP_EVENT_COUNT = 10"

definition Config_ParseLine :: "string \<Rightarrow> config \<Rightarrow> exn + config" where
  "Config_ParseLine s0 c =
     (let s = Trim s0 in
      case find_char (CHR ''='') s of
        None \<Rightarrow> Inr c
      | Some pos \<Rightarrow>
          let name = Trim (substr 0 pos s);
              value = Trim (drop (pos + 1) s)
          in if name = ''port'' then
               (case stoi value of Inl e \<Rightarrow> Inl e | Inr v \<Rightarrow> Inr (c\<lparr>cfg_port := word_of_int v\<rparr>))
             else if name = ''log_level'' then Inr (c\<lparr>cfg_logLevel := value\<rparr>)
             else Inr c)"

text \<open>
  The loop \<open>while (!fs.eof()) { getline; ParseLine }\<close> runs once per piece of the file between
  newlines, the piece after the last newline included.
\<close>

fun getlines :: "string \<Rightarrow> string list" where
  "getlines [] = [[]]"
| "getlines (c # cs) =
     (if c = CHR 0x0A then [] # getlines cs
      else (case getlines cs of l # ls \<Rightarrow> (c # l) # ls | [] \<Rightarrow> [[c]]))"

fun Config_read :: "string list \<Rightarrow> config \<Rightarrow> exn + config" where
  "Config_read [] c = Inr c"
| "Config_read (l # ls) c =
     (case Config_ParseLine l c of Inl e \<Rightarrow> Inl e | Inr c' \<Rightarrow> Config_read ls c')"

definition Config_new :: "string option \<Rightarrow> config outcome" where
  "Config_new file =
     (case file of
        None \<Rightarrow> Exit 1
      | Some content \<Rightarrow>
          (case Config_read (getlines content)
                  \<lparr>cfg_logLevel = [], cfg_port = DEFAULT_PORT, cfg_epEventCount = EP_EVENT_COUNT\<rparr> of
             Inl e \<Rightarrow> Throw e
           | Inr c \<Rightarrow> Val c))"

section \<open>Properties\<close>

lemma getlines_nonempty [simp]: "getlines s \<noteq> []"
  by (induction s) (auto split: list.splits)

lemma getlines_line:
  "CHR 0x0A \<notin> set l \<Longrightarrow> getlines (l @ CHR 0x0A # s) = l # getlines s"
  by (induction l) auto

lemma getlines_last: "CHR 0x0A \<notin> set l \<Longrightarrow> getlines l = [l]"
  by (induction l) auto

lemma ParseLine_epEventCount:
  "Config_ParseLine s c = Inr c' \<Longrightarrow> cfg_epEventCount c' = cfg_epEventCount c"
  by (auto simp: Config_ParseLine_def Let_def split: option.splits if_splits sum.splits)

definition blanks :: "string \<Rightarrow> bool" where
  "blanks s \<longleftrightarrow> (\<forall>c \<in> set s. isspace c)"

lemma blanks_no_eq: "blanks s \<Longrightarrow> CHR ''='' \<notin> set s"
proof -
  have "\<not> isspace (CHR ''='')" by (simp add: isspace_def)
  then show "blanks s \<Longrightarrow> ?thesis" by (auto simp: blanks_def)
qed

lemma ParseLine_assign:
  assumes "trimmed name" "name \<noteq> []" "CHR ''='' \<notin> set name" "trimmed value" "value \<noteq> []"
    and "blanks a" "blanks b" "blanks d" "blanks e"
  shows "Config_ParseLine (a @ name @ b @ ''='' @ d @ value @ e) c =
    (if name = ''port'' then
       (case stoi value of Inl x \<Rightarrow> Inl x | Inr v \<Rightarrow> Inr (c\<lparr>cfg_port := word_of_int v\<rparr>))
     else if name = ''log_level'' then Inr (c\<lparr>cfg_logLevel := value\<rparr>)
     else Inr c)"
proof -
  let ?m = "name @ b @ ''='' @ d @ value"
  have "trimmed ?m"
    using assms(1-5) by (auto simp: trimmed_def)
  then have t: "Trim (a @ ?m @ e) = ?m"
    using assms(6,9) unfolding blanks_def by (intro Trim_pad) auto
  have f: "find_char (CHR ''='') ?m = Some (length (name @ b))"
    using find_char_first[of "CHR ''=''" "name @ b" "d @ value"] assms(3,7) blanks_no_eq by auto
  have n: "Trim (substr 0 (length (name @ b)) ?m) = name"
    using Trim_pad[of "[]" b name] assms(1,7) by (simp add: substr_def blanks_def)
  have v: "Trim (drop (length (name @ b) + 1) ?m) = value"
    using Trim_pad[of d "[]" "value"] assms(4,8) by (simp add: blanks_def)
  have "a @ name @ b @ ''='' @ d @ value @ e = a @ ?m @ e" by simp
  then show ?thesis
    unfolding Config_ParseLine_def by (simp only: t f n v Let_def option.case)
qed

lemma trimmed_to_string_nat: "trimmed (to_string_nat n)"
  using to_string_nat_digits[of _ n] digit_not_special(1)
  by (auto simp: trimmed_def)

lemma ParseLine_port_nat:
  "Config_ParseLine (''port = '' @ to_string_nat n) c =
     (if int n \<le> int_max then Inr (c\<lparr>cfg_port := of_nat n\<rparr>) else Inl (StdOutOfRange ''stoi''))"
proof -
  have eq: "''port = '' @ to_string_nat n = [] @ ''port'' @ '' '' @ ''='' @ '' '' @ to_string_nat n @ []"
    by simp
  show ?thesis
    unfolding eq
    by (subst ParseLine_assign)
      (auto simp: trimmed_to_string_nat blanks_def trimmed_def[of "''port''"] isspace_def
        stoi_to_string_nat stoi_to_string_big)
qed

lemma ParseLine_level:
  assumes "trimmed lv" and "lv \<noteq> []"
  shows "Config_ParseLine (''log_level = '' @ lv) c = Inr (c\<lparr>cfg_logLevel := lv\<rparr>)"
proof -
  have eq: "''log_level = '' @ lv = [] @ ''log_level'' @ '' '' @ ''='' @ '' '' @ lv @ []" by simp
  show ?thesis
    unfolding eq using assms
    by (subst ParseLine_assign) (auto simp: blanks_def trimmed_def isspace_def)
qed

lemma ParseLine_blank [simp]: "Config_ParseLine [] c = Inr c"
  by (simp add: Config_ParseLine_def)

text \<open>
  A configuration file that is written as a \<open>port\<close> line and a \<open>log_level\<close> line is read back: the port
  number (below 65536) and the level text come out as written, and the number of epoll events stays
  at its default.
\<close>

theorem config_roundtrip:
  assumes "n < 2 ^ 16" and "trimmed lv" and "lv \<noteq> []" and "CHR 0x0A \<notin> set lv"
  shows "Config_new (Some (''port = '' @ to_string_nat n @ newline @ ''log_level = '' @ lv @ newline)) =
    Val \<lparr>cfg_logLevel = lv, cfg_port = of_nat n, cfg_epEventCount = EP_EVENT_COUNT\<rparr> \<and>
    unat (of_nat n :: u16) = n"
proof -
  let ?l1 = "''port = '' @ to_string_nat n" and ?l2 = "''log_level = '' @ lv"
  have nl: "CHR 0x0A \<notin> set ?l1" "CHR 0x0A \<notin> set ?l2"
    using to_string_nat_no_char[of "CHR 0x0A" n] assms(4) by (auto simp: is_digit_def)
  have "getlines (?l1 @ CHR 0x0A # ?l2 @ CHR 0x0A # []) = [?l1, ?l2, []]"
    unfolding getlines_line[OF nl(1)] getlines_line[OF nl(2)] by simp
  then have lines: "getlines (''port = '' @ to_string_nat n @ newline @ ''log_level = '' @ lv @ newline) =
      [?l1, ?l2, []]"
    by (simp add: newline_def)
  have n: "int n \<le> int_max" using assms(1) by (simp add: int_max_def)
  have w: "unat (of_nat n :: u16) = n" using assms(1) by (simp add: unat_of_nat)
  show ?thesis
    unfolding Config_new_def option.case lines Config_read.simps ParseLine_port_nat
      ParseLine_level[OF assms(2,3)] ParseLine_blank
    using n w by simp
qed

lemma config_roundtrip_witness:
  "Config_new (Some (''port = '' @ to_string_nat 5666 @ newline @ ''log_level = '' @ ''debug'' @ newline)) =
    Val \<lparr>cfg_logLevel = ''debug'', cfg_port = 5666, cfg_epEventCount = EP_EVENT_COUNT\<rparr>"
  using config_roundtrip[of 5666 "''debug''"] by (simp add: trimmed_def isspace_def)

text \<open>
  A port number that does not fit is never rejected: above 65535 it is narrowed to its residue
  modulo 65536 without an error; only a number beyond the 32-bit \<open>int\<close> range makes \<open>std::stoi\<close>
  throw, and that exception is not caught by the constructor.
\<close>

theorem config_port_narrowing:
  "(case Config_ParseLine (''port = '' @ to_string_nat n) c of
      Inr c' \<Rightarrow> int n \<le> int_max \<and> unat (cfg_port c') = n mod 65536 \<and> c' = c\<lparr>cfg_port := cfg_port c'\<rparr>
    | Inl e \<Rightarrow> int_max < int n \<and> e = StdOutOfRange ''stoi'')"
  unfolding ParseLine_port_nat by (simp add: unat_of_nat)

end
