(* ===== verification/Std_Map.thy ===== *)
theory Std_Map
  imports Cpp_Prelude
begin

text \<open>
  \<open>std::map\<close> as the programs use it: a finite map that is iterated in ascending key order.
  The interface is the locale \<open>std_map\<close>; the model's maps are association lists kept strictly
  sorted by key, so that \<open>begin()\<close> and range-\<open>for\<close> see the entries in the order the code sees them.
\<close>

type_synonym ('k, 'v) omap = "('k \<times> 'v) list"

definition om_empty :: "('k, 'v) omap" where
  "om_empty = []"

definition om_get :: "('k, 'v) omap \<Rightarrow> 'k \<Rightarrow> 'v option" where
  "om_get m k = map_of m k"

definition om_has :: "('k, 'v) omap \<Rightarrow> 'k \<Rightarrow> bool" where
  "om_has m k = (om_get m k \<noteq> None)"

fun om_put :: "'k::linorder \<Rightarrow> 'v \<Rightarrow> ('k, 'v) omap \<Rightarrow> ('k, 'v) omap" where
  "om_put k v [] = [(k, v)]"
| "om_put k v ((k', v') # m) =
     (if k < k' then (k, v) # (k', v') # m
      else if k = k' then (k, v) # m
      else (k', v') # om_put k v m)"

definition om_del :: "'k \<Rightarrow> ('k, 'v) omap \<Rightarrow> ('k, 'v) omap" where
  "om_del k m = filter (\<lambda>e. fst e \<noteq> k) m"

definition om_values :: "('k, 'v) omap \<Rightarrow> 'v list" where
  "om_values m = map snd m"

definition om_wf :: "('k::linorder, 'v) omap \<Rightarrow> bool" where
  "om_wf m \<longleftrightarrow> sorted_wrt (<) (map fst m)"

locale std_map =
  fixes empty :: "'m"
    and get :: "'m \<Rightarrow> 'k \<Rightarrow> 'v option"
    and put :: "'k \<Rightarrow> 'v \<Rightarrow> 'm \<Rightarrow> 'm"
    and del :: "'k \<Rightarrow> 'm \<Rightarrow> 'm"
    and entries :: "'m \<Rightarrow> ('k \<times> 'v) list"
    and wf :: "'m \<Rightarrow> bool"
  assumes get_empty: "get empty k = None"
    and get_put: "get (put k v m) k' = (if k' = k then Some v else get m k')"
    and get_del: "get (del k m) k' = (if k' = k then None else get m k')"
    and wf_empty: "wf empty"
    and wf_put: "wf m \<Longrightarrow> wf (put k v m)"
    and wf_del: "wf m \<Longrightarrow> wf (del k m)"
    and entries_get: "wf m \<Longrightarrow> (k, v) \<in> set (entries m) \<longleftrightarrow> get m k = Some v"
    and entries_distinct: "wf m \<Longrightarrow> distinct (map fst (entries m))"
begin

lemma put_del_absent: "get m k = None \<Longrightarrow> get (del k (put k v m)) = get m"
  by (rule ext) (simp add: get_put get_del)

lemma put_put: "get (put k v (put k w m)) = get (put k v m)"
  by (rule ext) (simp add: get_put)

lemma del_del: "get (del k (del k m)) = get (del k m)"
  by (rule ext) (simp add: get_del)

lemma dom_put: "dom (get (put k v m)) = insert k (dom (get m))"
  by (auto simp: dom_def get_put split: if_splits)

lemma dom_del: "dom (get (del k m)) = dom (get m) - {k}"
  by (auto simp: dom_def get_del split: if_splits)

lemma finite_dom: "wf m \<Longrightarrow> finite (dom (get m))"
proof -
  assume "wf m"
  then have "dom (get m) = fst ` set (entries m)"
    using entries_get by (force simp: dom_def image_iff)
  then show ?thesis by simp
qed

lemma size_entries: "wf m \<Longrightarrow> length (entries m) = card (dom (get m))"
proof -
  assume wf: "wf m"
  then have "dom (get m) = set (map fst (entries m))"
    using entries_get by (force simp: dom_def image_iff)
  with wf show ?thesis
    using entries_distinct distinct_card[of "map fst (entries m)"] by simp
qed

end

lemma om_get_put: "om_get (om_put k v m) k' = (if k' = k then Some v else om_get m k')"
  by (induction k v m rule: om_put.induct) (auto simp: om_get_def)

lemma om_get_del: "om_get (om_del k m) k' = (if k' = k then None else om_get m k')"
  by (induction m) (auto simp: om_get_def om_del_def)

lemma set_om_put: "set (om_put k v m) \<subseteq> insert (k, v) (set m)"
  by (induction k v m rule: om_put.induct) auto

lemma om_wf_put: "om_wf m \<Longrightarrow> om_wf (om_put k v m)"
proof (induction k v m rule: om_put.induct)
  case (2 k v k' v' m)
  then show ?case
    using set_om_put[of k v m] by (fastforce simp: om_wf_def)
qed (simp add: om_wf_def)

lemma om_wf_del: "om_wf m \<Longrightarrow> om_wf (om_del k m)"
  by (induction m) (auto simp: om_wf_def om_del_def)

lemma om_wf_distinct: "om_wf m \<Longrightarrow> distinct (map fst m)"
  unfolding om_wf_def by (rule strict_sorted_iff[THEN iffD1, THEN conjunct2])

interpretation om: std_map om_empty om_get om_put om_del "\<lambda>m. m" om_wf
proof unfold_locales
  fix m :: "('k::linorder, 'v) omap" and k v
  assume "om_wf m"
  then show "((k, v) \<in> set m) = (om_get m k = Some v)"
    by (simp add: om_get_def om_wf_distinct)
qed (simp_all add: om_empty_def om_get_def[of "[]"] om_get_put om_get_del om_wf_put om_wf_del
      om_wf_distinct om_wf_def[of "[]"])

lemmas om_simps [simp] = om_get_put om_get_del

lemma om_get_empty [simp]: "om_get om_empty k = None"
  by (simp add: om_get_def om_empty_def)

lemma om_has_simps [simp]:
  "om_has om_empty k = False"
  "om_has (om_put k v m) k' = (k' = k \<or> om_has m k')"
  "om_has (om_del k m) k' = (k' \<noteq> k \<and> om_has m k')"
  by (auto simp: om_has_def)


lemma om_del_hd: "om_wf ((k, v) # m) \<Longrightarrow> om_del k ((k, v) # m) = m"
  unfolding om_wf_def om_del_def by (auto intro!: filter_True)

lemma om_del_put_absent: "om_wf m \<Longrightarrow> \<not> om_has m k \<Longrightarrow> om_del k (om_put k v m) = m"
  by (induction k v m rule: om_put.induct)
    (auto simp: om_del_def om_wf_def om_has_def om_get_def intro!: filter_True split: if_splits)

lemma om_values_mem: "om_wf m \<Longrightarrow> v \<in> set (om_values m) \<longleftrightarrow> (\<exists>k. om_get m k = Some v)"
  using om.entries_get[of m] by (force simp: om_values_def)

end
