(* ===== verification/Http_Request.thy ===== *)
theory Http_Request
  imports Http_Utils Std_Map
begin

text \<open>
  The incremental request parser of \<open>simple_http/http_server\<close> (class \<open>HttpRequest\<close>): received bytes
  are appended to a buffer from which the first line, the headers and then the body are taken.
  The public operations are \<open>Append\<close>, \<open>Reset\<close>, \<open>AllReceived\<close> and \<open>GetMessageBody\<close>.
\<close>

section \<open>State and operations\<close>

record http_request =
  buf :: string
  contentLength :: u64
  firstLine :: string
  headers :: "(string, string) omap"
  messageBody :: string
  headersParseComplete :: bool
  totalParseComplete :: bool

definition LINE_END_LEN :: nat where "LINE_END_LEN = 2"
definition HEADER_SEP_LEN :: nat where "HEADER_SEP_LEN = 1"
definition CONTENT_LENGTH_HEADER :: string where "CONTENT_LENGTH_HEADER = ''Content-Length''"

definition HttpRequest_new :: http_request where
  "HttpRequest_new = \<lparr>buf = [], contentLength = 0, firstLine = [], headers = om_empty,
     messageBody = [], headersParseComplete = False, totalParseComplete = False\<rparr>"

definition SetFirstLine :: "http_request \<Rightarrow> http_request" where
  "SetFirstLine r =
     (if firstLine r \<noteq> [] then r
      else case find_str crlf (buf r) of
             None \<Rightarrow> r
           | Some pos \<Rightarrow> r\<lparr>firstLine := substr 0 pos (buf r), buf := drop (pos + LINE_END_LEN) (buf r)\<rparr>)"

definition AddHeader :: "string \<Rightarrow> (http_request, unit) cpp" where
  "AddHeader s r =
     (case find_char (CHR '':'') s of
        None \<Rightarrow> (Throw (RuntimeError ''void HttpRequest::AddHeader(const string&)''), r)
      | Some pos \<Rightarrow>
          (Val (), r\<lparr>headers := om_put (substr 0 pos s) (Trim (drop (pos + HEADER_SEP_LEN) s)) (headers r)\<rparr>))"

definition SetContentLength :: "(http_request, unit) cpp" where
  "SetContentLength r =
     (case om_get (headers r) CONTENT_LENGTH_HEADER of
        None \<Rightarrow> (Val (), r\<lparr>contentLength := 0\<rparr>)
      | Some v \<Rightarrow>
          (case stoi v of
             Inl e \<Rightarrow> (Throw e, r)
           | Inr n \<Rightarrow> (Val (), r\<lparr>contentLength := word_of_int n\<rparr>)))"

lemma AddHeader_buf: "AddHeader s r = (o', r') \<Longrightarrow> buf r' = buf r"
  by (auto simp: AddHeader_def split: option.splits)

function SetHeaders :: "(http_request, unit) cpp" where
  "SetHeaders r =
     (case find_str crlf (buf r) of
        None \<Rightarrow> (Val (), r)
      | Some pos \<Rightarrow>
          if pos = 0 then
            SetContentLength (r\<lparr>buf := drop LINE_END_LEN (buf r), headersParseComplete := True\<rparr>)
          else
            (case AddHeader (substr 0 pos (buf r)) r of
               (Val _, r') \<Rightarrow> SetHeaders (r'\<lparr>buf := drop (pos + LINE_END_LEN) (buf r')\<rparr>)
             | (e, r') \<Rightarrow> (e, r')))"
  by pat_completeness auto
termination
proof (relation "measure (\<lambda>r. length (buf r))")
  fix r pos o' r' u
  assume "find_str crlf (buf r) = Some pos" "pos \<noteq> 0"
    and "(o', r') = AddHeader (substr 0 pos (buf r)) r" "o' = Val u"
  then show "(r'\<lparr>buf := drop (pos + LINE_END_LEN) (buf r')\<rparr>, r) \<in> measure (\<lambda>r. length (buf r))"
    using find_str_SomeD[of crlf "buf r" pos] AddHeader_buf[of "substr 0 pos (buf r)" r o' r']
    by (auto simp: LINE_END_LEN_def crlf_def)
qed simp

declare SetHeaders.simps [simp del]

definition ParseMessageBody :: "http_request \<Rightarrow> http_request" where
  "ParseMessageBody r =
     (if \<not> headersParseComplete r then r
      else if totalParseComplete r then r
      else let body = messageBody r @ buf r in
        r\<lparr>messageBody := body,
          totalParseComplete := (totalParseComplete r \<or> unat (contentLength r) \<le> length body),
          buf := []\<rparr>)"

definition ParseRequest :: "(http_request, unit) cpp" where
  "ParseRequest r =
     (if \<not> headersParseComplete r then
        (case SetHeaders (SetFirstLine r) of
           (Val _, r') \<Rightarrow> (Val (), ParseMessageBody r')
         | (e, r') \<Rightarrow> (e, r'))
      else (Val (), ParseMessageBody r))"

definition HttpRequest_Append :: "string \<Rightarrow> (http_request, unit) cpp" where
  "HttpRequest_Append s r =
     (if totalParseComplete r then (Val (), r) else ParseRequest (r\<lparr>buf := buf r @ s\<rparr>))"

definition HttpRequest_Reset :: "http_request \<Rightarrow> http_request" where
  "HttpRequest_Reset r = r\<lparr>buf := []\<rparr>"

definition HttpRequest_AllReceived :: "http_request \<Rightarrow> bool" where
  "HttpRequest_AllReceived r = totalParseComplete r"

definition HttpRequest_GetMessageBody :: "http_request \<Rightarrow> string" where
  "HttpRequest_GetMessageBody r = messageBody r"

text \<open>The three debug lines of \<open>PrintRequest\<close>, as the argument lists of its \<open>LogDebug\<close> calls.\<close>

definition HttpRequest_PrintRequest :: "http_request \<Rightarrow> string list list" where
  "HttpRequest_PrintRequest r =
     [''first line: '', firstLine r] #
     map (\<lambda>(k, v). [k, '': '', v]) (headers r) @
     [[''message body: '', messageBody r]]"

fun Append_all :: "string list \<Rightarrow> (http_request, unit) cpp" where
  "Append_all [] r = (Val (), r)"
| "Append_all (s # ss) r =
     (case HttpRequest_Append s r of (Val _, r') \<Rightarrow> Append_all ss r' | (e, r') \<Rightarrow> (e, r'))"

section \<open>Feeding the buffer in pieces\<close>

definition feed :: "string \<Rightarrow> http_request \<Rightarrow> http_request" where
  "feed t r = r\<lparr>buf := buf r @ t\<rparr>"

lemma feed_sel [simp]:
  "buf (feed t r) = buf r @ t" "contentLength (feed t r) = contentLength r"
  "firstLine (feed t r) = firstLine r" "headers (feed t r) = headers r"
  "messageBody (feed t r) = messageBody r" "headersParseComplete (feed t r) = headersParseComplete r"
  "totalParseComplete (feed t r) = totalParseComplete r"
  by (simp_all add: feed_def)

lemma feed_feed [simp]: "feed t (feed s r) = feed (s @ t) r"
  by (simp add: feed_def)

lemma SetFirstLine_sel [simp]:
  "headersParseComplete (SetFirstLine r) = headersParseComplete r"
  "totalParseComplete (SetFirstLine r) = totalParseComplete r"
  "messageBody (SetFirstLine r) = messageBody r"
  "headers (SetFirstLine r) = headers r"
  by (auto simp: SetFirstLine_def split: option.splits)

lemma SetFirstLine_found:
  assumes "firstLine r \<noteq> [] \<or> find_str crlf (buf r) \<noteq> None"
  shows "SetFirstLine (feed t r) = feed t (SetFirstLine r)"
proof (cases "firstLine r = []")
  case True
  with assms obtain pos where p: "find_str crlf (buf r) = Some pos" by auto
  then have "pos + LINE_END_LEN \<le> length (buf r)"
    using find_str_SomeD[OF p] by (simp add: crlf_def LINE_END_LEN_def)
  with True p find_str_append[OF p, of t] show ?thesis
    by (simp add: SetFirstLine_def feed_def substr_def)
qed (simp add: SetFirstLine_def feed_def)

lemma SetContentLength_more:
  "SetContentLength r = (oc, r') \<Longrightarrow> SetContentLength (feed t r) = (oc, feed t r')"
  by (auto simp: SetContentLength_def feed_def split: option.splits sum.splits)

lemma SetContentLength_flags:
  "SetContentLength r = (oc, r') \<Longrightarrow>
   headersParseComplete r' = headersParseComplete r \<and> totalParseComplete r' = totalParseComplete r \<and>
   firstLine r' = firstLine r \<and> messageBody r' = messageBody r \<and> buf r' = buf r"
  by (auto simp: SetContentLength_def split: option.splits sum.splits)

lemma AddHeader_flags:
  "AddHeader s r = (oc, r') \<Longrightarrow>
   headersParseComplete r' = headersParseComplete r \<and> totalParseComplete r' = totalParseComplete r \<and>
   firstLine r' = firstLine r \<and> messageBody r' = messageBody r \<and> buf r' = buf r"
  by (auto simp: AddHeader_def split: option.splits)

lemma AddHeader_more:
  "AddHeader s r = (oc, r') \<Longrightarrow> AddHeader s (feed t r) = (oc, feed t r')"
  by (auto simp: AddHeader_def feed_def split: option.splits)

lemma SetHeaders_none: "find_str crlf (buf r) = None \<Longrightarrow> SetHeaders r = (Val (), r)"
  by (simp add: SetHeaders.simps)

lemma SetHeaders_end:
  "find_str crlf (buf r) = Some 0 \<Longrightarrow>
   SetHeaders r = SetContentLength (r\<lparr>buf := drop LINE_END_LEN (buf r), headersParseComplete := True\<rparr>)"
  by (simp add: SetHeaders.simps)

lemma SetHeaders_line:
  assumes "find_str crlf (buf r) = Some pos" "pos \<noteq> 0"
    and "AddHeader (substr 0 pos (buf r)) r = (Val (), r')"
  shows "SetHeaders r = SetHeaders (r'\<lparr>buf := drop (pos + LINE_END_LEN) (buf r)\<rparr>)"
  using assms AddHeader_buf[OF assms(3)] by (simp add: SetHeaders.simps[of r])

lemma SetHeaders_bad:
  assumes "find_str crlf (buf r) = Some pos" "pos \<noteq> 0"
    and "AddHeader (substr 0 pos (buf r)) r = (Throw e, r')"
  shows "SetHeaders r = (Throw e, r')"
  using assms by (simp add: SetHeaders.simps[of r])

lemma SetHeaders_flags:
  "SetHeaders r = (oc, r') \<Longrightarrow>
   totalParseComplete r' = totalParseComplete r \<and> firstLine r' = firstLine r \<and>
   messageBody r' = messageBody r"
proof (induction r arbitrary: oc r' rule: SetHeaders.induct)
  case (1 r)
  show ?case
  proof (cases "find_str crlf (buf r)")
    case None
    with 1 show ?thesis by (simp add: SetHeaders_none)
  next
    case (Some pos)
    show ?thesis
    proof (cases "pos = 0")
      case True
      with Some 1 show ?thesis by (auto simp: SetHeaders_end dest: SetContentLength_flags)
    next
      case False
      obtain oa ra where a: "AddHeader (substr 0 pos (buf r)) r = (oa, ra)" by fastforce
      show ?thesis
      proof (cases oa)
        case (Val u)
        with a have a: "AddHeader (substr 0 pos (buf r)) r = (Val (), ra)" by simp
        let ?q = "ra\<lparr>buf := drop (pos + LINE_END_LEN) (buf ra)\<rparr>"
        have "SetHeaders ?q = (oc, r')"
          using 1(2) SetHeaders_line[OF Some False a] AddHeader_buf[OF a] by simp
        from 1(1)[OF Some False a[symmetric] refl this] show ?thesis
          using AddHeader_flags[OF a] by simp
      qed (use 1(2) Some False a AddHeader_flags[OF a] in \<open>auto simp: SetHeaders.simps[of r]\<close>)
    qed
  qed
qed

text \<open>
  The header loop on a longer buffer: it does everything it did on the shorter one and goes on from
  there; if the shorter buffer already held the empty line, the extra bytes are simply left over.
\<close>

lemma SetHeaders_more:
  "SetHeaders r = (Val (), r') \<Longrightarrow> \<not> headersParseComplete r \<Longrightarrow>
   SetHeaders (feed t r) =
     (if headersParseComplete r' then (Val (), feed t r') else SetHeaders (feed t r'))"
proof (induction r arbitrary: r' rule: SetHeaders.induct)
  case (1 r)
  show ?case
  proof (cases "find_str crlf (buf r)")
    case None
    with 1 show ?thesis by (simp add: SetHeaders_none)
  next
    case (Some pos)
    then have pos: "pos + LINE_END_LEN \<le> length (buf r)"
      using find_str_SomeD[OF Some] by (simp add: crlf_def LINE_END_LEN_def)
    from Some have some': "find_str crlf (buf (feed t r)) = Some pos"
      by (simp add: find_str_append)
    show ?thesis
    proof (cases "pos = 0")
      case True
      let ?q = "r\<lparr>buf := drop LINE_END_LEN (buf r), headersParseComplete := True\<rparr>"
      from True Some 1(2) have c: "SetContentLength ?q = (Val (), r')" by (simp add: SetHeaders_end)
      then have "headersParseComplete r'" using SetContentLength_flags[OF c] by simp
      moreover have "(feed t r)\<lparr>buf := drop LINE_END_LEN (buf (feed t r)), headersParseComplete := True\<rparr>
          = feed t ?q"
        using pos True by (simp add: feed_def)
      ultimately show ?thesis
        using SetContentLength_more[OF c, of t] some' True by (simp add: SetHeaders_end)
    next
      case False
      obtain oa ra where a: "AddHeader (substr 0 pos (buf r)) r = (oa, ra)" by fastforce
      with 1(2) Some False have "oa = Val ()"
        by (cases oa) (auto simp: SetHeaders.simps[of r])
      with a have a: "AddHeader (substr 0 pos (buf r)) r = (Val (), ra)" by simp
      let ?q = "ra\<lparr>buf := drop (pos + LINE_END_LEN) (buf r)\<rparr>"
      have q: "SetHeaders ?q = (Val (), r')"
        using 1(2) SetHeaders_line[OF Some False a] by simp
      have nh: "\<not> headersParseComplete ?q" using AddHeader_flags[OF a] 1(3) by simp
      have sub: "substr 0 pos (buf (feed t r)) = substr 0 pos (buf r)"
        using pos by (simp add: substr_def)
      have "SetHeaders (feed t r) = SetHeaders ((feed t ra)\<lparr>buf := drop (pos + LINE_END_LEN) (buf (feed t r))\<rparr>)"
        using SetHeaders_line[OF some' False] AddHeader_more[OF a, of t] sub by simp
      also have "(feed t ra)\<lparr>buf := drop (pos + LINE_END_LEN) (buf (feed t r))\<rparr> = feed t ?q"
        using pos by (simp add: feed_def)
      finally show ?thesis
        using 1(1)[OF Some False a[symmetric] refl, of r'] q nh AddHeader_buf[OF a] by simp
    qed
  qed
qed

lemma ParseMessageBody_idle: "\<not> headersParseComplete r \<Longrightarrow> ParseMessageBody r = r"
  by (simp add: ParseMessageBody_def)

lemma Append_more:
  "\<not> totalParseComplete r \<Longrightarrow> HttpRequest_Append s r = ParseRequest (feed s r)"
  by (simp add: HttpRequest_Append_def feed_def)

lemma ParseMessageBody_twice:
  assumes "headersParseComplete r" "\<not> totalParseComplete (ParseMessageBody r)"
  shows "ParseMessageBody (feed t (ParseMessageBody r)) = ParseMessageBody (feed t r)"
  using assms by (auto simp: ParseMessageBody_def Let_def feed_def split: if_splits)

lemma Append_split_body:
  assumes ok: "HttpRequest_Append s r = (Val (), r1)"
    and part: "\<not> totalParseComplete r1" "\<not> totalParseComplete r"
    and hdr: "headersParseComplete r"
  shows "HttpRequest_Append t r1 = HttpRequest_Append (s @ t) r"
proof -
  let ?m = "feed s r"
  from hdr ok part(2) have r1: "r1 = ParseMessageBody ?m"
    by (simp add: Append_more ParseRequest_def)
  have h1: "headersParseComplete r1"
    using hdr r1 by (simp add: ParseMessageBody_def Let_def)
  have "HttpRequest_Append t r1 = (Val (), ParseMessageBody (feed t r1))"
    using part h1 by (simp add: Append_more ParseRequest_def)
  also have "\<dots> = (Val (), ParseMessageBody (feed t ?m))"
    using ParseMessageBody_twice[of ?m t] hdr part(1) r1 by simp
  also have "\<dots> = HttpRequest_Append (s @ t) r"
    using part(2) hdr by (simp add: Append_more ParseRequest_def)
  finally show ?thesis .
qed

lemma SetFirstLine_nonempty:
  assumes "firstLine r \<noteq> [] \<or> (find_str crlf (buf r) \<noteq> None \<and> find_str crlf (buf r) \<noteq> Some 0)"
  shows "firstLine (SetFirstLine r) \<noteq> []"
proof (cases "firstLine r = []")
  case True
  with assms obtain pos where p: "find_str crlf (buf r) = Some pos" "pos \<noteq> 0" by auto
  then have "pos < length (buf r)"
    using find_str_SomeD[OF p(1)] by (simp add: crlf_def)
  moreover from True p have "firstLine (SetFirstLine r) = take pos (buf r)"
    by (simp add: SetFirstLine_def substr_def)
  ultimately show ?thesis using p(2) by auto
qed (simp add: SetFirstLine_def)

lemma Append_split_headers:
  assumes ok: "HttpRequest_Append s r = (Val (), r1)"
    and part: "\<not> totalParseComplete r1" "\<not> totalParseComplete r"
    and hdr: "\<not> headersParseComplete r"
    and found: "firstLine r \<noteq> [] \<or> (find_str crlf (buf r @ s) \<noteq> None \<and> find_str crlf (buf r @ s) \<noteq> Some 0)"
  shows "HttpRequest_Append t r1 = HttpRequest_Append (s @ t) r"
proof -
  let ?m = "feed s r"
  let ?f = "SetFirstLine ?m"
  have whole: "HttpRequest_Append (s @ t) r = ParseRequest (feed t ?m)"
    using part(2) by (simp add: Append_more)
  have ext: "SetFirstLine (feed t ?m) = feed t ?f"
    using found by (intro SetFirstLine_found) auto
  have nf: "firstLine ?f \<noteq> []" using found by (intro SetFirstLine_nonempty) auto
  obtain oc r2 where h: "SetHeaders ?f = (oc, r2)" by fastforce
  with ok hdr part(2) have oc: "oc = Val ()" and r1: "r1 = ParseMessageBody r2"
    by (cases oc; simp add: Append_more ParseRequest_def)+
  from h oc have h: "SetHeaders ?f = (Val (), r2)" by simp
  have r2: "totalParseComplete r2 = totalParseComplete r" "firstLine r2 = firstLine ?f"
    using SetHeaders_flags[OF h] by simp_all
  have step: "SetHeaders (feed t ?f) =
      (if headersParseComplete r2 then (Val (), feed t r2) else SetHeaders (feed t r2))"
    using SetHeaders_more[OF h, of t] hdr by simp
  show ?thesis
  proof (cases "headersParseComplete r2")
    case True
    then have "headersParseComplete r1" using r1 by (simp add: ParseMessageBody_def Let_def)
    then show ?thesis
      using whole hdr True ext step part ParseMessageBody_twice[of r2 t] r1
      by (simp add: Append_more ParseRequest_def)
  next
    case nh: False
    then have eq: "r1 = r2" using r1 by (simp add: ParseMessageBody_idle)
    have "SetFirstLine (feed t r2) = feed t r2"
      using r2(2) nf by (simp add: SetFirstLine_def)
    then show ?thesis
      using eq part nh whole hdr ext step by (simp add: Append_more ParseRequest_def)
  qed
qed

lemma Append_split_waiting:
  assumes "HttpRequest_Append s r = (Val (), r1)" "\<not> totalParseComplete r" "\<not> headersParseComplete r"
    and "firstLine r = []" "find_str crlf (buf r @ s) = None"
  shows "HttpRequest_Append t r1 = HttpRequest_Append (s @ t) r"
proof -
  have "SetFirstLine (feed s r) = feed s r" using assms(4,5) by (simp add: SetFirstLine_def)
  with assms have "r1 = feed s r"
    by (simp add: Append_more ParseRequest_def SetHeaders_none ParseMessageBody_idle)
  with assms(2) show ?thesis by (simp add: Append_more)
qed

lemma Append_split:
  assumes "HttpRequest_Append s r = (Val (), r1)"
    and "\<not> totalParseComplete r1" "\<not> totalParseComplete r"
    and "headersParseComplete r \<or> firstLine r \<noteq> [] \<or> find_str crlf (buf r @ s) \<noteq> Some 0"
  shows "HttpRequest_Append t r1 = HttpRequest_Append (s @ t) r"
  using assms Append_split_body Append_split_headers Append_split_waiting by metis

lemma Append_all_snoc:
  "Append_all (ss @ [s]) r =
     (case Append_all ss r of (Val _, r') \<Rightarrow> HttpRequest_Append s r' | (e, r') \<Rightarrow> (e, r'))"
  by (induction ss arbitrary: r) (auto split: prod.splits outcome.splits)

lemma Append_total: "totalParseComplete r \<Longrightarrow> HttpRequest_Append s r = (Val (), r)"
  by (simp add: HttpRequest_Append_def)

lemma find_crlf_0: "find_str crlf s = Some 0 \<longleftrightarrow> starts_with crlf s"
  by (cases s) (auto simp: crlf_def)

lemma starts_with_more: "starts_with p s \<Longrightarrow> starts_with p (s @ t)"
  by (auto simp: starts_with_iff)

lemma Append_all_concat:
  assumes "Append_all ss HttpRequest_new = (Val (), r)" "\<not> totalParseComplete r"
    and "\<not> starts_with crlf (concat ss)"
  shows "HttpRequest_Append (concat ss) HttpRequest_new = (Val (), r)"
  using assms
proof (induction ss arbitrary: r rule: rev_induct)
  case Nil
  have "HttpRequest_Append [] HttpRequest_new = (Val (), HttpRequest_new)"
    by (simp add: HttpRequest_Append_def ParseRequest_def HttpRequest_new_def SetFirstLine_def crlf_def
        SetHeaders_none ParseMessageBody_idle)
  with Nil show ?case by simp
next
  case (snoc s ss)
  obtain oc q where q: "Append_all ss HttpRequest_new = (oc, q)" by fastforce
  with snoc.prems(1) have oc: "oc = Val ()" and s: "HttpRequest_Append s q = (Val (), r)"
    by (cases oc; simp add: Append_all_snoc)+
  have nq: "\<not> totalParseComplete q" using s snoc.prems(2) Append_total[of q s] by auto
  have st: "\<not> starts_with crlf (concat ss)"
    using snoc.prems(3) starts_with_more by fastforce
  from snoc.IH q oc nq st have w: "HttpRequest_Append (concat ss) HttpRequest_new = (Val (), q)" by simp
  have "HttpRequest_Append s q = HttpRequest_Append (concat ss @ s) HttpRequest_new"
    using st by (intro Append_split[OF w nq]) (auto simp: HttpRequest_new_def find_crlf_0)
  with s show ?case by simp
qed

section \<open>Correctness of the parser\<close>

text \<open>
  C11. How the network cuts a request into pieces does not matter: for a byte stream that does not start
  with an empty line, appending the pieces one after the other gives exactly the state, or exactly
  the exception, that appending the whole stream at once gives, provided the request is not already
  complete before the last piece.
\<close>

theorem chunking_irrelevant:
  assumes "Append_all ss HttpRequest_new = (Val (), r)" and "\<not> totalParseComplete r"
    and "\<not> starts_with crlf (concat ss)"
  shows "Append_all (ss @ [t]) HttpRequest_new = HttpRequest_Append (concat ss @ t) HttpRequest_new"
proof -
  have w: "HttpRequest_Append (concat ss) HttpRequest_new = (Val (), r)"
    using assms by (rule Append_all_concat)
  have "HttpRequest_Append t r = HttpRequest_Append (concat ss @ t) HttpRequest_new"
    using assms(2,3) by (intro Append_split[OF w]) (auto simp: HttpRequest_new_def find_crlf_0)
  with assms(1) show ?thesis by (simp add: Append_all_snoc)
qed

lemma chunking_irrelevant_witness:
  "Append_all ([''GET / HT'', ''TP/1.1'' @ [CHR 0x0D]] @ [[CHR 0x0A] @ crlf]) HttpRequest_new =
   HttpRequest_Append (concat [''GET / HT'', ''TP/1.1'' @ [CHR 0x0D]] @ [CHR 0x0A] @ crlf) HttpRequest_new"
proof -
  let ?ss = "[''GET / HT'', ''TP/1.1'' @ [CHR 0x0D]]"
  let ?r = "HttpRequest_new\<lparr>buf := concat ?ss\<rparr>"
  have a: "Append_all ?ss HttpRequest_new = (Val (), ?r)"
    by (simp add: HttpRequest_Append_def ParseRequest_def SetFirstLine_def SetHeaders_none crlf_def
        ParseMessageBody_idle HttpRequest_new_def)
  have b: "\<not> totalParseComplete ?r" by (simp add: HttpRequest_new_def)
  have c: "\<not> starts_with crlf (concat ?ss)" by (simp add: crlf_def)
  show ?thesis by (rule chunking_irrelevant[OF a b c])
qed

text \<open>Printing a request, the inverse of parsing it.\<close>

definition header_line :: "string \<times> string \<Rightarrow> string" where
  "header_line h = fst h @ '': '' @ snd h @ crlf"

definition request_text :: "string \<Rightarrow> (string \<times> string) list \<Rightarrow> string \<Rightarrow> string" where
  "request_text fl hs body = fl @ crlf @ concat (map header_line hs) @ crlf @ body"

definition header_ok :: "string \<times> string \<Rightarrow> bool" where
  "header_ok h \<longleftrightarrow> CHR '':'' \<notin> set (fst h) \<and> CHR 0x0D \<notin> set (fst h) \<and>
     CHR 0x0D \<notin> set (snd h) \<and> trimmed (snd h)"

definition put_headers :: "(string \<times> string) list \<Rightarrow> (string, string) omap \<Rightarrow> (string, string) omap" where
  "put_headers hs m = fold (\<lambda>h. om_put (fst h) (snd h)) hs m"

lemma AddHeader_line:
  assumes "header_ok h"
  shows "AddHeader (fst h @ '': '' @ snd h) r = (Val (), r\<lparr>headers := om_put (fst h) (snd h) (headers r)\<rparr>)"
proof -
  have f: "find_char (CHR '':'') (fst h @ CHR '':'' # '' '' @ snd h) = Some (length (fst h))"
    using assms by (intro find_char_first) (simp add: header_ok_def)
  have "Trim ('' '' @ snd h @ []) = snd h"
    using assms by (intro Trim_pad) (auto simp: header_ok_def)
  with f show ?thesis
    by (simp add: AddHeader_def substr_def HEADER_SEP_LEN_def)
qed

lemma SetHeaders_lines:
  "list_all header_ok hs \<Longrightarrow>
   SetHeaders (r\<lparr>buf := concat (map header_line hs) @ rest\<rparr>) =
   SetHeaders (r\<lparr>headers := put_headers hs (headers r), buf := rest\<rparr>)"
proof (induction hs arbitrary: r)
  case (Cons h hs)
  let ?line = "fst h @ '': '' @ snd h" and ?more = "concat (map header_line hs) @ rest"
  have h: "header_ok h" using Cons.prems by simp
  then have cr: "CHR 0x0D \<notin> set ?line" by (auto simp: header_ok_def)
  let ?r = "r\<lparr>buf := ?line @ crlf @ ?more\<rparr>"
  have f: "find_str crlf (buf ?r) = Some (length ?line)"
    using find_crlf_skip[OF cr, of ?more] by simp
  have a: "AddHeader (substr 0 (length ?line) (buf ?r)) ?r =
      (Val (), ?r\<lparr>headers := om_put (fst h) (snd h) (headers r)\<rparr>)"
    using AddHeader_line[OF h, of ?r] by (simp add: substr_def)
  have d: "drop (length ?line + LINE_END_LEN) (buf ?r) = ?more"
    using drop_front[of "length ?line + LINE_END_LEN" "?line @ crlf" ?more]
    by (simp add: LINE_END_LEN_def crlf_def)
  have "SetHeaders ?r = SetHeaders (r\<lparr>headers := om_put (fst h) (snd h) (headers r), buf := ?more\<rparr>)"
    using SetHeaders_line[OF f _ a] unfolding d by simp
  also have "\<dots> = SetHeaders (r\<lparr>headers := put_headers (h # hs) (headers r), buf := rest\<rparr>)"
    using Cons by (simp add: put_headers_def)
  finally show ?case by (simp add: header_line_def[of h])
qed (simp add: put_headers_def)

lemma ParseRequest_text:
  assumes "fl \<noteq> []" "CHR 0x0D \<notin> set fl" "list_all header_ok hs"
  shows "HttpRequest_Append (request_text fl hs body) HttpRequest_new =
    (case SetContentLength (HttpRequest_new\<lparr>firstLine := fl, headers := put_headers hs om_empty,
              buf := body, headersParseComplete := True\<rparr>) of
       (Val _, r) \<Rightarrow> (Val (), ParseMessageBody r) | (e, r) \<Rightarrow> (e, r))"
proof -
  let ?rest = "concat (map header_line hs) @ crlf @ body"
  let ?new = "HttpRequest_new\<lparr>firstLine := fl\<rparr>"
  have f: "find_str crlf (fl @ crlf @ ?rest) = Some (length fl)"
    using assms(2) by (rule find_crlf_skip)
  have first: "SetFirstLine (HttpRequest_new\<lparr>buf := request_text fl hs body\<rparr>) = ?new\<lparr>buf := ?rest\<rparr>"
    using f by (simp add: SetFirstLine_def HttpRequest_new_def request_text_def substr_def
        LINE_END_LEN_def crlf_def)
  have "SetHeaders (?new\<lparr>buf := ?rest\<rparr>) =
      SetHeaders (?new\<lparr>headers := put_headers hs om_empty, buf := crlf @ body\<rparr>)"
    using SetHeaders_lines[OF assms(3), where r = ?new and rest = "crlf @ body"] by (simp add: HttpRequest_new_def)
  also have "\<dots> = SetContentLength (HttpRequest_new\<lparr>firstLine := fl, headers := put_headers hs om_empty,
              buf := body, headersParseComplete := True\<rparr>)"
    by (subst SetHeaders_end) (simp_all add: crlf_def LINE_END_LEN_def)
  finally show ?thesis
    unfolding HttpRequest_Append_def ParseRequest_def
    using first by (simp add: HttpRequest_new_def)
qed

text \<open>
  C12. Parsing inverts printing. A request printed from a non-empty first line, headers without colons
  in their names and a body is read back as exactly these parts, in one call; it is complete when
  there is no \<open>Content-Length\<close> header, or when that header is the decimal form of a number up to
  the \<open>int\<close> maximum that the body reaches, and otherwise the parser waits for more.
\<close>

theorem request_roundtrip:
  assumes "fl \<noteq> []" and "CHR 0x0D \<notin> set fl" and "list_all header_ok hs"
    and "case om_get (put_headers hs om_empty) CONTENT_LENGTH_HEADER of
           None \<Rightarrow> n = 0 | Some v \<Rightarrow> v = to_string_nat n \<and> int n \<le> int_max"
  shows "HttpRequest_Append (request_text fl hs body) HttpRequest_new =
    (Val (), \<lparr>buf = [], contentLength = of_nat n, firstLine = fl, headers = put_headers hs om_empty,
       messageBody = body, headersParseComplete = True, totalParseComplete = (n \<le> length body)\<rparr>)"
proof -
  have n: "int n \<le> int_max"
    using assms(4) by (auto simp: int_max_def split: option.splits)
  then have u: "unat (of_nat n :: u64) = n"
    by (simp add: unat_of_nat int_max_def)
  show ?thesis
    unfolding ParseRequest_text[OF assms(1-3)]
    using assms(4) n u
    by (auto simp: SetContentLength_def stoi_to_string_nat ParseMessageBody_def HttpRequest_new_def
        split: option.splits)
qed

lemma request_roundtrip_witness:
  "HttpRequest_Append (request_text ''POST / HTTP/1.1'' [(''Content-Length'', to_string_nat 3)] ''abc'') HttpRequest_new =
    (Val (), \<lparr>buf = [], contentLength = 3, firstLine = ''POST / HTTP/1.1'',
       headers = put_headers [(''Content-Length'', to_string_nat 3)] om_empty,
       messageBody = ''abc'', headersParseComplete = True, totalParseComplete = True\<rparr>)"
proof -
  have t: "to_string_nat 3 = ''3''" by code_simp
  show ?thesis
    using request_roundtrip[of "''POST / HTTP/1.1''" "[(''Content-Length'', to_string_nat 3)]" 3 "''abc''"]
    by (simp add: header_ok_def t trimmed_def isspace_def put_headers_def om_empty_def
        CONTENT_LENGTH_HEADER_def om_get_def int_max_def)
qed

text \<open>
  A header line without a colon makes \<open>Append\<close> throw, with the headers before it already stored
  and the offending line still at the front of the buffer.
\<close>

theorem bad_header_throws:
  assumes "fl \<noteq> []" and "CHR 0x0D \<notin> set fl" and "list_all header_ok hs"
    and "bad \<noteq> []" and "CHR '':'' \<notin> set bad" and "CHR 0x0D \<notin> set bad"
  shows "HttpRequest_Append (fl @ crlf @ concat (map header_line hs) @ bad @ crlf @ rest) HttpRequest_new =
    (Throw (RuntimeError ''void HttpRequest::AddHeader(const string&)''),
     HttpRequest_new\<lparr>firstLine := fl, headers := put_headers hs om_empty, buf := bad @ crlf @ rest\<rparr>)"
proof -
  let ?tail = "bad @ crlf @ rest"
  let ?new = "HttpRequest_new\<lparr>firstLine := fl\<rparr>"
  let ?all = "concat (map header_line hs) @ ?tail"
  let ?q = "?new\<lparr>headers := put_headers hs om_empty, buf := ?tail\<rparr>"
  have "find_str crlf (fl @ crlf @ ?all) = Some (length fl)"
    using assms(2) by (rule find_crlf_skip)
  then have first: "SetFirstLine (HttpRequest_new\<lparr>buf := fl @ crlf @ ?all\<rparr>) = ?new\<lparr>buf := ?all\<rparr>"
    by (simp add: SetFirstLine_def HttpRequest_new_def substr_def LINE_END_LEN_def crlf_def)
  have f: "find_str crlf (buf ?q) = Some (length bad)"
    using find_crlf_skip[OF assms(6), of rest] by simp
  have "AddHeader (substr 0 (length bad) (buf ?q)) ?q =
      (Throw (RuntimeError ''void HttpRequest::AddHeader(const string&)''), ?q)"
    using assms(5) by (simp add: substr_def AddHeader_def find_char_None[THEN iffD2])
  then have "SetHeaders ?q = (Throw (RuntimeError ''void HttpRequest::AddHeader(const string&)''), ?q)"
    using assms(4) by (intro SetHeaders_bad[OF f]) auto
  then have "SetHeaders (?new\<lparr>buf := ?all\<rparr>) =
      (Throw (RuntimeError ''void HttpRequest::AddHeader(const string&)''), ?q)"
    using SetHeaders_lines[OF assms(3), where r = ?new and rest = ?tail] by (simp add: HttpRequest_new_def)
  then show ?thesis
    unfolding HttpRequest_Append_def ParseRequest_def
    using first by (simp add: HttpRequest_new_def)
qed

lemma bad_header_throws_witness:
  "fst (HttpRequest_Append (''GET /'' @ crlf @ concat (map header_line []) @ ''nocolon'' @ crlf @ []) HttpRequest_new) =
   Throw (RuntimeError ''void HttpRequest::AddHeader(const string&)'')"
  using bad_header_throws[of "''GET /''" "[]" "''nocolon''" "[]"] by simp

text \<open>
  A negative \<open>Content-Length\<close> is accepted and becomes a length close to \<open>2^64\<close>, so the request
  is never complete, however long the body gets.
\<close>

theorem negative_content_length:
  assumes "fl \<noteq> []" and "CHR 0x0D \<notin> set fl" and "0 < n" and "int n \<le> int_max"
    and "length body < 2 ^ 63"
  shows "case HttpRequest_Append
            (request_text fl [(CONTENT_LENGTH_HEADER, CHR ''-'' # to_string_nat n)] body) HttpRequest_new of
      (oc, r) \<Rightarrow> oc = Val () \<and> unat (contentLength r) = 2 ^ 64 - n \<and> headersParseComplete r \<and>
        \<not> HttpRequest_AllReceived r"
proof -
  let ?v = "CHR ''-'' # to_string_nat n"
  have ok: "list_all header_ok [(CONTENT_LENGTH_HEADER, ?v)]"
    using to_string_nat_no_char[of "CHR 0x0D" n] to_string_nat_digits[of "last (to_string_nat n)" n]
      digit_not_special(1)[of "last (to_string_nat n)"]
    by (simp add: header_ok_def CONTENT_LENGTH_HEADER_def trimmed_def is_digit_def[of "CHR 0x0D"]
        isspace_def[of "CHR ''-''"])
  have st: "stoi ?v = Inr (- int n)"
    using assms(4) hd_to_string_digit[of n]
    by (simp add: stoi_def isspace_def starts_with_digit_def digits_value_to_string int_max_def int_min_def)
  have "uint (word_of_int (- int n) :: u64) = 2 ^ 64 - int n"
    unfolding uint_word_of_int using assms(3,4) by (simp add: zmod_zminus1_eq_if int_max_def)
  then have u: "unat (word_of_int (- int n) :: u64) = 2 ^ 64 - n"
    by (simp add: unat_eq_nat_uint nat_diff_distrib)
  show ?thesis
    unfolding ParseRequest_text[OF assms(1,2) ok]
    using st u assms(4,5)
    by (simp add: SetContentLength_def put_headers_def om_empty_def om_get_def ParseMessageBody_def
        HttpRequest_new_def HttpRequest_AllReceived_def int_max_def)
qed

lemma negative_content_length_witness:
  "case HttpRequest_Append
            (request_text ''POST /'' [(CONTENT_LENGTH_HEADER, CHR ''-'' # to_string_nat 1)] ''abc'') HttpRequest_new of
      (oc, r) \<Rightarrow> oc = Val () \<and> unat (contentLength r) = 2 ^ 64 - 1 \<and> headersParseComplete r \<and>
        \<not> HttpRequest_AllReceived r"
  using negative_content_length[of "''POST /''" 1 "''abc''"] by (simp add: int_max_def)

section \<open>The parser's invariant\<close>

text \<open>
  A complete request has its headers, at least as many body bytes as announced, and nothing left in
  the buffer.
\<close>

definition request_inv :: "http_request \<Rightarrow> bool" where
  "request_inv r \<longleftrightarrow>
     (totalParseComplete r \<longrightarrow>
        headersParseComplete r \<and> unat (contentLength r) \<le> length (messageBody r) \<and> buf r = []) \<and>
     (\<not> headersParseComplete r \<longrightarrow> messageBody r = [] \<and> contentLength r = 0) \<and>
     om_wf (headers r)"

lemma AddHeader_keeps:
  "AddHeader s r = (oc, r') \<Longrightarrow> om_wf (headers r) \<Longrightarrow> om_wf (headers r') \<and> contentLength r' = contentLength r"
  by (auto simp: AddHeader_def om_wf_put split: option.splits)

lemma SetHeaders_wf:
  "SetHeaders r = (oc, r') \<Longrightarrow> om_wf (headers r) \<Longrightarrow>
   om_wf (headers r') \<and> (headersParseComplete r' \<or> contentLength r' = contentLength r)"
proof (induction r arbitrary: oc r' rule: SetHeaders.induct)
  case (1 r)
  show ?case
  proof (cases "find_str crlf (buf r)")
    case None
    with 1 show ?thesis by (simp add: SetHeaders_none)
  next
    case (Some pos)
    show ?thesis
    proof (cases "pos = 0")
      case True
      with Some 1(2,3) show ?thesis
        by (auto simp: SetHeaders_end SetContentLength_def split: option.splits sum.splits)
    next
      case False
      obtain oa ra where a: "AddHeader (substr 0 pos (buf r)) r = (oa, ra)" by fastforce
      show ?thesis
      proof (cases oa)
        case (Val u)
        with a have a: "AddHeader (substr 0 pos (buf r)) r = (Val (), ra)" by simp
        let ?q = "ra\<lparr>buf := drop (pos + LINE_END_LEN) (buf ra)\<rparr>"
        have "SetHeaders ?q = (oc, r')"
          using 1(2) SetHeaders_line[OF Some False a] AddHeader_buf[OF a] by simp
        moreover have "om_wf (headers ?q)" using AddHeader_keeps[OF a 1(3)] by simp
        ultimately show ?thesis
          using 1(1)[OF Some False a[symmetric] refl] AddHeader_keeps[OF a 1(3)] by simp
      qed (use 1(2,3) Some False a AddHeader_keeps[OF a 1(3)] in \<open>auto simp: SetHeaders.simps[of r]\<close>)
    qed
  qed
qed

lemma ParseMessageBody_inv: "request_inv r \<Longrightarrow> request_inv (ParseMessageBody r)"
  by (auto simp: request_inv_def ParseMessageBody_def Let_def)

lemma request_inv_new: "request_inv HttpRequest_new"
  by (simp add: request_inv_def HttpRequest_new_def om.wf_empty)

text \<open>
  C13. Every \<open>Append\<close>, whether it returns or throws, keeps the parser's invariant: a request reported as
  complete has its headers parsed, at least \<open>Content-Length\<close> bytes of body and an empty buffer; a
  request whose headers are not finished has no body and no length yet.
\<close>

theorem Append_keeps_inv:
  assumes "request_inv r"
  shows "request_inv (snd (HttpRequest_Append s r))"
proof (cases "totalParseComplete r \<or> headersParseComplete r")
  case True
  with assms ParseMessageBody_inv[of "r\<lparr>buf := buf r @ s\<rparr>"] show ?thesis
    by (auto simp: HttpRequest_Append_def ParseRequest_def request_inv_def)
next
  case False
  let ?f = "SetFirstLine (r\<lparr>buf := buf r @ s\<rparr>)"
  obtain oc r' where h: "SetHeaders ?f = (oc, r')" by fastforce
  have "om_wf (headers ?f)" "contentLength ?f = 0" "messageBody ?f = []"
    using assms False by (auto simp: request_inv_def SetFirstLine_def split: option.splits)
  with SetHeaders_wf[OF h] SetHeaders_flags[OF h] False have "request_inv r'"
    by (auto simp: request_inv_def)
  then have "request_inv (ParseMessageBody r')" by (rule ParseMessageBody_inv)
  with \<open>request_inv r'\<close> h False show ?thesis
    by (cases oc) (simp_all add: HttpRequest_Append_def ParseRequest_def)
qed

lemma Append_keeps_inv_witness:
  "request_inv HttpRequest_new \<and> request_inv (snd (HttpRequest_Append ''GET / '' HttpRequest_new))"
  using Append_keeps_inv[OF request_inv_new, of "''GET / ''"] request_inv_new by simp

text \<open>
  \<open>Reset\<close> only empties the buffer: after it, a completed request still reports itself complete and
  ignores everything that is appended, so a second request on the same object is never parsed.
\<close>

theorem reset_does_not_restart:
  assumes "HttpRequest_AllReceived r"
  shows "HttpRequest_Append s (HttpRequest_Reset r) = (Val (), HttpRequest_Reset r) \<and>
    HttpRequest_AllReceived (HttpRequest_Reset r) \<and>
    HttpRequest_GetMessageBody (HttpRequest_Reset r) = HttpRequest_GetMessageBody r"
  using assms
  by (simp add: HttpRequest_Append_def HttpRequest_Reset_def HttpRequest_AllReceived_def
      HttpRequest_GetMessageBody_def)

lemma reset_does_not_restart_witness:
  "let r = HttpRequest_new\<lparr>totalParseComplete := True, headersParseComplete := True\<rparr> in
   HttpRequest_Append ''GET / '' (HttpRequest_Reset r) = (Val (), HttpRequest_Reset r)"
  unfolding Let_def
  by (rule reset_does_not_restart[THEN conjunct1]) (simp add: HttpRequest_AllReceived_def)

end
