(* ===== verification/Http_World.thy ===== *)
theory Http_World
  imports Http_Log Http_Config Http_Request
begin

text \<open>
  The state the server of \<open>simple_http\<close> runs in: the objects its classes keep (connections on a heap
  of shared pointers, the maps, queues and caches of the connection manager, the fields of the
  server), the logger, and the scripts with which the kernel answers the system calls. Also the
  \<open>SocketHandler\<close>, the only class that reads and writes sockets.
\<close>

section \<open>Records of the classes\<close>

record client_info =
  ci_ip :: string
  ci_port :: u16

record http_handler =
  httpRequest :: http_request
  contentToWrite :: string
  isReadWaiting :: bool
  isWriteWaiting :: bool

record connection =
  conn_id :: u64
  clientInfo :: client_info
  sock_fd :: int
  isReadable :: u32
  isWritable :: u32
  errorCode :: u32
  isClosed :: bool
  isReading :: bool
  isWriting :: bool
  requestHandler :: http_handler
  response :: string

type_synonym addr = nat

record world =
  lg :: logger
  strerror :: "int \<Rightarrow> string"
  k_read :: "read_ans list"
  k_write :: "write_ans list"
  k_sys :: "sys_ans list"
  k_accept :: "accept_ans list"
  k_wait :: "wait_ans list"
  k_trace :: "sys_call list"
  heap :: "addr \<Rightarrow> connection option"
  next_addr :: addr
  connectionMap :: "(u64, addr) omap"
  readQueue :: "addr list"
  writeQueue :: "addr list"
  writeCache :: "(u64, string) omap"
  readInQueueHappened :: event_notifier
  writeInQueueHappened :: event_notifier
  closed :: bool
  sv_port :: u16
  listenFd :: int
  nextConnId :: u64
  epollFd :: int
  ep_events :: "(int \<times> u32) list"
  socketMap :: "(int, u64) omap"
  isTimeToExit :: bool

section \<open>Logging and system calls\<close>

definition log_debug :: "string \<Rightarrow> string list \<Rightarrow> (world, unit) cpp" where
  "log_debug fn args = modify (\<lambda>w. w\<lparr>lg := Logger_LogDebug (log_prefix fn # args) (lg w)\<rparr>)"

definition log_info :: "string \<Rightarrow> string list \<Rightarrow> (world, unit) cpp" where
  "log_info fn args = modify (\<lambda>w. w\<lparr>lg := Logger_LogInfo (log_prefix fn # args) (lg w)\<rparr>)"

definition log_warn :: "string \<Rightarrow> string list \<Rightarrow> (world, unit) cpp" where
  "log_warn fn args = modify (\<lambda>w. w\<lparr>lg := Logger_LogWarn (log_prefix fn # args) (lg w)\<rparr>)"

definition log_error :: "string \<Rightarrow> string list \<Rightarrow> (world, unit) cpp" where
  "log_error fn args = modify (\<lambda>w. w\<lparr>lg := Logger_LogError (log_prefix fn # args) (lg w)\<rparr>)"

lemma log_run [cpp_run]:
  "log_debug fn args w = (Val (), w\<lparr>lg := Logger_LogDebug (log_prefix fn # args) (lg w)\<rparr>)"
  "log_info fn args w = (Val (), w\<lparr>lg := Logger_LogInfo (log_prefix fn # args) (lg w)\<rparr>)"
  "log_warn fn args w = (Val (), w\<lparr>lg := Logger_LogWarn (log_prefix fn # args) (lg w)\<rparr>)"
  "log_error fn args w = (Val (), w\<lparr>lg := Logger_LogError (log_prefix fn # args) (lg w)\<rparr>)"
  by (simp_all add: log_debug_def log_info_def log_warn_def log_error_def cpp_run)

fun what :: "exn \<Rightarrow> string" where
  "what (RuntimeError m) = m"
| "what (InvalidArgument m) = m"
| "what (StdOutOfRange m) = m"

definition syscall :: "sys_call \<Rightarrow> (world, sys_ans) cpp" where
  "syscall c = (\<lambda>w. case k_sys w of
       [] \<Rightarrow> (Pending, w)
     | a # as \<Rightarrow> (Val a, w\<lparr>k_sys := as, k_trace := k_trace w @ [c]\<rparr>))"

lemma syscall_run [cpp_run]:
  "k_sys w = [] \<Longrightarrow> syscall c w = (Pending, w)"
  "k_sys w = a # as \<Longrightarrow> syscall c w = (Val a, w\<lparr>k_sys := as, k_trace := k_trace w @ [c]\<rparr>)"
  by (simp_all add: syscall_def)

text \<open>\<open>if (call == -1) throw runtime_error(GetErrorMsg(what, errno))\<close>, otherwise the result.\<close>

definition sys_or_throw :: "sys_call \<Rightarrow> string \<Rightarrow> (world, int) cpp" where
  "sys_or_throw c msg = bnd (syscall c) (\<lambda>a.
     case a of
       SysOk v \<Rightarrow> ret v
     | SysErr code \<Rightarrow> bnd (gets strerror) (\<lambda>se. throw (RuntimeError (GetErrorMsg se msg code))))"

lemma sys_or_throw_run [cpp_run]:
  "k_sys w = [] \<Longrightarrow> sys_or_throw c msg w = (Pending, w)"
  "k_sys w = SysOk v # as \<Longrightarrow>
     sys_or_throw c msg w = (Val v, w\<lparr>k_sys := as, k_trace := k_trace w @ [c]\<rparr>)"
  "k_sys w = SysErr e # as \<Longrightarrow>
     sys_or_throw c msg w = (Throw (RuntimeError (GetErrorMsg (strerror w) msg e)),
        w\<lparr>k_sys := as, k_trace := k_trace w @ [c]\<rparr>)"
  by (simp_all add: sys_or_throw_def cpp_run)

section \<open>SocketHandler\<close>

fun SocketHandler_Read_loop ::
  "(int \<Rightarrow> string) \<Rightarrow> string \<Rightarrow> read_ans list \<Rightarrow> string outcome \<times> read_ans list" where
  "SocketHandler_Read_loop se s [] = (Pending, [])"
| "SocketHandler_Read_loop se s (ReadErr code # as) =
     (if code = EAGAIN then (Val s, as)
      else (Throw (RuntimeError (GetErrorMsg se (''std::string SocketHandler::Read()'' @ '', read'') code)), as))"
| "SocketHandler_Read_loop se s (ReadOk bs # as) =
     (if 0 < length bs then
        (case c_str (buffer_after 1000 bs) of
           None \<Rightarrow> (Undef ''read past the end of buf'', as)
         | Some t \<Rightarrow> SocketHandler_Read_loop se (s @ t) as)
      else (Val s, as))"

definition SocketHandler_Read :: "int \<Rightarrow> (world, string) cpp" where
  "SocketHandler_Read fd = (\<lambda>w.
     case SocketHandler_Read_loop (strerror w) [] (k_read w) of
       (oc, as) \<Rightarrow> (oc, w\<lparr>k_read := as, k_trace := k_trace w @ [SysRead fd]\<rparr>))"

fun SocketHandler_Write_loop ::
  "(int \<Rightarrow> string) \<Rightarrow> string \<Rightarrow> write_ans list \<Rightarrow> string outcome \<times> write_ans list" where
  "SocketHandler_Write_loop se [] as = (Val [], as)"
| "SocketHandler_Write_loop se (c # cs) [] = (Pending, [])"
| "SocketHandler_Write_loop se (c # cs) (WriteErr code # as) =
     (if code = EAGAIN then (Val (c # cs), as)
      else (Throw (RuntimeError (GetErrorMsg se
              (''std::string SocketHandler::Write(std::string)'' @ '', write failed'') code)), as))"
| "SocketHandler_Write_loop se (c # cs) (WriteOk n # as) =
     SocketHandler_Write_loop se (drop n (c # cs)) as"

definition SocketHandler_Write :: "int \<Rightarrow> string \<Rightarrow> (world, string) cpp" where
  "SocketHandler_Write fd s = (\<lambda>w.
     if s = [] then (Val [], w)
     else case SocketHandler_Write_loop (strerror w) s (k_write w) of
       (oc, as) \<Rightarrow>
         let used = take (length (k_write w) - length as) (k_write w);
             totalWriteLen = accepted used;
             w' = w\<lparr>k_write := as, k_trace := k_trace w @ [SysWrite fd (take totalWriteLen s)]\<rparr>
         in case oc of
              Val r \<Rightarrow> sq (whenb (totalWriteLen = 0)
                           (log_debug ''std::string SocketHandler::Write(std::string)'' [''invalid write'']))
                         (ret r) w'
            | e \<Rightarrow> (e, w'))"

interpretation sh_read: chunk_reader "SocketHandler_Read_loop se" "\<lambda>s eof. s"
  "\<lambda>c. length c < 1000 \<and> CHR 0x00 \<notin> set c" for se
  by unfold_locales (auto simp: c_str_buffer)

interpretation sh_write: partial_writer "SocketHandler_Write_loop se" for se
proof unfold_locales
  fix s :: string and e as
  assume "s \<noteq> []" "e \<noteq> EAGAIN"
  then show "\<exists>x. SocketHandler_Write_loop se s (WriteErr e # as) = (Throw x, as)"
    by (cases s) auto
next
  fix s :: string and n as
  assume "s \<noteq> []"
  then show "SocketHandler_Write_loop se s (WriteOk n # as) = SocketHandler_Write_loop se (drop n s) as"
    by (cases s) auto
next
  fix s :: string and as
  assume "s \<noteq> []"
  then show "SocketHandler_Write_loop se s [] = (Pending, [])"
    and "SocketHandler_Write_loop se s (WriteErr EAGAIN # as) = (Val s, as)"
    by (cases s; simp)+
qed simp

text \<open>
  \<open>SocketHandler::Read\<close> on a non-blocking socket: it returns the concatenation of the received
  chunks, up to the answer that stops it (nothing more to read, or end of stream), when every
  chunk has fewer bytes than the 1000-byte buffer and no zero byte.
\<close>

theorem SocketHandler_Read_collects:
  assumes "\<forall>c \<in> set cs. length c < 1000 \<and> CHR 0x00 \<notin> set c \<and> c \<noteq> []"
    and "stop = ReadErr EAGAIN \<or> stop = ReadOk []"
    and "k_read w = map ReadOk cs @ stop # as"
  shows "SocketHandler_Read fd w = (Val (concat cs), w\<lparr>k_read := as, k_trace := k_trace w @ [SysRead fd]\<rparr>)"
proof -
  have "SocketHandler_Read_loop (strerror w) [] (map ReadOk cs @ stop # as) = (Val (concat cs), as)"
    using assms(1,2) sh_read.rd_until_again[of cs "strerror w" "[]" as]
      sh_read.rd_until_eof[of cs "strerror w" "[]" as] by auto
  with assms(3) show ?thesis by (simp add: SocketHandler_Read_def)
qed

definition some_world :: world where
  "some_world = \<lparr>lg = \<lparr>logLevel = LEVEL_ERROR, log_fs = [], log_cout = []\<rparr>, strerror = (\<lambda>_. []),
     k_read = [], k_write = [], k_sys = [], k_accept = [], k_wait = [], k_trace = [],
     heap = (\<lambda>_. None), next_addr = 0, connectionMap = om_empty, readQueue = [], writeQueue = [],
     writeCache = om_empty, readInQueueHappened = EventNotifier_new,
     writeInQueueHappened = EventNotifier_new, closed = False, sv_port = 5666, listenFd = 3,
     nextConnId = 0, epollFd = 4, ep_events = replicate 10 (0, 0), socketMap = om_empty,
     isTimeToExit = False\<rparr>"

lemma SocketHandler_Read_collects_witness:
  "fst (SocketHandler_Read 5 (some_world\<lparr>k_read := [ReadOk ''GET '', ReadOk ''/'', ReadErr EAGAIN]\<rparr>)) = Val ''GET /''"
  using SocketHandler_Read_collects[of "[''GET '', ''/'']" "ReadErr EAGAIN"
      "some_world\<lparr>k_read := [ReadOk ''GET '', ReadOk ''/'', ReadErr EAGAIN]\<rparr>" "[]" 5]
  by simp

text \<open>
  The buffer handed to \<open>read\<close> has no room for a terminator: a chunk that fills all 1000 bytes and
  contains no zero byte makes \<open>s += &buf[0]\<close> run past the end of the buffer.
\<close>

theorem SocketHandler_Read_overrun:
  assumes "length c = 1000" and "CHR 0x00 \<notin> set c" and "k_read w = ReadOk c # as"
  shows "fst (SocketHandler_Read fd w) = Undef ''read past the end of buf''"
  using assms c_str_buffer_full[of c 1000] by (simp add: SocketHandler_Read_def split: prod.splits)

lemma SocketHandler_Read_overrun_witness:
  "fst (SocketHandler_Read 5 (some_world\<lparr>k_read := [ReadOk (replicate 1000 (CHR ''a''))]\<rparr>)) =
   Undef ''read past the end of buf''"
  by (rule SocketHandler_Read_overrun[of "replicate 1000 (CHR ''a'')" _ "[]"]) simp_all

lemma SocketHandler_Write_Val:
  assumes "SocketHandler_Write fd s w = (Val r, w')" and "answers_fit (k_write w) (length s)" and "s \<noteq> []"
  shows "\<exists>used. k_write w = used @ k_write w' \<and> r = drop (accepted used) s \<and> accepted used \<le> length s \<and>
    k_trace w' = k_trace w @ [SysWrite fd (take (accepted used) s)]"
proof -
  obtain oc as where l: "SocketHandler_Write_loop (strerror w) s (k_write w) = (oc, as)" by fastforce
  with assms(1,3) have oc: "oc = Val r"
    by (cases oc) (auto simp: SocketHandler_Write_def Let_def cpp_run split: if_splits)
  from sh_write.wr_conserves[OF assms(2) l[unfolded oc]] obtain used where
    u: "k_write w = used @ as" "r = drop (accepted used) s" "accepted used \<le> length s" by blast
  with l oc assms(1,3) have "k_write w' = as"
    "k_trace w' = k_trace w @ [SysWrite fd (take (accepted used) s)]"
    by (auto simp: SocketHandler_Write_def Let_def cpp_run split: if_splits)
  with u show ?thesis by blast
qed

text \<open>
  \<open>SocketHandler::Write\<close> loses nothing and repeats nothing: when it returns, the bytes the kernel
  accepted followed by the returned rest are exactly the bytes it was asked to send.
\<close>

theorem SocketHandler_Write_conserves:
  assumes "SocketHandler_Write fd s w = (Val r, w')" and "answers_fit (k_write w) (length s)" and "s \<noteq> []"
  shows "\<exists>sent. k_trace w' = k_trace w @ [SysWrite fd sent] \<and> sent @ r = s"
  using SocketHandler_Write_Val[OF assms] by (metis append_take_drop_id)

lemma SocketHandler_Write_conserves_witness:
  "\<exists>sent w'. SocketHandler_Write 5 ''hello'' (some_world\<lparr>k_write := [WriteOk 2, WriteErr EAGAIN]\<rparr>) = (Val ''llo'', w') \<and>
     k_trace w' = [SysWrite 5 sent] \<and> sent @ ''llo'' = ''hello''"
proof -
  let ?w = "some_world\<lparr>k_write := [WriteOk 2, WriteErr EAGAIN]\<rparr>"
  let ?w' = "?w\<lparr>k_write := [], k_trace := [SysWrite 5 ''he'']\<rparr>"
  have e: "SocketHandler_Write 5 ''hello'' ?w = (Val ''llo'', ?w')"
    by (simp add: SocketHandler_Write_def cpp_run some_world_def Let_def)
  have f: "answers_fit (k_write ?w) (length ''hello'')" by simp
  from SocketHandler_Write_conserves[OF e f] have "\<exists>sent. k_trace ?w' = k_trace ?w @ [SysWrite 5 sent] \<and> sent @ ''llo'' = ''hello''"
    by simp
  with e show ?thesis by (auto simp: some_world_def)
qed

end
