(* ===== verification/Http_Epoll.thy ===== *)
theory Http_Epoll
  imports Http_World
begin

text \<open>
  The classes \<open>Epoll\<close> and \<open>SocketMap\<close> of \<open>simple_http/tcp_server/src/server.cpp\<close> and the action that
  closes a connection's socket, which the server hands to every \<open>SocketHandler\<close>.
\<close>

section \<open>Epoll\<close>

definition Epoll_CreateEpollFd :: "(world, unit) cpp" where
  "Epoll_CreateEpollFd =
     bnd (syscall SysEpollCreate) (\<lambda>a.
       case a of
         SysOk fd \<Rightarrow> modify (\<lambda>w. w\<lparr>epollFd := fd\<rparr>)
       | SysErr code \<Rightarrow>
           sq (modify (\<lambda>w. w\<lparr>epollFd := - 1\<rparr>))
          (bnd (gets strerror) (\<lambda>se.
             throw (RuntimeError (GetErrorMsg se (''void Epoll::CreateEpollFd()'' @ '', epoll_create1 failed'') code)))))"

definition Epoll_Init :: "(world, unit) cpp" where
  "Epoll_Init = Epoll_CreateEpollFd"

definition Epoll_Add :: "int \<Rightarrow> u32 \<Rightarrow> (world, unit) cpp" where
  "Epoll_Add fd eventMask =
     bnd (sys_or_throw (SysCtlAdd fd eventMask) (''void Epoll::Add(int, uint32_t)'' @ '', epoll_ctl failed''))
       (\<lambda>_. skip)"

definition Epoll_Delete :: "int \<Rightarrow> (world, unit) cpp" where
  "Epoll_Delete fd =
     sq (log_debug ''void Epoll::Delete(int)'' [''delete fd: '', to_string_int fd])
       (bnd (sys_or_throw (SysCtlDel fd) (''void Epoll::Delete(int)'' @ '', epoll_ctl failed''))
         (\<lambda>_. skip))"

text \<open>
  \<open>epoll_wait\<close> overwrites the front of the event vector and returns how many entries are valid; a
  signal delivered while it waits runs the handler before the call returns.
\<close>

definition SigHandler :: "int \<Rightarrow> world \<Rightarrow> world" where
  "SigHandler sigNum w = (if sigNum = 2 then w\<lparr>isTimeToExit := True\<rparr> else w)"

definition Epoll_Wait :: "int \<Rightarrow> (world, int) cpp" where
  "Epoll_Wait timeoutMs = (\<lambda>w.
     case k_wait w of
       [] \<Rightarrow> (Pending, w)
     | a # as \<Rightarrow>
         let w1 = w\<lparr>k_wait := as\<rparr>;
             w2 = (if wa_sigint a then SigHandler 2 w1 else w1)
         in case wa_result a of
              Inl code \<Rightarrow>
                if code = EINTR then (Val 0, w2)
                else (Throw (RuntimeError (GetErrorMsg (strerror w)
                        (''int Epoll::Wait(int)'' @ '', epoll_wait failed'') code)), w2)
            | Inr evs \<Rightarrow>
                (Val (int (length evs)), w2\<lparr>ep_events := evs @ drop (length evs) (ep_events w)\<rparr>))"

definition Epoll_GetFd :: "nat \<Rightarrow> (world, int) cpp" where
  "Epoll_GetFd i = (\<lambda>w. if i < length (ep_events w) then (Val (fst (ep_events w ! i)), w)
     else (Undef ''events out of range'', w))"

definition Epoll_GetEvent :: "nat \<Rightarrow> (world, u32) cpp" where
  "Epoll_GetEvent i = (\<lambda>w. if i < length (ep_events w) then (Val (snd (ep_events w ! i)), w)
     else (Undef ''events out of range'', w))"

section \<open>SocketMap\<close>

definition SocketMap_Add :: "int \<Rightarrow> u64 \<Rightarrow> (world, unit) cpp" where
  "SocketMap_Add fd connectionId = modify (\<lambda>w. w\<lparr>socketMap := om_put fd connectionId (socketMap w)\<rparr>)"

definition SocketMap_Delete :: "int \<Rightarrow> (world, unit) cpp" where
  "SocketMap_Delete fd =
     bnd (gets (\<lambda>w. om_has (socketMap w) fd)) (\<lambda>b.
       if \<not> b then throw (RuntimeError (''void SocketMap::Delete(int)'' @ '', fd('' @ to_string_int fd @ '') not exist''))
       else modify (\<lambda>w. w\<lparr>socketMap := om_del fd (socketMap w)\<rparr>))"

text \<open>\<open>sockets[fd]\<close> inserts a zero entry when \<open>fd\<close> is absent.\<close>

definition SocketMap_GetValue :: "int \<Rightarrow> (world, u64) cpp" where
  "SocketMap_GetValue fd = (\<lambda>w.
     case om_get (socketMap w) fd of
       Some v \<Rightarrow> (Val v, w)
     | None \<Rightarrow> (Val 0, w\<lparr>socketMap := om_put fd 0 (socketMap w)\<rparr>))"

definition SocketMap_Count :: "int \<Rightarrow> (world, nat) cpp" where
  "SocketMap_Count fd = gets (\<lambda>w. if om_has (socketMap w) fd then 1 else 0)"

definition SocketMap_GetValues :: "(world, u64 list) cpp" where
  "SocketMap_GetValues = gets (\<lambda>w. om_values (socketMap w))"

section \<open>Closing a socket\<close>

definition Server_CloseFd :: "int \<Rightarrow> (world, unit) cpp" where
  "Server_CloseFd fd =
     sq (log_debug ''void Server::CloseFd(int)'' [''close fd: '', to_string_int fd])
       (bnd (syscall (SysClose fd)) (\<lambda>a.
         case a of
           SysOk _ \<Rightarrow> skip
         | SysErr code \<Rightarrow> bnd (gets strerror) (\<lambda>se.
             throw (RuntimeError (GetErrorMsg se
               (''void Server::CloseFd(int)'' @ ''close fd('' @ to_string_int fd) code @ '') failed'')))))"

text \<open>The lambda of \<open>Server::ProcessNewConnection\<close> that \<open>SocketHandler::Close\<close> calls.\<close>

definition Server_close_socket :: "int \<Rightarrow> (world, unit) cpp" where
  "Server_close_socket fdv = sq (Epoll_Delete fdv) (sq (Server_CloseFd fdv) (SocketMap_Delete fdv))"

definition SocketHandler_Close :: "int \<Rightarrow> (world, unit) cpp" where
  "SocketHandler_Close fd = Server_close_socket fd"

lemma Epoll_Delete_run [cpp_run]:
  "k_sys w = SysOk v # as \<Longrightarrow> Epoll_Delete fd w =
     (Val (), w\<lparr>lg := Logger_LogDebug [log_prefix ''void Epoll::Delete(int)'', ''delete fd: '', to_string_int fd] (lg w),
        k_sys := as, k_trace := k_trace w @ [SysCtlDel fd]\<rparr>)"
  "k_sys w = SysErr e # as \<Longrightarrow> Epoll_Delete fd w =
     (Throw (RuntimeError (GetErrorMsg (strerror w) (''void Epoll::Delete(int)'' @ '', epoll_ctl failed'') e)),
      w\<lparr>lg := Logger_LogDebug [log_prefix ''void Epoll::Delete(int)'', ''delete fd: '', to_string_int fd] (lg w),
        k_sys := as, k_trace := k_trace w @ [SysCtlDel fd]\<rparr>)"
  by (simp_all add: Epoll_Delete_def cpp_run)

lemma Server_CloseFd_run [cpp_run]:
  "k_sys w = SysOk v # as \<Longrightarrow> Server_CloseFd fd w =
     (Val (), w\<lparr>lg := Logger_LogDebug [log_prefix ''void Server::CloseFd(int)'', ''close fd: '', to_string_int fd] (lg w),
        k_sys := as, k_trace := k_trace w @ [SysClose fd]\<rparr>)"
  by (simp add: Server_CloseFd_def cpp_run)

lemma SocketMap_Delete_run [cpp_run]:
  "om_has (socketMap w) fd \<Longrightarrow>
     SocketMap_Delete fd w = (Val (), w\<lparr>socketMap := om_del fd (socketMap w)\<rparr>)"
  "\<not> om_has (socketMap w) fd \<Longrightarrow>
     SocketMap_Delete fd w =
       (Throw (RuntimeError (''void SocketMap::Delete(int)'' @ '', fd('' @ to_string_int fd @ '') not exist'')), w)"
  by (simp_all add: SocketMap_Delete_def cpp_run)

end
