(* ===== verification/Http_Connection.thy ===== *)
theory Http_Connection
  imports Http_Epoll
begin

text \<open>
  \<open>simple_http/tcp_server/src/connection.cpp\<close> and the request handler of \<open>http_server\<close>: the
  containers of the connection manager, the connection object, the handler's callbacks and the
  manager itself. A \<open>std::shared_ptr<Connection>\<close> is an address of the heap; the same object can be
  reached from the map and from both queues. Where a callback was bound when the object was built
  (\<open>write\<close>, \<open>release\<close>, \<open>close\<close>), the definition takes or names the function that was bound.
\<close>

section \<open>Containers\<close>

definition ConnectionMap_GetValue :: "u64 \<Rightarrow> (world, addr) cpp" where
  "ConnectionMap_GetValue i =
     bnd (gets (\<lambda>w. om_get (connectionMap w) i)) (\<lambda>v.
       case v of
         None \<Rightarrow> throw (RuntimeError (''std::shared_ptr<Connection> ConnectionMap::GetValue(uint64_t)'' @
                   '', id('' @ to_string_nat (unat i) @ '') not exist''))
       | Some a \<Rightarrow> ret a)"

definition ConnectionMap_Add :: "u64 \<Rightarrow> addr \<Rightarrow> (world, unit) cpp" where
  "ConnectionMap_Add i a =
     bnd (gets (\<lambda>w. om_has (connectionMap w) i)) (\<lambda>b.
       if b then throw (RuntimeError (''void ConnectionMap::Add(uint64_t, std::shared_ptr<Connection>)'' @
                   '', id('' @ to_string_nat (unat i) @ '') exist''))
       else modify (\<lambda>w. w\<lparr>connectionMap := om_put i a (connectionMap w)\<rparr>))"

definition ConnectionMap_Erase :: "u64 \<Rightarrow> (world, unit) cpp" where
  "ConnectionMap_Erase i =
     bnd (gets (\<lambda>w. om_has (connectionMap w) i)) (\<lambda>b.
       if \<not> b then throw (RuntimeError (''void ConnectionMap::Erase(uint64_t)'' @
                   '', id('' @ to_string_nat (unat i) @ '') not exist''))
       else modify (\<lambda>w. w\<lparr>connectionMap := om_del i (connectionMap w)\<rparr>))"

definition ConnectionMap_Size :: "(world, nat) cpp" where
  "ConnectionMap_Size = gets (\<lambda>w. length (connectionMap w))"

definition ConnectionQueue_InQueue :: "addr \<Rightarrow> addr list \<Rightarrow> addr list" where
  "ConnectionQueue_InQueue a q = q @ [a]"

definition ConnectionQueue_DeQueue :: "addr list \<Rightarrow> (addr \<times> addr list) option" where
  "ConnectionQueue_DeQueue q = (case q of [] \<Rightarrow> None | a # q' \<Rightarrow> Some (a, q'))"

definition WriteCache_Add :: "u64 \<Rightarrow> string \<Rightarrow> (u64, string) omap \<Rightarrow> (u64, string) omap" where
  "WriteCache_Add i s m =
     (case om_get m i of Some old \<Rightarrow> om_put i (old @ s) m | None \<Rightarrow> om_put i s m)"

definition WriteCache_Get :: "u64 \<Rightarrow> (u64, string) omap \<Rightarrow> string \<times> (u64, string) omap" where
  "WriteCache_Get i m =
     (case om_get m i of Some old \<Rightarrow> (old, om_put i [] m) | None \<Rightarrow> ([], m))"

definition WriteCache_HasContentToWrite :: "u64 \<Rightarrow> (u64, string) omap \<Rightarrow> bool" where
  "WriteCache_HasContentToWrite i m = (case om_get m i of Some s \<Rightarrow> s \<noteq> [] | None \<Rightarrow> False)"

section \<open>The connection object: flags\<close>

definition Connection_new :: "u64 \<Rightarrow> client_info \<Rightarrow> int \<Rightarrow> http_handler \<Rightarrow> connection" where
  "Connection_new i ci fd h =
     \<lparr>conn_id = i, clientInfo = ci, sock_fd = fd, isReadable = 0, isWritable = 0, errorCode = 0,
      isClosed = False, isReading = False, isWriting = False, requestHandler = h, response = []\<rparr>"

definition NO_ERROR :: u32 where "NO_ERROR = 0"
definition SOCKET_ERROR :: u32 where "SOCKET_ERROR = 1"
definition SOCKET_CLOSED :: u32 where "SOCKET_CLOSED = 2"

definition Connection_GetClientInfo :: "connection \<Rightarrow> string" where
  "Connection_GetClientInfo c =
     ''<connection id: '' @ to_string_nat (unat (conn_id c)) @ ''>('' @ ci_ip (clientInfo c) @ '':'' @
     to_string_nat (unat (ci_port (clientInfo c))) @ '')''"

definition Connection_SetReadable :: "connection \<Rightarrow> connection" where
  "Connection_SetReadable c = c\<lparr>isReadable := isReadable c + 1\<rparr>"

definition Connection_SetWritable :: "connection \<Rightarrow> connection" where
  "Connection_SetWritable c = c\<lparr>isWritable := isWritable c + 1\<rparr>"

definition Connection_SetError :: "connection \<Rightarrow> connection" where
  "Connection_SetError c = c\<lparr>errorCode := SOCKET_ERROR\<rparr>"

definition Connection_SetToClose :: "connection \<Rightarrow> connection" where
  "Connection_SetToClose c = c\<lparr>errorCode := SOCKET_CLOSED\<rparr>"

definition Connection_ReadEventHappend :: "connection \<Rightarrow> bool" where
  "Connection_ReadEventHappend c = (or (isReadable c) (errorCode c) \<noteq> 0)"

definition Connection_WriteEventHappend :: "connection \<Rightarrow> bool" where
  "Connection_WriteEventHappend c = (or (isWritable c) (errorCode c) \<noteq> 0)"

definition RequestHandler_IsWaiting :: "http_handler \<Rightarrow> bool" where
  "RequestHandler_IsWaiting h = (isReadWaiting h \<or> isWriteWaiting h)"

definition Connection_CanClose :: "connection \<Rightarrow> bool" where
  "Connection_CanClose c = (\<not> RequestHandler_IsWaiting (requestHandler c))"

definition RequestHandler_new :: http_handler where
  "RequestHandler_new = \<lparr>httpRequest = HttpRequest_new, contentToWrite = [], isReadWaiting = True,
     isWriteWaiting = False\<rparr>"

definition deref :: "addr \<Rightarrow> (world, connection) cpp" where
  "deref a = (\<lambda>w. case heap w a of None \<Rightarrow> (Undef ''null connection'', w) | Some c \<Rightarrow> (Val c, w))"

definition upd_heap :: "addr \<Rightarrow> (connection \<Rightarrow> connection) \<Rightarrow> world \<Rightarrow> world" where
  "upd_heap a f w = w\<lparr>heap := (heap w)(a := map_option f (heap w a))\<rparr>"

definition upd_conn :: "addr \<Rightarrow> (connection \<Rightarrow> connection) \<Rightarrow> (world, unit) cpp" where
  "upd_conn a f = modify (upd_heap a f)"

definition upd_handler :: "addr \<Rightarrow> (http_handler \<Rightarrow> http_handler) \<Rightarrow> (world, unit) cpp" where
  "upd_handler a f = upd_conn a (\<lambda>c. c\<lparr>requestHandler := f (requestHandler c)\<rparr>)"

section \<open>Queueing decisions of the manager\<close>

definition NeedInQueueRead :: "addr \<Rightarrow> (world, bool) cpp" where
  "NeedInQueueRead a =
     bnd (deref a) (\<lambda>c.
       if Connection_ReadEventHappend c \<and> \<not> isReading c
       then sq (upd_conn a (\<lambda>c. c\<lparr>isReading := True\<rparr>)) (ret True)
       else ret False)"

definition NeedReInQueueRead :: "addr \<Rightarrow> (world, bool) cpp" where
  "NeedReInQueueRead a =
     bnd (deref a) (\<lambda>c.
       if \<not> isReading c
       then throw (RuntimeError ''bool ConnectionManager::NeedReInQueueRead(const std::shared_ptr<Connection>&)'')
       else if \<not> Connection_ReadEventHappend c
       then sq (upd_conn a (\<lambda>c. c\<lparr>isReading := False\<rparr>)) (ret False)
       else ret True)"

definition NeedInQueueWrite :: "addr \<Rightarrow> (world, bool) cpp" where
  "NeedInQueueWrite a =
     bnd (deref a) (\<lambda>c. bnd (gets writeCache) (\<lambda>m.
       if ((Connection_WriteEventHappend c \<and> WriteCache_HasContentToWrite (conn_id c) m) \<or>
           Connection_CanClose c) \<and> \<not> isWriting c
       then sq (upd_conn a (\<lambda>c. c\<lparr>isWriting := True\<rparr>)) (ret True)
       else ret False))"

definition NeedReInQueueWrite :: "addr \<Rightarrow> (world, bool) cpp" where
  "NeedReInQueueWrite a =
     bnd (deref a) (\<lambda>c. bnd (gets writeCache) (\<lambda>m.
       if \<not> isWriting c
       then throw (RuntimeError ''bool ConnectionManager::NeedReInQueueWrite(const std::shared_ptr<Connection>&)'')
       else if \<not> Connection_WriteEventHappend c \<or> \<not> WriteCache_HasContentToWrite (conn_id c) m
       then sq (upd_conn a (\<lambda>c. c\<lparr>isWriting := False\<rparr>)) (ret False)
       else ret True))"

definition readQueue_InQueue :: "addr \<Rightarrow> (world, unit) cpp" where
  "readQueue_InQueue a = modify (\<lambda>w. w\<lparr>readQueue := ConnectionQueue_InQueue a (readQueue w)\<rparr>)"

definition writeQueue_InQueue :: "addr \<Rightarrow> (world, unit) cpp" where
  "writeQueue_InQueue a = modify (\<lambda>w. w\<lparr>writeQueue := ConnectionQueue_InQueue a (writeQueue w)\<rparr>)"

definition readEvent_Set :: "(world, unit) cpp" where
  "readEvent_Set = modify (\<lambda>w. w\<lparr>readInQueueHappened := EventNotifier_Set (readInQueueHappened w)\<rparr>)"

definition writeEvent_Set :: "(world, unit) cpp" where
  "writeEvent_Set = modify (\<lambda>w. w\<lparr>writeInQueueHappened := EventNotifier_Set (writeInQueueHappened w)\<rparr>)"

definition CheckToInQueueRead :: "addr \<Rightarrow> (world, unit) cpp" where
  "CheckToInQueueRead a =
     bnd (NeedInQueueRead a) (\<lambda>b. whenb b (sq (readQueue_InQueue a) readEvent_Set))"

definition CheckToInQueueWrite :: "addr \<Rightarrow> (world, unit) cpp" where
  "CheckToInQueueWrite a =
     bnd (NeedInQueueWrite a) (\<lambda>b. whenb b (sq (writeQueue_InQueue a) writeEvent_Set))"

definition AddToWriteCache :: "u64 \<Rightarrow> string \<Rightarrow> (world, unit) cpp" where
  "AddToWriteCache connectionId content =
     sq (log_debug ''void ConnectionManager::AddToWriteCache(uint64_t, std::string)''
           [''connectionId: '', to_string_nat (unat connectionId), ''content: \"'', content, ''\"''])
    (sq (modify (\<lambda>w. w\<lparr>writeCache := WriteCache_Add connectionId content (writeCache w)\<rparr>))
    (bnd (ConnectionMap_GetValue connectionId) CheckToInQueueWrite))"

section \<open>The request handler\<close>

definition http_responseMsg :: string where
  "http_responseMsg = ''hello'' @ crlf"

definition http_response :: string where
  "http_response = ''HTTP/1.1 200 OK'' @ crlf @
     ''Context-Length: '' @ to_string_nat (length http_responseMsg) @ crlf @ crlf @ http_responseMsg"

definition HttpRequestHandler_AppendReceivedData :: "addr \<Rightarrow> string \<Rightarrow> (world, unit) cpp" where
  "HttpRequestHandler_AppendReceivedData a s =
     bnd (deref a) (\<lambda>c. \<lambda>w.
       case HttpRequest_Append s (httpRequest (requestHandler c)) of
         (oc, r) \<Rightarrow> (oc, upd_heap a (\<lambda>c. c\<lparr>requestHandler := (requestHandler c)\<lparr>httpRequest := r\<rparr>\<rparr>) w))"

definition HttpRequestHandler_CheckDataIntegrity :: "addr \<Rightarrow> (world, bool) cpp" where
  "HttpRequestHandler_CheckDataIntegrity a =
     bnd (deref a) (\<lambda>c. ret (HttpRequest_AllReceived (httpRequest (requestHandler c))))"

definition HttpRequestHandler_Write ::
  "(string \<Rightarrow> (world, unit) cpp) \<Rightarrow> addr \<Rightarrow> string \<Rightarrow> (world, unit) cpp" where
  "HttpRequestHandler_Write write a s =
     sq (log_debug ''virtual void HttpRequestHandler::Write(std::string)'' [s])
    (sq (write s)
        (upd_handler a (\<lambda>h. h\<lparr>isWriteWaiting := True\<rparr>)))"

fun log_all :: "string \<Rightarrow> string list list \<Rightarrow> (world, unit) cpp" where
  "log_all fn [] = skip"
| "log_all fn (m # ms) = sq (log_debug fn m) (log_all fn ms)"

definition HttpRequestHandler_ReadCompleteCallback ::
  "(string \<Rightarrow> (world, unit) cpp) \<Rightarrow> addr \<Rightarrow> int \<Rightarrow> (world, unit) cpp" where
  "HttpRequestHandler_ReadCompleteCallback write a code =
     bnd (deref a) (\<lambda>c.
       if \<not> isReadWaiting (requestHandler c) then ret ()
       else
         sq (upd_handler a (\<lambda>h. h\<lparr>isReadWaiting := False\<rparr>))
        (sq (whenb (code \<noteq> 0) (log_error ''virtual void HttpRequestHandler::ReadCompleteCallback(int)''
                [''errorCode='', to_string_int code]))
        (sq (log_all ''void HttpRequest::PrintRequest()'' (HttpRequest_PrintRequest (httpRequest (requestHandler c))))
        (sq (upd_handler a (\<lambda>h. h\<lparr>contentToWrite := http_response\<rparr>))
            (HttpRequestHandler_Write write a http_response)))))"

definition HttpRequestHandler_WriteCompleteCallback :: "addr \<Rightarrow> int \<Rightarrow> (world, unit) cpp" where
  "HttpRequestHandler_WriteCompleteCallback a code =
     bnd (deref a) (\<lambda>c.
       if \<not> isWriteWaiting (requestHandler c) then ret ()
       else
         sq (upd_handler a (\<lambda>h. h\<lparr>isWriteWaiting := False\<rparr>))
            (whenb (code \<noteq> 0) (log_error ''virtual void HttpRequestHandler::WriteCompleteCallback(int)''
                [''errorCode='', to_string_int code])))"

section \<open>The connection object: reading, writing, closing\<close>

definition ReleaseConnection :: "u64 \<Rightarrow> (world, unit) cpp" where
  "ReleaseConnection i =
     try_catch (ConnectionMap_Erase i)
       (\<lambda>e. log_error ''void ConnectionManager::ReleaseConnection(uint64_t)'' [''exception: '', what e])"

definition Connection_Close :: "addr \<Rightarrow> (world, unit) cpp" where
  "Connection_Close a =
     bnd (deref a) (\<lambda>c.
       sq (whenb (isClosed c) (log_warn ''void Connection::Close()'' [''Connection is closed'']))
      (sq (SocketHandler_Close (sock_fd c))
      (sq (ReleaseConnection (conn_id c))
      (sq (upd_conn a (\<lambda>c. c\<lparr>isClosed := True\<rparr>))
          (log_debug ''void Connection::Close()'' [Connection_GetClientInfo c])))))"

definition Connection_Read :: "addr \<Rightarrow> (world, unit) cpp" where
  "Connection_Read a =
     bnd (deref a) (\<lambda>c0.
       sq (whenb (errorCode c0 \<noteq> NO_ERROR)
             (sq (HttpRequestHandler_ReadCompleteCallback (AddToWriteCache (conn_id c0)) a (sint (errorCode c0)))
                 (Connection_Close a)))
      (bnd (deref a) (\<lambda>c.
       if isReadable c = 0 then ret ()
       else
         sq (upd_conn a (\<lambda>c. c\<lparr>isReadable := isReadable c - 1\<rparr>))
        (bnd (SocketHandler_Read (sock_fd c)) (\<lambda>s.
         sq (log_debug ''void Connection::Read()'' [Connection_GetClientInfo c, ''. read: \"'', s, ''\"''])
        (sq (HttpRequestHandler_AppendReceivedData a s)
        (bnd (HttpRequestHandler_CheckDataIntegrity a) (\<lambda>d.
         sq (whenb d (HttpRequestHandler_ReadCompleteCallback (AddToWriteCache (conn_id c)) a 0))
        (bnd (deref a) (\<lambda>c'.
         whenb (\<not> RequestHandler_IsWaiting (requestHandler c')) (Connection_Close a)))))))))))"

definition Connection_SetResponse :: "string \<Rightarrow> connection \<Rightarrow> connection" where
  "Connection_SetResponse s c = c\<lparr>response := response c @ s\<rparr>"

definition Connection_Write :: "addr \<Rightarrow> (world, unit) cpp" where
  "Connection_Write a =
     bnd (deref a) (\<lambda>c0.
       sq (whenb (errorCode c0 \<noteq> NO_ERROR)
             (sq (HttpRequestHandler_WriteCompleteCallback a (sint (errorCode c0))) (Connection_Close a)))
      (bnd (deref a) (\<lambda>c.
       if isWritable c = 0 then ret ()
       else
         sq (upd_conn a (\<lambda>c. c\<lparr>isWritable := isWritable c - 1\<rparr>))
        (if response c = [] then ret ()
         else
           bnd (SocketHandler_Write (sock_fd c) (response c)) (\<lambda>r.
           sq (upd_conn a (\<lambda>c. c\<lparr>response := r\<rparr>))
          (sq (whenb (r = []) (HttpRequestHandler_WriteCompleteCallback a 0))
          (bnd (deref a) (\<lambda>c'.
           whenb (\<not> RequestHandler_IsWaiting (requestHandler c')) (Connection_Close a)))))))))"

section \<open>The manager's entry points\<close>

definition caught :: "string \<Rightarrow> (world, unit) cpp \<Rightarrow> (world, unit) cpp" where
  "caught fn m = try_catch m (\<lambda>e. log_error fn [''exception: '', what e])"

definition ConnectionManager_NewConnection :: "u64 \<Rightarrow> client_info \<Rightarrow> int \<Rightarrow> (world, unit) cpp" where
  "ConnectionManager_NewConnection i ci fd =
     caught ''void ConnectionManager::NewConnection(uint64_t, ClientInfo, SocketHandler)''
       (bnd (gets next_addr) (\<lambda>a.
        sq (modify (\<lambda>w. w\<lparr>heap := (heap w)(a \<mapsto> Connection_new i ci fd RequestHandler_new), next_addr := a + 1\<rparr>))
       (sq (ConnectionMap_Add i a)
       (bnd ConnectionMap_Size (\<lambda>n.
        log_debug ''void ConnectionManager::NewConnection(uint64_t, ClientInfo, SocketHandler)''
          [Connection_GetClientInfo (Connection_new i ci fd RequestHandler_new), '', connection count: '', to_string_nat n])))))"

text \<open>The four event entry points share their shape: find the connection, mark it, then queue it.\<close>

definition mark_and_check ::
  "string \<Rightarrow> (connection \<Rightarrow> connection) \<Rightarrow> (addr \<Rightarrow> (world, unit) cpp) \<Rightarrow> u64 \<Rightarrow> (world, unit) cpp" where
  "mark_and_check fn mark check i =
     caught fn
       (bnd (ConnectionMap_GetValue i) (\<lambda>a.
        bnd (deref a) (\<lambda>c.
        sq (log_debug fn [Connection_GetClientInfo c])
       (sq (upd_conn a mark)
           (check a)))))"

definition ConnectionManager_CanRead :: "u64 \<Rightarrow> (world, unit) cpp" where
  "ConnectionManager_CanRead =
     mark_and_check ''void ConnectionManager::CanRead(uint64_t)'' Connection_SetReadable CheckToInQueueRead"

definition ConnectionManager_CanWrite :: "u64 \<Rightarrow> (world, unit) cpp" where
  "ConnectionManager_CanWrite =
     mark_and_check ''void ConnectionManager::CanWrite(uint64_t)'' Connection_SetWritable CheckToInQueueWrite"

definition ConnectionManager_ErrorOccurred :: "u64 \<Rightarrow> (world, unit) cpp" where
  "ConnectionManager_ErrorOccurred =
     mark_and_check ''void ConnectionManager::ErrorOccurred(uint64_t)'' Connection_SetError
       (\<lambda>a. sq (CheckToInQueueRead a) (CheckToInQueueWrite a))"

definition ConnectionManager_TimeToExit :: "u64 \<Rightarrow> (world, unit) cpp" where
  "ConnectionManager_TimeToExit =
     mark_and_check ''void ConnectionManager::TimeToExit(uint64_t)'' Connection_SetToClose
       (\<lambda>a. sq (CheckToInQueueRead a) (CheckToInQueueWrite a))"

definition mark_closed :: "(world, unit) cpp" where
  "mark_closed = modify (\<lambda>w. w\<lparr>closed := True\<rparr>)"

definition ConnectionManager_Close :: "(world, unit) cpp" where
  "ConnectionManager_Close =
     bnd (gets closed) (\<lambda>b.
       if b then ret ()
       else sq mark_closed (sq writeEvent_Set readEvent_Set))"

section \<open>The worker threads\<close>

definition readQueue_DeQueue :: "(world, addr option) cpp" where
  "readQueue_DeQueue = (\<lambda>w.
     case ConnectionQueue_DeQueue (readQueue w) of
       None \<Rightarrow> (Val None, w)
     | Some (a, q) \<Rightarrow> (Val (Some a), w\<lparr>readQueue := q\<rparr>))"

definition writeQueue_DeQueue :: "(world, addr option) cpp" where
  "writeQueue_DeQueue = (\<lambda>w.
     case ConnectionQueue_DeQueue (writeQueue w) of
       None \<Rightarrow> (Val None, w)
     | Some (a, q) \<Rightarrow> (Val (Some a), w\<lparr>writeQueue := q\<rparr>))"

definition readEvent_Wait :: "(world, unit) cpp" where
  "readEvent_Wait = (\<lambda>w. case EventNotifier_Wait (readInQueueHappened w) of
     (oc, e) \<Rightarrow> (oc, w\<lparr>readInQueueHappened := e\<rparr>))"

definition writeEvent_Wait :: "(world, unit) cpp" where
  "writeEvent_Wait = (\<lambda>w. case EventNotifier_Wait (writeInQueueHappened w) of
     (oc, e) \<Rightarrow> (oc, w\<lparr>writeInQueueHappened := e\<rparr>))"

text \<open>One pass of the inner loop; the result says whether the loop goes on (no \<open>break\<close>).\<close>

definition ProcessRead_body :: "(world, bool) cpp" where
  "ProcessRead_body =
     bnd readQueue_DeQueue (\<lambda>r.
       case r of
         None \<Rightarrow> ret False
       | Some a \<Rightarrow>
           bnd (deref a) (\<lambda>c.
           sq (log_debug ''void ConnectionManager::ProcessRead(int)'' [''connection id: '', to_string_nat (unat (conn_id c))])
          (sq (Connection_Read a)
          (bnd (NeedReInQueueRead a) (\<lambda>b.
           sq (whenb b (readQueue_InQueue a)) (ret True))))))"

definition take_cache :: "u64 \<Rightarrow> (world, string) cpp" where
  "take_cache i = (\<lambda>w. case WriteCache_Get i (writeCache w) of (s, m) \<Rightarrow> (Val s, w\<lparr>writeCache := m\<rparr>))"

definition ProcessWrite_body :: "(world, bool) cpp" where
  "ProcessWrite_body =
     bnd writeQueue_DeQueue (\<lambda>r.
       case r of
         None \<Rightarrow> ret False
       | Some a \<Rightarrow>
           bnd (deref a) (\<lambda>c.
           sq (log_debug ''void ConnectionManager::ProcessWrite(int)'' [''connection id: '', to_string_nat (unat (conn_id c))])
          (bnd (take_cache (conn_id c)) (\<lambda>s.
           sq (upd_conn a (Connection_SetResponse s))
          (sq (Connection_Write a)
          (bnd (NeedReInQueueWrite a) (\<lambda>b.
           sq (whenb b (writeQueue_InQueue a)) (ret True))))))))"

text \<open>The loops themselves, with a bound on the number of passes; running out of it is \<open>Pending\<close>.\<close>

fun drain :: "(world, bool) cpp \<Rightarrow> nat \<Rightarrow> (world, unit) cpp" where
  "drain body 0 w = (Pending, w)"
| "drain body (Suc n) w =
     (if closed w then (Val (), w)
      else bnd body (\<lambda>b. if b then drain body n else ret ()) w)"

fun serve :: "(world, unit) cpp \<Rightarrow> (world, bool) cpp \<Rightarrow> nat \<Rightarrow> nat \<Rightarrow> (world, unit) cpp" where
  "serve wait body m 0 w = (Pending, w)"
| "serve wait body m (Suc n) w =
     (if closed w then (Val (), w)
      else sq wait (sq (drain body m) (serve wait body m n)) w)"

definition ProcessRead :: "nat \<Rightarrow> nat \<Rightarrow> int \<Rightarrow> (world, unit) cpp" where
  "ProcessRead m n i =
     sq (log_info ''void ConnectionManager::ProcessRead(int)'' [''start, id: '', to_string_int i])
    (sq (serve readEvent_Wait ProcessRead_body m n) readEvent_Set)"

definition ProcessWrite :: "nat \<Rightarrow> nat \<Rightarrow> int \<Rightarrow> (world, unit) cpp" where
  "ProcessWrite m n i =
     sq (log_info ''void ConnectionManager::ProcessWrite(int)'' [''start, id: '', to_string_int i])
    (sq (serve writeEvent_Wait ProcessWrite_body m n) writeEvent_Set)"

end
