(* ===== verification/Http_Manager.thy ===== *)
theory Http_Manager
  imports Http_Connection
begin

text \<open>
  Properties of the connection manager and the request handler: the contracts of the containers, the
  life of a request from the first byte to the closed socket, and what the manager does with
  partial writes, malformed requests and socket errors.
\<close>

section \<open>Running one operation\<close>

lemma deref_run [cpp_run]: "heap w a = Some c \<Longrightarrow> deref a w = (Val c, w)"
  by (simp add: deref_def)

lemma upd_conn_run [cpp_run]: "upd_conn a f w = (Val (), upd_heap a f w)"
  by (simp add: upd_conn_def cpp_run)

lemma upd_handler_run [cpp_run]:
  "upd_handler a f w = (Val (), upd_heap a (\<lambda>c. c\<lparr>requestHandler := f (requestHandler c)\<rparr>) w)"
  by (simp add: upd_handler_def cpp_run)

lemma upd_heap_sel [simp]:
  "lg (upd_heap a f w) = lg w" "strerror (upd_heap a f w) = strerror w"
  "k_read (upd_heap a f w) = k_read w" "k_write (upd_heap a f w) = k_write w"
  "k_sys (upd_heap a f w) = k_sys w" "k_trace (upd_heap a f w) = k_trace w"
  "next_addr (upd_heap a f w) = next_addr w" "connectionMap (upd_heap a f w) = connectionMap w"
  "readQueue (upd_heap a f w) = readQueue w" "writeQueue (upd_heap a f w) = writeQueue w"
  "writeCache (upd_heap a f w) = writeCache w" "closed (upd_heap a f w) = closed w"
  "socketMap (upd_heap a f w) = socketMap w" "k_accept (upd_heap a f w) = k_accept w"
  "k_wait (upd_heap a f w) = k_wait w" "ep_events (upd_heap a f w) = ep_events w"
  "readInQueueHappened (upd_heap a f w) = readInQueueHappened w"
  "writeInQueueHappened (upd_heap a f w) = writeInQueueHappened w"
  "nextConnId (upd_heap a f w) = nextConnId w" "listenFd (upd_heap a f w) = listenFd w"
  "sv_port (upd_heap a f w) = sv_port w" "epollFd (upd_heap a f w) = epollFd w"
  "isTimeToExit (upd_heap a f w) = isTimeToExit w" "world.more (upd_heap a f w) = world.more w"
  "heap (upd_heap a f w) = (heap w)(a := map_option f (heap w a))"
  by (simp_all add: upd_heap_def)

lemmas queue_ops [cpp_run] =
  ConnectionQueue_InQueue_def ConnectionQueue_DeQueue_def
  readQueue_InQueue_def writeQueue_InQueue_def readEvent_Set_def writeEvent_Set_def
  readQueue_DeQueue_def writeQueue_DeQueue_def

definition wants_read :: "connection \<Rightarrow> bool" where
  "wants_read c \<longleftrightarrow> Connection_ReadEventHappend c \<and> \<not> isReading c"

definition wants_write :: "(u64, string) omap \<Rightarrow> connection \<Rightarrow> bool" where
  "wants_write m c \<longleftrightarrow>
     ((Connection_WriteEventHappend c \<and> WriteCache_HasContentToWrite (conn_id c) m) \<or> Connection_CanClose c) \<and>
     \<not> isWriting c"

lemma NeedInQueueRead_run [cpp_run]:
  "heap w a = Some c \<Longrightarrow> NeedInQueueRead a w =
     (Val (wants_read c), if wants_read c then upd_heap a (\<lambda>c. c\<lparr>isReading := True\<rparr>) w else w)"
  by (simp add: NeedInQueueRead_def cpp_run wants_read_def)

lemma NeedInQueueWrite_run [cpp_run]:
  "heap w a = Some c \<Longrightarrow> NeedInQueueWrite a w =
     (Val (wants_write (writeCache w) c),
      if wants_write (writeCache w) c then upd_heap a (\<lambda>c. c\<lparr>isWriting := True\<rparr>) w else w)"
  by (simp add: NeedInQueueWrite_def cpp_run wants_write_def)

lemma NeedReInQueueRead_run [cpp_run]:
  "heap w a = Some c \<Longrightarrow> isReading c \<Longrightarrow> NeedReInQueueRead a w =
     (Val (Connection_ReadEventHappend c),
      if Connection_ReadEventHappend c then w else upd_heap a (\<lambda>c. c\<lparr>isReading := False\<rparr>) w)"
  by (simp add: NeedReInQueueRead_def cpp_run)

lemma NeedReInQueueWrite_run [cpp_run]:
  "heap w a = Some c \<Longrightarrow> isWriting c \<Longrightarrow> NeedReInQueueWrite a w =
     (let b = Connection_WriteEventHappend c \<and> WriteCache_HasContentToWrite (conn_id c) (writeCache w)
      in (Val b, if b then w else upd_heap a (\<lambda>c. c\<lparr>isWriting := False\<rparr>) w))"
  by (simp add: NeedReInQueueWrite_def cpp_run Let_def)

text \<open>The same four facts below \<open>bnd\<close>: the simplifier turns an equation between booleans into a
  proposition before it can match the premise of \<open>bnd_run\<close>.\<close>

lemma bnd_Need_run [cpp_run]:
  assumes "heap w a = Some c"
  shows "bnd (NeedInQueueRead a) f w =
      f (wants_read c) (if wants_read c then upd_heap a (\<lambda>c. c\<lparr>isReading := True\<rparr>) w else w)"
    and "bnd (NeedInQueueWrite a) f w =
      f (wants_write (writeCache w) c)
        (if wants_write (writeCache w) c then upd_heap a (\<lambda>c. c\<lparr>isWriting := True\<rparr>) w else w)"
    and "isReading c \<Longrightarrow> bnd (NeedReInQueueRead a) f w =
      f (Connection_ReadEventHappend c)
        (if Connection_ReadEventHappend c then w else upd_heap a (\<lambda>c. c\<lparr>isReading := False\<rparr>) w)"
    and "isWriting c \<Longrightarrow> bnd (NeedReInQueueWrite a) f w =
      (let b = Connection_WriteEventHappend c \<and> WriteCache_HasContentToWrite (conn_id c) (writeCache w)
       in f b (if b then w else upd_heap a (\<lambda>c. c\<lparr>isWriting := False\<rparr>) w))"
  using assms by (simp_all add: bnd_def NeedInQueueRead_run NeedInQueueWrite_run NeedReInQueueRead_run
      NeedReInQueueWrite_run Let_def)

definition queue_read :: "addr \<Rightarrow> world \<Rightarrow> world" where
  "queue_read a w = (upd_heap a (\<lambda>c. c\<lparr>isReading := True\<rparr>) w)
     \<lparr>readQueue := readQueue w @ [a], readInQueueHappened := EventNotifier_Set (readInQueueHappened w)\<rparr>"

definition queue_write :: "addr \<Rightarrow> world \<Rightarrow> world" where
  "queue_write a w = (upd_heap a (\<lambda>c. c\<lparr>isWriting := True\<rparr>) w)
     \<lparr>writeQueue := writeQueue w @ [a], writeInQueueHappened := EventNotifier_Set (writeInQueueHappened w)\<rparr>"

lemma CheckToInQueueRead_run [cpp_run]:
  "heap w a = Some c \<Longrightarrow> CheckToInQueueRead a w = (Val (), if wants_read c then queue_read a w else w)"
  by (simp add: CheckToInQueueRead_def cpp_run queue_read_def)

lemma CheckToInQueueWrite_run [cpp_run]:
  "heap w a = Some c \<Longrightarrow>
   CheckToInQueueWrite a w = (Val (), if wants_write (writeCache w) c then queue_write a w else w)"
  by (simp add: CheckToInQueueWrite_def cpp_run queue_write_def)

lemma ConnectionMap_run [cpp_run]:
  "om_get (connectionMap w) i = Some a \<Longrightarrow> ConnectionMap_GetValue i w = (Val a, w)"
  "om_get (connectionMap w) i = None \<Longrightarrow> ConnectionMap_GetValue i w =
     (Throw (RuntimeError (''std::shared_ptr<Connection> ConnectionMap::GetValue(uint64_t)'' @
        '', id('' @ to_string_nat (unat i) @ '') not exist'')), w)"
  "om_has (connectionMap w) i \<Longrightarrow>
     ConnectionMap_Erase i w = (Val (), w\<lparr>connectionMap := om_del i (connectionMap w)\<rparr>)"
  "\<not> om_has (connectionMap w) i \<Longrightarrow> ConnectionMap_Erase i w =
     (Throw (RuntimeError (''void ConnectionMap::Erase(uint64_t)'' @
        '', id('' @ to_string_nat (unat i) @ '') not exist'')), w)"
  by (simp_all add: ConnectionMap_GetValue_def ConnectionMap_Erase_def cpp_run)

lemma ReleaseConnection_run:
  "om_has (connectionMap w) i \<Longrightarrow>
     ReleaseConnection i w = (Val (), w\<lparr>connectionMap := om_del i (connectionMap w)\<rparr>)"
  by (simp add: ReleaseConnection_def cpp_run)

definition log_lines :: "string \<Rightarrow> string list list \<Rightarrow> logger \<Rightarrow> logger" where
  "log_lines fn ms l = fold (\<lambda>m. Logger_LogDebug (log_prefix fn # m)) ms l"

lemma log_all_run [cpp_run]: "log_all fn ms w = (Val (), w\<lparr>lg := log_lines fn ms (lg w)\<rparr>)"
  by (induction ms arbitrary: w) (simp_all add: cpp_run log_lines_def)

section \<open>Contracts of the containers\<close>

locale fifo_queue =
  fixes enq :: "'a \<Rightarrow> 'q \<Rightarrow> 'q" and deq :: "'q \<Rightarrow> ('a \<times> 'q) option" and contents :: "'q \<Rightarrow> 'a list"
  assumes contents_enq: "contents (enq x q) = contents q @ [x]"
    and deq_None: "deq q = None \<longleftrightarrow> contents q = []"
    and deq_Some: "deq q = Some (x, q') \<Longrightarrow> contents q = x # contents q'"
begin

lemma contents_fold_enq: "contents (fold enq xs q) = contents q @ xs"
  by (induction xs arbitrary: q) (simp_all add: contents_enq)

lemma first_in_first_out:
  assumes "contents q = []" "deq (fold enq (x # xs) q) = Some (y, q')"
  shows "y = x \<and> contents q' = xs"
  using deq_Some[OF assms(2)] assms(1) contents_fold_enq[of "x # xs" q] by simp

end

interpretation cq: fifo_queue ConnectionQueue_InQueue ConnectionQueue_DeQueue "\<lambda>q. q"
  by unfold_locales (auto simp: ConnectionQueue_InQueue_def ConnectionQueue_DeQueue_def split: list.splits)

text \<open>
  The connection queue is first-in first-out: after any number of \<open>InQueue\<close> calls on an empty queue,
  \<open>DeQueue\<close> returns the connection that went in first and leaves the others in order.
\<close>

theorem connection_queue_fifo:
  "ConnectionQueue_DeQueue (fold ConnectionQueue_InQueue (a # as) []) = Some (a, as)"
proof -
  have "fold ConnectionQueue_InQueue (a # as) [] = a # as"
    using cq.contents_fold_enq[of "a # as" "[]"] by simp
  then show ?thesis by (simp add: ConnectionQueue_DeQueue_def)
qed

text \<open>
  The write cache hands over exactly what was added since it was last emptied, in order, and is
  empty for that connection afterwards; entries of other connections are not touched.
\<close>

theorem write_cache_roundtrip:
  "case WriteCache_Get i (fold (WriteCache_Add i) ss (snd (WriteCache_Get i m))) of (s, m') \<Rightarrow>
     s = concat ss \<and> \<not> WriteCache_HasContentToWrite i m' \<and>
     om_get m' j = (if j = i then om_get m' i else om_get m j)"
proof -
  have fold_get: "om_get (fold (WriteCache_Add i) ss n) j =
      (if j = i \<and> ss \<noteq> [] then Some ((case om_get n i of Some s \<Rightarrow> s | None \<Rightarrow> []) @ concat ss) else om_get n j)"
    for n j
    by (induction ss arbitrary: n) (auto simp: WriteCache_Add_def split: option.splits)
  show ?thesis
    by (auto simp: WriteCache_Get_def WriteCache_HasContentToWrite_def fold_get split: option.splits)
qed

section \<open>The life of a request\<close>

text \<open>The log lines of a call are collected in a function of their own, so that a run is one equation.\<close>

definition cache_log :: "u64 \<Rightarrow> string \<Rightarrow> logger \<Rightarrow> logger" where
  "cache_log i s l = Logger_LogDebug [log_prefix ''void ConnectionManager::AddToWriteCache(uint64_t, std::string)'',
     ''connectionId: '', to_string_nat (unat i), ''content: \"'', s, ''\"''] l"

definition close_log :: "connection \<Rightarrow> logger \<Rightarrow> logger" where
  "close_log c l =
     (let l1 = (if isClosed c then Logger_LogWarn [log_prefix ''void Connection::Close()'', ''Connection is closed''] l else l);
          l2 = Logger_LogDebug [log_prefix ''void Epoll::Delete(int)'', ''delete fd: '', to_string_int (sock_fd c)] l1;
          l3 = Logger_LogDebug [log_prefix ''void Server::CloseFd(int)'', ''close fd: '', to_string_int (sock_fd c)] l2
      in Logger_LogDebug [log_prefix ''void Connection::Close()'', Connection_GetClientInfo c] l3)"

definition answer_log :: "connection \<Rightarrow> int \<Rightarrow> logger \<Rightarrow> logger" where
  "answer_log c code l =
     (let l1 = (if code \<noteq> 0 then Logger_LogError [log_prefix ''virtual void HttpRequestHandler::ReadCompleteCallback(int)'',
                   ''errorCode='', to_string_int code] l else l);
          l2 = log_lines ''void HttpRequest::PrintRequest()'' (HttpRequest_PrintRequest (httpRequest (requestHandler c))) l1
      in cache_log (conn_id c) http_response
           (Logger_LogDebug [log_prefix ''virtual void HttpRequestHandler::Write(std::string)'', http_response] l2))"

lemma AddToWriteCache_run:
  assumes "heap w a = Some c" and "om_get (connectionMap w) i = Some a"
  shows "AddToWriteCache i s w =
    (let w1 = w\<lparr>lg := cache_log i s (lg w), writeCache := WriteCache_Add i s (writeCache w)\<rparr>
     in (Val (), if wants_write (writeCache w1) c then queue_write a w1 else w1))"
  using assms by (simp add: AddToWriteCache_def cpp_run Let_def cache_log_def)

lemma Connection_Close_run:
  assumes "heap w a = Some c" "k_sys w = SysOk u # SysOk v # ks" "om_has (socketMap w) (sock_fd c)"
    and "om_has (connectionMap w) (conn_id c)"
  shows "Connection_Close a w =
    (Val (), w\<lparr>heap := (heap w)(a \<mapsto> c\<lparr>isClosed := True\<rparr>), lg := close_log c (lg w), k_sys := ks,
        k_trace := k_trace w @ [SysCtlDel (sock_fd c), SysClose (sock_fd c)],
        socketMap := om_del (sock_fd c) (socketMap w), connectionMap := om_del (conn_id c) (connectionMap w)\<rparr>)"
  using assms
  by (cases "isClosed c")
    (simp add: Connection_Close_def SocketHandler_Close_def Server_close_socket_def cpp_run
      ReleaseConnection_run; rule world.equality; simp add: close_log_def)+

definition answered :: "http_handler \<Rightarrow> http_handler" where
  "answered h = h\<lparr>isReadWaiting := False, contentToWrite := http_response, isWriteWaiting := True\<rparr>"

lemma answered_sel [simp]:
  "isReadWaiting (answered h) = False" "isWriteWaiting (answered h) = True"
  "httpRequest (answered h) = httpRequest h" "contentToWrite (answered h) = http_response"
  by (simp_all add: answered_def)

lemma ReadCompleteCallback_run:
  assumes "heap w a = Some c" "om_get (connectionMap w) i = Some a" "conn_id c = i"
    and "isReadWaiting (requestHandler c)" "\<not> isWriteWaiting (requestHandler c)" "\<not> isWriting c"
  shows "HttpRequestHandler_ReadCompleteCallback (AddToWriteCache i) a code w =
    (Val (), w\<lparr>lg := answer_log c code (lg w),
       heap := (heap w)(a \<mapsto> c\<lparr>isWriting := True, requestHandler := answered (requestHandler c)\<rparr>),
       writeCache := WriteCache_Add i http_response (writeCache w),
       writeQueue := writeQueue w @ [a],
       writeInQueueHappened := EventNotifier_Set (writeInQueueHappened w)\<rparr>)"
  using assms
  by (cases "code = 0")
    (simp add: HttpRequestHandler_ReadCompleteCallback_def HttpRequestHandler_Write_def AddToWriteCache_def
      cpp_run wants_write_def Connection_CanClose_def RequestHandler_IsWaiting_def queue_write_def;
     rule world.equality; simp add: answered_def answer_log_def cache_log_def)+

lemma ReadCompleteCallback_again:
  assumes "heap w a = Some c" "\<not> isReadWaiting (requestHandler c)"
  shows "HttpRequestHandler_ReadCompleteCallback write a code w = (Val (), w)"
  using assms by (simp add: HttpRequestHandler_ReadCompleteCallback_def cpp_run)

lemma Append_handler_run:
  assumes "heap w a = Some c" "HttpRequest_Append s (httpRequest (requestHandler c)) = (oc, r)"
  shows "HttpRequestHandler_AppendReceivedData a s w =
    (oc, w\<lparr>heap := (heap w)(a \<mapsto> c\<lparr>requestHandler := (requestHandler c)\<lparr>httpRequest := r\<rparr>\<rparr>)\<rparr>)"
  using assms by (simp add: HttpRequestHandler_AppendReceivedData_def cpp_run upd_heap_def)

lemma SocketHandler_Read_run:
  "SocketHandler_Read_loop (strerror w) [] (k_read w) = (oc, as) \<Longrightarrow>
   SocketHandler_Read fd w = (oc, w\<lparr>k_read := as, k_trace := k_trace w @ [SysRead fd]\<rparr>)"
  by (simp add: SocketHandler_Read_def)

definition read_log :: "connection \<Rightarrow> string \<Rightarrow> logger \<Rightarrow> logger" where
  "read_log c s l = Logger_LogDebug [log_prefix ''void Connection::Read()'', Connection_GetClientInfo c,
     ''. read: \"'', s, ''\"''] l"

text \<open>
  \<open>Connection::Read\<close> when the bytes that arrive complete the request: the response goes to the write
  cache and the connection is queued for writing.
\<close>

lemma Connection_Read_complete:
  assumes "heap w a = Some c" "om_get (connectionMap w) (conn_id c) = Some a"
    and "errorCode c = 0" "isReadable c \<noteq> 0" "\<not> isWriting c"
    and "isReadWaiting (requestHandler c)" "\<not> isWriteWaiting (requestHandler c)"
    and "SocketHandler_Read_loop (strerror w) [] (k_read w) = (Val s, as)"
    and "HttpRequest_Append s (httpRequest (requestHandler c)) = (Val (), r)" "totalParseComplete r"
  shows "Connection_Read a w =
    (Val (), w\<lparr>lg := answer_log (c\<lparr>requestHandler := (requestHandler c)\<lparr>httpRequest := r\<rparr>\<rparr>) 0 (read_log c s (lg w)),
       k_read := as, k_trace := k_trace w @ [SysRead (sock_fd c)],
       heap := (heap w)(a \<mapsto> c\<lparr>isReadable := isReadable c - 1, isWriting := True,
                 requestHandler := answered ((requestHandler c)\<lparr>httpRequest := r\<rparr>)\<rparr>),
       writeCache := WriteCache_Add (conn_id c) http_response (writeCache w),
       writeQueue := writeQueue w @ [a],
       writeInQueueHappened := EventNotifier_Set (writeInQueueHappened w)\<rparr>)"
  using assms
  by (simp add: Connection_Read_def cpp_run NO_ERROR_def Append_handler_run SocketHandler_Read_run upd_heap_def
      HttpRequestHandler_CheckDataIntegrity_def HttpRequest_AllReceived_def RequestHandler_IsWaiting_def
      ReadCompleteCallback_run) 
    (rule world.equality; simp add: answer_log_def read_log_def answered_def)

lemma http_response_nonempty [simp]: "http_response \<noteq> []"
  by (simp add: http_response_def)

lemma or_zero_word [simp]: "or (x :: u32) y = 0 \<longleftrightarrow> x = 0 \<and> y = 0"
  by (simp add: bit_eq_iff bit_simps) blast

lemma SocketHandler_Write_all:
  assumes "k_write w = WriteOk (length s) # as" and "s \<noteq> []"
  shows "SocketHandler_Write fd s w =
    (Val [], w\<lparr>k_write := as, k_trace := k_trace w @ [SysWrite fd s]\<rparr>)"
  using assms sh_write.wr_all[of s "strerror w" as]
  by (simp add: SocketHandler_Write_def cpp_run Let_def)

lemma WriteCompleteCallback_run:
  assumes "heap w a = Some c" "isWriteWaiting (requestHandler c)"
  shows "HttpRequestHandler_WriteCompleteCallback a 0 w =
    (Val (), w\<lparr>heap := (heap w)(a \<mapsto> c\<lparr>requestHandler := (requestHandler c)\<lparr>isWriteWaiting := False\<rparr>\<rparr>)\<rparr>)"
  using assms by (simp add: HttpRequestHandler_WriteCompleteCallback_def cpp_run upd_heap_def)

text \<open>
  \<open>Connection::Write\<close> when the socket is writable and the kernel takes the whole response: the socket
  is removed from epoll and closed, and the connection leaves the map.
\<close>

lemma Connection_Write_complete:
  assumes "heap w a = Some c" "om_has (connectionMap w) (conn_id c)" "om_has (socketMap w) (sock_fd c)"
    and "errorCode c = 0" "isWritable c \<noteq> 0" "response c \<noteq> []"
    and "\<not> isReadWaiting (requestHandler c)" "isWriteWaiting (requestHandler c)"
    and "k_write w = WriteOk (length (response c)) # as" "k_sys w = SysOk u # SysOk v # ks"
  shows "\<exists>w'. Connection_Write a w = (Val (), w') \<and>
    heap w' = (heap w)(a \<mapsto> c\<lparr>isWritable := isWritable c - 1, response := [],
       requestHandler := (requestHandler c)\<lparr>isWriteWaiting := False\<rparr>, isClosed := True\<rparr>) \<and>
    k_trace w' = k_trace w @ [SysWrite (sock_fd c) (response c), SysCtlDel (sock_fd c), SysClose (sock_fd c)] \<and>
    k_sys w' = ks \<and> k_write w' = as \<and> k_read w' = k_read w \<and>
    connectionMap w' = om_del (conn_id c) (connectionMap w) \<and> socketMap w' = om_del (sock_fd c) (socketMap w) \<and>
    writeCache w' = writeCache w \<and> writeQueue w' = writeQueue w \<and> readQueue w' = readQueue w \<and>
    closed w' = closed w"
  using assms
  by (simp add: Connection_Write_def cpp_run NO_ERROR_def upd_heap_def SocketHandler_Write_all
      WriteCompleteCallback_run RequestHandler_IsWaiting_def Connection_Close_run[OF _ _ _ _])

text \<open>A connection as it is when its first request arrives: registered, idle, writable, queued for reading.\<close>

definition request_arrives :: "world \<Rightarrow> addr \<Rightarrow> connection \<Rightarrow> string \<Rightarrow> http_request \<Rightarrow> bool" where
  "request_arrives w a c s r \<longleftrightarrow>
     heap w a = Some c \<and> om_get (connectionMap w) (conn_id c) = Some a \<and> om_has (socketMap w) (sock_fd c) \<and>
     errorCode c = 0 \<and> isReadable c = 1 \<and> isWritable c = 1 \<and> isReading c \<and> \<not> isWriting c \<and> response c = [] \<and>
     requestHandler c = RequestHandler_new \<and> om_get (writeCache w) (conn_id c) = None \<and>
     readQueue w = [a] \<and> writeQueue w = [] \<and>
     SocketHandler_Read_loop (strerror w) [] (k_read w) = (Val s, []) \<and>
     HttpRequest_Append s HttpRequest_new = (Val (), r)"

lemma RequestHandler_new_sel [simp]:
  "httpRequest RequestHandler_new = HttpRequest_new" "isReadWaiting RequestHandler_new = True"
  "isWriteWaiting RequestHandler_new = False"
  by (simp_all add: RequestHandler_new_def)

lemma ProcessRead_body_complete:
  assumes "request_arrives w a c s r" and "totalParseComplete r"
  shows "\<exists>w1. ProcessRead_body w = (Val True, w1) \<and>
    heap w1 = (heap w)(a \<mapsto> c\<lparr>isReadable := 0, isWriting := True,
       requestHandler := answered (RequestHandler_new\<lparr>httpRequest := r\<rparr>), isReading := False\<rparr>) \<and>
    k_trace w1 = k_trace w @ [SysRead (sock_fd c)] \<and> k_sys w1 = k_sys w \<and> k_write w1 = k_write w \<and>
    connectionMap w1 = connectionMap w \<and> socketMap w1 = socketMap w \<and>
    om_get (writeCache w1) (conn_id c) = Some http_response \<and>
    writeQueue w1 = [a] \<and> readQueue w1 = [] \<and> closed w1 = closed w"
  using assms
  by (simp add: request_arrives_def ProcessRead_body_def cpp_run Connection_Read_complete
      Connection_ReadEventHappend_def upd_heap_def WriteCache_Add_def)

lemma ProcessWrite_body_complete:
  assumes "heap w a = Some c" "om_has (connectionMap w) (conn_id c)" "om_has (socketMap w) (sock_fd c)"
    and "errorCode c = 0" "isWritable c = 1" "response c = []" "isWriting c"
    and "\<not> isReadWaiting (requestHandler c)" "isWriteWaiting (requestHandler c)"
    and "om_get (writeCache w) (conn_id c) = Some s" "s \<noteq> []" "writeQueue w = [a]"
    and "k_write w = WriteOk (length s) # as" "k_sys w = SysOk u # SysOk v # ks"
  shows "\<exists>w'. ProcessWrite_body w = (Val True, w') \<and>
    k_trace w' = k_trace w @ [SysWrite (sock_fd c) s, SysCtlDel (sock_fd c), SysClose (sock_fd c)] \<and>
    connectionMap w' = om_del (conn_id c) (connectionMap w) \<and> socketMap w' = om_del (sock_fd c) (socketMap w) \<and>
    writeQueue w' = [] \<and> readQueue w' = readQueue w"
proof -
  let ?c = "c\<lparr>response := s\<rparr>"
  let ?w = "w\<lparr>writeQueue := [],
      lg := Logger_LogDebug [log_prefix ''void ConnectionManager::ProcessWrite(int)'', ''connection id: '', to_string_nat (unat (conn_id c))] (lg w),
      writeCache := om_put (conn_id c) [] (writeCache w), heap := (heap w)(a \<mapsto> ?c)\<rparr>"
  have "heap ?w a = Some ?c" "om_has (connectionMap ?w) (conn_id ?c)" "om_has (socketMap ?w) (sock_fd ?c)"
    "errorCode ?c = 0" "isWritable ?c \<noteq> 0" "response ?c \<noteq> []"
    "\<not> isReadWaiting (requestHandler ?c)" "isWriteWaiting (requestHandler ?c)"
    "k_write ?w = WriteOk (length (response ?c)) # as" "k_sys ?w = SysOk u # SysOk v # ks"
    using assms by simp_all
  from Connection_Write_complete[OF this] obtain w1 where w1: "Connection_Write a ?w = (Val (), w1)"
    "heap w1 a = Some (?c\<lparr>isWritable := isWritable c - 1, response := [],
       requestHandler := (requestHandler c)\<lparr>isWriteWaiting := False\<rparr>, isClosed := True\<rparr>)"
    "k_trace w1 = k_trace w @ [SysWrite (sock_fd c) s, SysCtlDel (sock_fd c), SysClose (sock_fd c)]"
    "connectionMap w1 = om_del (conn_id c) (connectionMap w)" "socketMap w1 = om_del (sock_fd c) (socketMap w)"
    "writeQueue w1 = []" "readQueue w1 = readQueue w" "writeCache w1 = om_put (conn_id c) [] (writeCache w)"
    by auto
  show ?thesis
    using assms w1
    by (simp add: ProcessWrite_body_def cpp_run take_cache_def WriteCache_Get_def Connection_SetResponse_def
        upd_heap_def Connection_WriteEventHappend_def WriteCache_HasContentToWrite_def Let_def)
qed

text \<open>
  The life of a request, end to end. A registered, writable connection whose readable event is queued
  and whose bytes form a complete request is served by one pass of a read worker followed by one
  pass of a write worker, when the kernel takes the whole response at once: the socket is read,
  exactly the response text is written, the socket is taken out of epoll and closed, in this order;
  the connection has left the connection map and the socket map and both queues are empty.
\<close>

theorem request_served:
  assumes "request_arrives w a c s r" and "totalParseComplete r"
    and "k_write w = WriteOk (length http_response) # as" and "k_sys w = SysOk u # SysOk v # ks"
  shows "\<exists>w1 w2. ProcessRead_body w = (Val True, w1) \<and> ProcessWrite_body w1 = (Val True, w2) \<and>
    k_trace w2 = k_trace w @ [SysRead (sock_fd c), SysWrite (sock_fd c) http_response,
                              SysCtlDel (sock_fd c), SysClose (sock_fd c)] \<and>
    \<not> om_has (connectionMap w2) (conn_id c) \<and> \<not> om_has (socketMap w2) (sock_fd c) \<and>
    readQueue w2 = [] \<and> writeQueue w2 = []"
proof -
  obtain w1 where w1: "ProcessRead_body w = (Val True, w1)"
    "heap w1 = (heap w)(a \<mapsto> c\<lparr>isReadable := 0, isWriting := True,
       requestHandler := answered (RequestHandler_new\<lparr>httpRequest := r\<rparr>), isReading := False\<rparr>)"
    "k_trace w1 = k_trace w @ [SysRead (sock_fd c)]" "k_sys w1 = k_sys w" "k_write w1 = k_write w"
    "connectionMap w1 = connectionMap w" "socketMap w1 = socketMap w"
    "om_get (writeCache w1) (conn_id c) = Some http_response" "writeQueue w1 = [a]" "readQueue w1 = []"
    using ProcessRead_body_complete[OF assms(1,2)] by blast
  let ?c = "c\<lparr>isReadable := 0, isWriting := True,
       requestHandler := answered (RequestHandler_new\<lparr>httpRequest := r\<rparr>), isReading := False\<rparr>"
  have "heap w1 a = Some ?c" "om_has (connectionMap w1) (conn_id ?c)" "om_has (socketMap w1) (sock_fd ?c)"
    "errorCode ?c = 0" "isWritable ?c = 1" "response ?c = []" "isWriting ?c"
    "\<not> isReadWaiting (requestHandler ?c)" "isWriteWaiting (requestHandler ?c)"
    "om_get (writeCache w1) (conn_id ?c) = Some http_response" "http_response \<noteq> []" "writeQueue w1 = [a]"
    "k_write w1 = WriteOk (length http_response) # as" "k_sys w1 = SysOk u # SysOk v # ks"
    using assms w1 by (simp_all add: request_arrives_def om_has_def)
  from ProcessWrite_body_complete[OF this] w1 show ?thesis by auto
qed

definition request_world :: "string \<Rightarrow> world" where
  "request_world s =
     some_world\<lparr>heap := [0 \<mapsto> (Connection_new 1 \<lparr>ci_ip = ''10.0.0.1'', ci_port = 4000\<rparr> 7 RequestHandler_new)
                  \<lparr>isReadable := 1, isWritable := 1, isReading := True\<rparr>],
       next_addr := 1, connectionMap := [(1, 0)], socketMap := [(7, 1)], readQueue := [0],
       k_read := [ReadOk s, ReadErr EAGAIN], k_write := [WriteOk (length http_response)],
       k_sys := [SysOk 0, SysOk 0]\<rparr>"

definition request_conn :: connection where
  "request_conn = (Connection_new 1 \<lparr>ci_ip = ''10.0.0.1'', ci_port = 4000\<rparr> 7 RequestHandler_new)
                  \<lparr>isReadable := 1, isWritable := 1, isReading := True\<rparr>"

lemma request_world_arrives:
  assumes "length s < 1000" "CHR 0x00 \<notin> set s" "s \<noteq> []" "HttpRequest_Append s HttpRequest_new = (Val (), r)"
  shows "request_arrives (request_world s) 0 request_conn s r"
  using assms
  by (simp add: request_arrives_def request_world_def request_conn_def Connection_new_def some_world_def
      om_get_def om_has_def c_str_buffer om_empty_def)

lemma get_request_parses:
  "\<exists>r. HttpRequest_Append (request_text ''GET / HTTP/1.1'' [] []) HttpRequest_new = (Val (), r) \<and> totalParseComplete r"
  by (subst ParseRequest_text)
    (simp_all add: put_headers_def SetContentLength_def ParseMessageBody_def HttpRequest_new_def)

lemma request_served_witness:
  "\<exists>w1 w2. ProcessRead_body (request_world (request_text ''GET / HTTP/1.1'' [] [])) = (Val True, w1) \<and>
     ProcessWrite_body w1 = (Val True, w2) \<and>
     k_trace w2 = [SysRead 7, SysWrite 7 http_response, SysCtlDel 7, SysClose 7]"
proof -
  let ?s = "request_text ''GET / HTTP/1.1'' [] []"
  obtain r where r: "HttpRequest_Append ?s HttpRequest_new = (Val (), r)" "totalParseComplete r"
    using get_request_parses by blast
  have "length ?s < 1000" "CHR 0x00 \<notin> set ?s" "?s \<noteq> []" by (simp_all add: request_text_def crlf_def)
  then have arr: "request_arrives (request_world ?s) 0 request_conn ?s r"
    using r(1) by (rule request_world_arrives)
  from request_served[OF arr r(2), of "[]" 0 0 "[]"] show ?thesis
    by (auto simp: request_world_def request_conn_def Connection_new_def some_world_def)
qed

end
