(* ===== verification/Http_Safety.thy ===== *)
theory Http_Safety
  imports Http_Manager
begin

text \<open>
  Memory safety of the connection manager: every pointer that the connection map or one of the
  queues holds refers to a live connection, whatever calls arrive in whatever order and however
  each of them ends, so no call dereferences a null \<open>shared_ptr\<close>.
\<close>

section \<open>The invariant\<close>

definition mgr_wf :: "world \<Rightarrow> bool" where
  "mgr_wf w \<longleftrightarrow>
     (\<forall>i a. om_get (connectionMap w) i = Some a \<longrightarrow> (\<exists>c. heap w a = Some c \<and> conn_id c = i)) \<and>
     (\<forall>a \<in> set (readQueue w) \<union> set (writeQueue w). heap w a \<noteq> None) \<and>
     (\<forall>a. next_addr w \<le> a \<longrightarrow> heap w a = None) \<and>
     om_wf (connectionMap w)"

text \<open>
  \<open>safe A m\<close>: started with the invariant and with the addresses \<open>A\<close> live, \<open>m\<close> keeps the invariant
  and every live address, and it does not dereference null.
\<close>

definition safe :: "addr set \<Rightarrow> (world, 'a) cpp \<Rightarrow> bool" where
  "safe A m \<longleftrightarrow> (\<forall>w. mgr_wf w \<and> A \<subseteq> dom (heap w) \<longrightarrow>
     mgr_wf (snd (m w)) \<and> dom (heap w) \<subseteq> dom (heap (snd (m w))) \<and> fst (m w) \<noteq> Undef ''null connection'')"

lemma safeI:
  assumes "\<And>w. mgr_wf w \<Longrightarrow> A \<subseteq> dom (heap w) \<Longrightarrow>
    mgr_wf (snd (m w)) \<and> dom (heap w) \<subseteq> dom (heap (snd (m w))) \<and> fst (m w) \<noteq> Undef ''null connection''"
  shows "safe A m"
  using assms by (simp add: safe_def)

lemma safeD:
  assumes "safe A m" "mgr_wf w" "A \<subseteq> dom (heap w)" "m w = (r, w')"
  shows "mgr_wf w'" "dom (heap w) \<subseteq> dom (heap w')" "r \<noteq> Undef ''null connection''"
  using assms(1)[unfolded safe_def, rule_format, of w] assms(2-4) by simp_all

lemma safe_mono: "safe A m \<Longrightarrow> A \<subseteq> B \<Longrightarrow> safe B m"
  unfolding safe_def by blast

named_theorems safe_rules \<open>structural rules for memory safety\<close>

lemma safe_basic [simp, safe_rules]:
  "safe A (ret v)" "safe A (throw e)" "safe A (gets f)" "safe A skip"
  by (simp_all add: safe_def cpp_run)

text \<open>What the continuation of a call may rely on: that the call returned, and with which value.\<close>

lemma safe_bnd_value:
  assumes m: "safe A m"
    and f: "\<And>w x w'. mgr_wf w \<Longrightarrow> A \<subseteq> dom (heap w) \<Longrightarrow> m w = (Val x, w') \<Longrightarrow>
              \<exists>B. B \<subseteq> dom (heap w') \<and> safe B (f x)"
  shows "safe A (bnd m f)"
proof (rule safeI)
  fix w assume w: "mgr_wf w" "A \<subseteq> dom (heap w)"
  obtain r w' where r: "m w = (r, w')" by fastforce
  note w' = safeD[OF m w r]
  show "mgr_wf (snd (bnd m f w)) \<and> dom (heap w) \<subseteq> dom (heap (snd (bnd m f w))) \<and>
        fst (bnd m f w) \<noteq> Undef ''null connection''"
  proof (cases r)
    case (Val x)
    then obtain B where B: "B \<subseteq> dom (heap w')" "safe B (f x)"
      using f[OF w] r by blast
    with w'(1) have "mgr_wf (snd (f x w')) \<and> dom (heap w') \<subseteq> dom (heap (snd (f x w'))) \<and>
        fst (f x w') \<noteq> Undef ''null connection''"
      by (simp add: safe_def)
    moreover have "bnd m f w = f x w'" using r Val by (simp add: bnd_def)
    ultimately show ?thesis using w'(2) by auto
  qed (use r w' in \<open>simp_all add: bnd_def\<close>)
qed

lemma safe_dom: "safe A m \<Longrightarrow> mgr_wf w \<Longrightarrow> A \<subseteq> dom (heap w) \<Longrightarrow> m w = (r, w') \<Longrightarrow> A \<subseteq> dom (heap w')"
  unfolding safe_def by (metis order_trans snd_conv)

lemma safe_bnd [safe_rules]:
  assumes "safe A m" "\<And>x. safe A (f x)"
  shows "safe A (bnd m f)"
  using assms by (meson safe_bnd_value safe_dom)

lemma safe_sq [safe_rules]: "safe A m \<Longrightarrow> safe A k \<Longrightarrow> safe A (sq m k)"
  unfolding sq_def by (rule safe_bnd)

lemma safe_whenb [safe_rules]: "(b \<Longrightarrow> safe A m) \<Longrightarrow> safe A (whenb b m)"
  by (simp add: whenb_def)

lemma safe_if [safe_rules]: "(b \<Longrightarrow> safe A m) \<Longrightarrow> (\<not> b \<Longrightarrow> safe A k) \<Longrightarrow> safe A (if b then m else k)"
  by simp

lemma safe_try_catch [safe_rules]:
  assumes "safe A m" "\<And>e. safe A (h e)"
  shows "safe A (try_catch m h)"
proof (rule safeI)
  fix w assume w: "mgr_wf w" "A \<subseteq> dom (heap w)"
  obtain r w' where r: "m w = (r, w')" by fastforce
  note w' = safeD[OF assms(1) w r]
  show "mgr_wf (snd (try_catch m h w)) \<and> dom (heap w) \<subseteq> dom (heap (snd (try_catch m h w))) \<and>
        fst (try_catch m h w) \<noteq> Undef ''null connection''"
  proof (cases r)
    case (Throw e)
    then have t: "try_catch m h w = h e w'" using r by (simp add: try_catch_def)
    from w w'(2) have A: "A \<subseteq> dom (heap w')" by (rule_tac order_trans)
    obtain r2 w2 where h: "h e w' = (r2, w2)" by fastforce
    note w2 = safeD[OF assms(2) w'(1) A h]
    show ?thesis using t h w2(1,3) order_trans[OF w'(2) w2(2)] by simp
  qed (use r w' in \<open>simp_all add: try_catch_def\<close>)
qed

section \<open>The primitive operations\<close>

lemma safe_deref [safe_rules]: "a \<in> A \<Longrightarrow> safe A (deref a)"
  by (auto simp: safe_def deref_def split: option.splits)

text \<open>State changes that leave the heap, the map, the queues and the allocator alone.\<close>

lemma safe_frame:
  assumes "\<And>w. heap (snd (m w)) = heap w \<and> connectionMap (snd (m w)) = connectionMap w \<and>
      readQueue (snd (m w)) = readQueue w \<and> writeQueue (snd (m w)) = writeQueue w \<and>
      next_addr (snd (m w)) = next_addr w"
    and "\<And>w. fst (m w) \<noteq> Undef ''null connection''"
  shows "safe A m"
  using assms by (simp add: safe_def mgr_wf_def)

lemma safe_log [simp, safe_rules]:
  "safe A (log_debug fn args)" "safe A (log_info fn args)" "safe A (log_warn fn args)" "safe A (log_error fn args)"
  by (rule safe_frame; simp add: cpp_run)+

lemma safe_log_all [simp, safe_rules]: "safe A (log_all fn ms)"
  by (rule safe_frame) (simp_all add: cpp_run)

lemma safe_syscall [simp, safe_rules]: "safe A (syscall c)"
  by (rule safe_frame) (simp_all add: syscall_def split: list.splits)

lemma safe_sys_or_throw [simp, safe_rules]: "safe A (sys_or_throw c msg)"
  unfolding sys_or_throw_def by (intro safe_rules) (simp_all split: sys_ans.splits add: safe_bnd)

lemma safe_upd_conn [safe_rules]:
  assumes "\<And>c. conn_id (f c) = conn_id c"
  shows "safe A (upd_conn a f)"
proof (rule safeI)
  fix w assume "mgr_wf w"
  moreover have "heap (upd_heap a f w) b = None \<longleftrightarrow> heap w b = None" for b by simp
  moreover have "heap w b = Some c \<Longrightarrow> \<exists>c'. heap (upd_heap a f w) b = Some c' \<and> conn_id c' = conn_id c" for b c
    using assms by auto
  ultimately show "mgr_wf (snd (upd_conn a f w)) \<and> dom (heap w) \<subseteq> dom (heap (snd (upd_conn a f w))) \<and>
      fst (upd_conn a f w) \<noteq> Undef ''null connection''"
    unfolding mgr_wf_def by (simp add: cpp_run del: upd_heap_sel(25)) (metis domIff subsetI)
qed

lemma safe_upd_handler [simp, safe_rules]: "safe A (upd_handler a f)"
  unfolding upd_handler_def by (rule safe_upd_conn) simp

lemma safe_notifier [simp, safe_rules]:
  "safe A readEvent_Set" "safe A writeEvent_Set" "safe A readEvent_Wait" "safe A writeEvent_Wait"
  by (rule safe_frame;
      simp add: readEvent_Set_def writeEvent_Set_def readEvent_Wait_def writeEvent_Wait_def EventNotifier_Wait_def
        cpp_run)+

lemma safe_InQueue [safe_rules]:
  "a \<in> A \<Longrightarrow> safe A (readQueue_InQueue a)" "a \<in> A \<Longrightarrow> safe A (writeQueue_InQueue a)"
  by (auto simp: safe_def mgr_wf_def cpp_run)

lemma safe_DeQueue [simp, safe_rules]: "safe A readQueue_DeQueue" "safe A writeQueue_DeQueue"
  by (auto simp: safe_def mgr_wf_def readQueue_DeQueue_def writeQueue_DeQueue_def ConnectionQueue_DeQueue_def
      split: list.splits)

lemma safe_dequeued:
  assumes "q = readQueue_DeQueue \<or> q = writeQueue_DeQueue"
    and "safe {} (f None)" "\<And>a. safe {a} (f (Some a))"
  shows "safe {} (bnd q f)"
proof (rule safe_bnd_value)
  show "safe {} q" using assms(1) by auto
  fix w x w' assume "mgr_wf w" "q w = (Val x, w')"
  then have "x = None \<or> (\<exists>a. x = Some a \<and> a \<in> dom (heap w'))"
    using assms(1) by (auto simp: mgr_wf_def readQueue_DeQueue_def writeQueue_DeQueue_def
        ConnectionQueue_DeQueue_def split: list.splits)
  then show "\<exists>B \<subseteq> dom (heap w'). safe B (f x)"
    using assms(2,3) by (metis empty_subsetI insert_subset)
qed

lemma safe_GetValue [simp, safe_rules]: "safe A (ConnectionMap_GetValue i)"
  by (auto simp: safe_def ConnectionMap_GetValue_def bnd_def cpp_run split: option.splits)

lemma safe_looked_up:
  assumes "\<And>a. safe (insert a A) (f a)"
  shows "safe A (bnd (ConnectionMap_GetValue i) f)"
proof (rule safe_bnd_value[OF safe_GetValue])
  fix w x w' assume "mgr_wf w" "A \<subseteq> dom (heap w)" "ConnectionMap_GetValue i w = (Val x, w')"
  then have "om_get (connectionMap w) i = Some x" "w' = w" "mgr_wf w" "A \<subseteq> dom (heap w)"
    by (auto simp: ConnectionMap_GetValue_def bnd_def cpp_run split: option.splits)
  then have "insert x A \<subseteq> dom (heap w')" unfolding mgr_wf_def by blast
  with assms show "\<exists>B \<subseteq> dom (heap w'). safe B (f x)" by blast
qed

lemma safe_Erase [simp, safe_rules]: "safe A (ConnectionMap_Erase i)"
  by (rule safeI) (auto simp: mgr_wf_def ConnectionMap_Erase_def bnd_def cpp_run om_wf_del)

section \<open>Every operation of the manager\<close>

lemma safe_Need [safe_rules]:
  assumes "a \<in> A"
  shows "safe A (NeedInQueueRead a)" "safe A (NeedReInQueueRead a)"
    and "safe A (NeedInQueueWrite a)" "safe A (NeedReInQueueWrite a)"
  using assms unfolding NeedInQueueRead_def NeedReInQueueRead_def NeedInQueueWrite_def NeedReInQueueWrite_def
  by (intro safe_rules; simp)+

lemma safe_CheckToInQueue [safe_rules]:
  assumes "a \<in> A"
  shows "safe A (CheckToInQueueRead a)" "safe A (CheckToInQueueWrite a)"
  using assms unfolding CheckToInQueueRead_def CheckToInQueueWrite_def by (intro safe_rules; simp)+

lemma safe_AddToWriteCache [simp, safe_rules]: "safe A (AddToWriteCache i s)"
  unfolding AddToWriteCache_def
  by (intro safe_rules safe_looked_up; simp add: safe_frame cpp_run)

lemma Read_loop_outcome: "SocketHandler_Read_loop se s as = (oc, bs) \<Longrightarrow> oc \<noteq> Undef ''null connection''"
  by (induction se s as arbitrary: oc bs rule: SocketHandler_Read_loop.induct) (auto split: if_splits option.splits)

lemma Write_loop_outcome: "SocketHandler_Write_loop se s as = (oc, bs) \<Longrightarrow> oc \<noteq> Undef u"
  by (induction se s as arbitrary: oc bs rule: SocketHandler_Write_loop.induct) (auto split: if_splits)

lemma safe_SocketHandler_Read [simp, safe_rules]: "safe A (SocketHandler_Read fd)"
  by (rule safe_frame)
    (auto simp: SocketHandler_Read_def split: prod.splits dest: Read_loop_outcome)

lemma safe_SocketHandler_Write [simp, safe_rules]: "safe A (SocketHandler_Write fd s)"
proof (rule safe_frame)
  fix w :: world
  obtain oc as where "SocketHandler_Write_loop (strerror w) s (k_write w) = (oc, as)" by fastforce
  then show "fst (SocketHandler_Write fd s w) \<noteq> Undef ''null connection''"
    using Write_loop_outcome[of "strerror w" s "k_write w" oc as]
    by (cases oc) (auto simp: SocketHandler_Write_def Let_def cpp_run)
qed (auto simp: SocketHandler_Write_def Let_def cpp_run split: prod.splits outcome.splits)

lemma safe_SocketMap_Delete [simp, safe_rules]: "safe A (SocketMap_Delete fd)"
  by (rule safe_frame) (simp_all add: SocketMap_Delete_def bnd_def cpp_run)

lemma safe_SocketHandler_Close [simp, safe_rules]: "safe A (SocketHandler_Close fd)"
  unfolding SocketHandler_Close_def Server_close_socket_def Epoll_Delete_def Server_CloseFd_def
  by (intro safe_rules; simp add: safe_bnd split: sys_ans.splits)

lemma header_outcomes:
  "AddHeader s r \<noteq> (Undef u, r')" "fst (SetContentLength r) \<noteq> Undef u"
  by (simp_all add: AddHeader_def SetContentLength_def split: option.splits sum.splits)

lemma SetHeaders_outcome: "fst (SetHeaders r) \<noteq> Undef u"
proof (induction r rule: SetHeaders.induct)
  case (1 r)
  show ?case
    by (subst SetHeaders.simps)
      (auto simp: header_outcomes split: option.splits prod.splits outcome.splits dest: 1)
qed

lemma Append_outcome: "HttpRequest_Append s r = (oc, r') \<Longrightarrow> oc \<noteq> Undef u"
  using SetHeaders_outcome[of "SetFirstLine (r\<lparr>buf := buf r @ s\<rparr>)" u]
  by (auto simp: HttpRequest_Append_def ParseRequest_def split: if_splits prod.splits outcome.splits)

lemma safe_AppendReceivedData [safe_rules]:
  assumes "a \<in> A"
  shows "safe A (HttpRequestHandler_AppendReceivedData a s)"
proof -
  have "safe A (\<lambda>w. case HttpRequest_Append s r of (oc, r') \<Rightarrow> (oc, upd_heap a (g r') w))"
    if "\<And>r' c. conn_id (g r' c) = conn_id c" for g r
  proof -
    obtain oc r' where r': "HttpRequest_Append s r = (oc, r')" by fastforce
    show ?thesis
      using safe_upd_conn[of "g r'" A a, OF that] Append_outcome[OF r'] r'
      by (simp add: safe_def cpp_run)
  qed
  then show ?thesis
    unfolding HttpRequestHandler_AppendReceivedData_def using assms by (intro safe_rules; simp)
qed

lemma safe_handler [safe_rules]:
  assumes "a \<in> A"
  shows "safe A (HttpRequestHandler_CheckDataIntegrity a)"
    and "safe A (HttpRequestHandler_ReadCompleteCallback (AddToWriteCache i) a code)"
    and "safe A (HttpRequestHandler_WriteCompleteCallback a code)"
  using assms unfolding HttpRequestHandler_CheckDataIntegrity_def HttpRequestHandler_ReadCompleteCallback_def
    HttpRequestHandler_WriteCompleteCallback_def HttpRequestHandler_Write_def
  by (intro safe_rules; simp)+

lemma safe_Connection_Close [safe_rules]: "a \<in> A \<Longrightarrow> safe A (Connection_Close a)"
  unfolding Connection_Close_def ReleaseConnection_def by (intro safe_rules; simp)

lemma safe_Connection [safe_rules]:
  assumes "a \<in> A"
  shows "safe A (Connection_Read a)" "safe A (Connection_Write a)"
  using assms unfolding Connection_Read_def Connection_Write_def
  by (intro safe_rules; simp)+

lemma safe_take_cache [simp, safe_rules]: "safe A (take_cache i)"
  by (rule safe_frame) (simp_all add: take_cache_def split: prod.splits)

lemma safe_ProcessRead_body: "safe {} ProcessRead_body"
  unfolding ProcessRead_body_def
  by (rule safe_dequeued; (simp only: option.simps, intro safe_rules; simp)?) simp

lemma safe_ProcessWrite_body: "safe {} ProcessWrite_body"
  unfolding ProcessWrite_body_def
  by (rule safe_dequeued; (simp only: option.simps, intro safe_rules; simp add: Connection_SetResponse_def)?) simp

lemma safe_drain: "safe {} body \<Longrightarrow> safe {} (drain body n)"
proof (induction n)
  case (Suc n)
  then have "safe {} (bnd body (\<lambda>b. if b then drain body n else ret ()))"
    by (intro safe_rules) simp_all
  then show ?case by (simp add: safe_def)
qed (simp add: safe_def)

lemma safe_serve: "safe {} wait \<Longrightarrow> safe {} body \<Longrightarrow> safe {} (serve wait body m n)"
proof (induction n)
  case (Suc n)
  then have "safe {} (sq wait (sq (drain body m) (serve wait body m n)))"
    by (intro safe_rules safe_drain) simp_all
  then show ?case by (simp add: safe_def)
qed (simp add: safe_def)

lemma safe_workers: "safe {} (ProcessRead m n i)" "safe {} (ProcessWrite m n i)"
  unfolding ProcessRead_def ProcessWrite_def
  by (intro safe_rules safe_serve safe_ProcessRead_body safe_ProcessWrite_body; simp)+

lemma safe_mark_and_check:
  assumes "\<And>c. conn_id (mark c) = conn_id c" "\<And>a. safe {a} (check a)"
  shows "safe {} (mark_and_check fn mark check i)"
  unfolding mark_and_check_def caught_def using assms
  by (intro safe_rules safe_looked_up; simp)

lemma safe_events:
  "safe {} (ConnectionManager_CanRead i)" "safe {} (ConnectionManager_CanWrite i)"
  "safe {} (ConnectionManager_ErrorOccurred i)" "safe {} (ConnectionManager_TimeToExit i)"
  unfolding ConnectionManager_CanRead_def ConnectionManager_CanWrite_def ConnectionManager_ErrorOccurred_def
    ConnectionManager_TimeToExit_def
  by (intro safe_mark_and_check safe_rules; simp add: Connection_SetReadable_def Connection_SetWritable_def
      Connection_SetError_def Connection_SetToClose_def)+

lemma safe_Close: "safe {} ConnectionManager_Close"
  unfolding ConnectionManager_Close_def mark_closed_def by (intro safe_rules; simp add: safe_frame cpp_run)

text \<open>A new connection takes a fresh address before it is entered in the map.\<close>

lemma mgr_wf_alloc:
  assumes "mgr_wf w" "conn_id c = i"
  shows "mgr_wf (w\<lparr>heap := (heap w)(next_addr w \<mapsto> c), next_addr := next_addr w + 1\<rparr>)"
    and "\<not> om_has (connectionMap w) i \<Longrightarrow>
      mgr_wf (w\<lparr>heap := (heap w)(next_addr w \<mapsto> c), next_addr := next_addr w + 1,
                connectionMap := om_put i (next_addr w) (connectionMap w)\<rparr>)"
proof -
  have fresh: "heap w (next_addr w) = None" using assms(1) by (simp add: mgr_wf_def)
  then show "mgr_wf (w\<lparr>heap := (heap w)(next_addr w \<mapsto> c), next_addr := next_addr w + 1\<rparr>)"
    using assms(1) unfolding mgr_wf_def by (fastforce simp: fresh)
  with fresh assms show "mgr_wf (w\<lparr>heap := (heap w)(next_addr w \<mapsto> c), next_addr := next_addr w + 1,
                connectionMap := om_put i (next_addr w) (connectionMap w)\<rparr>)"
    by (simp add: mgr_wf_def om_wf_put)
qed

lemma mgr_wf_log [simp]: "mgr_wf (w\<lparr>lg := l\<rparr>) = mgr_wf w"
  by (simp add: mgr_wf_def)

lemma safe_NewConnection: "safe {} (ConnectionManager_NewConnection i ci fd)"
proof (rule safeI)
  fix w assume w: "mgr_wf w"
  show "mgr_wf (snd (ConnectionManager_NewConnection i ci fd w)) \<and>
    dom (heap w) \<subseteq> dom (heap (snd (ConnectionManager_NewConnection i ci fd w))) \<and>
    fst (ConnectionManager_NewConnection i ci fd w) \<noteq> Undef ''null connection''"
    using mgr_wf_alloc[OF w, of "Connection_new i ci fd RequestHandler_new" i]
    by (cases "om_has (connectionMap w) i")
      (simp_all add: ConnectionManager_NewConnection_def caught_def ConnectionMap_Add_def ConnectionMap_Size_def
        bnd_def sq_def try_catch_def cpp_run mgr_wf_log subset_insertI, simp_all add: Connection_new_def)
qed

section \<open>Any sequence of calls\<close>

text \<open>The calls the server's thread and the worker threads make on the manager.\<close>

datatype mgr_call =
    CallNew u64 client_info int | CallCanRead u64 | CallCanWrite u64 | CallError u64 | CallExit u64
  | CallClose | PassRead | PassWrite

fun mgr_run :: "mgr_call \<Rightarrow> world \<Rightarrow> world outcome" where
  "mgr_run (CallNew i ci fd) w = (case ConnectionManager_NewConnection i ci fd w of (Undef u, _) \<Rightarrow> Undef u | (_, w') \<Rightarrow> Val w')"
| "mgr_run (CallCanRead i) w = (case ConnectionManager_CanRead i w of (Undef u, _) \<Rightarrow> Undef u | (_, w') \<Rightarrow> Val w')"
| "mgr_run (CallCanWrite i) w = (case ConnectionManager_CanWrite i w of (Undef u, _) \<Rightarrow> Undef u | (_, w') \<Rightarrow> Val w')"
| "mgr_run (CallError i) w = (case ConnectionManager_ErrorOccurred i w of (Undef u, _) \<Rightarrow> Undef u | (_, w') \<Rightarrow> Val w')"
| "mgr_run (CallExit i) w = (case ConnectionManager_TimeToExit i w of (Undef u, _) \<Rightarrow> Undef u | (_, w') \<Rightarrow> Val w')"
| "mgr_run CallClose w = (case ConnectionManager_Close w of (Undef u, _) \<Rightarrow> Undef u | (_, w') \<Rightarrow> Val w')"
| "mgr_run PassRead w = (case ProcessRead_body w of (Undef u, _) \<Rightarrow> Undef u | (_, w') \<Rightarrow> Val w')"
| "mgr_run PassWrite w = (case ProcessWrite_body w of (Undef u, _) \<Rightarrow> Undef u | (_, w') \<Rightarrow> Val w')"

fun mgr_runs :: "mgr_call list \<Rightarrow> world \<Rightarrow> world outcome" where
  "mgr_runs [] w = Val w"
| "mgr_runs (k # ks) w = (case mgr_run k w of Val w' \<Rightarrow> mgr_runs ks w' | r \<Rightarrow> r)"

lemma safe_run:
  assumes "safe {} m" "mgr_wf w"
  shows "case (case m w of (Undef u, _) \<Rightarrow> Undef u | (_, w') \<Rightarrow> Val w') of
    Val w' \<Rightarrow> mgr_wf w' | r \<Rightarrow> r \<noteq> Undef ''null connection''"
proof -
  obtain r w' where r: "m w = (r, w')" by fastforce
  show ?thesis using safeD[OF assms empty_subsetI r] r by (cases r) simp_all
qed

lemma mgr_run_safe:
  "mgr_wf w \<Longrightarrow> case mgr_run k w of Val w' \<Rightarrow> mgr_wf w' | r \<Rightarrow> r \<noteq> Undef ''null connection''"
  by (cases k)
    (simp_all only: mgr_run.simps safe_run safe_NewConnection safe_events safe_Close safe_ProcessRead_body
      safe_ProcessWrite_body)

text \<open>
  C4. Memory safety of the connection manager. Start from a state whose map and queues point to live
  connections and let the server thread and the workers make any calls in any order: every state on
  the way has the same property, and no call dereferences a null connection, also when the calls
  before it threw or are still waiting for the kernel.
\<close>

theorem manager_memory_safe:
  assumes "mgr_wf w"
  shows "case mgr_runs ks w of Val w' \<Rightarrow> mgr_wf w' | r \<Rightarrow> r \<noteq> Undef ''null connection''"
  using assms
proof (induction ks arbitrary: w)
  case (Cons k ks)
  show ?case using mgr_run_safe[OF Cons.prems, of k] Cons.IH by (cases "mgr_run k w") simp_all
qed simp

lemma manager_memory_safe_witness:
  "case mgr_runs [CallNew 1 \<lparr>ci_ip = ''10.0.0.1'', ci_port = 4000\<rparr> 7, CallCanWrite 1, CallCanRead 1, PassRead, PassWrite,
      CallError 1, PassRead] some_world of
     Val w' \<Rightarrow> mgr_wf w' | r \<Rightarrow> r \<noteq> Undef ''null connection''"
proof -
  have "mgr_wf some_world" by (simp add: mgr_wf_def some_world_def om_empty_def om_get_def om_wf_def)
  then show ?thesis by (rule manager_memory_safe)
qed

end
