(* ===== verification/Http_Faults.thy ===== *)
theory Http_Faults
  imports Http_Manager
begin

text \<open>
  What the connection manager does when the kernel takes only a part of a response, when a request is
  malformed, and when a socket reports an error.
\<close>

section \<open>Partial writes\<close>

text \<open>
  A connection with unsent bytes in \<open>response\<close> that no writable event will queue again: the cache has
  nothing for it and its handler still waits for the end of the write.
\<close>

definition stranded :: "addr \<Rightarrow> u64 \<Rightarrow> string \<Rightarrow> world \<Rightarrow> bool" where
  "stranded a i rest w \<longleftrightarrow>
     om_get (connectionMap w) i = Some a \<and> \<not> WriteCache_HasContentToWrite i (writeCache w) \<and>
     (\<exists>c. heap w a = Some c \<and> conn_id c = i \<and> response c = rest \<and> \<not> isWriting c \<and>
          RequestHandler_IsWaiting (requestHandler c))"

lemma CanWrite_stranded:
  assumes "stranded a i rest w"
  shows "\<exists>w'. ConnectionManager_CanWrite i w = (Val (), w') \<and> stranded a i rest w' \<and> writeQueue w' = writeQueue w"
proof -
  obtain c where c: "heap w a = Some c" "conn_id c = i" "response c = rest" "\<not> isWriting c"
    "RequestHandler_IsWaiting (requestHandler c)" "om_get (connectionMap w) i = Some a"
    "\<not> WriteCache_HasContentToWrite i (writeCache w)"
    using assms by (auto simp: stranded_def)
  have w: "\<not> wants_write (writeCache w) (Connection_SetWritable c)"
    using c by (simp add: wants_write_def Connection_CanClose_def Connection_SetWritable_def)
  show ?thesis
    using c w by (simp add: ConnectionManager_CanWrite_def mark_and_check_def caught_def cpp_run stranded_def)
      (simp add: Connection_SetWritable_def)
qed

fun CanWrite_times :: "nat \<Rightarrow> u64 \<Rightarrow> world \<Rightarrow> unit outcome \<times> world" where
  "CanWrite_times 0 i w = (Val (), w)"
| "CanWrite_times (Suc n) i w = sq (ConnectionManager_CanWrite i) (CanWrite_times n i) w"

lemma CanWrite_times_stranded:
  "stranded a i rest w \<Longrightarrow>
   \<exists>w'. CanWrite_times n i w = (Val (), w') \<and> stranded a i rest w' \<and> writeQueue w' = writeQueue w"
proof (induction n arbitrary: w)
  case (Suc n)
  from CanWrite_stranded[OF Suc.prems] obtain w1 where
    w1: "ConnectionManager_CanWrite i w = (Val (), w1)" "stranded a i rest w1" "writeQueue w1 = writeQueue w"
    by blast
  from Suc.IH[OF w1(2)] w1 show ?case by (auto simp: cpp_run)
qed simp

lemma SocketHandler_Write_partial:
  assumes "k_write w = WriteOk n # WriteErr EAGAIN # as" "0 < n" "n < length s"
  shows "SocketHandler_Write fd s w =
    (Val (drop n s), w\<lparr>k_write := as, k_trace := k_trace w @ [SysWrite fd (take n s)]\<rparr>)"
proof -
  have "SocketHandler_Write_loop (strerror w) s (WriteOk n # WriteErr EAGAIN # as) = (Val (drop n s), as)"
    using assms(2,3) by (cases s; cases "drop n s") auto
  moreover have "s \<noteq> []" using assms(3) by auto
  ultimately show ?thesis
    using assms by (simp add: SocketHandler_Write_def Let_def cpp_run)
qed

text \<open>The state in which a write worker finds a connection that has a response to send.\<close>

definition response_ready :: "world \<Rightarrow> addr \<Rightarrow> connection \<Rightarrow> string \<Rightarrow> bool" where
  "response_ready w a c s \<longleftrightarrow>
     heap w a = Some c \<and> om_get (connectionMap w) (conn_id c) = Some a \<and> errorCode c = 0 \<and> isWritable c = 1 \<and>
     response c = [] \<and> isWriting c \<and> isWriteWaiting (requestHandler c) \<and>
     om_get (writeCache w) (conn_id c) = Some s \<and> writeQueue w = [a]"

lemma ProcessWrite_body_partial:
  assumes "response_ready w a c s" "k_write w = WriteOk n # WriteErr EAGAIN # as" "0 < n" "n < length s"
  shows "\<exists>w1. ProcessWrite_body w = (Val True, w1) \<and> stranded a (conn_id c) (drop n s) w1 \<and> writeQueue w1 = []"
proof -
  have "s \<noteq> []" using assms(4) by auto
  then show ?thesis
    using assms
    by (simp add: response_ready_def ProcessWrite_body_def cpp_run take_cache_def WriteCache_Get_def
        Connection_SetResponse_def upd_heap_def Connection_Write_def NO_ERROR_def SocketHandler_Write_partial
        RequestHandler_IsWaiting_def WriteCache_HasContentToWrite_def Let_def stranded_def)
qed

text \<open>
  C8. A response the kernel takes only in part is never finished. The write worker keeps the rest in the
  connection's own \<open>response\<close> field, but the decision to queue the connection looks at the write cache
  only, which is empty by then: however many writable events follow, the connection is not queued
  again and the rest stays unsent.
\<close>

theorem partial_write_stranded:
  assumes "response_ready w a c s" "k_write w = WriteOk n # WriteErr EAGAIN # as" "0 < n" "n < length s"
  shows "\<exists>w1 w2 c2. ProcessWrite_body w = (Val True, w1) \<and> CanWrite_times k (conn_id c) w1 = (Val (), w2) \<and>
    writeQueue w2 = [] \<and> heap w2 a = Some c2 \<and> response c2 = drop n s"
proof -
  obtain w1 where w1: "ProcessWrite_body w = (Val True, w1)" "stranded a (conn_id c) (drop n s) w1" "writeQueue w1 = []"
    using ProcessWrite_body_partial[OF assms] by blast
  from CanWrite_times_stranded[OF w1(2), of k] w1 show ?thesis
    by (auto simp: stranded_def)
qed

definition response_conn :: connection where
  "response_conn = (Connection_new 1 \<lparr>ci_ip = ''10.0.0.1'', ci_port = 4000\<rparr> 7
       (RequestHandler_new\<lparr>isReadWaiting := False, isWriteWaiting := True\<rparr>))\<lparr>isWritable := 1, isWriting := True\<rparr>"

definition response_world :: world where
  "response_world = some_world\<lparr>heap := [0 \<mapsto> response_conn], next_addr := 1, connectionMap := [(1, 0)],
     writeCache := [(1, ''hello'')], writeQueue := [0], k_write := [WriteOk 2, WriteErr EAGAIN]\<rparr>"

lemma partial_write_stranded_witness:
  "\<exists>w1 w2 c2. ProcessWrite_body response_world = (Val True, w1) \<and> CanWrite_times 3 1 w1 = (Val (), w2) \<and>
    writeQueue w2 = [] \<and> heap w2 0 = Some c2 \<and> response c2 = ''llo''"
proof -
  have "response_ready response_world 0 response_conn ''hello''"
    by (simp add: response_ready_def response_world_def response_conn_def Connection_new_def om_get_def)
  from partial_write_stranded[OF this, of 2 "[]" 3] show ?thesis
    by (simp add: response_world_def response_conn_def Connection_new_def)
qed

section \<open>Malformed requests\<close>

lemma Connection_Read_throws:
  assumes "heap w a = Some c" "errorCode c = 0" "isReadable c \<noteq> 0"
    and "SocketHandler_Read_loop (strerror w) [] (k_read w) = (Val s, as)"
    and "HttpRequest_Append s (httpRequest (requestHandler c)) = (Throw e, r)"
  shows "\<exists>w'. Connection_Read a w = (Throw e, w')"
  using assms
  by (simp add: Connection_Read_def cpp_run NO_ERROR_def Append_handler_run SocketHandler_Read_run upd_heap_def)

lemma worker_throws:
  assumes "\<not> closed w" "body (w1::world) = (Throw e, w2)" "wait w = (Val (), w1)" "\<not> closed w1"
  shows "\<exists>w'. serve wait body (Suc m) (Suc n) w = (Throw e, w')"
  using assms by (simp add: cpp_run)

text \<open>
  C9. A malformed request ends the process. When the bytes a queued connection receives make the parser throw
  (a header line without a colon, a \<open>Content-Length\<close> that is no number), the exception leaves
  \<open>ConnectionManager::ProcessRead\<close>, the function a detached thread runs: nothing between the parser and
  the thread's entry point catches it.
\<close>

theorem malformed_request_escapes:
  assumes "\<not> closed w" "signaled (readInQueueHappened w)" "readQueue w = a # q"
    and "heap w a = Some c" "errorCode c = 0" "isReadable c \<noteq> 0"
    and "SocketHandler_Read_loop (strerror w) [] (k_read w) = (Val s, as)"
    and "HttpRequest_Append s (httpRequest (requestHandler c)) = (Throw e, r)"
  shows "\<exists>w'. ProcessRead (Suc m) (Suc n) k w = (Throw e, w')"
proof -
  let ?w = "w\<lparr>lg := Logger_LogInfo [log_prefix ''void ConnectionManager::ProcessRead(int)'', ''start, id: '', to_string_int k] (lg w)\<rparr>"
  let ?w1 = "?w\<lparr>readInQueueHappened := (readInQueueHappened w)\<lparr>signaled := False\<rparr>\<rparr>"
  let ?w2 = "?w1\<lparr>readQueue := q, lg := Logger_LogDebug [log_prefix ''void ConnectionManager::ProcessRead(int)'',
       ''connection id: '', to_string_nat (unat (conn_id c))] (lg ?w1)\<rparr>"
  obtain w' where "Connection_Read a ?w2 = (Throw e, w')"
    using Connection_Read_throws[of ?w2 a c s as e r] assms by auto
  then have body: "ProcessRead_body ?w1 = (Throw e, w')"
    using assms by (simp add: ProcessRead_body_def cpp_run)
  have wait: "readEvent_Wait ?w = (Val (), ?w1)"
    using assms by (simp add: readEvent_Wait_def EventNotifier_Wait_def)
  show ?thesis
    using worker_throws[of ?w ProcessRead_body ?w1 e w' readEvent_Wait m n] body wait assms(1)
    by (auto simp: ProcessRead_def cpp_run)
qed

definition malformed :: string where
  "malformed = ''GET /'' @ crlf @ ''no colon'' @ crlf"

lemma malformed_throws:
  "fst (HttpRequest_Append malformed HttpRequest_new) = Throw (RuntimeError ''void HttpRequest::AddHeader(const string&)'')"
  by code_simp

lemma malformed_request_escapes_witness:
  "\<exists>w'. ProcessRead 1 1 0 ((request_world malformed)\<lparr>readInQueueHappened := \<lparr>signaled = True\<rparr>\<rparr>) =
     (Throw (RuntimeError ''void HttpRequest::AddHeader(const string&)''), w')"
proof -
  let ?w = "(request_world malformed)\<lparr>readInQueueHappened := \<lparr>signaled = True\<rparr>\<rparr>"
  let ?r = "snd (HttpRequest_Append malformed HttpRequest_new)"
  have loop: "SocketHandler_Read_loop (strerror ?w) [] (k_read ?w) = (Val malformed, [])"
    by (simp add: request_world_def c_str_buffer malformed_def crlf_def)
  have "HttpRequest_Append malformed (httpRequest (requestHandler request_conn)) =
      (Throw (RuntimeError ''void HttpRequest::AddHeader(const string&)''), ?r)"
    using malformed_throws by (simp add: request_conn_def Connection_new_def prod_eq_iff)
  from malformed_request_escapes[OF _ _ _ _ _ _ loop this, where q = "[]" and a = 0 and m = 0 and n = 0 and k = 0]
  show ?thesis by (simp add: request_world_def request_conn_def Connection_new_def some_world_def)
qed

section \<open>Socket errors\<close>

text \<open>A connection the server has just reported an error for, waiting in the read queue.\<close>

definition error_queued :: "world \<Rightarrow> addr \<Rightarrow> connection \<Rightarrow> bool" where
  "error_queued w a c \<longleftrightarrow>
     heap w a = Some c \<and> om_get (connectionMap w) (conn_id c) = Some a \<and> om_has (socketMap w) (sock_fd c) \<and>
     errorCode c \<noteq> 0 \<and> isReadable c = 0 \<and> isReading c \<and> \<not> isWriting c \<and>
     isReadWaiting (requestHandler c) \<and> \<not> isWriteWaiting (requestHandler c) \<and> readQueue w = [a] \<and> \<not> closed w"

lemma ProcessRead_body_error:
  assumes "error_queued w a c" "k_sys w = SysOk u # SysOk v # ks"
  shows "\<exists>w1 c1. ProcessRead_body w = (Val True, w1) \<and> heap w1 a = Some c1 \<and> isClosed c1 \<and> errorCode c1 = errorCode c \<and>
    sock_fd c1 = sock_fd c \<and> \<not> isReadWaiting (requestHandler c1) \<and> readQueue w1 = [a] \<and> k_sys w1 = ks \<and>
    strerror w1 = strerror w \<and> closed w1 = closed w \<and> \<not> om_has (connectionMap w1) (conn_id c) \<and>
    k_trace w1 = k_trace w @ [SysCtlDel (sock_fd c), SysClose (sock_fd c)]"
  using assms
  by (simp add: error_queued_def ProcessRead_body_def cpp_run Connection_Read_def NO_ERROR_def
      ReadCompleteCallback_run Connection_Close_run om_has_def Connection_ReadEventHappend_def)

lemma ProcessRead_body_closed:
  assumes "heap w a = Some c" "isClosed c" "errorCode c \<noteq> 0" "\<not> isReadWaiting (requestHandler c)"
    and "readQueue w = [a]" "k_sys w = SysErr e # ks"
  shows "\<exists>w'. ProcessRead_body w =
    (Throw (RuntimeError (GetErrorMsg (strerror w) (''void Epoll::Delete(int)'' @ '', epoll_ctl failed'') e)), w') \<and>
    k_trace w' = k_trace w @ [SysCtlDel (sock_fd c)]"
  using assms
  by (simp add: ProcessRead_body_def cpp_run Connection_Read_def NO_ERROR_def ReadCompleteCallback_again
      Connection_Close_def SocketHandler_Close_def Server_close_socket_def)

text \<open>
  C10. A socket error is handled twice, and the second time ends the process. The error code of a connection is
  never cleared, so after the first pass has closed the socket and released the connection, the
  connection counts as having a read event and is queued again; the second pass asks epoll to remove
  the descriptor that is already closed, and when the kernel refuses, as it does for a closed
  descriptor, the exception leaves the worker's loop.
\<close>

theorem error_event_escapes:
  assumes "error_queued w a c" "k_sys w = SysOk u # SysOk v # SysErr e # ks"
  shows "\<exists>w'. drain ProcessRead_body (Suc (Suc m)) w =
    (Throw (RuntimeError (GetErrorMsg (strerror w) (''void Epoll::Delete(int)'' @ '', epoll_ctl failed'') e)), w') \<and>
    k_trace w' = k_trace w @ [SysCtlDel (sock_fd c), SysClose (sock_fd c), SysCtlDel (sock_fd c)]"
proof -
  obtain w1 c1 where w1: "ProcessRead_body w = (Val True, w1)" "heap w1 a = Some c1" "isClosed c1"
    "errorCode c1 = errorCode c" "sock_fd c1 = sock_fd c" "\<not> isReadWaiting (requestHandler c1)" "readQueue w1 = [a]"
    "k_sys w1 = SysErr e # ks" "strerror w1 = strerror w" "closed w1 = closed w"
    "k_trace w1 = k_trace w @ [SysCtlDel (sock_fd c), SysClose (sock_fd c)]"
    using ProcessRead_body_error[OF assms] by blast
  have ne: "errorCode c1 \<noteq> 0" and cl: "\<not> closed w" using assms(1) w1(4) by (simp_all add: error_queued_def)
  obtain w' where w': "ProcessRead_body w1 =
     (Throw (RuntimeError (GetErrorMsg (strerror w1) (''void Epoll::Delete(int)'' @ '', epoll_ctl failed'') e)), w')"
     "k_trace w' = k_trace w1 @ [SysCtlDel (sock_fd c1)]"
    using ProcessRead_body_closed[OF w1(2,3) ne w1(6-8)] by blast
  have "bnd ProcessRead_body f w = f True w1" for f :: "bool \<Rightarrow> (world, unit) cpp"
    using w1(1) by (simp add: bnd_def)
  then show ?thesis using w1 w' cl by (simp add: cpp_run)
qed

definition error_conn :: connection where
  "error_conn = (Connection_new 1 \<lparr>ci_ip = ''10.0.0.1'', ci_port = 4000\<rparr> 7 RequestHandler_new)
     \<lparr>errorCode := SOCKET_ERROR, isReading := True\<rparr>"

definition error_world :: world where
  "error_world = some_world\<lparr>heap := [0 \<mapsto> error_conn], next_addr := 1, connectionMap := [(1, 0)], socketMap := [(7, 1)],
     readQueue := [0], k_sys := [SysOk 0, SysOk 0, SysErr 9]\<rparr>"

lemma error_event_escapes_witness:
  "\<exists>w'. drain ProcessRead_body 2 error_world =
    (Throw (RuntimeError (GetErrorMsg (strerror error_world) (''void Epoll::Delete(int)'' @ '', epoll_ctl failed'') 9)), w') \<and>
    k_trace w' = [SysCtlDel 7, SysClose 7, SysCtlDel 7]"
proof -
  have "error_queued error_world 0 error_conn"
    by (simp add: error_queued_def error_world_def error_conn_def Connection_new_def om_get_def om_has_def
        SOCKET_ERROR_def some_world_def)
  from error_event_escapes[OF this, of 0 0 9 "[]" 0] show ?thesis
    by (simp add: error_world_def error_conn_def Connection_new_def some_world_def numeral_2_eq_2)
qed

section \<open>The response header\<close>

text \<open>
  The response announces its length under a misspelt name: the server's own parser, given the response
  after its status line, stores a \<open>Context-Length\<close> header, finds no \<open>Content-Length\<close>, and so takes the
  length of the body to be zero.
\<close>

theorem response_length_header_misspelt:
  "case HttpRequest_Append http_response HttpRequest_new of (oc, r) \<Rightarrow>
     oc = Val () \<and> om_get (headers r) ''Context-Length'' = Some (to_string_nat (length http_responseMsg)) \<and>
     om_get (headers r) CONTENT_LENGTH_HEADER = None \<and> contentLength r = 0 \<and> messageBody r = http_responseMsg"
  by code_simp

end
