(* ===== verification/Http_Server.thy ===== *)
theory Http_Server
  imports Http_Safety Http_Faults
begin

text \<open>
  \<open>simple_http/tcp_server/src/server.cpp\<close> and \<open>http_server/src/main.cpp\<close>: the listening socket, the event
  loop that turns epoll events into calls of the connection manager, shutdown, and the program that
  puts the parts together. The callbacks the server was given are a record of functions, so that the
  operations can be run with the manager's entry points and also with what happens when other
  threads run in between.
\<close>

unbundle bit_operations_syntax

section \<open>Operations\<close>

definition SetExitCondition :: "(world, unit) cpp" where
  "SetExitCondition =
     bnd (sys_or_throw SysSignal (''void SetExitCondition()'' @ '', signal failed'')) (\<lambda>_. skip)"

record reports =
  reportNewConnection :: "u64 \<Rightarrow> client_info \<Rightarrow> int \<Rightarrow> (world, unit) cpp"
  reportCanRead :: "u64 \<Rightarrow> (world, unit) cpp"
  reportCanWrite :: "u64 \<Rightarrow> (world, unit) cpp"
  reportErrorOccurred :: "u64 \<Rightarrow> (world, unit) cpp"
  reportTimeToExit :: "u64 \<Rightarrow> (world, unit) cpp"

definition Server_new :: "u16 \<Rightarrow> u64 \<Rightarrow> (world, unit) cpp" where
  "Server_new port epEventCount =
     modify (\<lambda>w. w\<lparr>nextConnId := 0, sv_port := port, ep_events := replicate (unat epEventCount) (0, 0),
                   socketMap := om_empty\<rparr>)"

definition CheckSocketExist :: "int \<Rightarrow> (world, bool) cpp" where
  "CheckSocketExist fd = bnd (SocketMap_Count fd) (\<lambda>n. ret (n \<noteq> 0))"

definition LISTEN_BACKLOG :: int where "LISTEN_BACKLOG = 50"

definition Server_Listen :: "(world, unit) cpp" where
  "Server_Listen =
     bnd (syscall SysSocket) (\<lambda>a.
     sq (case a of
           SysOk fd \<Rightarrow> modify (\<lambda>w. w\<lparr>listenFd := fd\<rparr>)
         | SysErr code \<Rightarrow>
             sq (modify (\<lambda>w. w\<lparr>listenFd := - 1\<rparr>))
            (bnd (gets strerror) (\<lambda>se.
               throw (RuntimeError (GetErrorMsg se (''void Server::Listen()'' @ '', socket failed'') code)))))
    (bnd (gets sv_port) (\<lambda>port.
     bnd (sys_or_throw (SysBind (htons port)) (''void Server::Listen()'' @ '', bind failed'')) (\<lambda>_.
     bnd (sys_or_throw (SysListen LISTEN_BACKLOG) (''void Server::Listen()'' @ '', listen failed'')) (\<lambda>_.
     skip)))))"

definition Server_Accept :: "(world, int \<times> string \<times> u16) cpp" where
  "Server_Accept = (\<lambda>w.
     case k_accept w of
       [] \<Rightarrow> (Pending, w)
     | AcceptErr code # as \<Rightarrow>
         (Throw (RuntimeError (GetErrorMsg (strerror w)
            (''int Server::Accept(std::string&, uint16_t&)'' @ '', accept failed'') code)), w\<lparr>k_accept := as\<rparr>)
     | AcceptOk fd (Inl code) sin_port # as \<Rightarrow>
         (Throw (RuntimeError (GetErrorMsg (strerror w)
            (''int Server::Accept(std::string&, uint16_t&)'' @ '', inet_ntop failed'') code)), w\<lparr>k_accept := as\<rparr>)
     | AcceptOk fd (Inr ip) sin_port # as \<Rightarrow> (Val (fd, ip, ntohs sin_port), w\<lparr>k_accept := as\<rparr>))"

definition SetNonBlocking :: "int \<Rightarrow> (world, unit) cpp" where
  "SetNonBlocking fd =
     bnd (syscall (SysGetFl fd)) (\<lambda>a.
     let flags = (case a of SysOk v \<Rightarrow> v | SysErr _ \<Rightarrow> - 1) OR O_NONBLOCK in
     bnd (syscall (SysSetFl fd flags)) (\<lambda>_. skip))"

definition ProcessNewConnection :: "reports \<Rightarrow> (world, unit) cpp" where
  "ProcessNewConnection rp =
     bnd Server_Accept (\<lambda>(fd, ip, port).
     bnd (CheckSocketExist fd) (\<lambda>b.
     if b then throw (RuntimeError (''void Server::ProcessNewConnection()'' @ ''fd('' @ to_string_int fd @ '') exist''))
     else
       sq (SetNonBlocking fd)
      (sq (Epoll_Add fd (EPOLLIN OR EPOLLOUT OR EPOLLET))
      (sq (modify (\<lambda>w. w\<lparr>nextConnId := nextConnId w + 1\<rparr>))
      (bnd (gets nextConnId) (\<lambda>i.
       sq (SocketMap_Add fd i)
      (sq (log_debug ''void Server::ProcessNewConnection()''
             [''connection id='', to_string_nat (unat i), '', '', ''fd='', to_string_int fd])
          (reportNewConnection rp i \<lparr>ci_ip = ip, ci_port = port\<rparr> fd))))))))"

definition ProcessEvent :: "reports \<Rightarrow> int \<Rightarrow> u32 \<Rightarrow> (world, unit) cpp" where
  "ProcessEvent rp fd eventMask =
     bnd (CheckSocketExist fd) (\<lambda>b.
     if \<not> b then throw (RuntimeError (''void Server::ProcessEvent(int, uint32_t)'' @
                    '', fd('' @ to_string_int fd @ '') not exist''))
     else
       sq (whenb (eventMask AND EPOLLIN \<noteq> 0) (bnd (SocketMap_GetValue fd) (reportCanRead rp)))
      (sq (whenb (eventMask AND EPOLLOUT \<noteq> 0) (bnd (SocketMap_GetValue fd) (reportCanWrite rp)))
          (whenb (eventMask AND EPOLLERR \<noteq> 0) (bnd (SocketMap_GetValue fd) (reportErrorOccurred rp)))))"

fun ProcessEvents_from :: "reports \<Rightarrow> nat \<Rightarrow> nat \<Rightarrow> (world, unit) cpp" where
  "ProcessEvents_from rp i 0 = skip"
| "ProcessEvents_from rp i (Suc n) =
     sq (bnd (Epoll_GetFd i) (\<lambda>fd. bnd (gets listenFd) (\<lambda>l.
           if fd = l then ProcessNewConnection rp
           else bnd (Epoll_GetFd i) (\<lambda>fd. bnd (Epoll_GetEvent i) (ProcessEvent rp fd)))))
        (ProcessEvents_from rp (Suc i) n)"

definition ProcessEvents :: "reports \<Rightarrow> int \<Rightarrow> (world, unit) cpp" where
  "ProcessEvents rp n = ProcessEvents_from rp 0 (nat n)"

fun report_all :: "(u64 \<Rightarrow> (world, unit) cpp) \<Rightarrow> u64 list \<Rightarrow> (world, unit) cpp" where
  "report_all f [] = skip"
| "report_all f (i # is) = sq (f i) (report_all f is)"

definition Server_Release :: "reports \<Rightarrow> (world, unit) cpp" where
  "Server_Release rp =
     bnd SocketMap_GetValues (\<lambda>connectionIds.
     sq (report_all (reportTimeToExit rp) connectionIds)
    (bnd (gets listenFd) (\<lambda>l. sq (Epoll_Delete l) (bnd (gets listenFd) Server_CloseFd))))"

text \<open>The event loop, with a bound on the number of rounds; running out of it is \<open>Pending\<close>.\<close>

fun Start_loop :: "reports \<Rightarrow> nat \<Rightarrow> (world, unit) cpp" where
  "Start_loop rp 0 w = (Pending, w)"
| "Start_loop rp (Suc k) w =
     bnd (Epoll_Wait 3000) (\<lambda>n.
     sq (if 0 < n then ProcessEvents rp n
         else log_debug ''void Server::Start()'' [''epoll wait timeout('', to_string_int 3000, ''ms)''])
    (bnd (gets isTimeToExit) (\<lambda>e. if e then Server_Release rp else Start_loop rp k))) w"

definition Server_Start :: "reports \<Rightarrow> nat \<Rightarrow> (world, unit) cpp" where
  "Server_Start rp k =
     bnd (gets sv_port) (\<lambda>port.
     sq (log_info ''void Server::Start()'' [''server start, port: '', to_string_nat (unat port)])
    (sq Server_Listen
    (sq Epoll_Init
    (sq (bnd (gets listenFd) (\<lambda>l. Epoll_Add l EPOLLIN))
        (Start_loop rp k)))))"

text \<open>
  The constructor of the manager builds its containers; it does not initialise \<open>closed\<close>, which keeps
  whatever the memory held.
\<close>

definition ConnectionManager_new :: "(world, unit) cpp" where
  "ConnectionManager_new =
     modify (\<lambda>w. w\<lparr>connectionMap := om_empty, readQueue := [], writeQueue := [], writeCache := om_empty,
                   readInQueueHappened := EventNotifier_new, writeInQueueHappened := EventNotifier_new\<rparr>)"

definition manager_reports :: reports where
  "manager_reports =
     \<lparr>reportNewConnection = ConnectionManager_NewConnection, reportCanRead = ConnectionManager_CanRead,
      reportCanWrite = ConnectionManager_CanWrite, reportErrorOccurred = ConnectionManager_ErrorOccurred,
      reportTimeToExit = ConnectionManager_TimeToExit\<rparr>"

text \<open>A destructor that runs when the scope is left normally or by an exception.\<close>

definition with_dtor :: "(world, unit) cpp \<Rightarrow> (world, unit) cpp \<Rightarrow> (world, unit) cpp" where
  "with_dtor m d = sq (try_catch m (\<lambda>e. sq d (throw e))) d"

definition http_main :: "config \<Rightarrow> nat \<Rightarrow> (world, int) cpp" where
  "http_main cfg k =
     sq (modify (\<lambda>w. w\<lparr>lg := Logger_SetLogLevel (cfg_logLevel cfg) (lg w)\<rparr>))
    (sq (caught ''int main()''
          (sq SetExitCondition
          (sq (Server_new (cfg_port cfg) (cfg_epEventCount cfg))
          (sq ConnectionManager_new
              (with_dtor (sq (Server_Start manager_reports k) ConnectionManager_Close) ConnectionManager_Close)))))
        (ret 0))"

section \<open>Running one operation\<close>

lemma bnd_CheckSocketExist [cpp_run]: "bnd (CheckSocketExist fd) f w = f (om_has (socketMap w) fd) w"
  by (simp add: CheckSocketExist_def SocketMap_Count_def bnd_def cpp_run)

lemma bnd_gets [cpp_run]: "bnd (gets g) f w = f (g w) w"
  by (simp add: bnd_def cpp_run)

lemma bnd_GetValue [cpp_run]:
  "om_get (socketMap w) fd = Some i \<Longrightarrow> bnd (SocketMap_GetValue fd) f w = f i w"
  "om_get (socketMap w) fd = None \<Longrightarrow>
     bnd (SocketMap_GetValue fd) f w = f 0 (w\<lparr>socketMap := om_put fd 0 (socketMap w)\<rparr>)"
  by (simp_all add: bnd_def SocketMap_GetValue_def)

lemma SetNonBlocking_run:
  "k_sys w = SysOk v # y # ks \<Longrightarrow> SetNonBlocking fd w =
     (Val (), w\<lparr>k_sys := ks, k_trace := k_trace w @ [SysGetFl fd, SysSetFl fd (v OR O_NONBLOCK)]\<rparr>)"
  by (simp add: SetNonBlocking_def cpp_run Let_def)

section \<open>The part of the state that belongs to the server\<close>

definition server_part ::
  "world \<Rightarrow> (int, u64) omap \<times> wait_ans list \<times> accept_ans list \<times> sys_ans list \<times> u64 \<times> int \<times> (int \<times> u32) list \<times> bool \<times>
     sys_call list \<times> (int \<Rightarrow> string)" where
  "server_part w = (socketMap w, k_wait w, k_accept w, k_sys w, nextConnId w, listenFd w, ep_events w, isTimeToExit w,
     k_trace w, strerror w)"

named_theorems frame_rules \<open>operations that leave the server's part of the state alone\<close>

lemmas keeps_structural =
  keeps_ret keeps_throw keeps_gets keeps_skip keeps_bnd keeps_sq keeps_whenb keeps_if keeps_try_catch

lemma frame_basic [frame_rules]:
  "keeps (\<lambda>w. server_part w = X) (log_debug fn args)" "keeps (\<lambda>w. server_part w = X) (log_error fn args)"
  "keeps (\<lambda>w. server_part w = X) (deref a)" "keeps (\<lambda>w. server_part w = X) (upd_conn a f)"
  "keeps (\<lambda>w. server_part w = X) (readQueue_InQueue a)" "keeps (\<lambda>w. server_part w = X) (writeQueue_InQueue a)"
  "keeps (\<lambda>w. server_part w = X) readEvent_Set" "keeps (\<lambda>w. server_part w = X) writeEvent_Set"
  "keeps (\<lambda>w. server_part w = X) (ConnectionMap_GetValue i)" "keeps (\<lambda>w. server_part w = X) (ConnectionMap_Add i a)"
  by (auto simp: keeps_def server_part_def cpp_run deref_def ConnectionMap_GetValue_def ConnectionMap_Add_def bnd_def
      split: option.splits)

lemma frame_events [frame_rules]:
  "keeps (\<lambda>w. server_part w = X) (ConnectionManager_CanRead i)"
  "keeps (\<lambda>w. server_part w = X) (ConnectionManager_CanWrite i)"
  "keeps (\<lambda>w. server_part w = X) (ConnectionManager_ErrorOccurred i)"
  "keeps (\<lambda>w. server_part w = X) (ConnectionManager_TimeToExit i)"
  unfolding ConnectionManager_CanRead_def ConnectionManager_CanWrite_def ConnectionManager_ErrorOccurred_def
    ConnectionManager_TimeToExit_def mark_and_check_def caught_def CheckToInQueueRead_def CheckToInQueueWrite_def
    NeedInQueueRead_def NeedInQueueWrite_def
  by (intro keeps_structural frame_rules)+

lemma frame_NewConnection [frame_rules]:
  "keeps (\<lambda>w. server_part w = X) (ConnectionManager_NewConnection i ci fd)"
  unfolding ConnectionManager_NewConnection_def caught_def ConnectionMap_Size_def
  by (intro keeps_structural frame_rules keeps_modify) (simp add: server_part_def)

lemma server_part_kept:
  "keeps (\<lambda>w. server_part w = server_part w0) m \<Longrightarrow> m w0 = (r, w1) \<Longrightarrow> server_part w1 = server_part w0"
  by (drule keepsD[of _ m w0]) simp_all

lemma server_part_sel:
  assumes "server_part w1 = server_part w0"
  shows "socketMap w1 = socketMap w0" "k_wait w1 = k_wait w0" "k_accept w1 = k_accept w0" "k_sys w1 = k_sys w0"
    "nextConnId w1 = nextConnId w0" "listenFd w1 = listenFd w0" "ep_events w1 = ep_events w0"
    "isTimeToExit w1 = isTimeToExit w0" "k_trace w1 = k_trace w0" "strerror w1 = strerror w0"
  using assms by (simp_all add: server_part_def)

lemma manager_reports_sel [simp]:
  "reportNewConnection manager_reports = ConnectionManager_NewConnection"
  "reportCanRead manager_reports = ConnectionManager_CanRead"
  "reportCanWrite manager_reports = ConnectionManager_CanWrite"
  "reportErrorOccurred manager_reports = ConnectionManager_ErrorOccurred"
  "reportTimeToExit manager_reports = ConnectionManager_TimeToExit"
  by (simp_all add: manager_reports_def)

section \<open>Dispatch of events\<close>

text \<open>Replacing a continuation by one that agrees with it on every state the first part can reach.\<close>

lemma sq_cong_reach:
  assumes "\<And>w'. m w = (Val (), w') \<Longrightarrow> k w' = k' w'"
  shows "sq m k w = sq m k' w"
proof -
  obtain r w' where r: "m w = (r, w')" by fastforce
  then show ?thesis using assms by (cases r) (simp_all add: cpp_run)
qed

text \<open>
  Dispatch of an epoll event. For a descriptor that belongs to connection \<open>i\<close>, \<open>Server::ProcessEvent\<close> reports
  exactly the conditions of the mask, readable before writable before error, each once and each for
  \<open>i\<close>; for a descriptor the server does not know it throws and changes nothing.
\<close>

theorem event_dispatch:
  "ProcessEvent manager_reports fd ev w =
     (case om_get (socketMap w) fd of
        Some i \<Rightarrow>
          sq (whenb (ev AND EPOLLIN \<noteq> 0) (ConnectionManager_CanRead i))
         (sq (whenb (ev AND EPOLLOUT \<noteq> 0) (ConnectionManager_CanWrite i))
             (whenb (ev AND EPOLLERR \<noteq> 0) (ConnectionManager_ErrorOccurred i))) w
      | None \<Rightarrow> (Throw (RuntimeError (''void Server::ProcessEvent(int, uint32_t)'' @
                    '', fd('' @ to_string_int fd @ '') not exist'')), w))"
proof (cases "om_get (socketMap w) fd")
  case None
  then show ?thesis by (simp add: ProcessEvent_def cpp_run om_has_def)
next
  case (Some i)
  have get: "bnd (SocketMap_GetValue fd) f v = f i v" if "server_part v = server_part w" for f :: "u64 \<Rightarrow> (world, unit) cpp" and v
    using Some that by (simp add: cpp_run server_part_def)
  have frame: "server_part w2 = server_part w"
    if "server_part w1 = server_part w" "keeps (\<lambda>v. server_part v = server_part w) m" "whenb b m w1 = (Val (), w2)"
    for m :: "(world, unit) cpp" and b w1 w2
    using keepsD[OF keeps_whenb[OF that(2)] that(1), of b] that(3) by simp
  have step: "sq (whenb b (bnd (SocketMap_GetValue fd) f)) k v = sq (whenb b (f i)) k v"
    if "server_part v = server_part w" for b and f :: "u64 \<Rightarrow> (world, unit) cpp" and k and v
    using get[OF that, of f] by (cases b) (simp_all add: whenb_def sq_def bnd_def)
  have last: "whenb b (bnd (SocketMap_GetValue fd) f) v = whenb b (f i) v"
    if "server_part v = server_part w" for b and f :: "u64 \<Rightarrow> (world, unit) cpp" and v
    using get[OF that, of f] by (simp add: cpp_run)
  show ?thesis
    using Some
    by (simp add: ProcessEvent_def bnd_CheckSocketExist om_has_def step)
      (intro sq_cong_reach, drule frame[OF refl frame_events(1)], simp add: step,
       intro sq_cong_reach, drule frame[OF _ frame_events(2)], assumption, simp add: last)
qed

section \<open>From accept to close\<close>

text \<open>A client is about to be accepted: descriptor, address and id are new, the kernel's answers are in order.\<close>

definition client_arrives :: "world \<Rightarrow> int \<Rightarrow> string \<Rightarrow> u16 \<Rightarrow> bool" where
  "client_arrives w fd ip port \<longleftrightarrow>
     mgr_wf w \<and> om_wf (socketMap w) \<and> (\<forall>i. om_has (connectionMap w) i \<longrightarrow> i \<le> nextConnId w) \<and> nextConnId w < - 1 \<and>
     \<not> om_has (socketMap w) fd \<and> om_get (writeCache w) (nextConnId w + 1) = None \<and>
     readQueue w = [] \<and> writeQueue w = [] \<and> k_accept w = [AcceptOk fd (Inr ip) (htons port)]"

lemma succ_greater: "x < - 1 \<Longrightarrow> x < x + 1" for x :: u64
  using uint_ge_0[of x] by (simp add: word_less_def uint_word_ariths)

lemma fresh_id:
  assumes "\<forall>i. om_has (connectionMap w) i \<longrightarrow> i \<le> nextConnId w" "nextConnId w < - 1"
  shows "\<not> om_has (connectionMap w) (nextConnId w + 1)"
proof
  assume "om_has (connectionMap w) (nextConnId w + 1)"
  with assms(1) have "nextConnId w + 1 \<le> nextConnId w" by blast
  moreover have "nextConnId w < nextConnId w + 1"
    by (rule succ_greater[OF assms(2)])
  ultimately show False by simp
qed

lemma ProcessNewConnection_run:
  assumes "client_arrives w fd ip port" "k_sys w = SysOk v # SysOk v2 # SysOk v3 # ks"
  shows "\<exists>w1. ProcessNewConnection manager_reports w = (Val (), w1) \<and>
    heap w1 = (heap w)(next_addr w \<mapsto> Connection_new (nextConnId w + 1) \<lparr>ci_ip = ip, ci_port = port\<rparr> fd RequestHandler_new) \<and>
    connectionMap w1 = om_put (nextConnId w + 1) (next_addr w) (connectionMap w) \<and>
    socketMap w1 = om_put fd (nextConnId w + 1) (socketMap w) \<and> k_sys w1 = ks \<and> strerror w1 = strerror w \<and>
    k_read w1 = k_read w \<and> k_write w1 = k_write w \<and> readQueue w1 = [] \<and> writeQueue w1 = [] \<and> writeCache w1 = writeCache w \<and>
    nextConnId w1 = nextConnId w + 1 \<and>
    k_trace w1 = k_trace w @ [SysGetFl fd, SysSetFl fd (v OR O_NONBLOCK), SysCtlAdd fd (EPOLLIN OR EPOLLOUT OR EPOLLET)]"
  using assms fresh_id[of w]
  by (simp add: client_arrives_def ProcessNewConnection_def Server_Accept_def cpp_run SetNonBlocking_run Epoll_Add_def
      ntohs_htons SocketMap_Add_def ConnectionManager_NewConnection_def caught_def ConnectionMap_Add_def ConnectionMap_Size_def)

text \<open>The event that says \<open>readable and writable\<close> leaves the connection as the read worker expects it.\<close>

lemma ProcessEvent_in_out:
  assumes "om_get (socketMap w) fd = Some i" "om_get (connectionMap w) i = Some a"
    and "heap w a = Some (Connection_new i ci fd RequestHandler_new)"
    and "readQueue w = []" "writeQueue w = []" "om_get (writeCache w) i = None"
    and "SocketHandler_Read_loop (strerror w) [] (k_read w) = (Val s, [])"
    and "HttpRequest_Append s HttpRequest_new = (Val (), r)"
  shows "\<exists>w1 c. ProcessEvent manager_reports fd (EPOLLIN OR EPOLLOUT) w = (Val (), w1) \<and>
    request_arrives w1 a c s r \<and> conn_id c = i \<and> sock_fd c = fd \<and> k_sys w1 = k_sys w \<and> k_write w1 = k_write w \<and>
    k_trace w1 = k_trace w \<and> connectionMap w1 = connectionMap w \<and> socketMap w1 = socketMap w"
proof -
  have bits: "(EPOLLIN OR EPOLLOUT) AND EPOLLIN \<noteq> 0" "(EPOLLIN OR EPOLLOUT) AND EPOLLOUT \<noteq> 0"
    "(EPOLLIN OR EPOLLOUT) AND EPOLLERR = 0"
    by (simp_all add: EPOLLIN_def EPOLLOUT_def EPOLLERR_def)
  show ?thesis
    using assms bits
    by (simp add: ProcessEvent_def cpp_run om_has_def ConnectionManager_CanRead_def ConnectionManager_CanWrite_def
        mark_and_check_def caught_def wants_read_def wants_write_def queue_read_def Connection_new_def
        Connection_SetReadable_def Connection_SetWritable_def Connection_ReadEventHappend_def
        Connection_CanClose_def RequestHandler_IsWaiting_def WriteCache_HasContentToWrite_def request_arrives_def)
qed

text \<open>
  C1. A client is served from accept to close. When a client with a new descriptor is accepted, its socket then
  reports readable and writable, its bytes are a complete request, and the kernel answers without
  errors and takes the response at once, then the server thread's two steps followed by one pass of a
  read worker and one of a write worker make exactly this sequence of system calls: the socket is made
  non-blocking and added to epoll, read, the response is written, the socket is removed from epoll
  and closed. Afterwards both maps are as before, both queues are empty, and only the id counter has
  advanced.
\<close>

theorem client_served:
  assumes "client_arrives w fd ip port"
    and "k_sys w = SysOk v # SysOk v2 # SysOk v3 # SysOk v4 # SysOk v5 # ks"
    and "SocketHandler_Read_loop (strerror w) [] (k_read w) = (Val s, [])"
    and "HttpRequest_Append s HttpRequest_new = (Val (), r)" "totalParseComplete r"
    and "k_write w = WriteOk (length http_response) # ws"
  shows "\<exists>w1 w2 w3 w4.
    ProcessNewConnection manager_reports w = (Val (), w1) \<and>
    ProcessEvent manager_reports fd (EPOLLIN OR EPOLLOUT) w1 = (Val (), w2) \<and>
    ProcessRead_body w2 = (Val True, w3) \<and> ProcessWrite_body w3 = (Val True, w4) \<and>
    k_trace w4 = k_trace w @ [SysGetFl fd, SysSetFl fd (v OR O_NONBLOCK), SysCtlAdd fd (EPOLLIN OR EPOLLOUT OR EPOLLET),
       SysRead fd, SysWrite fd http_response, SysCtlDel fd, SysClose fd] \<and>
    connectionMap w4 = connectionMap w \<and> socketMap w4 = socketMap w \<and> readQueue w4 = [] \<and> writeQueue w4 = [] \<and>
    nextConnId w1 = nextConnId w + 1"
proof -
  let ?i = "nextConnId w + 1"
  obtain w1 where w1: "ProcessNewConnection manager_reports w = (Val (), w1)"
    "heap w1 = (heap w)(next_addr w \<mapsto> Connection_new ?i \<lparr>ci_ip = ip, ci_port = port\<rparr> fd RequestHandler_new)"
    "connectionMap w1 = om_put ?i (next_addr w) (connectionMap w)" "socketMap w1 = om_put fd ?i (socketMap w)"
    "k_sys w1 = SysOk v4 # SysOk v5 # ks" "strerror w1 = strerror w" "k_read w1 = k_read w" "k_write w1 = k_write w"
    "readQueue w1 = []" "writeQueue w1 = []" "writeCache w1 = writeCache w" "nextConnId w1 = ?i"
    "k_trace w1 = k_trace w @ [SysGetFl fd, SysSetFl fd (v OR O_NONBLOCK), SysCtlAdd fd (EPOLLIN OR EPOLLOUT OR EPOLLET)]"
    using ProcessNewConnection_run[OF assms(1,2)] by blast
  have wf: "om_wf (connectionMap w)" "om_wf (socketMap w)" "\<not> om_has (connectionMap w) ?i" "\<not> om_has (socketMap w) fd"
    using assms(1) fresh_id[of w] by (simp_all add: client_arrives_def mgr_wf_def)
  obtain w2 c where w2: "ProcessEvent manager_reports fd (EPOLLIN OR EPOLLOUT) w1 = (Val (), w2)"
    "request_arrives w2 (next_addr w) c s r" "conn_id c = ?i" "sock_fd c = fd" "k_sys w2 = k_sys w1"
    "k_write w2 = k_write w1" "k_trace w2 = k_trace w1" "connectionMap w2 = connectionMap w1" "socketMap w2 = socketMap w1"
    using ProcessEvent_in_out[of w1 fd ?i "next_addr w" "\<lparr>ci_ip = ip, ci_port = port\<rparr>" s r] w1 assms
    by (auto simp: client_arrives_def)
  obtain w3 where w3: "ProcessRead_body w2 = (Val True, w3)"
    "heap w3 = (heap w2)(next_addr w \<mapsto> c\<lparr>isReadable := 0, isWriting := True,
       requestHandler := answered (RequestHandler_new\<lparr>httpRequest := r\<rparr>), isReading := False\<rparr>)"
    "k_trace w3 = k_trace w2 @ [SysRead fd]" "k_sys w3 = k_sys w2" "k_write w3 = k_write w2"
    "connectionMap w3 = connectionMap w2" "socketMap w3 = socketMap w2"
    "om_get (writeCache w3) (conn_id c) = Some http_response" "writeQueue w3 = [next_addr w]" "readQueue w3 = []"
    using ProcessRead_body_complete[OF w2(2) assms(5)] w2(4) by blast
  let ?c = "c\<lparr>isReadable := 0, isWriting := True,
       requestHandler := answered (RequestHandler_new\<lparr>httpRequest := r\<rparr>), isReading := False\<rparr>"
  have "heap w3 (next_addr w) = Some ?c" "om_has (connectionMap w3) (conn_id ?c)" "om_has (socketMap w3) (sock_fd ?c)"
    "errorCode ?c = 0" "isWritable ?c = 1" "response ?c = []" "isWriting ?c"
    "\<not> isReadWaiting (requestHandler ?c)" "isWriteWaiting (requestHandler ?c)"
    "om_get (writeCache w3) (conn_id ?c) = Some http_response" "http_response \<noteq> []" "writeQueue w3 = [next_addr w]"
    "k_write w3 = WriteOk (length http_response) # ws" "k_sys w3 = SysOk v4 # SysOk v5 # ks"
    using w1 w2 w3 assms(6) by (simp_all add: request_arrives_def om_has_def)
  from ProcessWrite_body_complete[OF this] obtain w4 where w4: "ProcessWrite_body w3 = (Val True, w4)"
    "k_trace w4 = k_trace w3 @ [SysWrite fd http_response, SysCtlDel fd, SysClose fd]"
    "connectionMap w4 = om_del ?i (connectionMap w3)" "socketMap w4 = om_del fd (socketMap w3)"
    "writeQueue w4 = []" "readQueue w4 = readQueue w3"
    using w2(3,4) by auto
  show ?thesis
    using w1 w2 w3 w4 wf by (simp add: om_del_put_absent)
qed

definition client_world :: "string \<Rightarrow> world" where
  "client_world s = some_world\<lparr>k_accept := [AcceptOk 7 (Inr ''10.0.0.1'') (htons 4000)],
     k_sys := replicate 5 (SysOk 0), k_read := [ReadOk s, ReadErr EAGAIN], k_write := [WriteOk (length http_response)]\<rparr>"

lemma client_served_witness:
  "\<exists>w1 w2 w3 w4.
    ProcessNewConnection manager_reports (client_world (request_text ''GET / HTTP/1.1'' [] [])) = (Val (), w1) \<and>
    ProcessEvent manager_reports 7 (EPOLLIN OR EPOLLOUT) w1 = (Val (), w2) \<and>
    ProcessRead_body w2 = (Val True, w3) \<and> ProcessWrite_body w3 = (Val True, w4) \<and>
    k_trace w4 = [SysGetFl 7, SysSetFl 7 O_NONBLOCK, SysCtlAdd 7 (EPOLLIN OR EPOLLOUT OR EPOLLET),
       SysRead 7, SysWrite 7 http_response, SysCtlDel 7, SysClose 7] \<and>
    connectionMap w4 = []"
proof -
  let ?s = "request_text ''GET / HTTP/1.1'' [] []"
  obtain r where r: "HttpRequest_Append ?s HttpRequest_new = (Val (), r)" "totalParseComplete r"
    using get_request_parses by blast
  have "length ?s < 1000" "CHR 0x00 \<notin> set ?s" "?s \<noteq> []" by (simp_all add: request_text_def crlf_def)
  then have loop: "SocketHandler_Read_loop (strerror (client_world ?s)) [] (k_read (client_world ?s)) = (Val ?s, [])"
    by (simp add: client_world_def c_str_buffer)
  have "(0 :: u64) < - 1" by (simp add: word_gt_0)
  then have arr: "client_arrives (client_world ?s) 7 ''10.0.0.1'' 4000"
    by (simp add: client_arrives_def client_world_def some_world_def mgr_wf_def om_empty_def om_get_def om_has_def om_wf_def)
  from client_served[OF arr _ loop r, of 0 0 0 0 0 "[]" "[]"] show ?thesis
    by (simp add: client_world_def some_world_def numeral_eq_Suc om_empty_def) blast
qed

section \<open>Listening\<close>

text \<open>
  \<open>Server::Listen\<close> opens a socket, binds it to the configured port in network byte order and listens with a
  backlog of 50; a client that reads the bound number back in host order gets the configured port.
\<close>

theorem listen_binds_configured_port:
  assumes "k_sys w = SysOk fd # SysOk u # SysOk v # ks"
  shows "\<exists>b. Server_Listen w = (Val (), w\<lparr>listenFd := fd, k_sys := ks,
      k_trace := k_trace w @ [SysSocket, SysBind b, SysListen 50]\<rparr>) \<and> ntohs b = sv_port w"
  using assms by (simp add: Server_Listen_def cpp_run LISTEN_BACKLOG_def ntohs_htons exI[of _ "htons (sv_port w)"])

lemma listen_binds_configured_port_witness:
  "\<exists>b. fst (Server_Listen (some_world\<lparr>k_sys := [SysOk 3, SysOk 0, SysOk 0]\<rparr>)) = Val () \<and> ntohs b = 5666"
  using listen_binds_configured_port[of "some_world\<lparr>k_sys := [SysOk 3, SysOk 0, SysOk 0]\<rparr>" 3 0 0 "[]"]
  by (auto simp: some_world_def)

section \<open>Shutdown\<close>

text \<open>
  What \<open>TimeToExit\<close> makes of a connection, and what it leaves of one after the whole of \<open>Release\<close>: the
  closing mark is set; one that no worker and no queue had for reading enters the read queue, once, and
  any other is not queued again; one with output waiting, or whose handler is done, enters the write
  queue likewise.
\<close>

definition exit_conn :: "(u64, string) omap \<Rightarrow> connection \<Rightarrow> connection" where
  "exit_conn m c = c\<lparr>errorCode := SOCKET_CLOSED, isReading := True,
     isWriting := isWriting c \<or> wants_write m (Connection_SetToClose c)\<rparr>"

definition told_to_close :: "world \<Rightarrow> addr \<Rightarrow> world \<Rightarrow> bool" where
  "told_to_close w a w' \<longleftrightarrow> (\<exists>c. heap w a = Some c \<and> heap w' a = Some (exit_conn (writeCache w) c) \<and>
     count_list (readQueue w') a = count_list (readQueue w) a + (if isReading c then 0 else 1) \<and>
     count_list (writeQueue w') a =
       count_list (writeQueue w) a + (if wants_write (writeCache w) (Connection_SetToClose c) then 1 else 0))"

definition left_alone :: "world \<Rightarrow> addr \<Rightarrow> world \<Rightarrow> bool" where
  "left_alone w a w' \<longleftrightarrow> heap w' a = heap w a \<and> count_list (readQueue w') a = count_list (readQueue w) a \<and>
     count_list (writeQueue w') a = count_list (writeQueue w) a"

text \<open>Every address added to a queue comes with a signal to that queue's workers.\<close>

definition workers_called :: "world \<Rightarrow> world \<Rightarrow> bool" where
  "workers_called w w' \<longleftrightarrow>
     (readQueue w' = readQueue w \<and> readInQueueHappened w' = readInQueueHappened w \<or> signaled (readInQueueHappened w')) \<and>
     (writeQueue w' = writeQueue w \<and> writeInQueueHappened w' = writeInQueueHappened w \<or> signaled (writeInQueueHappened w'))"

lemma exit_conn_again:
  "exit_conn m (exit_conn m c) = exit_conn m c" "isReading (exit_conn m c)"
  "\<not> wants_write m (Connection_SetToClose (exit_conn m c))"
  by (rule connection.equality; auto simp: exit_conn_def wants_write_def Connection_SetToClose_def
      Connection_WriteEventHappend_def Connection_CanClose_def)
    (auto simp: exit_conn_def wants_write_def Connection_SetToClose_def Connection_WriteEventHappend_def
      Connection_CanClose_def)

lemma told_frame [simp]:
  "told_to_close w a (w1\<lparr>k_sys := ks, k_trace := t\<rparr>) = told_to_close w a w1"
  "left_alone w a (w1\<lparr>k_sys := ks, k_trace := t\<rparr>) = left_alone w a w1"
  "workers_called w (w1\<lparr>k_sys := ks, k_trace := t\<rparr>) = workers_called w w1"
  "told_to_close w a (w1\<lparr>lg := l\<rparr>) = told_to_close w a w1" "left_alone w a (w1\<lparr>lg := l\<rparr>) = left_alone w a w1"
  "workers_called w (w1\<lparr>lg := l\<rparr>) = workers_called w w1"
  by (simp_all add: told_to_close_def left_alone_def workers_called_def)

lemma told_then:
  "told_to_close w a w1 \<Longrightarrow> writeCache w1 = writeCache w \<Longrightarrow> told_to_close w1 a w2 \<or> left_alone w1 a w2 \<Longrightarrow> told_to_close w a w2"
  by (auto simp: told_to_close_def left_alone_def exit_conn_again)

lemma alone_then:
  "left_alone w a w1 \<Longrightarrow> writeCache w1 = writeCache w \<Longrightarrow> told_to_close w1 a w2 \<Longrightarrow> told_to_close w a w2"
  "left_alone w a w1 \<Longrightarrow> left_alone w1 a w2 \<Longrightarrow> left_alone w a w2"
  by (auto simp: told_to_close_def left_alone_def)

lemma called_then: "workers_called w w1 \<Longrightarrow> workers_called w1 w2 \<Longrightarrow> workers_called w w2"
  by (auto simp: workers_called_def)

lemma TimeToExit_told:
  assumes "mgr_wf w" "om_get (connectionMap w) i = Some a"
  shows "\<exists>w1. ConnectionManager_TimeToExit i w = (Val (), w1) \<and> told_to_close w a w1 \<and> workers_called w w1 \<and>
    (\<forall>b. b \<noteq> a \<longrightarrow> left_alone w b w1) \<and> connectionMap w1 = connectionMap w \<and> writeCache w1 = writeCache w"
proof -
  obtain c where c: "heap w a = Some c" "conn_id c = i" using assms by (auto simp: mgr_wf_def)
  have r: "wants_read (Connection_SetToClose c) \<longleftrightarrow> \<not> isReading c"
    by (simp add: wants_read_def Connection_SetToClose_def Connection_ReadEventHappend_def SOCKET_CLOSED_def)
  have v: "wants_write m (c\<lparr>errorCode := e, isReading := b\<rparr>) \<longleftrightarrow> wants_write m (c\<lparr>errorCode := e\<rparr>)" for m e b
    by (simp add: wants_write_def Connection_WriteEventHappend_def Connection_CanClose_def)
  show ?thesis
    using c assms(2) r
    by (cases "isReading c"; cases "wants_write (writeCache w) (Connection_SetToClose c)")
      (auto simp: ConnectionManager_TimeToExit_def mark_and_check_def caught_def cpp_run queue_read_def queue_write_def
        told_to_close_def left_alone_def workers_called_def exit_conn_def Connection_SetToClose_def v
        EventNotifier_Set_def)
qed

lemma TimeToExit_run:
  assumes "mgr_wf w"
  shows "\<exists>w1. ConnectionManager_TimeToExit i w = (Val (), w1) \<and> mgr_wf w1 \<and> server_part w1 = server_part w \<and>
    connectionMap w1 = connectionMap w \<and> writeCache w1 = writeCache w \<and> workers_called w w1 \<and>
    (\<forall>a. if om_get (connectionMap w) i = Some a then told_to_close w a w1 else left_alone w a w1)"
proof -
  have "\<exists>w1. ConnectionManager_TimeToExit i w = (Val (), w1) \<and> connectionMap w1 = connectionMap w \<and>
      writeCache w1 = writeCache w \<and> workers_called w w1 \<and>
      (\<forall>a. if om_get (connectionMap w) i = Some a then told_to_close w a w1 else left_alone w a w1)"
  proof (cases "om_get (connectionMap w) i")
    case None
    then show ?thesis
      by (simp add: ConnectionManager_TimeToExit_def mark_and_check_def caught_def cpp_run left_alone_def workers_called_def)
  next
    case (Some a)
    from TimeToExit_told[OF assms Some] show ?thesis using Some by auto
  qed
  then obtain w1 where w1: "ConnectionManager_TimeToExit i w = (Val (), w1)" "connectionMap w1 = connectionMap w"
      "writeCache w1 = writeCache w" "workers_called w w1"
      "\<forall>a. if om_get (connectionMap w) i = Some a then told_to_close w a w1 else left_alone w a w1" by blast
  moreover have "mgr_wf w1" using safeD(1)[OF safe_events(4) assms empty_subsetI w1(1)] .
  moreover have "server_part w1 = server_part w" using server_part_kept[OF frame_events(4) w1(1)] .
  ultimately show ?thesis by blast
qed

lemma report_all_exit:
  assumes "mgr_wf w"
  shows "\<exists>w1. report_all ConnectionManager_TimeToExit is w = (Val (), w1) \<and> server_part w1 = server_part w \<and>
    connectionMap w1 = connectionMap w \<and> writeCache w1 = writeCache w \<and> workers_called w w1 \<and>
    (\<forall>a. if \<exists>i \<in> set is. om_get (connectionMap w) i = Some a then told_to_close w a w1 else left_alone w a w1)"
  using assms
proof (induction "is" arbitrary: w)
  case Nil
  then show ?case by (simp add: cpp_run left_alone_def workers_called_def)
next
  case (Cons i "is")
  obtain w1 where w1: "ConnectionManager_TimeToExit i w = (Val (), w1)" "mgr_wf w1" "server_part w1 = server_part w"
    "connectionMap w1 = connectionMap w" "writeCache w1 = writeCache w" "workers_called w w1"
    "\<forall>a. if om_get (connectionMap w) i = Some a then told_to_close w a w1 else left_alone w a w1"
    using TimeToExit_run[OF Cons.prems] by blast
  obtain w2 where w2: "report_all ConnectionManager_TimeToExit is w1 = (Val (), w2)" "server_part w2 = server_part w1"
    "connectionMap w2 = connectionMap w1" "writeCache w2 = writeCache w1" "workers_called w1 w2"
    "\<forall>a. if \<exists>i \<in> set is. om_get (connectionMap w1) i = Some a then told_to_close w1 a w2 else left_alone w1 a w2"
    using Cons.IH[OF w1(2)] by blast
  have "if \<exists>j \<in> set (i # is). om_get (connectionMap w) j = Some a then told_to_close w a w2 else left_alone w a w2" for a
    using w1(4,5) spec[OF w1(7), of a] spec[OF w2(6), of a] told_then[of w a w1 w2] alone_then[of w a w1 w2]
    by (auto split: if_splits)
  with w1 w2 called_then[OF w1(6) w2(5)] show ?case by (auto simp: cpp_run)
qed

text \<open>
  C7. Shutdown hands every connection to a worker, once. \<open>Server::Release\<close> sets the closing mark of every
  connection whose socket the server knows. A connection that was not being read, which is what its flag
  says when no read worker has it and it is not in the read queue, is put into the read queue exactly once,
  and one whose flag was set is not queued a second time; the write queue is treated alike for connections
  that have output waiting or whose handler is done. A queue that grew has its event set, so a worker wakes;
  connections the server does not know are not touched. Then the listening socket is taken out of epoll
  and closed.
\<close>

theorem release_tells_every_connection:
  assumes "mgr_wf w" "om_wf (socketMap w)" "k_sys w = SysOk u # SysOk v # ks"
  shows "\<exists>w'. Server_Release manager_reports w = (Val (), w') \<and>
    (\<forall>a. if \<exists>fd i. om_get (socketMap w) fd = Some i \<and> om_get (connectionMap w) i = Some a
      then told_to_close w a w' else left_alone w a w') \<and> workers_called w w' \<and>
    k_trace w' = k_trace w @ [SysCtlDel (listenFd w), SysClose (listenFd w)]"
proof -
  obtain w1 where w1: "report_all ConnectionManager_TimeToExit (om_values (socketMap w)) w = (Val (), w1)"
    "server_part w1 = server_part w" "workers_called w w1"
    "\<forall>a. if \<exists>i \<in> set (om_values (socketMap w)). om_get (connectionMap w) i = Some a
      then told_to_close w a w1 else left_alone w a w1"
    using report_all_exit[OF assms(1)] by blast
  have "(\<exists>i \<in> set (om_values (socketMap w)). om_get (connectionMap w) i = Some a) \<longleftrightarrow>
      (\<exists>fd i. om_get (socketMap w) fd = Some i \<and> om_get (connectionMap w) i = Some a)" for a
    using om_values_mem[OF assms(2)] by blast
  with w1 show ?thesis
    using assms(3) server_part_sel[OF w1(2)]
    by (simp add: Server_Release_def SocketMap_GetValues_def cpp_run)
qed

definition idle_world :: world where
  "idle_world = error_world\<lparr>heap := [0 \<mapsto> error_conn\<lparr>isReading := False\<rparr>], readQueue := [], k_sys := [SysOk 0, SysOk 0]\<rparr>"

lemma release_tells_every_connection_witness:
  "\<exists>w'. Server_Release manager_reports idle_world = (Val (), w') \<and>
    heap w' 0 = Some (error_conn\<lparr>errorCode := SOCKET_CLOSED\<rparr>) \<and> count_list (readQueue w') 0 = 1 \<and>
    signaled (readInQueueHappened w') \<and> k_trace w' = [SysCtlDel 3, SysClose 3]"
proof -
  have "mgr_wf idle_world" "om_wf (socketMap idle_world)"
    by (auto simp: mgr_wf_def idle_world_def error_world_def error_conn_def Connection_new_def some_world_def om_get_def
        om_wf_def split: if_splits)
  moreover have k: "k_sys idle_world = [SysOk 0, SysOk 0]" "listenFd idle_world = 3" "k_trace idle_world = []"
    by (simp_all add: idle_world_def error_world_def some_world_def)
  ultimately obtain w' where w: "Server_Release manager_reports idle_world = (Val (), w')"
    "if \<exists>fd i. om_get (socketMap idle_world) fd = Some i \<and> om_get (connectionMap idle_world) i = Some 0
      then told_to_close idle_world 0 w' else left_alone idle_world 0 w'"
    "workers_called idle_world w'" "k_trace w' = [SysCtlDel 3, SysClose 3]"
    using release_tells_every_connection[of idle_world 0 0 "[]"] by (metis append_Nil)
  have "\<exists>fd i. om_get (socketMap idle_world) fd = Some i \<and> om_get (connectionMap idle_world) i = Some 0"
    by (intro exI[of _ 7] exI[of _ 1]) (simp add: idle_world_def error_world_def om_get_def)
  with w have w': "Server_Release manager_reports idle_world = (Val (), w')"
    "told_to_close idle_world 0 w'" "workers_called idle_world w'" "k_trace w' = [SysCtlDel 3, SysClose 3]" by metis+
  have "count_list (readQueue w') 0 = 1" "heap w' 0 = Some (error_conn\<lparr>errorCode := SOCKET_CLOSED\<rparr>)"
    using w'(2) by (simp_all add: told_to_close_def idle_world_def exit_conn_def error_world_def some_world_def error_conn_def
        Connection_new_def wants_write_def Connection_CanClose_def RequestHandler_IsWaiting_def RequestHandler_new_def
        Connection_SetToClose_def WriteCache_HasContentToWrite_def om_get_def om_empty_def)
  moreover from this(1) have "readQueue w' \<noteq> readQueue idle_world" by (auto simp: idle_world_def)
  ultimately show ?thesis using w' by (auto simp: workers_called_def)
qed

section \<open>The event loop\<close>

text \<open>No operation of the loop adds to what \<open>epoll_wait\<close> will answer.\<close>

lemma waits_basic:
  "keeps (\<lambda>w. k_wait w = K) (log_debug fn args)" "keeps (\<lambda>w. k_wait w = K) (syscall c)"
  "keeps (\<lambda>w. k_wait w = K) Server_Accept" "keeps (\<lambda>w. k_wait w = K) (SocketMap_Add fd i)"
  "keeps (\<lambda>w. k_wait w = K) (SocketMap_GetValue fd)" "keeps (\<lambda>w. k_wait w = K) (SocketMap_Count fd)"
  "keeps (\<lambda>w. k_wait w = K) (Epoll_GetFd j)" "keeps (\<lambda>w. k_wait w = K) (Epoll_GetEvent j)"
  "keeps (\<lambda>w. k_wait w = K) (modify (\<lambda>w. w\<lparr>nextConnId := nextConnId w + 1\<rparr>))"
  by (auto simp: keeps_def cpp_run syscall_def Server_Accept_def SocketMap_Add_def SocketMap_GetValue_def
      SocketMap_Count_def Epoll_GetFd_def Epoll_GetEvent_def Let_def
      split: list.splits option.splits accept_ans.splits sum.splits)

lemma keeps_weaken: "(\<And>x. keeps (\<lambda>w. f w = x) m) \<Longrightarrow> keeps (\<lambda>w. g (f w) = y) m"
  by (simp add: keeps_def)

lemma waits_reports:
  "keeps (\<lambda>w. k_wait w = K) (ConnectionManager_CanRead i)"
  "keeps (\<lambda>w. k_wait w = K) (ConnectionManager_CanWrite i)"
  "keeps (\<lambda>w. k_wait w = K) (ConnectionManager_ErrorOccurred i)"
  "keeps (\<lambda>w. k_wait w = K) (ConnectionManager_NewConnection i ci fd)"
proof -
  have k: "k_wait w = (case server_part w of (_, k, _) \<Rightarrow> k)" for w by (simp add: server_part_def)
  show "keeps (\<lambda>w. k_wait w = K) (ConnectionManager_CanRead i)"
    "keeps (\<lambda>w. k_wait w = K) (ConnectionManager_CanWrite i)"
    "keeps (\<lambda>w. k_wait w = K) (ConnectionManager_ErrorOccurred i)"
    "keeps (\<lambda>w. k_wait w = K) (ConnectionManager_NewConnection i ci fd)"
    unfolding k by (rule keeps_weaken[of server_part]; rule frame_rules)+
qed

lemma keeps_case_prod: "(\<And>x y. keeps P (f x y)) \<Longrightarrow> keeps P (case p of (x, y) \<Rightarrow> f x y)"
  by (cases p) simp

lemma keeps_case_ans:
  "(\<And>v. keeps P (f v)) \<Longrightarrow> (\<And>e. keeps P (g e)) \<Longrightarrow> keeps P (case a of SysOk v \<Rightarrow> f v | SysErr e \<Rightarrow> g e)"
  by (cases a) simp_all

lemma waits_ProcessNewConnection: "keeps (\<lambda>w. k_wait w = K) (ProcessNewConnection manager_reports)"
  unfolding ProcessNewConnection_def CheckSocketExist_def SetNonBlocking_def Epoll_Add_def sys_or_throw_def Let_def
  by (intro keeps_structural waits_basic keeps_case_prod keeps_case_ans) (simp add: waits_reports)

lemma waits_ProcessEvent: "keeps (\<lambda>w. k_wait w = K) (ProcessEvent manager_reports fd ev)"
  unfolding ProcessEvent_def CheckSocketExist_def
  by (intro keeps_structural waits_basic; simp add: waits_reports)

lemma waits_ProcessEvents_from: "keeps (\<lambda>w. k_wait w = K) (ProcessEvents_from manager_reports i n)"
proof (induction n arbitrary: i)
  case (Suc n)
  show ?case
    unfolding ProcessEvents_from.simps
    by (intro keeps_structural waits_basic waits_ProcessNewConnection waits_ProcessEvent Suc.IH)
qed simp

lemma Start_loop_round:
  "Start_loop rp (Suc k) w =
     (case Epoll_Wait 3000 w of
        (Val n, w1) \<Rightarrow>
          (case (if 0 < n then ProcessEvents rp n
                 else log_debug ''void Server::Start()'' [''epoll wait timeout('', to_string_int 3000, ''ms)'']) w1 of
             (Val _, w2) \<Rightarrow> (if isTimeToExit w2 then Server_Release rp w2 else Start_loop rp k w2)
           | r \<Rightarrow> r)
      | (Throw e, w1) \<Rightarrow> (Throw e, w1) | (Undef u, w1) \<Rightarrow> (Undef u, w1) | (Exit x, w1) \<Rightarrow> (Exit x, w1)
      | (Pending, w1) \<Rightarrow> (Pending, w1))"
  by (auto simp: bnd_def sq_def cpp_run split: prod.splits outcome.splits)

lemma Epoll_Wait_consumes:
  "Epoll_Wait t w = (Val n, w1) \<Longrightarrow> length (k_wait w1) < length (k_wait w)"
  by (auto simp: Epoll_Wait_def Let_def SigHandler_def split: list.splits sum.splits if_splits)

text \<open>
  The bound of the event loop is no restriction: with more rounds than \<open>epoll_wait\<close> has answers, the loop does
  not run out, so any two such bounds give the same behaviour.
\<close>

theorem start_loop_bound_enough:
  assumes "length (k_wait w) < k" "length (k_wait w) < k'"
  shows "Start_loop manager_reports k w = Start_loop manager_reports k' w"
  using assms
proof (induction k arbitrary: k' w)
  case (Suc k)
  then obtain l where l: "k' = Suc l" by (cases k') auto
  have rec: "Start_loop manager_reports k w2 = Start_loop manager_reports l w2"
    if "Epoll_Wait 3000 w = (Val n, w1)" "k_wait w2 = k_wait w1" for n w1 w2
    using Suc.IH[of w2 l] Suc.prems Epoll_Wait_consumes[OF that(1)] that(2) l by simp
  have round: "k_wait w2 = k_wait w1"
    if "(if 0 < n then ProcessEvents manager_reports n else log_debug fn args) w1 = (r, w2)" for n fn args w1 w2 r
    using keepsD[OF waits_ProcessEvents_from, of w1 "k_wait w1" 0 "nat n"] keepsD[OF waits_basic(1), of w1 "k_wait w1" fn args] that
    by (auto simp: ProcessEvents_def split: if_splits)
  obtain o1 w1 where o1: "Epoll_Wait 3000 w = (o1, w1)" by fastforce
  show ?case
  proof (cases o1)
    case (Val n)
    obtain o2 w2 where o2: "(if 0 < n then ProcessEvents manager_reports n
        else log_debug ''void Server::Start()'' [''epoll wait timeout('', to_string_int 3000, ''ms)'']) w1 = (o2, w2)"
      by fastforce
    show ?thesis
      unfolding l Start_loop_round using o1 Val o2 rec[OF _ round[OF o2], of n] by (cases o2) simp_all
  qed (use o1 l in \<open>simp_all add: Start_loop_round del: Start_loop.simps\<close>)
qed simp

text \<open>A state in which \<open>epoll_wait\<close> times out once and is then interrupted by SIGINT.\<close>

definition waiting_world :: world where
  "waiting_world = some_world\<lparr>k_wait := [\<lparr>wa_result = Inr [], wa_sigint = False\<rparr>, \<lparr>wa_result = Inl EINTR, wa_sigint = True\<rparr>],
     k_sys := [SysOk 0, SysOk 0]\<rparr>"

lemma start_loop_bound_enough_witness:
  "Start_loop manager_reports 3 waiting_world = Start_loop manager_reports 7 waiting_world"
  by (rule start_loop_bound_enough) (simp_all add: waiting_world_def)

section \<open>Races and missing initialisation\<close>

text \<open>
  A socket that is closed between two reports of the same event leaves a stale entry behind. When the workers
  close a connection's socket after the server thread has reported it readable and before it looks the
  descriptor up for the writable report, the second lookup inserts the descriptor with connection id 0;
  the report is made for connection 0, and as soon as the kernel hands out the same descriptor for a
  new client, accepting that client throws.
\<close>

theorem stale_socket_entry:
  assumes "om_get (socketMap w) fd = Some i"
    and "interfere i w = (Val (), w1)" "\<not> om_has (socketMap w1) fd" "om_get (connectionMap w1) 0 = None"
    and "k_accept w1 = AcceptOk fd (Inr ip) port # as"
  shows "\<exists>w2 w3. ProcessEvent (manager_reports\<lparr>reportCanRead := interfere\<rparr>) fd (EPOLLIN OR EPOLLOUT) w = (Val (), w2) \<and>
    om_get (socketMap w2) fd = Some 0 \<and>
    ProcessNewConnection manager_reports w2 =
      (Throw (RuntimeError (''void Server::ProcessNewConnection()'' @ ''fd('' @ to_string_int fd @ '') exist'')), w3)"
proof -
  have bits: "(EPOLLIN OR EPOLLOUT) AND EPOLLIN \<noteq> 0" "(EPOLLIN OR EPOLLOUT) AND EPOLLOUT \<noteq> 0"
    "(EPOLLIN OR EPOLLOUT) AND EPOLLERR = 0"
    by (simp_all add: EPOLLIN_def EPOLLOUT_def EPOLLERR_def)
  let ?w = "w1\<lparr>socketMap := om_put fd 0 (socketMap w1)\<rparr>"
  obtain w2 where w2: "ConnectionManager_CanWrite 0 ?w = (Val (), w2)"
    using assms(4) by (simp add: ConnectionManager_CanWrite_def mark_and_check_def caught_def cpp_run)
  then have part: "socketMap w2 = om_put fd 0 (socketMap w1)" "k_accept w2 = AcceptOk fd (Inr ip) port # as"
    using server_part_sel[OF server_part_kept[OF frame_events(2) w2]] assms(5) by simp_all
  have none: "om_get (socketMap w1) fd = None" using assms(3) by (simp add: om_has_def)
  have "bnd (SocketMap_GetValue fd) interfere w = (Val (), w1)"
    using bnd_GetValue(1)[OF assms(1), of interfere] assms(2) by simp
  moreover have "bnd (SocketMap_GetValue fd) ConnectionManager_CanWrite w1 = (Val (), w2)"
    using bnd_GetValue(2)[OF none, of ConnectionManager_CanWrite] w2 by simp
  ultimately have ev: "ProcessEvent (manager_reports\<lparr>reportCanRead := interfere\<rparr>) fd (EPOLLIN OR EPOLLOUT) w = (Val (), w2)"
    using bits assms(1) by (simp add: ProcessEvent_def bnd_CheckSocketExist om_has_def sq_whenb whenb_run sq_run)
  have "\<exists>w3. ProcessNewConnection manager_reports w2 =
      (Throw (RuntimeError (''void Server::ProcessNewConnection()'' @ ''fd('' @ to_string_int fd @ '') exist'')), w3)"
    using part by (simp add: ProcessNewConnection_def Server_Accept_def cpp_run)
  with ev part show ?thesis by auto
qed

definition race_world :: world where
  "race_world = some_world\<lparr>heap := [0 \<mapsto> Connection_new 1 \<lparr>ci_ip = ''10.0.0.1'', ci_port = 4000\<rparr> 7 RequestHandler_new],
     next_addr := 1, connectionMap := [(1, 0)], socketMap := [(7, 1)], k_sys := [SysOk 0, SysOk 0],
     k_accept := [AcceptOk 7 (Inr ''10.0.0.2'') 80]\<rparr>"

lemma stale_socket_entry_witness:
  "\<exists>w2 w3. ProcessEvent (manager_reports\<lparr>reportCanRead := \<lambda>i. sq (ConnectionManager_CanRead i) (Connection_Close 0)\<rparr>)
      7 (EPOLLIN OR EPOLLOUT) race_world = (Val (), w2) \<and> om_get (socketMap w2) 7 = Some 0 \<and>
    ProcessNewConnection manager_reports w2 =
      (Throw (RuntimeError (''void Server::ProcessNewConnection()'' @ ''fd('' @ to_string_int 7 @ '') exist'')), w3)"
proof -
  let ?f = "\<lambda>i. sq (ConnectionManager_CanRead i) (Connection_Close 0)"
  have get: "om_get (socketMap race_world) 7 = Some 1" by (simp add: race_world_def om_get_def)
  have "\<exists>w1. ?f 1 race_world = (Val (), w1) \<and> \<not> om_has (socketMap w1) 7 \<and> om_get (connectionMap w1) 0 = None \<and>
      k_accept w1 = [AcceptOk 7 (Inr ''10.0.0.2'') 80]"
    by (simp add: race_world_def ConnectionManager_CanRead_def mark_and_check_def caught_def cpp_run om_get_def om_has_def
        Connection_new_def Connection_SetReadable_def wants_read_def Connection_ReadEventHappend_def queue_read_def
        Connection_Close_run om_del_def)
  then obtain w1 where "?f 1 race_world = (Val (), w1)" "\<not> om_has (socketMap w1) 7" "om_get (connectionMap w1) 0 = None"
    "k_accept w1 = [AcceptOk 7 (Inr ''10.0.0.2'') 80]" by blast
  from stale_socket_entry[where interfere = ?f, OF get this] show ?thesis .
qed

text \<open>
  The constructor of the connection manager leaves \<open>closed\<close> as the memory happens to be. Where that is true,
  every worker thread ends at once: it touches no queue and no connection, so nothing the server
  reports is ever processed.
\<close>

theorem uninitialised_closed_stops_workers:
  assumes "closed w" "ConnectionManager_new w = (oc, w1)" "closed w2 = closed w1"
  shows "(case ProcessRead m (Suc n) k w2 of (r, w3) \<Rightarrow> r = Val () \<and> readQueue w3 = readQueue w2 \<and> heap w3 = heap w2) \<and>
    (case ProcessWrite m (Suc n) k w2 of (r, w3) \<Rightarrow> r = Val () \<and> writeQueue w3 = writeQueue w2 \<and> heap w3 = heap w2)"
proof -
  have "closed w2" using assms by (auto simp: ConnectionManager_new_def cpp_run)
  then show ?thesis by (simp add: ProcessRead_def ProcessWrite_def cpp_run)
qed

lemma uninitialised_closed_stops_workers_witness:
  "fst (ProcessRead 1 1 0 (some_world\<lparr>closed := True, readQueue := [0]\<rparr>)) = Val ()"
proof -
  let ?w = "some_world\<lparr>closed := True\<rparr>"
  have "ConnectionManager_new ?w = (Val (), snd (ConnectionManager_new ?w))"
    by (simp add: ConnectionManager_new_def cpp_run)
  from uninitialised_closed_stops_workers[OF _ this, of "some_world\<lparr>closed := True, readQueue := [0]\<rparr>" 1 0 0]
  show ?thesis by (auto simp: ConnectionManager_new_def cpp_run split: prod.splits)
qed

end
