(* ===== verification/Http_Workers.thy ===== *)
theory Http_Workers
  imports Http_Server
begin

text \<open>
  The threads of the connection manager, interleaved. The manager runs several read workers and
  several write workers; the server thread and the workers themselves hand connections to them
  through a queue and an event notifier. The granularity is that of the program's critical sections:
  one test-and-set of \<open>isReading\<close> (or \<open>isWriting\<close>) under its mutex, one queue operation under the queue's
  mutex, one \<open>Set\<close> or \<open>Wait\<close> of the notifier, one test of \<open>closed\<close>. Between any two of them any other
  thread may run, and anything else in the state may change.

  The two sides have the same shape, so the step relation takes the operations as a record; it is
  used with the manager's read operations and with its write operations.
\<close>

section \<open>The step relation\<close>

record 's side =
  need_in :: "addr \<Rightarrow> ('s, bool) cpp"
  need_re :: "addr \<Rightarrow> ('s, bool) cpp"
  inq :: "addr \<Rightarrow> ('s, unit) cpp"
  deq :: "('s, addr option) cpp"
  work :: "addr \<Rightarrow> ('s, unit) cpp"
  set_ev :: "('s, unit) cpp"
  wait_ev :: "('s, unit) cpp"
  close_op :: "('s, unit) cpp"
  bsy :: "'s \<Rightarrow> addr \<Rightarrow> bool"
  que :: "'s \<Rightarrow> addr list"
  sgn :: "'s \<Rightarrow> bool"
  cls :: "'s \<Rightarrow> bool"

text \<open>
  Where a thread is. The first three are threads that report events (or close the manager): between
  calls, after a successful \<open>NeedInQueue\<close>, before \<open>Set\<close>. The others are the points of the worker loop.
\<close>

datatype pc =
    EIdle | EnqReady addr | Notify
  | Outer | Waiting | Inner | Taking | Hold addr | Recheck addr | ReEnq addr | Exiting | Ended

inductive wstep :: "'s side \<Rightarrow> 's \<times> pc list \<Rightarrow> 's \<times> pc list \<Rightarrow> bool" for sd where
  report: "t < length ps \<Longrightarrow> ps ! t = EIdle \<Longrightarrow> need_in sd a s = (Val True, s') \<Longrightarrow>
     wstep sd (s, ps) (s', ps[t := EnqReady a])"
| report_no: "t < length ps \<Longrightarrow> ps ! t = EIdle \<Longrightarrow> need_in sd a s = (Val False, s') \<Longrightarrow> wstep sd (s, ps) (s', ps)"
| push: "t < length ps \<Longrightarrow> ps ! t = EnqReady a \<Longrightarrow> inq sd a s = (Val (), s') \<Longrightarrow>
     wstep sd (s, ps) (s', ps[t := Notify])"
| notify: "t < length ps \<Longrightarrow> ps ! t = Notify \<Longrightarrow> set_ev sd s = (Val (), s') \<Longrightarrow>
     wstep sd (s, ps) (s', ps[t := EIdle])"
| close: "t < length ps \<Longrightarrow> ps ! t = EIdle \<Longrightarrow> \<not> cls sd s \<Longrightarrow> close_op sd s = (Val (), s') \<Longrightarrow>
     wstep sd (s, ps) (s', ps[t := Notify])"
| outer_go: "t < length ps \<Longrightarrow> ps ! t = Outer \<Longrightarrow> \<not> cls sd s \<Longrightarrow> wstep sd (s, ps) (s, ps[t := Waiting])"
| outer_exit: "t < length ps \<Longrightarrow> ps ! t = Outer \<Longrightarrow> cls sd s \<Longrightarrow> wstep sd (s, ps) (s, ps[t := Exiting])"
| wake: "t < length ps \<Longrightarrow> ps ! t = Waiting \<Longrightarrow> wait_ev sd s = (Val (), s') \<Longrightarrow>
     wstep sd (s, ps) (s', ps[t := Inner])"
| inner_go: "t < length ps \<Longrightarrow> ps ! t = Inner \<Longrightarrow> \<not> cls sd s \<Longrightarrow> wstep sd (s, ps) (s, ps[t := Taking])"
| inner_exit: "t < length ps \<Longrightarrow> ps ! t = Inner \<Longrightarrow> cls sd s \<Longrightarrow> wstep sd (s, ps) (s, ps[t := Outer])"
| take: "t < length ps \<Longrightarrow> ps ! t = Taking \<Longrightarrow> deq sd s = (Val (Some a), s') \<Longrightarrow>
     wstep sd (s, ps) (s', ps[t := Hold a])"
| empty: "t < length ps \<Longrightarrow> ps ! t = Taking \<Longrightarrow> deq sd s = (Val None, s') \<Longrightarrow>
     wstep sd (s, ps) (s', ps[t := Outer])"
| work: "t < length ps \<Longrightarrow> ps ! t = Hold a \<Longrightarrow> work sd a s = (Val (), s') \<Longrightarrow>
     wstep sd (s, ps) (s', ps[t := Recheck a])"
| requeue: "t < length ps \<Longrightarrow> ps ! t = Recheck a \<Longrightarrow> need_re sd a s = (Val True, s') \<Longrightarrow>
     wstep sd (s, ps) (s', ps[t := ReEnq a])"
| release: "t < length ps \<Longrightarrow> ps ! t = Recheck a \<Longrightarrow> need_re sd a s = (Val False, s') \<Longrightarrow>
     wstep sd (s, ps) (s', ps[t := Inner])"
| repush: "t < length ps \<Longrightarrow> ps ! t = ReEnq a \<Longrightarrow> inq sd a s = (Val (), s') \<Longrightarrow>
     wstep sd (s, ps) (s', ps[t := Inner])"
| exit: "t < length ps \<Longrightarrow> ps ! t = Exiting \<Longrightarrow> set_ev sd s = (Val (), s') \<Longrightarrow>
     wstep sd (s, ps) (s', ps[t := Ended])"
| other: "bsy sd s' = bsy sd s \<Longrightarrow> que sd s' = que sd s \<Longrightarrow> sgn sd s' = sgn sd s \<Longrightarrow> cls sd s' = cls sd s \<Longrightarrow>
     wstep sd (s, ps) (s', ps)"

definition start_state :: "'s side \<Rightarrow> 's \<Rightarrow> nat \<Rightarrow> nat \<Rightarrow> 's \<times> pc list \<Rightarrow> bool" where
  "start_state sd s workers reporters x \<longleftrightarrow>
     que sd s = [] \<and> (\<forall>a. \<not> bsy sd s a) \<and> \<not> sgn sd s \<and> \<not> cls sd s \<and>
     x = (s, replicate workers Outer @ replicate reporters EIdle)"

definition reach :: "'s side \<Rightarrow> 's \<times> pc list \<Rightarrow> bool" where
  "reach sd x \<longleftrightarrow> (\<exists>s workers reporters x0. start_state sd s workers reporters x0 \<and> (wstep sd)\<^sup>*\<^sup>* x0 x)"

lemma reach_induct [consumes 1, case_names start step]:
  assumes "reach sd x" "\<And>s n m x0. start_state sd s n m x0 \<Longrightarrow> P x0"
    and "\<And>x y. reach sd x \<Longrightarrow> P x \<Longrightarrow> wstep sd x y \<Longrightarrow> P y"
  shows "P x"
proof -
  obtain s n m x0 where x0: "start_state sd s n m x0" "(wstep sd)\<^sup>*\<^sup>* x0 x"
    using assms(1) by (auto simp: reach_def)
  from x0(2) have "P x \<and> reach sd x"
  proof (induction rule: rtranclp_induct)
    case base
    then show ?case using assms(2) x0(1) unfolding reach_def by blast
  next
    case (step y z)
    then show ?case using assms(3)[of y z] unfolding reach_def by (meson rtranclp.rtrancl_into_rtrancl)
  qed
  then show ?thesis ..
qed

lemma reach_step: "reach sd x \<Longrightarrow> wstep sd x y \<Longrightarrow> reach sd y"
  unfolding reach_def by (meson rtranclp.rtrancl_into_rtrancl)

lemma reach_start: "start_state sd s n m x \<Longrightarrow> reach sd x"
  unfolding reach_def by blast

fun holds :: "addr \<Rightarrow> pc \<Rightarrow> bool" where
  "holds a (EnqReady b) = (a = b)"
| "holds a (Hold b) = (a = b)"
| "holds a (Recheck b) = (a = b)"
| "holds a (ReEnq b) = (a = b)"
| "holds a _ = False"

definition tokens :: "addr \<Rightarrow> addr list \<Rightarrow> pc list \<Rightarrow> nat" where
  "tokens a q ps = count_list q a + length (filter (holds a) ps)"

text \<open>A thread that will look at the queue, or raise the signal, before it waits again.\<close>

fun active :: "pc \<Rightarrow> bool" where
  "active EIdle = False"
| "active (EnqReady a) = False"
| "active Outer = False"
| "active Waiting = False"
| "active Exiting = False"
| "active Ended = False"
| "active _ = True"

fun wakes :: "pc \<Rightarrow> bool" where
  "wakes EIdle = False"
| "wakes (EnqReady a) = False"
| "wakes Waiting = False"
| "wakes Ended = False"
| "wakes _ = True"

lemma tokens_update:
  "t < length ps \<Longrightarrow> tokens a q (ps[t := p]) =
     tokens a q ps + (if holds a p then 1 else 0) - (if holds a (ps ! t) then 1 else 0)"
  using filter_update_length[of t ps "holds a" p] by (simp add: tokens_def split: if_splits)

lemma tokens_queue:
  "tokens a (q @ [b]) ps = tokens a q ps + (if a = b then 1 else 0)"
  "tokens a (b # q) ps = tokens a q ps + (if a = b then 1 else 0)"
  by (simp_all add: tokens_def)

lemma distinct_if_counts: "(\<And>a. count_list q a \<le> 1) \<Longrightarrow> distinct q"
proof (induction q)
  case (Cons x q)
  have "count_list q x = 0" using Cons.prems[of x] by simp
  moreover have "count_list q a \<le> 1" for a using Cons.prems[of a] by (simp split: if_splits)
  ultimately show ?case using Cons.IH by (simp add: count_list_0_iff)
qed simp

section \<open>The contract of a side, and what follows from it\<close>

locale queue_side =
  fixes sd :: "'s side"
  assumes need_in_True: "need_in sd a s = (Val True, s') \<Longrightarrow> \<not> bsy sd s a \<and> bsy sd s' = (bsy sd s)(a := True) \<and>
      que sd s' = que sd s \<and> sgn sd s' = sgn sd s \<and> cls sd s' = cls sd s"
    and need_in_False: "need_in sd a s = (Val False, s') \<Longrightarrow> s' = s"
    and need_re_True: "need_re sd a s = (Val True, s') \<Longrightarrow> s' = s"
    and need_re_False: "need_re sd a s = (Val False, s') \<Longrightarrow> bsy sd s' = (bsy sd s)(a := False) \<and>
      que sd s' = que sd s \<and> sgn sd s' = sgn sd s \<and> cls sd s' = cls sd s"
    and inq: "inq sd a s = (Val (), s') \<Longrightarrow> bsy sd s' = bsy sd s \<and> que sd s' = que sd s @ [a] \<and>
      sgn sd s' = sgn sd s \<and> cls sd s' = cls sd s"
    and deq_Some: "deq sd s = (Val (Some a), s') \<Longrightarrow> bsy sd s' = bsy sd s \<and> que sd s = a # que sd s' \<and>
      sgn sd s' = sgn sd s \<and> cls sd s' = cls sd s"
    and deq_None: "deq sd s = (Val None, s') \<Longrightarrow> s' = s \<and> que sd s = []"
    and work: "work sd a s = (Val (), s') \<Longrightarrow> bsy sd s' = bsy sd s \<and> que sd s' = que sd s \<and>
      sgn sd s' = sgn sd s \<and> cls sd s' = cls sd s"
    and set_ev: "set_ev sd s = (Val (), s') \<Longrightarrow> bsy sd s' = bsy sd s \<and> que sd s' = que sd s \<and> sgn sd s' \<and> cls sd s' = cls sd s"
    and wait_ev: "wait_ev sd s = (Val (), s') \<Longrightarrow> bsy sd s' = bsy sd s \<and> que sd s' = que sd s \<and> sgn sd s \<and>
      \<not> sgn sd s' \<and> cls sd s' = cls sd s"
    and close_op: "close_op sd s = (Val (), s') \<Longrightarrow> bsy sd s' = bsy sd s \<and> que sd s' = que sd s \<and> cls sd s'"
begin

lemmas laws = need_in_True need_in_False need_re_True need_re_False inq deq_Some deq_None work set_ev wait_ev close_op

lemma token_step:
  assumes "wstep sd (s, ps) (s', ps')" "tokens a (que sd s) ps = (if bsy sd s a then 1 else 0)"
  shows "tokens a (que sd s') ps' = (if bsy sd s' a then 1 else 0)"
  using assms(1)
  by (cases rule: wstep.cases)
    (insert assms(2), auto simp: tokens_update tokens_queue dest!: laws split: if_splits)

lemma token_invariant:
  "reach sd x \<Longrightarrow> tokens a (que sd (fst x)) (snd x) = (if bsy sd (fst x) a then 1 else 0)"
proof (induction rule: reach_induct)
  case (start s n m x0)
  then show ?case by (simp add: start_state_def tokens_def)
next
  case (step x y)
  then show ?case by (cases x; cases y) (simp add: token_step)
qed

lemma holder_busy:
  assumes "reach sd (s, ps)" "i < length ps" "holds a (ps ! i)"
  shows "length (filter (holds a) ps) = 1" "a \<notin> set (que sd s)" "bsy sd s a"
proof -
  have tok: "count_list (que sd s) a + length (filter (holds a) ps) = (if bsy sd s a then 1 else 0)"
    using token_invariant[OF assms(1), of a] by (simp add: tokens_def)
  have pos: "length (filter (holds a) ps) \<noteq> 0"
    using assms(2,3) by (auto simp: filter_empty_conv)
  from tok pos show "bsy sd s a" by (simp split: if_splits)
  with tok pos show "length (filter (holds a) ps) = 1" by (cases "count_list (que sd s) a") simp_all
  with tok \<open>bsy sd s a\<close> show "a \<notin> set (que sd s)" by (simp add: count_list_0_iff)
qed

lemma holder_unique:
  assumes "reach sd (s, ps)" "i < length ps" "j < length ps" "i \<noteq> j" "holds a (ps ! i)"
  shows "\<not> holds a (ps ! j)"
proof
  assume "holds a (ps ! j)"
  then have "{i, j} \<subseteq> {k. k < length ps \<and> holds a (ps ! k)}" using assms by auto
  then have "card {i, j} \<le> length (filter (holds a) ps)"
    unfolding length_filter_conv_card by (rule card_mono[rotated]) simp
  with holder_busy(1)[OF assms(1,2,5)] assms(4) show False by simp
qed

lemma queue_distinct: "reach sd (s, ps) \<Longrightarrow> distinct (que sd s)"
proof -
  assume r: "reach sd (s, ps)"
  have "count_list (que sd s) a \<le> 1" for a
    using token_invariant[OF r, of a] by (simp add: tokens_def split: if_splits)
  then show ?thesis by (rule distinct_if_counts)
qed

lemma ex_update: "t < length ps \<Longrightarrow> P p \<Longrightarrow> \<exists>q \<in> set (ps[t := p]). P q"
  by (meson set_update_memI)

lemma ex_update_other: "\<exists>q \<in> set ps. P q \<Longrightarrow> t < length ps \<Longrightarrow> (P (ps ! t) \<Longrightarrow> P p) \<Longrightarrow> \<exists>q \<in> set (ps[t := p]). P q"
  by (metis in_set_conv_nth length_list_update nth_list_update)

lemma wake_step:
  assumes "wstep sd (s, ps) (s', ps')" "\<not> cls sd s \<Longrightarrow> que sd s \<noteq> [] \<Longrightarrow> sgn sd s \<or> (\<exists>p \<in> set ps. active p)"
    and "\<not> cls sd s'" "que sd s' \<noteq> []"
  shows "sgn sd s' \<or> (\<exists>p \<in> set ps'. active p)"
  using assms(1)
proof (cases rule: wstep.cases)
qed (insert assms(2-4), auto dest!: laws intro: ex_update ex_update_other[where P = active])

lemma wake_invariant:
  "reach sd x \<Longrightarrow> \<not> cls sd (fst x) \<Longrightarrow> que sd (fst x) \<noteq> [] \<Longrightarrow> sgn sd (fst x) \<or> (\<exists>p \<in> set (snd x). active p)"
proof (induction rule: reach_induct)
  case (start s n m x0)
  then show ?case by (simp add: start_state_def)
next
  case (step x y)
  then show ?case using wake_step[of "fst x" "snd x" "fst y" "snd y"] by simp
qed

lemma shut_step:
  assumes "wstep sd (s, ps) (s', ps')"
    and "cls sd s \<Longrightarrow> sgn sd s \<or> (\<exists>p \<in> set ps. wakes p)" and "cls sd s'"
  shows "sgn sd s' \<or> (\<exists>p \<in> set ps'. wakes p)"
  using assms(1)
proof (cases rule: wstep.cases)
qed (insert assms(2-3), auto dest!: laws intro: ex_update ex_update_other[where P = wakes])

lemma shut_invariant:
  "reach sd x \<Longrightarrow> cls sd (fst x) \<Longrightarrow> sgn sd (fst x) \<or> (\<exists>p \<in> set (snd x). wakes p)"
proof (induction rule: reach_induct)
  case (start s n m x0)
  then show ?case by (simp add: start_state_def)
next
  case (step x y)
  then show ?case using shut_step[of "fst x" "snd x" "fst y" "snd y"] by simp
qed

end

section \<open>The read side and the write side of the manager\<close>

definition reading :: "world \<Rightarrow> addr \<Rightarrow> bool" where
  "reading w a = (case heap w a of Some c \<Rightarrow> isReading c | None \<Rightarrow> False)"

definition writing :: "world \<Rightarrow> addr \<Rightarrow> bool" where
  "writing w a = (case heap w a of Some c \<Rightarrow> isWriting c | None \<Rightarrow> False)"

definition read_side :: "world side" where
  "read_side = \<lparr>need_in = NeedInQueueRead, need_re = NeedReInQueueRead, inq = readQueue_InQueue, deq = readQueue_DeQueue,
     work = Connection_Read, set_ev = readEvent_Set, wait_ev = readEvent_Wait, close_op = mark_closed,
     bsy = reading, que = readQueue, sgn = (\<lambda>w. signaled (readInQueueHappened w)), cls = closed\<rparr>"

definition write_work :: "addr \<Rightarrow> (world, unit) cpp" where
  "write_work a =
     bnd (deref a) (\<lambda>c. bnd (take_cache (conn_id c)) (\<lambda>s. sq (upd_conn a (Connection_SetResponse s)) (Connection_Write a)))"

definition write_side :: "world side" where
  "write_side = \<lparr>need_in = NeedInQueueWrite, need_re = NeedReInQueueWrite, inq = writeQueue_InQueue, deq = writeQueue_DeQueue,
     work = write_work, set_ev = writeEvent_Set, wait_ev = writeEvent_Wait, close_op = mark_closed,
     bsy = writing, que = writeQueue, sgn = (\<lambda>w. signaled (writeInQueueHappened w)), cls = closed\<rparr>"

text \<open>The part of the state both sides depend on, and the operations that leave it alone.\<close>

definition write_part :: "world \<Rightarrow> (addr \<Rightarrow> bool) \<times> addr list \<times> event_notifier \<times> bool" where
  "write_part w = (writing w, writeQueue w, writeInQueueHappened w, closed w)"

definition read_part :: "world \<Rightarrow> (addr \<Rightarrow> bool) \<times> addr list \<times> event_notifier \<times> bool" where
  "read_part w = (reading w, readQueue w, readInQueueHappened w, closed w)"

definition both_parts where
  "both_parts w = (read_part w, write_part w)"

lemmas part_defs = both_parts_def read_part_def write_part_def reading_def writing_def fun_eq_iff

named_theorems part_rules \<open>operations that leave the queues, the flags and the notifiers alone\<close>

lemma parts_upd_conn:
  assumes "\<And>c. isReading (f c) = isReading c" "\<And>c. isWriting (f c) = isWriting c"
  shows "keeps (\<lambda>w. both_parts w = X) (upd_conn a f)"
proof
  fix w assume "both_parts w = X"
  moreover have "both_parts (upd_heap a f w) = both_parts w"
    using assms by (auto simp: part_defs split: option.splits)
  ultimately show "both_parts (snd (upd_conn a f w)) = X" by (simp add: cpp_run)
qed

lemma parts_upd_handler [part_rules]: "keeps (\<lambda>w. both_parts w = X) (upd_handler a f)"
  unfolding upd_handler_def by (rule parts_upd_conn) simp_all

lemma parts_frame:
  assumes "\<And>w. heap (snd (m w)) = heap w \<and> readQueue (snd (m w)) = readQueue w \<and> writeQueue (snd (m w)) = writeQueue w \<and>
      readInQueueHappened (snd (m w)) = readInQueueHappened w \<and> writeInQueueHappened (snd (m w)) = writeInQueueHappened w \<and>
      closed (snd (m w)) = closed w"
  shows "keeps (\<lambda>w. both_parts w = X) m"
  using assms by (auto simp: keeps_def both_parts_def read_part_def write_part_def reading_def[abs_def] writing_def[abs_def])

lemma parts_basic [part_rules]:
  "keeps (\<lambda>w. both_parts w = X) (log_debug fn args)" "keeps (\<lambda>w. both_parts w = X) (log_warn fn args)"
  "keeps (\<lambda>w. both_parts w = X) (log_error fn args)" "keeps (\<lambda>w. both_parts w = X) (log_all fn ms)"
  "keeps (\<lambda>w. both_parts w = X) (deref a)" "keeps (\<lambda>w. both_parts w = X) (syscall c)"
  "keeps (\<lambda>w. both_parts w = X) (take_cache i)" "keeps (\<lambda>w. both_parts w = X) (SocketHandler_Read fd)"
  "keeps (\<lambda>w. both_parts w = X) (ConnectionMap_Erase i)" "keeps (\<lambda>w. both_parts w = X) (SocketMap_Delete fd)"
  "keeps (\<lambda>w. both_parts w = X) (ConnectionMap_GetValue i)"
  by (rule parts_frame; simp add: cpp_run deref_def syscall_def take_cache_def SocketHandler_Read_def ConnectionMap_Erase_def
      SocketMap_Delete_def ConnectionMap_GetValue_def bnd_def split: option.splits list.splits prod.splits)+

lemma parts_Write [part_rules]: "keeps (\<lambda>w. both_parts w = X) (SocketHandler_Write fd s)"
  by (rule parts_frame) (auto simp: SocketHandler_Write_def Let_def cpp_run split: prod.splits outcome.splits)

lemma parts_Close [part_rules]: "keeps (\<lambda>w. both_parts w = X) (Connection_Close a)"
  unfolding Connection_Close_def SocketHandler_Close_def Server_close_socket_def Epoll_Delete_def Server_CloseFd_def
    ReleaseConnection_def sys_or_throw_def
  by (intro keeps_structural part_rules keeps_case_ans parts_upd_conn; simp)

lemma parts_Append [part_rules]: "keeps (\<lambda>w. both_parts w = X) (HttpRequestHandler_AppendReceivedData a s)"
proof -
  have "keeps (\<lambda>w. both_parts w = X)
      (\<lambda>w. case HttpRequest_Append s r of (oc, r') \<Rightarrow> (oc, upd_heap a (\<lambda>c. c\<lparr>requestHandler := (requestHandler c)\<lparr>httpRequest := r'\<rparr>\<rparr>) w))" for r
  proof -
    obtain oc r' where r': "HttpRequest_Append s r = (oc, r')" by fastforce
    show ?thesis
      using parts_upd_conn[of "\<lambda>c. c\<lparr>requestHandler := (requestHandler c)\<lparr>httpRequest := r'\<rparr>\<rparr>" X a] r'
      by (simp add: keeps_def cpp_run)
  qed
  then show ?thesis
    unfolding HttpRequestHandler_AppendReceivedData_def by (intro keeps_structural part_rules)
qed

lemma parts_callbacks [part_rules]:
  "keeps (\<lambda>w. both_parts w = X) (HttpRequestHandler_CheckDataIntegrity a)"
  "keeps (\<lambda>w. both_parts w = X) (HttpRequestHandler_WriteCompleteCallback a code)"
  unfolding HttpRequestHandler_CheckDataIntegrity_def HttpRequestHandler_WriteCompleteCallback_def
  by (intro keeps_structural part_rules; simp)+

lemma parts_write_work: "keeps (\<lambda>w. both_parts w = X) (write_work a)"
  unfolding write_work_def Connection_Write_def
  by (intro keeps_structural part_rules parts_upd_conn; simp add: Connection_SetResponse_def)

text \<open>Reading may queue the connection for writing, which the read side does not see.\<close>

lemma read_from_both: "(\<And>X. keeps (\<lambda>w. both_parts w = X) m) \<Longrightarrow> keeps (\<lambda>w. read_part w = Y) m"
  using keeps_weaken[of both_parts m fst Y] by (simp add: both_parts_def)

lemma read_part_upd_conn:
  assumes "\<And>c. isReading (f c) = isReading c"
  shows "keeps (\<lambda>w. read_part w = X) (upd_conn a f)"
proof
  fix w assume "read_part w = X"
  moreover have "read_part (upd_heap a f w) = read_part w"
    using assms by (auto simp: part_defs split: option.splits)
  ultimately show "read_part (snd (upd_conn a f w)) = X" by (simp add: cpp_run)
qed

lemma read_part_queue:
  "keeps (\<lambda>w. read_part w = X) (writeQueue_InQueue a)" "keeps (\<lambda>w. read_part w = X) writeEvent_Set"
  "keeps (\<lambda>w. read_part w = X) (modify (\<lambda>w. w\<lparr>writeCache := g w\<rparr>))"
  by (auto simp: keeps_def read_part_def cpp_run reading_def[abs_def])

lemma read_part_AddToWriteCache: "keeps (\<lambda>w. read_part w = X) (AddToWriteCache i s)"
  unfolding AddToWriteCache_def CheckToInQueueWrite_def NeedInQueueWrite_def
  by (intro keeps_structural read_from_both[OF parts_basic(1)] read_from_both[OF parts_basic(5)]
      read_from_both[OF parts_basic(11)] read_part_queue read_part_upd_conn; simp)

lemma read_part_Read: "keeps (\<lambda>w. read_part w = X) (Connection_Read a)"
  unfolding Connection_Read_def HttpRequestHandler_ReadCompleteCallback_def HttpRequestHandler_Write_def
  by (intro keeps_structural read_part_AddToWriteCache read_part_upd_conn; (rule read_from_both, rule part_rules)?; simp)

lemma read_part_sel:
  assumes "read_part w' = read_part w"
  shows "reading w' = reading w" "readQueue w' = readQueue w" "readInQueueHappened w' = readInQueueHappened w" "closed w' = closed w"
  using assms by (simp_all add: read_part_def)

lemma write_part_sel:
  assumes "both_parts w' = both_parts w"
  shows "writing w' = writing w" "writeQueue w' = writeQueue w" "writeInQueueHappened w' = writeInQueueHappened w" "closed w' = closed w"
  using assms by (simp_all add: both_parts_def write_part_def)

lemma kept_value: "(\<And>X. keeps (\<lambda>w. f w = X) m) \<Longrightarrow> m w = (r, w') \<Longrightarrow> f w' = f w"
  using keepsD[of "\<lambda>v. f v = f w" m w] by simp

interpretation rs: queue_side read_side
proof
  fix a w w' assume "need_in read_side a w = (Val True, w')"
  then show "\<not> bsy read_side w a \<and> bsy read_side w' = (bsy read_side w)(a := True) \<and> que read_side w' = que read_side w \<and>
      sgn read_side w' = sgn read_side w \<and> cls read_side w' = cls read_side w"
    by (cases "heap w a") (auto simp: read_side_def NeedInQueueRead_def bnd_def deref_def cpp_run reading_def fun_eq_iff split: if_splits)
next
  fix a w w' assume "need_in read_side a w = (Val False, w')"
  then show "w' = w"
    by (cases "heap w a") (auto simp: read_side_def NeedInQueueRead_def bnd_def deref_def cpp_run split: if_splits)
next
  fix a w w' assume "need_re read_side a w = (Val True, w')"
  then show "w' = w"
    by (cases "heap w a") (auto simp: read_side_def NeedReInQueueRead_def bnd_def deref_def cpp_run split: if_splits)
next
  fix a w w' assume "need_re read_side a w = (Val False, w')"
  then show "bsy read_side w' = (bsy read_side w)(a := False) \<and> que read_side w' = que read_side w \<and>
      sgn read_side w' = sgn read_side w \<and> cls read_side w' = cls read_side w"
    by (cases "heap w a") (auto simp: read_side_def NeedReInQueueRead_def bnd_def deref_def cpp_run reading_def fun_eq_iff split: if_splits)
next
  fix a w w' assume "work read_side a w = (Val (), w')"
  then have "Connection_Read a w = (Val (), w')" by (simp add: read_side_def)
  from read_part_sel[OF kept_value[OF read_part_Read this]]
  show "bsy read_side w' = bsy read_side w \<and> que read_side w' = que read_side w \<and> sgn read_side w' = sgn read_side w \<and>
      cls read_side w' = cls read_side w"
    by (simp add: read_side_def)
qed (auto simp: read_side_def cpp_run mark_closed_def readEvent_Wait_def EventNotifier_Wait_def EventNotifier_Set_def
      reading_def[abs_def] split: list.splits if_splits)

interpretation ws: queue_side write_side
proof
  fix a w w' assume "need_in write_side a w = (Val True, w')"
  then show "\<not> bsy write_side w a \<and> bsy write_side w' = (bsy write_side w)(a := True) \<and> que write_side w' = que write_side w \<and>
      sgn write_side w' = sgn write_side w \<and> cls write_side w' = cls write_side w"
    by (cases "heap w a") (auto simp: write_side_def NeedInQueueWrite_def bnd_def deref_def cpp_run writing_def fun_eq_iff split: if_splits)
next
  fix a w w' assume "need_in write_side a w = (Val False, w')"
  then show "w' = w"
    by (cases "heap w a") (auto simp: write_side_def NeedInQueueWrite_def bnd_def deref_def cpp_run split: if_splits)
next
  fix a w w' assume "need_re write_side a w = (Val True, w')"
  then show "w' = w"
    by (cases "heap w a") (auto simp: write_side_def NeedReInQueueWrite_def bnd_def deref_def cpp_run split: if_splits)
next
  fix a w w' assume "need_re write_side a w = (Val False, w')"
  then show "bsy write_side w' = (bsy write_side w)(a := False) \<and> que write_side w' = que write_side w \<and>
      sgn write_side w' = sgn write_side w \<and> cls write_side w' = cls write_side w"
    by (cases "heap w a") (auto simp: write_side_def NeedReInQueueWrite_def bnd_def deref_def cpp_run writing_def fun_eq_iff split: if_splits)
next
  fix a w w' assume "work write_side a w = (Val (), w')"
  then have "write_work a w = (Val (), w')" by (simp add: write_side_def)
  from write_part_sel[OF kept_value[OF parts_write_work this]]
  show "bsy write_side w' = bsy write_side w \<and> que write_side w' = que write_side w \<and> sgn write_side w' = sgn write_side w \<and>
      cls write_side w' = cls write_side w"
    by (simp add: write_side_def)
qed (auto simp: write_side_def cpp_run mark_closed_def writeEvent_Wait_def EventNotifier_Wait_def EventNotifier_Set_def
      writing_def[abs_def] split: list.splits if_splits)

lemma side_contract: "sd \<in> {read_side, write_side} \<Longrightarrow> queue_side sd"
  using rs.queue_side_axioms ws.queue_side_axioms by auto

section \<open>Properties of the interleavings\<close>

text \<open>
  C2. No connection is worked on by two threads at once. On the read side and on the write side, however the
  threads that report events and any number of workers interleave: a connection that one thread is
  about to queue, works on, or is about to queue again is with no other thread and not in the queue,
  and the queue never holds a connection twice.
\<close>

theorem holder_exclusive:
  assumes "sd \<in> {read_side, write_side}" "reach sd (w, ps)"
    and "i < length ps" "j < length ps" "i \<noteq> j" "holds a (ps ! i)"
  shows "\<not> holds a (ps ! j) \<and> a \<notin> set (que sd w) \<and> distinct (que sd w)"
  using queue_side.holder_unique[OF side_contract] queue_side.holder_busy(2)[OF side_contract]
    queue_side.queue_distinct[OF side_contract] assms by metis

text \<open>One read worker and the server thread, which has just found connection 0 ready to be queued.\<close>

definition ready_world :: world where
  "ready_world = some_world\<lparr>heap := [0 \<mapsto> (Connection_new 1 \<lparr>ci_ip = ''10.0.0.1'', ci_port = 4000\<rparr> 7 RequestHandler_new)
     \<lparr>isReadable := 1\<rparr>], next_addr := 1, connectionMap := [(1, 0)]\<rparr>"

lemma ready_start: "start_state read_side ready_world 1 1 (ready_world, [Outer, EIdle])"
  by (simp add: start_state_def read_side_def ready_world_def some_world_def reading_def Connection_new_def EventNotifier_new_def)

lemma ready_reported:
  "reach read_side (upd_heap 0 (\<lambda>c. c\<lparr>isReading := True\<rparr>) ready_world, [Outer, EnqReady 0])"
proof -
  let ?w = "upd_heap 0 (\<lambda>c. c\<lparr>isReading := True\<rparr>) ready_world"
  have "need_in read_side 0 ready_world = (Val True, ?w)"
    by (simp add: read_side_def NeedInQueueRead_run wants_read_def ready_world_def Connection_new_def Connection_ReadEventHappend_def)
  then have "wstep read_side (ready_world, [Outer, EIdle]) (?w, [Outer, EIdle][1 := EnqReady 0])"
    by (intro wstep.report) simp_all
  then show ?thesis using reach_step[OF reach_start[OF ready_start]] by simp
qed

lemma holder_exclusive_witness:
  "\<not> holds 0 ([Outer, EnqReady 0] ! 0) \<and> 0 \<notin> set (que read_side (upd_heap 0 (\<lambda>c. c\<lparr>isReading := True\<rparr>) ready_world))"
  using holder_exclusive[OF _ ready_reported, of 1 0 0] by simp

text \<open>
  C3. No wakeup is lost. While the manager is open, whenever a queue holds a connection then the notifier is
  signaled, or some thread is about to signal it, or some worker is awake and will look at the queue
  before it waits: the workers never all sleep on a queue with work in it.
\<close>

theorem no_lost_wakeup:
  assumes "sd \<in> {read_side, write_side}" "reach sd (w, ps)" "\<not> closed w" "que sd w \<noteq> []"
  shows "sgn sd w \<or> (\<exists>p \<in> set ps. active p)"
proof -
  have "\<not> cls sd w" using assms(1,3) by (auto simp: read_side_def write_side_def)
  then show ?thesis
    using queue_side.wake_invariant[OF side_contract, OF assms(1,2)] assms(4) by simp
qed

lemma no_lost_wakeup_witness:
  "\<exists>w ps. reach read_side (w, ps) \<and> que read_side w \<noteq> [] \<and> (sgn read_side w \<or> (\<exists>p \<in> set ps. active p))"
proof -
  let ?w = "upd_heap 0 (\<lambda>c. c\<lparr>isReading := True\<rparr>) ready_world"
  let ?w2 = "?w\<lparr>readQueue := readQueue ?w @ [0]\<rparr>"
  have "wstep read_side (?w, [Outer, EnqReady 0]) (?w2, [Outer, EnqReady 0][1 := Notify])"
    by (intro wstep.push) (simp_all add: read_side_def cpp_run)
  then have r: "reach read_side (?w2, [Outer, EnqReady 0][1 := Notify])"
    by (rule reach_step[OF ready_reported])
  have "\<not> closed ?w2" "que read_side ?w2 \<noteq> []"
    by (simp_all add: ready_world_def some_world_def read_side_def)
  with no_lost_wakeup[OF _ r] r show ?thesis by blast
qed

text \<open>
  C5. Closing reaches every worker. Once the manager is closed, at any time the notifier is signaled, or some
  thread is on its way to signal it: a worker that waits is woken, and each worker that leaves wakes
  the next.
\<close>

theorem close_wakes_workers:
  assumes "sd \<in> {read_side, write_side}" "reach sd (w, ps)" "closed w"
  shows "sgn sd w \<or> (\<exists>p \<in> set ps. wakes p)"
proof -
  have "cls sd w" using assms(1,3) by (auto simp: read_side_def write_side_def)
  then show ?thesis
    using queue_side.shut_invariant[OF side_contract, OF assms(1,2)] by simp
qed

lemma close_wakes_workers_witness:
  "\<exists>w ps. reach read_side (w, ps) \<and> closed w \<and> (sgn read_side w \<or> (\<exists>p \<in> set ps. wakes p))"
proof -
  let ?w = "ready_world\<lparr>closed := True\<rparr>"
  have "wstep read_side (ready_world, [Outer, EIdle]) (?w, [Outer, EIdle][1 := Notify])"
    by (intro wstep.close) (simp_all add: read_side_def cpp_run mark_closed_def ready_world_def some_world_def)
  then have r: "reach read_side (?w, [Outer, EIdle][1 := Notify])"
    by (rule reach_step[OF reach_start[OF ready_start]])
  moreover have "closed ?w" by simp
  ultimately show ?thesis using close_wakes_workers[OF _ r] by blast
qed

text \<open>
  C6. The exceptions of \<open>NeedReInQueueRead\<close> and \<open>NeedReInQueueWrite\<close> are unreachable: whenever a worker asks
  whether to queue its connection again, the connection is still marked as being read (written).
\<close>

theorem requeue_never_throws:
  assumes "sd \<in> {read_side, write_side}" "reach sd (w, ps)" "t < length ps" "ps ! t = Recheck a"
  shows "\<exists>b w'. need_re sd a w = (Val b, w')"
proof (cases "sd = read_side")
  case True
  then have "reading w a" using rs.holder_busy(3)[of w ps t a] assms by (simp add: read_side_def)
  then obtain c where "heap w a = Some c" "isReading c" by (auto simp: reading_def split: option.splits)
  then show ?thesis by (simp add: True read_side_def NeedReInQueueRead_run)
next
  case False
  then have sd: "sd = write_side" using assms(1) by simp
  then have "writing w a" using ws.holder_busy(3)[of w ps t a] assms by (simp add: write_side_def)
  then obtain c where "heap w a = Some c" "isWriting c" by (auto simp: writing_def split: option.splits)
  then show ?thesis by (simp add: sd write_side_def NeedReInQueueWrite_run Let_def)
qed

text \<open>A run in which the worker takes the connection, finds nothing to read and asks whether to queue it again.\<close>

lemma recheck_reached: "\<exists>w. reach read_side (w, [Recheck 0, EIdle])"
proof -
  let ?w0 = "upd_heap 0 (\<lambda>c. c\<lparr>isReading := True\<rparr>) ready_world"
  let ?w1 = "?w0\<lparr>readQueue := [0]\<rparr>"
  let ?w2 = "?w1\<lparr>readInQueueHappened := EventNotifier_Set (readInQueueHappened ?w1)\<rparr>"
  let ?w3 = "?w2\<lparr>readInQueueHappened := (readInQueueHappened ?w2)\<lparr>signaled := False\<rparr>\<rparr>"
  let ?w4 = "?w3\<lparr>readQueue := []\<rparr>"
  let ?w5 = "upd_heap 0 (\<lambda>c. c\<lparr>isReadable := 0\<rparr>) ?w4"
  note world = read_side_def cpp_run ready_world_def some_world_def EventNotifier_Set_def
  have "wstep read_side (?w0, [Outer, EnqReady 0]) (?w1, [Outer, Notify])"
    using wstep.push[of 1 "[Outer, EnqReady 0]" 0 read_side ?w0 ?w1] by (simp add: world)
  moreover have "wstep read_side (?w1, [Outer, Notify]) (?w2, [Outer, EIdle])"
    using wstep.notify[of 1 "[Outer, Notify]" read_side ?w1 ?w2] by (simp add: world)
  moreover have "wstep read_side (?w2, [Outer, EIdle]) (?w2, [Waiting, EIdle])"
    using wstep.outer_go[of 0 "[Outer, EIdle]" read_side ?w2] by (simp add: world)
  moreover have "wstep read_side (?w2, [Waiting, EIdle]) (?w3, [Inner, EIdle])"
    using wstep.wake[of 0 "[Waiting, EIdle]" read_side ?w2 ?w3]
    by (simp add: world readEvent_Wait_def EventNotifier_Wait_def)
  moreover have "wstep read_side (?w3, [Inner, EIdle]) (?w3, [Taking, EIdle])"
    using wstep.inner_go[of 0 "[Inner, EIdle]" read_side ?w3] by (simp add: world)
  moreover have "wstep read_side (?w3, [Taking, EIdle]) (?w4, [Hold 0, EIdle])"
    using wstep.take[of 0 "[Taking, EIdle]" read_side ?w3 0 ?w4] by (simp add: world)
  moreover have "wstep read_side (?w4, [Hold 0, EIdle]) (?w5, [Hold 0, EIdle])"
    by (rule wstep.other) (simp_all add: read_side_def reading_def fun_eq_iff split: option.split)
  moreover have "Connection_Read 0 ?w5 = (Val (), ?w5)"
    by (simp add: Connection_Read_def cpp_run ready_world_def Connection_new_def NO_ERROR_def upd_heap_def)
  then have "wstep read_side (?w5, [Hold 0, EIdle]) (?w5, [Recheck 0, EIdle])"
    using wstep.work[of 0 "[Hold 0, EIdle]" 0 read_side ?w5 ?w5] by (simp add: read_side_def)
  ultimately show ?thesis using ready_reported by (meson reach_step)
qed

lemma requeue_never_throws_witness:
  "\<exists>w. reach read_side (w, [Recheck 0, EIdle]) \<and> (\<exists>b w'. NeedReInQueueRead 0 w = (Val b, w'))"
proof -
  obtain w where r: "reach read_side (w, [Recheck 0, EIdle])" using recheck_reached by blast
  from requeue_never_throws[OF _ r, of 0 0] r show ?thesis by (auto simp: read_side_def)
qed

end
