(* ===== verification/Epoll_Echo.thy ===== *)
theory Epoll_Echo
  imports Posix_Io Std_Map Http_Utils
begin

text \<open>
  \<open>linux_programming/socket/server/use_epoll/edge_triggered/main.cpp\<close>: a single-threaded,
  edge-triggered epoll server. Its sessions split what they receive at dots and answer every piece
  reversed and in brackets. Names that the servers of the repository share end in \<open>_et\<close> here.
  Sessions live on a heap, because a session that closes itself is erased from the manager's map
  while its own methods still run.
\<close>

section \<open>State\<close>

record conn_handler =
  ch_fd :: int
  ch_ip :: string
  ch_port :: u16
  isEof :: bool

record session =
  ss_id :: u64
  ss_input :: string
  ss_output :: string
  peerInfo :: string
  isReadable_et :: bool
  isWritable_et :: bool
  isClosed_et :: bool
  connHandler :: conn_handler

record et =
  strerror_et :: "int \<Rightarrow> string"
  r_read :: "read_ans list"
  r_write :: "write_ans list"
  r_sys :: "sys_ans list"
  r_accept :: "accept_ans list"
  r_wait :: "wait_ans list"
  r_trace :: "sys_call list"
  cout :: "string list"
  port_et :: u16
  listenFd_et :: int
  nextConnId_et :: u64
  conns :: "(int, u64) omap"
  epollFd_et :: int
  events_et :: "(int \<times> u32) list"
  timeToExit :: bool
  heap_et :: "nat \<Rightarrow> session option"
  next_et :: nat
  sessions :: "(u64, nat) omap"

definition MAX_EVENTS :: nat where "MAX_EVENTS = 10"

definition say :: "string \<Rightarrow> (et, unit) cpp" where
  "say s = modify (\<lambda>w. w\<lparr>cout := cout w @ [s]\<rparr>)"

definition GetErrorMsg_et :: "(int \<Rightarrow> string) \<Rightarrow> string \<Rightarrow> int \<Rightarrow> string" where
  "GetErrorMsg_et se info code = info @ '', error code('' @ to_string_int code @ ''), '' @ se code"

definition sys_et :: "sys_call \<Rightarrow> (et, sys_ans) cpp" where
  "sys_et c = (\<lambda>w. case r_sys w of
       [] \<Rightarrow> (Pending, w)
     | a # as \<Rightarrow> (Val a, w\<lparr>r_sys := as, r_trace := r_trace w @ [c]\<rparr>))"

text \<open>\<open>if (call == -1) throw runtime_error(GetErrorMsg(msg, errno))\<close>.\<close>

definition fail_et :: "string \<Rightarrow> int \<Rightarrow> (et, 'a) cpp" where
  "fail_et msg code = bnd (gets strerror_et) (\<lambda>se. throw (RuntimeError (GetErrorMsg_et se msg code)))"

definition ok_or_throw :: "sys_call \<Rightarrow> string \<Rightarrow> (et, unit) cpp" where
  "ok_or_throw c msg = bnd (sys_et c) (\<lambda>a. case a of SysOk _ \<Rightarrow> skip | SysErr code \<Rightarrow> fail_et msg code)"

section \<open>Epoll\<close>

definition CreateEpollFd_et :: "(et, unit) cpp" where
  "CreateEpollFd_et =
     bnd (sys_et SysEpollCreate) (\<lambda>a.
       case a of
         SysOk fd \<Rightarrow> modify (\<lambda>w. w\<lparr>epollFd_et := fd\<rparr>)
       | SysErr code \<Rightarrow>
           sq (modify (\<lambda>w. w\<lparr>epollFd_et := - 1\<rparr>))
              (fail_et ''Epoll::CreateEpollFd() failed, epoll_create1'' code))"

definition Init_et :: "(et, unit) cpp" where
  "Init_et = CreateEpollFd_et"

definition Add_et :: "int \<Rightarrow> u32 \<Rightarrow> (et, unit) cpp" where
  "Add_et fd eventMask = ok_or_throw (SysCtlAdd fd eventMask) ''Epoll.Add() failed''"

definition DeleteFd :: "int \<Rightarrow> (et, unit) cpp" where
  "DeleteFd fd =
     sq (say (''Epoll::DeleteFd(), fd='' @ to_string_int fd))
        (ok_or_throw (SysCtlDel fd) ''Epoll.DeleteFd() failed'')"

definition SigHandler_et :: "int \<Rightarrow> et \<Rightarrow> et" where
  "SigHandler_et sigNum w = (if sigNum = 2 then w\<lparr>timeToExit := True\<rparr> else w)"

definition Wait_et :: "int \<Rightarrow> (et, int) cpp" where
  "Wait_et timeoutMs = (\<lambda>w.
     case r_wait w of
       [] \<Rightarrow> (Pending, w)
     | a # as \<Rightarrow>
         let w1 = w\<lparr>r_wait := as\<rparr>;
             w2 = (if wa_sigint a then SigHandler_et 2 w1 else w1)
         in case wa_result a of
              Inl code \<Rightarrow>
                if code = EINTR then (Val 0, w2) else fail_et ''Epoll.Wait() failed'' code w2
            | Inr evs \<Rightarrow>
                (Val (int (length evs)), w2\<lparr>events_et := evs @ drop (length evs) (events_et w)\<rparr>))"

definition GetFd_et :: "nat \<Rightarrow> (et, int) cpp" where
  "GetFd_et i = (\<lambda>w. if i < length (events_et w) then (Val (fst (events_et w ! i)), w)
     else (Undef ''events out of range'', w))"

definition GetEvent_et :: "nat \<Rightarrow> (et, u32) cpp" where
  "GetEvent_et i = (\<lambda>w. if i < length (events_et w) then (Val (snd (events_et w ! i)), w)
     else (Undef ''events out of range'', w))"

definition SetNonBlocking_et :: "int \<Rightarrow> (et, unit) cpp" where
  "SetNonBlocking_et fd =
     bnd (sys_et (SysGetFl fd)) (\<lambda>a.
     let flags = (case a of SysOk v \<Rightarrow> v | SysErr _ \<Rightarrow> - 1) OR O_NONBLOCK in
     bnd (sys_et (SysSetFl fd flags)) (\<lambda>_. skip))"

section \<open>ConnHandler\<close>

definition GetPeerInfo_et :: "conn_handler \<Rightarrow> string" where
  "GetPeerInfo_et c = ch_ip c @ '':'' @ to_string_nat (unat (ch_port c)) @ '', fd='' @ to_string_int (ch_fd c)"

text \<open>The read loop; its result says also whether the end of the stream was reached.\<close>

fun ConnHandler_Read_loop ::
  "(int \<Rightarrow> string) \<Rightarrow> string \<Rightarrow> read_ans list \<Rightarrow> (string \<times> bool) outcome \<times> read_ans list" where
  "ConnHandler_Read_loop se s [] = (Pending, [])"
| "ConnHandler_Read_loop se s (ReadErr code # as) =
     (if code = EAGAIN then (Val (s, False), as)
      else (Throw (RuntimeError (GetErrorMsg_et se ''ConnHandler::Read(), read'' code)), as))"
| "ConnHandler_Read_loop se s (ReadOk bs # as) =
     (if 0 < length bs then
        (case c_str (buffer_after 3 bs) of
           None \<Rightarrow> (Undef ''read past the end of buf'', as)
         | Some t \<Rightarrow> ConnHandler_Read_loop se (s @ t) as)
      else (Val (s, True), as))"

fun ConnHandler_Write_loop ::
  "(int \<Rightarrow> string) \<Rightarrow> string \<Rightarrow> write_ans list \<Rightarrow> string outcome \<times> write_ans list" where
  "ConnHandler_Write_loop se [] as = (Val [], as)"
| "ConnHandler_Write_loop se (c # cs) [] = (Pending, [])"
| "ConnHandler_Write_loop se (c # cs) (WriteErr code # as) =
     (if code = EAGAIN then (Val (c # cs), as)
      else (Throw (RuntimeError (GetErrorMsg_et se ''Write() failed'' code)), as))"
| "ConnHandler_Write_loop se (c # cs) (WriteOk n # as) =
     (if length (c # cs) < n then (Throw (StdOutOfRange ''basic_string::substr''), as)
      else ConnHandler_Write_loop se (drop n (c # cs)) as)"

definition ConnHandler_Write :: "int \<Rightarrow> string \<Rightarrow> (et, string) cpp" where
  "ConnHandler_Write fd s = (\<lambda>w.
     if s = [] then (Val [], w)
     else case ConnHandler_Write_loop (strerror_et w) s (r_write w) of
       (oc, as) \<Rightarrow>
         (oc, w\<lparr>r_write := as, r_trace := r_trace w @
              [SysWrite fd (take (accepted (take (length (r_write w) - length as) (r_write w))) s)]\<rparr>))"

section \<open>Sessions\<close>

definition deref_et :: "nat \<Rightarrow> (et, session) cpp" where
  "deref_et a = (\<lambda>w. case heap_et w a of None \<Rightarrow> (Undef ''null session'', w) | Some s \<Rightarrow> (Val s, w))"

definition upd_et :: "nat \<Rightarrow> (session \<Rightarrow> session) \<Rightarrow> (et, unit) cpp" where
  "upd_et a f = modify (\<lambda>w. w\<lparr>heap_et := (heap_et w)(a := map_option f (heap_et w a))\<rparr>)"

definition ConnHandler_Read :: "nat \<Rightarrow> (et, string) cpp" where
  "ConnHandler_Read a =
     bnd (deref_et a) (\<lambda>ss. \<lambda>w.
       case ConnHandler_Read_loop (strerror_et w) [] (r_read w) of
         (oc, as) \<Rightarrow>
           let w' = w\<lparr>r_read := as, r_trace := r_trace w @ [SysRead (ch_fd (connHandler ss))]\<rparr>
           in case oc of
                Val (s, eof) \<Rightarrow>
                  sq (whenb eof (upd_et a (\<lambda>ss. ss\<lparr>connHandler := (connHandler ss)\<lparr>isEof := True\<rparr>\<rparr>))) (ret s) w'
              | Throw e \<Rightarrow> (Throw e, w') | Undef u \<Rightarrow> (Undef u, w') | Exit n \<Rightarrow> (Exit n, w')
              | Pending \<Rightarrow> (Pending, w'))"

definition CloseFd_et :: "int \<Rightarrow> (et, unit) cpp" where
  "CloseFd_et fd =
     sq (say (''Server::CloseFd(), fd='' @ to_string_int fd))
        (ok_or_throw (SysClose fd) (''Server::CloseFd() failed, fd='' @ to_string_int fd))"

text \<open>The lambda handed to \<open>ConnHandler\<close>, which \<open>CloseConn\<close> calls.\<close>

definition closeConn_et :: "int \<Rightarrow> (et, unit) cpp" where
  "closeConn_et fdv =
     sq (DeleteFd fdv) (sq (CloseFd_et fdv) (modify (\<lambda>w. w\<lparr>conns := om_del fdv (conns w)\<rparr>)))"

definition VerifySessionExist :: "u64 \<Rightarrow> (et, unit) cpp" where
  "VerifySessionExist i =
     bnd (gets sessions) (\<lambda>m.
       if \<not> om_has m i then throw (RuntimeError ''SessionManager::VerifySessionExist()'') else skip)"

definition VerifySessionNotExist :: "u64 \<Rightarrow> (et, unit) cpp" where
  "VerifySessionNotExist i =
     bnd (gets sessions) (\<lambda>m.
       if om_has m i then throw (RuntimeError ''SessionManager::VerifySessionNotExist()'') else skip)"

definition ReleaseSession :: "u64 \<Rightarrow> (et, unit) cpp" where
  "ReleaseSession i = sq (VerifySessionExist i) (modify (\<lambda>w. w\<lparr>sessions := om_del i (sessions w)\<rparr>))"

definition Session_new :: "u64 \<Rightarrow> conn_handler \<Rightarrow> session" where
  "Session_new i ch = \<lparr>ss_id = i, ss_input = [], ss_output = [], peerInfo = GetPeerInfo_et ch, isReadable_et = False,
     isWritable_et = False, isClosed_et = False, connHandler = ch\<rparr>"

definition Session_Close :: "nat \<Rightarrow> (et, unit) cpp" where
  "Session_Close a =
     bnd (deref_et a) (\<lambda>ss.
       if isClosed_et ss then throw (RuntimeError ''Session::Close(), session is closed'')
       else
         sq (closeConn_et (ch_fd (connHandler ss)))
        (sq (ReleaseSession (ss_id ss))
        (sq (say (''Session::Close(), '' @ peerInfo ss))
            (upd_et a (\<lambda>ss. ss\<lparr>isClosed_et := True\<rparr>)))))"

definition Session_Write :: "nat \<Rightarrow> (et, unit) cpp" where
  "Session_Write a =
     bnd (deref_et a) (\<lambda>ss.
       if \<not> isWritable_et ss then ret ()
       else
         bnd (ConnHandler_Write (ch_fd (connHandler ss)) (ss_output ss)) (\<lambda>rest.
         sq (upd_et a (\<lambda>ss. ss\<lparr>ss_output := rest, isWritable_et := False\<rparr>))
            (whenb (isEof (connHandler ss) \<and> rest = []) (Session_Close a))))"

text \<open>The loop of \<open>Session::Read\<close> that answers every complete piece of the input.\<close>

function split_dots :: "string \<Rightarrow> string \<Rightarrow> string \<times> string" where
  "split_dots inp outp =
     (case find_char (CHR ''.'') inp of
        Some pos \<Rightarrow> split_dots (substr (pos + 1) (length inp - pos - 1) inp) (outp @ ''['' @ rev (substr 0 pos inp) @ '']'')
      | None \<Rightarrow> (inp, outp))"
  by pat_completeness auto
termination
  by (relation "measure (\<lambda>(inp, _). length inp)")
    (auto simp: substr_def dest: find_char_SomeD)

declare split_dots.simps [simp del]

definition Session_Read :: "nat \<Rightarrow> (et, unit) cpp" where
  "Session_Read a =
     bnd (deref_et a) (\<lambda>ss.
       if \<not> isReadable_et ss then ret ()
       else
         bnd (ConnHandler_Read a) (\<lambda>s.
         sq (say (''Session::Read(), '' @ peerInfo ss @ ''. read: '' @ [CHR 0x22] @ s @ [CHR 0x22]))
        (sq (upd_et a (\<lambda>ss. case split_dots (ss_input ss @ s) (ss_output ss) of
               (inp, outp) \<Rightarrow> ss\<lparr>ss_input := inp, ss_output := outp, isReadable_et := False\<rparr>))
            (Session_Write a))))"

section \<open>SessionManager\<close>

definition SessionManager_NewConnection :: "u64 \<Rightarrow> conn_handler \<Rightarrow> (et, unit) cpp" where
  "SessionManager_NewConnection i ch =
     sq (VerifySessionNotExist i)
    (bnd (gets next_et) (\<lambda>a.
     sq (modify (\<lambda>w. w\<lparr>heap_et := (heap_et w)(a \<mapsto> Session_new i ch), next_et := a + 1\<rparr>))
    (sq (modify (\<lambda>w. w\<lparr>sessions := om_put i a (sessions w)\<rparr>))
    (bnd (gets sessions) (\<lambda>m.
     say (''SessionManager::NewConnection(), '' @ GetPeerInfo_et ch @ '', session count: '' @ to_string_nat (length m)))))))"

text \<open>\<open>VerifySessionExist(id); auto session = sessions[id];\<close> and the line the four handlers print.\<close>

definition lookup_et :: "u64 \<Rightarrow> string \<Rightarrow> (et, nat) cpp" where
  "lookup_et i fn =
     sq (VerifySessionExist i)
    (bnd (gets (\<lambda>w. om_get (sessions w) i)) (\<lambda>r.
       case r of
         None \<Rightarrow> undef ''null session''
       | Some a \<Rightarrow> bnd (deref_et a) (\<lambda>ss. sq (say (fn @ peerInfo ss)) (ret a))))"

definition SessionManager_CanRead :: "u64 \<Rightarrow> (et, unit) cpp" where
  "SessionManager_CanRead i =
     bnd (lookup_et i ''SessionManager::CanRead(), '') (\<lambda>a.
       sq (upd_et a (\<lambda>ss. ss\<lparr>isReadable_et := True\<rparr>)) (Session_Read a))"

definition SessionManager_CanWrite :: "u64 \<Rightarrow> (et, unit) cpp" where
  "SessionManager_CanWrite i =
     bnd (lookup_et i ''SessionManager::CanWrite(), '') (\<lambda>a.
       sq (upd_et a (\<lambda>ss. ss\<lparr>isWritable_et := True\<rparr>)) (Session_Write a))"

definition SessionManager_ErrorOccurred :: "u64 \<Rightarrow> (et, unit) cpp" where
  "SessionManager_ErrorOccurred i = bnd (lookup_et i ''SessionManager::ErrorOccurred(), '') Session_Close"

definition SessionManager_TimeToExit :: "u64 \<Rightarrow> (et, unit) cpp" where
  "SessionManager_TimeToExit i = bnd (lookup_et i ''SessionManager::TimeToExit(), '') Session_Close"

section \<open>Server\<close>

definition Listen_et :: "(et, unit) cpp" where
  "Listen_et =
     bnd (sys_et SysSocket) (\<lambda>a.
     sq (case a of
           SysOk fd \<Rightarrow> modify (\<lambda>w. w\<lparr>listenFd_et := fd\<rparr>)
         | SysErr code \<Rightarrow>
             sq (modify (\<lambda>w. w\<lparr>listenFd_et := - 1\<rparr>)) (fail_et ''Server::Listen() failed, socket'' code))
    (bnd (gets port_et) (\<lambda>port.
     sq (ok_or_throw (SysBind (htons port)) ''Server::Listen() failed, bind'')
        (ok_or_throw (SysListen 50) ''Server::Listen() failed, listen''))))"

definition Accept_et :: "(et, int \<times> string \<times> u16) cpp" where
  "Accept_et = (\<lambda>w.
     case r_accept w of
       [] \<Rightarrow> (Pending, w)
     | AcceptErr code # as \<Rightarrow> fail_et ''Server::Accept() failed'' code (w\<lparr>r_accept := as\<rparr>)
     | AcceptOk fd (Inl code) sin_port # as \<Rightarrow>
         fail_et ''Server::Accept() failed, inet_ntop'' code (w\<lparr>r_accept := as\<rparr>)
     | AcceptOk fd (Inr ip) sin_port # as \<Rightarrow> (Val (fd, ip, ntohs sin_port), w\<lparr>r_accept := as\<rparr>))"

definition ProcessNewConnection_et :: "(et, unit) cpp" where
  "ProcessNewConnection_et =
     bnd Accept_et (\<lambda>(fd, ip, port).
     bnd (gets (\<lambda>w. om_has (conns w) fd)) (\<lambda>b.
     if b then throw (RuntimeError ''Server::ProcessNewConnection(), fd exist'')
     else
       sq (modify (\<lambda>w. w\<lparr>nextConnId_et := nextConnId_et w + 1\<rparr>))
      (sq (SetNonBlocking_et fd)
      (sq (Add_et fd (EPOLLIN OR EPOLLOUT OR EPOLLET))
      (bnd (gets nextConnId_et) (\<lambda>i.
       sq (SessionManager_NewConnection i \<lparr>ch_fd = fd, ch_ip = ip, ch_port = port, isEof = False\<rparr>)
          (modify (\<lambda>w. w\<lparr>conns := om_put fd (nextConnId_et w) (conns w)\<rparr>))))))))"

text \<open>\<open>conns[fd]\<close> inserts a zero entry when \<open>fd\<close> is absent.\<close>

definition conns_at :: "int \<Rightarrow> (et, u64) cpp" where
  "conns_at fd = (\<lambda>w.
     case om_get (conns w) fd of
       Some v \<Rightarrow> (Val v, w)
     | None \<Rightarrow> (Val 0, w\<lparr>conns := om_put fd 0 (conns w)\<rparr>))"

definition ProcessEvent_et :: "int \<Rightarrow> u32 \<Rightarrow> (et, unit) cpp" where
  "ProcessEvent_et fd eventMask =
     bnd (gets (\<lambda>w. om_has (conns w) fd)) (\<lambda>b.
     if \<not> b then throw (RuntimeError ''Server::ProcessEvent(), fd not exist'')
     else
       sq (whenb (eventMask AND EPOLLIN \<noteq> 0) (bnd (conns_at fd) SessionManager_CanRead))
      (sq (whenb (eventMask AND EPOLLOUT \<noteq> 0) (bnd (conns_at fd) SessionManager_CanWrite))
          (whenb (eventMask AND EPOLLERR \<noteq> 0) (bnd (conns_at fd) SessionManager_ErrorOccurred))))"

fun ProcessEvents_et :: "nat \<Rightarrow> nat \<Rightarrow> (et, unit) cpp" where
  "ProcessEvents_et i 0 = skip"
| "ProcessEvents_et i (Suc n) =
     sq (bnd (GetFd_et i) (\<lambda>fd. bnd (gets listenFd_et) (\<lambda>l.
           if fd = l then ProcessNewConnection_et
           else bnd (GetFd_et i) (\<lambda>fd. bnd (GetEvent_et i) (ProcessEvent_et fd)))))
        (ProcessEvents_et (Suc i) n)"

text \<open>\<open>while (!conns.empty()) TimeToExit(conns.begin()->second)\<close>, with a bound on the number of passes.\<close>

fun Release_loop :: "nat \<Rightarrow> (et, unit) cpp" where
  "Release_loop 0 w = (Pending, w)"
| "Release_loop (Suc k) w =
     (case conns w of
        [] \<Rightarrow> (Val (), w)
      | (fd, i) # _ \<Rightarrow> sq (SessionManager_TimeToExit i) (Release_loop k) w)"

definition Release_et :: "nat \<Rightarrow> (et, unit) cpp" where
  "Release_et k =
     sq (Release_loop k)
    (bnd (gets listenFd_et) (\<lambda>l. sq (DeleteFd l) (bnd (gets listenFd_et) CloseFd_et)))"

fun Start_loop_et :: "nat \<Rightarrow> nat \<Rightarrow> (et, unit) cpp" where
  "Start_loop_et j 0 w = (Pending, w)"
| "Start_loop_et j (Suc k) w =
     bnd (Wait_et 3000) (\<lambda>n.
     sq (if 0 < n then ProcessEvents_et 0 (nat n)
         else say (''epoll wait timeout('' @ to_string_int 3000 @ ''ms)''))
    (bnd (gets timeToExit) (\<lambda>e. if e then Release_et j else Start_loop_et j k))) w"

definition Start_et :: "nat \<Rightarrow> nat \<Rightarrow> (et, unit) cpp" where
  "Start_et j k =
     sq Listen_et
    (sq Init_et
    (sq (bnd (gets listenFd_et) (\<lambda>l. Add_et l EPOLLIN))
        (Start_loop_et j k)))"

definition SetExitCondition_et :: "(et, unit) cpp" where
  "SetExitCondition_et = ok_or_throw SysSignal ''SetExitCondition(), signal''"

definition main_et :: "nat \<Rightarrow> nat \<Rightarrow> (et, int) cpp" where
  "main_et j k =
     sq (try_catch
          (sq SetExitCondition_et
          (sq (modify (\<lambda>w. w\<lparr>nextConnId_et := 0, port_et := 5666, conns := om_empty,
                 events_et := replicate MAX_EVENTS (0, 0), sessions := om_empty\<rparr>))
              (Start_et j k)))
          (\<lambda>e. say (''exception: '' @ (case e of RuntimeError m \<Rightarrow> m | InvalidArgument m \<Rightarrow> m | StdOutOfRange m \<Rightarrow> m))))
        (ret 0)"

end
