(* ===== verification/Epoll_Echo_Props.thy ===== *)
theory Epoll_Echo_Props
  imports Epoll_Echo
begin

text \<open>
  Properties of the edge-triggered echo server: what a session answers, however the bytes arrive; the
  agreement of the server's descriptor map with the session manager's map; shutdown; and what goes
  wrong when one event reports the end of a connection and an error together.
\<close>

section \<open>The answer to a stream\<close>

interpretation ch_read: chunk_reader "ConnHandler_Read_loop se" "\<lambda>s eof. (s, eof)"
  "\<lambda>c. length c < 3 \<and> CHR 0x00 \<notin> set c" for se
  by unfold_locales (auto simp: c_str_buffer)

interpretation ch_write: partial_writer "ConnHandler_Write_loop se" for se
proof unfold_locales
  fix s :: string and e as
  assume "s \<noteq> []" "e \<noteq> EAGAIN"
  then show "\<exists>x. ConnHandler_Write_loop se s (WriteErr e # as) = (Throw x, as)"
    by (cases s) auto
next
  fix s :: string and n as
  assume "s \<noteq> []" "n \<le> length s"
  then show "ConnHandler_Write_loop se s (WriteOk n # as) = ConnHandler_Write_loop se (drop n s) as"
    by (cases s) auto
next
  fix s :: string and as
  assume "s \<noteq> []"
  then show "ConnHandler_Write_loop se s [] = (Pending, [])"
    and "ConnHandler_Write_loop se s (WriteErr EAGAIN # as) = (Val s, as)"
    by (cases s; simp)+
qed simp

definition bracket :: "string \<Rightarrow> string" where
  "bracket t = ''['' @ rev t @ '']''"

lemma split_dots_none: "CHR ''.'' \<notin> set i \<Longrightarrow> split_dots i out = (i, out)"
  by (subst split_dots.simps) (simp add: find_char_None[THEN iffD2])

lemma split_dots_piece:
  "CHR ''.'' \<notin> set t \<Longrightarrow> split_dots (t @ CHR ''.'' # rest) out = split_dots rest (out @ bracket t)"
  by (subst split_dots.simps) (simp add: find_char_first substr_def bracket_def)

lemma split_dots_text:
  assumes "\<forall>t \<in> set ts. CHR ''.'' \<notin> set t" "CHR ''.'' \<notin> set rest"
  shows "split_dots (concat (map (\<lambda>t. t @ ''.'') ts) @ rest) out = (rest, out @ concat (map bracket ts))"
  using assms by (induction ts arbitrary: out) (simp_all add: split_dots_none split_dots_piece)

lemma split_dots_result:
  "split_dots i out = (i', out') \<Longrightarrow> CHR ''.'' \<notin> set i'"
proof (induction i out arbitrary: i' out' rule: split_dots.induct)
  case (1 i out)
  show ?case
    using "1.prems" "1.IH" by (subst (asm) split_dots.simps) (auto simp: find_char_None split: option.splits)
qed

lemma split_dots_more:
  "split_dots i out = (i', out') \<Longrightarrow> split_dots (i @ t) out = split_dots (i' @ t) out'"
proof (induction i out arbitrary: i' out' rule: split_dots.induct)
  case (1 i out)
  show ?case
  proof (cases "find_char (CHR ''.'') i")
    case None
    then show ?thesis using "1.prems" by (subst (asm) split_dots.simps) simp
  next
    case (Some p)
    let ?i = "substr (p + 1) (length i - p - 1) i"
    let ?o = "out @ ''['' @ rev (substr 0 p i) @ '']''"
    have p: "p < length i" using find_char_SomeD[OF Some] by simp
    have rec: "split_dots ?i ?o = (i', out')"
      using "1.prems" Some by (subst (asm) split_dots.simps) simp
    have "split_dots (i @ t) out = split_dots (?i @ t) ?o"
      using p by (subst split_dots.simps) (simp add: find_char_append[OF Some] substr_def)
    then show ?thesis using "1.IH"[OF Some rec] by simp
  qed
qed

fun feed_dots :: "string list \<Rightarrow> string \<times> string \<Rightarrow> string \<times> string" where
  "feed_dots [] st = st"
| "feed_dots (s # ss) st = feed_dots ss (split_dots (fst st @ s) (snd st))"

lemma feed_dots_concat:
  "CHR ''.'' \<notin> set (fst st) \<Longrightarrow> feed_dots ss st = split_dots (fst st @ concat ss) (snd st)"
proof (induction ss arbitrary: st)
  case Nil
  then show ?case by (simp add: split_dots_none)
next
  case (Cons s ss)
  obtain i' out' where r: "split_dots (fst st @ s) (snd st) = (i', out')" by fastforce
  from Cons.IH[of "(i', out')"] split_dots_result[OF r] split_dots_more[OF r, of "concat ss"] r
  show ?case by simp
qed

section \<open>Running one operation\<close>

lemma say_run [cpp_run]: "say s w = (Val (), w\<lparr>cout := cout w @ [s]\<rparr>)"
  by (simp add: say_def cpp_run)

lemma deref_et_run [cpp_run]: "heap_et w a = Some ss \<Longrightarrow> deref_et a w = (Val ss, w)"
  by (simp add: deref_et_def)

lemma upd_et_run [cpp_run]:
  "heap_et w a = Some ss \<Longrightarrow> upd_et a f w = (Val (), w\<lparr>heap_et := (heap_et w)(a \<mapsto> f ss)\<rparr>)"
  by (simp add: upd_et_def cpp_run)

lemma ok_or_throw_run [cpp_run]:
  "r_sys w = SysOk v # as \<Longrightarrow> ok_or_throw c msg w = (Val (), w\<lparr>r_sys := as, r_trace := r_trace w @ [c]\<rparr>)"
  by (simp add: ok_or_throw_def sys_et_def cpp_run)

lemma VerifySession_run [cpp_run]:
  "VerifySessionExist i w =
     (if om_has (sessions w) i then Val () else Throw (RuntimeError ''SessionManager::VerifySessionExist()''), w)"
  "VerifySessionNotExist i w =
     (if om_has (sessions w) i then Throw (RuntimeError ''SessionManager::VerifySessionNotExist()'') else Val (), w)"
  by (simp_all add: VerifySessionExist_def VerifySessionNotExist_def bnd_def cpp_run)

lemma lookup_et_run [cpp_run]:
  "om_get (sessions w) i = Some a \<Longrightarrow> heap_et w a = Some ss \<Longrightarrow>
     lookup_et i fn w = (Val a, w\<lparr>cout := cout w @ [fn @ peerInfo ss]\<rparr>)"
  "om_get (sessions w) i = None \<Longrightarrow>
     lookup_et i fn w = (Throw (RuntimeError ''SessionManager::VerifySessionExist()''), w)"
  by (simp_all add: lookup_et_def cpp_run om_has_def bnd_def sq_def)

lemma ConnHandler_Read_run:
  assumes "heap_et w a = Some ss" "ConnHandler_Read_loop (strerror_et w) [] (r_read w) = (Val (s, eof), as)"
  shows "ConnHandler_Read a w =
    (Val s, w\<lparr>r_read := as, r_trace := r_trace w @ [SysRead (ch_fd (connHandler ss))],
       heap_et := (heap_et w)(a \<mapsto> (if eof then ss\<lparr>connHandler := (connHandler ss)\<lparr>isEof := True\<rparr>\<rparr> else ss))\<rparr>)"
proof -
  have "(heap_et w)(a \<mapsto> ss) = heap_et w" using assms(1) by auto
  then show ?thesis using assms by (simp add: ConnHandler_Read_def cpp_run Let_def)
qed

definition idle :: "session \<Rightarrow> bool" where
  "idle ss \<longleftrightarrow> \<not> isReadable_et ss \<and> \<not> isWritable_et ss \<and> \<not> isClosed_et ss"

text \<open>What one readable event makes of a session.\<close>

definition after_read :: "string \<Rightarrow> bool \<Rightarrow> session \<Rightarrow> session" where
  "after_read s eof ss =
     (case split_dots (ss_input ss @ s) (ss_output ss) of
        (i, out) \<Rightarrow> ss\<lparr>ss_input := i, ss_output := out,
            connHandler := (connHandler ss)\<lparr>isEof := isEof (connHandler ss) \<or> eof\<rparr>\<rparr>)"

definition read_line :: "session \<Rightarrow> string \<Rightarrow> string" where
  "read_line ss s = ''Session::Read(), '' @ peerInfo ss @ ''. read: '' @ [CHR 0x22] @ s @ [CHR 0x22]"

lemma after_read_eq:
  assumes "split_dots (ss_input ss @ s) (ss_output ss) = (inp, out)" "idle ss"
  shows "after_read s eof ss = (if eof then ss\<lparr>connHandler := (connHandler ss)\<lparr>isEof := True\<rparr>\<rparr> else ss)
      \<lparr>ss_input := inp, ss_output := out, isReadable_et := False\<rparr>"
  using assms by (simp add: after_read_def idle_def)

lemma CanRead_et_run:
  assumes "om_get (sessions w) i = Some a" "heap_et w a = Some ss" "idle ss"
    and "ConnHandler_Read_loop (strerror_et w) [] (r_read w) = (Val (s, eof), as)"
  shows "SessionManager_CanRead i w =
    (Val (), w\<lparr>r_read := as, r_trace := r_trace w @ [SysRead (ch_fd (connHandler ss))],
       cout := cout w @ [''SessionManager::CanRead(), '' @ peerInfo ss, read_line ss s],
       heap_et := (heap_et w)(a \<mapsto> after_read s eof ss)\<rparr>)"
proof -
  let ?w = "w\<lparr>cout := cout w @ [''SessionManager::CanRead(), '' @ peerInfo ss], heap_et := (heap_et w)(a \<mapsto> ss\<lparr>isReadable_et := True\<rparr>)\<rparr>"
  have h: "heap_et ?w a = Some (ss\<lparr>isReadable_et := True\<rparr>)" by simp
  obtain inp out where sp: "split_dots (ss_input ss @ s) (ss_output ss) = (inp, out)" by fastforce
  note rd = ConnHandler_Read_run[OF h, of s eof as]
  have i: "\<not> isWritable_et ss" using assms(3) by (simp add: idle_def)
  show ?thesis
    unfolding after_read_eq[OF sp assms(3)]
    using assms(1,2,4) sp rd i
    by (cases eof)
      (simp add: SessionManager_CanRead_def Session_Read_def Session_Write_def cpp_run;
       rule et.equality; simp add: read_line_def)+
qed

section \<open>A stream of readable events\<close>

fun CanRead_events :: "u64 \<Rightarrow> nat \<Rightarrow> (et, unit) cpp" where
  "CanRead_events i 0 = skip"
| "CanRead_events i (Suc n) = sq (SessionManager_CanRead i) (CanRead_events i n)"

lemma after_read_sel:
  "idle ss \<Longrightarrow> idle (after_read s eof ss)"
  "(ss_input (after_read s eof ss), ss_output (after_read s eof ss)) = split_dots (ss_input ss @ s) (ss_output ss)"
  by (auto simp: after_read_def idle_def split: prod.splits)

text \<open>The answers of \<open>read\<close> over several readable events: the chunks of each event, then \<open>EAGAIN\<close>.\<close>

definition readable_events :: "string list list \<Rightarrow> read_ans list" where
  "readable_events css = concat (map (\<lambda>cs. map ReadOk cs @ [ReadErr EAGAIN]) css)"

abbreviation short_reads :: "string list \<Rightarrow> bool" where
  "short_reads cs \<equiv> \<forall>c \<in> set cs. (length c < 3 \<and> CHR 0x00 \<notin> set c) \<and> c \<noteq> []"

lemma CanRead_events_more:
  assumes "om_get (sessions w) i = Some a" "heap_et w a = Some ss" "idle ss"
    and "r_read w = readable_events css @ as" "\<forall>cs \<in> set css. short_reads cs"
  shows "\<exists>w' ss'. CanRead_events i (length css) w = (Val (), w') \<and> heap_et w' a = Some ss' \<and>
    (ss_input ss', ss_output ss') = feed_dots (map concat css) (ss_input ss, ss_output ss) \<and> r_write w' = r_write w \<and>
    om_get (sessions w') i = Some a \<and> idle ss' \<and> r_read w' = as"
  using assms
proof (induction css arbitrary: w ss)
  case Nil
  then show ?case by (simp add: cpp_run readable_events_def)
next
  case (Cons cs css)
  let ?as = "readable_events css @ as"
  have rd: "ConnHandler_Read_loop (strerror_et w) [] (r_read w) = (Val (concat cs, False), ?as)"
    using Cons.prems(4,5) ch_read.rd_until_again[of cs "strerror_et w" "[]" ?as] by (simp add: readable_events_def)
  obtain w1 where w1: "SessionManager_CanRead i w = (Val (), w1)" "om_get (sessions w1) i = Some a"
    "heap_et w1 a = Some (after_read (concat cs) False ss)" "r_read w1 = ?as" "r_write w1 = r_write w"
    using CanRead_et_run[OF Cons.prems(1-3) rd] Cons.prems(1) by simp
  from Cons.IH[OF w1(2,3) after_read_sel(1)[OF Cons.prems(3)] w1(4)] Cons.prems(5) obtain w' ss' where
    w': "CanRead_events i (length css) w1 = (Val (), w')" "heap_et w' a = Some ss'" "r_write w' = r_write w1"
    "(ss_input ss', ss_output ss') = feed_dots (map concat css) (split_dots (ss_input ss @ concat cs) (ss_output ss))"
    "om_get (sessions w') i = Some a" "idle ss'" "r_read w' = as"
    unfolding after_read_sel(2) by auto
  then show ?case using w1 by (simp add: cpp_run)
qed

lemma CanRead_events_run:
  assumes "om_get (sessions w) i = Some a" "heap_et w a = Some ss" "idle ss"
    and "r_read w = readable_events css" "\<forall>cs \<in> set css. short_reads cs"
  shows "\<exists>w' ss'. CanRead_events i (length css) w = (Val (), w') \<and> heap_et w' a = Some ss' \<and>
    (ss_input ss', ss_output ss') = feed_dots (map concat css) (ss_input ss, ss_output ss) \<and> r_write w' = r_write w"
  using CanRead_events_more[OF assms(1-3) _ assms(5), of "[]"] assms(4) by auto

text \<open>A read that fills the buffer leaves no terminator in it, and the event ends in undefined behaviour.\<close>

lemma CanRead_undef:
  assumes "om_get (sessions w) i = Some a" "heap_et w a = Some ss"
    and "ConnHandler_Read_loop (strerror_et w) [] (r_read w) = (Undef u, as)" "isClosed_et ss = False"
  shows "\<exists>w'. SessionManager_CanRead i w = (Undef u, w')"
proof -
  let ?w = "w\<lparr>cout := cout w @ [''SessionManager::CanRead(), '' @ peerInfo ss], heap_et := (heap_et w)(a \<mapsto> ss\<lparr>isReadable_et := True\<rparr>)\<rparr>"
  have "ConnHandler_Read a ?w = (Undef u, ?w\<lparr>r_read := as, r_trace := r_trace ?w @ [SysRead (ch_fd (connHandler ss))]\<rparr>)"
    using assms(2,3) by (simp add: ConnHandler_Read_def cpp_run Let_def)
  then show ?thesis using assms(1,2,4)
    by (simp add: SessionManager_CanRead_def Session_Read_def cpp_run)
qed

lemma full_read_undefined:
  assumes "short_reads cs" "length b = 3" "CHR 0x00 \<notin> set b"
  shows "ConnHandler_Read_loop se s (map ReadOk cs @ ReadOk b # as) = (Undef ''read past the end of buf'', as)"
proof -
  have "b \<noteq> []" using assms(2) by auto
  then show ?thesis using ch_read.rd_chunks[OF assms(1), of se s] c_str_buffer_full[OF assms(3,2)] by simp
qed

lemma CanRead_events_Suc:
  "CanRead_events i n w = (Val (), w1) \<Longrightarrow> SessionManager_CanRead i w1 = (Undef u, w2) \<Longrightarrow>
   CanRead_events i (Suc n) w = (Undef u, w2)"
proof (induction n arbitrary: w)
  case 0
  then show ?case by (simp add: cpp_run)
next
  case (Suc n)
  obtain w' where w': "SessionManager_CanRead i w = (Val (), w')" "CanRead_events i n w' = (Val (), w1)"
    using Suc.prems(1) by (auto simp: sq_eval split: prod.splits outcome.splits)
  have "CanRead_events i (Suc (Suc n)) w = CanRead_events i (Suc n) w'" using w'(1) by (simp add: cpp_run)
  with Suc.IH[OF w'(2) Suc.prems(2)] show ?case by (simp only:)
qed

lemma concat_map_concat: "concat (map concat xss) = concat (concat xss)"
  by (induction xss) simp_all

lemma feed_text:
  assumes "concat (concat css) = concat (map (\<lambda>t. t @ ''.'') ts) @ rest"
    and "\<forall>t \<in> set ts. CHR ''.'' \<notin> set t" "CHR ''.'' \<notin> set rest"
  shows "feed_dots (map concat css) ([], []) = (rest, concat (map bracket ts))"
proof -
  have "feed_dots (map concat css) ([], []) = split_dots (concat (concat css)) []"
    using feed_dots_concat[of "([], [])" "map concat css"] by (simp add: concat_map_concat)
  also have "\<dots> = (rest, concat (map bracket ts))"
    using split_dots_text[OF assms(2,3), of "[]"] assms(1) by simp
  finally show ?thesis .
qed

text \<open>
  C14. What a session makes of a stream, however the stream is spread over readable events and over reads of one or
  two bytes, none of them zero. The bytes that arrive add up to pieces \<open>ts\<close> without dots, each followed by a
  dot, and a rest without a dot. When the events are over, the session's output is every piece reversed and
  in brackets, in order, its input is the rest, and nothing has been written to the socket yet. When the
  next event delivers, after any such reads, one that fills the buffer of three bytes, the behaviour is
  undefined: \<open>ConnHandler::Read\<close> appends the buffer as a C string and no terminator is left in it.
\<close>

theorem echo_stream:
  assumes "om_get (sessions w) i = Some a" "heap_et w a = Some ss" "idle ss" "ss_input ss = []" "ss_output ss = []"
    and "\<forall>cs \<in> set css. short_reads cs"
    and "concat (concat css) = concat (map (\<lambda>t. t @ ''.'') ts) @ rest"
    and "\<forall>t \<in> set ts. CHR ''.'' \<notin> set t" "CHR ''.'' \<notin> set rest"
  shows "(r_read w = readable_events css \<longrightarrow>
      (\<exists>w' ss'. CanRead_events i (length css) w = (Val (), w') \<and> heap_et w' a = Some ss' \<and>
        ss_output ss' = concat (map bracket ts) \<and> ss_input ss' = rest \<and> r_write w' = r_write w)) \<and>
    (\<forall>cs b as. r_read w = readable_events css @ map ReadOk cs @ ReadOk b # as \<and> short_reads cs \<and>
        length b = 3 \<and> CHR 0x00 \<notin> set b \<longrightarrow>
      (\<exists>w'. CanRead_events i (length css + 1) w = (Undef ''read past the end of buf'', w')))"
proof (intro conjI impI allI)
  assume "r_read w = readable_events css"
  then show "\<exists>w' ss'. CanRead_events i (length css) w = (Val (), w') \<and> heap_et w' a = Some ss' \<and>
      ss_output ss' = concat (map bracket ts) \<and> ss_input ss' = rest \<and> r_write w' = r_write w"
    using CanRead_events_run[OF assms(1-3) _ assms(6)] feed_text[OF assms(7-9)] assms(4,5) by fastforce
next
  fix cs b as
  assume h: "r_read w = readable_events css @ map ReadOk cs @ ReadOk b # as \<and> short_reads cs \<and> length b = 3 \<and> CHR 0x00 \<notin> set b"
  then obtain w1 ss1 where w1: "CanRead_events i (length css) w = (Val (), w1)" "heap_et w1 a = Some ss1"
    "om_get (sessions w1) i = Some a" "idle ss1" "r_read w1 = map ReadOk cs @ ReadOk b # as"
    using CanRead_events_more[OF assms(1-3) _ assms(6)] by blast
  have "\<exists>w'. SessionManager_CanRead i w1 = (Undef ''read past the end of buf'', w')"
    using CanRead_undef[OF w1(3,2)] full_read_undefined[of cs b] h w1(4,5) by (simp add: idle_def)
  with CanRead_events_Suc[OF w1(1)]
  show "\<exists>w'. CanRead_events i (length css + 1) w = (Undef ''read past the end of buf'', w')" by auto
qed

definition some_et :: et where
  "some_et = \<lparr>strerror_et = (\<lambda>_. []), r_read = [], r_write = [], r_sys = [], r_accept = [], r_wait = [], r_trace = [],
     cout = [], port_et = 5666, listenFd_et = 3, nextConnId_et = 1, conns = [(7, 1)], epollFd_et = 4,
     events_et = replicate 10 (0, 0), timeToExit = False,
     heap_et = [0 \<mapsto> Session_new 1 \<lparr>ch_fd = 7, ch_ip = ''10.0.0.1'', ch_port = 4000, isEof = False\<rparr>],
     next_et = 1, sessions = [(1, 0)]\<rparr>"

lemma echo_stream_witness:
  "(\<exists>w' ss'. CanRead_events 1 2 (some_et\<lparr>r_read := [ReadOk ''ab'', ReadErr EAGAIN, ReadOk ''.'', ReadOk ''c.'', ReadErr EAGAIN]\<rparr>) =
      (Val (), w') \<and> heap_et w' 0 = Some ss' \<and> ss_output ss' = ''[ba][c]'') \<and>
   (\<exists>w'. CanRead_events 1 2 (some_et\<lparr>r_read := [ReadOk ''a'', ReadErr EAGAIN, ReadOk ''b'', ReadOk ''cde'']\<rparr>) =
      (Undef ''read past the end of buf'', w'))"
proof -
  let ?ss = "Session_new 1 \<lparr>ch_fd = 7, ch_ip = ''10.0.0.1'', ch_port = 4000, isEof = False\<rparr>"
  let ?w = "\<lambda>as. some_et\<lparr>r_read := as\<rparr>"
  have h: "om_get (sessions (?w as)) 1 = Some 0" "heap_et (?w as) 0 = Some ?ss" "r_read (?w as) = as" "idle ?ss"
    "ss_input ?ss = []" "ss_output ?ss = []" for as
    by (simp_all add: some_et_def om_get_def Session_new_def idle_def)
  let ?as = "[ReadOk ''ab'', ReadErr EAGAIN, ReadOk ''.'', ReadOk ''c.'', ReadErr EAGAIN]"
  have "r_read (?w ?as) = readable_events [[''ab''], [''.'', ''c.'']]" by (simp add: h(3) readable_events_def)
  from mp[OF conjunct1[OF echo_stream[OF h(1,2,4-6), of "[[''ab''], [''.'', ''c.'']]" "[''ab'', ''c'']" "[]"]] this]
  have "\<exists>w' ss'. CanRead_events 1 2 (?w ?as) = (Val (), w') \<and> heap_et w' 0 = Some ss' \<and> ss_output ss' = ''[ba][c]''"
    by (auto simp: bracket_def numeral_2_eq_2)
  moreover have "\<exists>w'. CanRead_events 1 2 (?w [ReadOk ''a'', ReadErr EAGAIN, ReadOk ''b'', ReadOk ''cde'']) =
      (Undef ''read past the end of buf'', w')"
    using conjunct2[OF echo_stream[OF h(1,2,4-6), of "[[''a'']]" "[]" "''a''"], rule_format, of _ "[''b'']" "''cde''" "[]"]
    by (auto simp: numeral_2_eq_2 h(3) readable_events_def)
  ultimately show ?thesis by blast
qed

section \<open>Agreement of the two maps\<close>

text \<open>
  Between two events: the server's map from descriptors to ids and the manager's map from ids to
  sessions describe the same connections, every session is idle and open, and no session has id 0.
\<close>

definition et_wf :: "et \<Rightarrow> bool" where
  "et_wf w \<longleftrightarrow>
     om_wf (conns w) \<and> om_wf (sessions w) \<and>
     (\<forall>fd i. om_get (conns w) fd = Some i \<longrightarrow> (\<exists>a ss. om_get (sessions w) i = Some a \<and> heap_et w a = Some ss \<and>
        idle ss \<and> ss_id ss = i \<and> ch_fd (connHandler ss) = fd)) \<and>
     (\<forall>i a. om_get (sessions w) i = Some a \<longrightarrow> i \<noteq> 0 \<and>
        (\<exists>ss. heap_et w a = Some ss \<and> om_get (conns w) (ch_fd (connHandler ss)) = Some i)) \<and>
     (\<forall>a. next_et w \<le> a \<longrightarrow> heap_et w a = None)"

lemma et_wf_conn:
  assumes "et_wf w" "om_get (conns w) fd = Some i"
  obtains a ss where "om_get (sessions w) i = Some a" "heap_et w a = Some ss" "idle ss" "ss_id ss = i"
    "ch_fd (connHandler ss) = fd" "i \<noteq> 0"
  using assms unfolding et_wf_def by blast

lemma et_wf_inj:
  assumes "et_wf w" "om_get (sessions w) i = Some a" "om_get (sessions w) j = Some a"
  shows "i = j"
  using assms unfolding et_wf_def by (metis option.inject)

lemma et_wf_update:
  assumes "et_wf w" "om_get (sessions w) i = Some a" "heap_et w a = Some ss"
    and "heap_et w' = (heap_et w)(a \<mapsto> ss')" "conns w' = conns w" "sessions w' = sessions w" "next_et w' = next_et w"
    and "idle ss'" "ss_id ss' = ss_id ss" "ch_fd (connHandler ss') = ch_fd (connHandler ss)"
  shows "et_wf w'"
proof -
  have "a < next_et w" using assms(1,3) unfolding et_wf_def by (metis not_le option.distinct(1))
  moreover have "\<exists>b sb. om_get (sessions w') j = Some b \<and> heap_et w' b = Some sb \<and> idle sb \<and> ss_id sb = j \<and>
      ch_fd (connHandler sb) = g" if c: "om_get (conns w') g = Some j" for g j
  proof -
    obtain b sb where b: "om_get (sessions w) j = Some b" "heap_et w b = Some sb" "idle sb" "ss_id sb = j"
      "ch_fd (connHandler sb) = g"
      using et_wf_conn[OF assms(1) c[unfolded assms(5)]] .
    then show ?thesis using assms(3,4,6,8-10) by (cases "b = a") auto
  qed
  moreover have "j \<noteq> 0 \<and> (\<exists>sb. heap_et w' b = Some sb \<and> om_get (conns w') (ch_fd (connHandler sb)) = Some j)"
    if c: "om_get (sessions w') j = Some b" for j b
  proof -
    obtain sb where "j \<noteq> 0" "heap_et w b = Some sb" "om_get (conns w) (ch_fd (connHandler sb)) = Some j"
      using assms(1,6) c unfolding et_wf_def by metis
    then show ?thesis using assms(3,4,5,10) by (cases "b = a") auto
  qed
  moreover have "\<forall>b. next_et w' \<le> b \<longrightarrow> heap_et w' b = None"
    using assms(1,4,7) \<open>a < next_et w\<close> unfolding et_wf_def by simp
  moreover have "om_wf (conns w')" "om_wf (sessions w')" using assms(1,5,6) by (simp_all add: et_wf_def)
  ultimately show ?thesis unfolding et_wf_def by blast
qed

lemma et_wf_close:
  assumes "et_wf w" "om_get (conns w) fd = Some i" "om_get (sessions w) i = Some a"
    and "heap_et w' = (heap_et w)(a \<mapsto> ss')" "conns w' = om_del fd (conns w)" "sessions w' = om_del i (sessions w)"
      "next_et w' = next_et w"
  shows "et_wf w'"
proof -
  obtain ss where ss: "heap_et w a = Some ss" "ch_fd (connHandler ss) = fd"
    using et_wf_conn[OF assms(1,2)] assms(3) by (metis option.inject)
  have lt: "a < next_et w" using assms(1) ss(1) unfolding et_wf_def by (metis not_le option.distinct(1))
  have other: "b \<noteq> a" if "om_get (sessions w) j = Some b" "j \<noteq> i" for j b
    using et_wf_inj[OF assms(1) that(1)] assms(3) that(2) by auto
  have fds: "j \<noteq> i" if "om_get (conns w) g = Some j" "g \<noteq> fd" for g j
    using et_wf_conn[OF assms(1) that(1)] et_wf_conn[OF assms(1,2)] that(2) by (metis option.inject)
  have c1: "om_wf (conns w')" "om_wf (sessions w')"
    using assms by (simp_all add: et_wf_def om_wf_del)
  have c2: "\<exists>b ss. om_get (sessions w') j = Some b \<and> heap_et w' b = Some ss \<and> idle ss \<and> ss_id ss = j \<and>
      ch_fd (connHandler ss) = g" if "om_get (conns w') g = Some j" for g j
  proof -
    have g: "om_get (conns w) g = Some j" "g \<noteq> fd" using that assms(5) by (auto split: if_splits)
    from et_wf_conn[OF assms(1) g(1)] fds[OF g] other assms(4,6) show ?thesis by (metis fun_upd_other om_get_del)
  qed
  have c3: "j \<noteq> 0 \<and> (\<exists>ss. heap_et w' b = Some ss \<and> om_get (conns w') (ch_fd (connHandler ss)) = Some j)"
    if "om_get (sessions w') j = Some b" for j b
  proof -
    have j: "om_get (sessions w) j = Some b" "j \<noteq> i" using that assms(6) by (auto split: if_splits)
    then obtain sb where sb: "j \<noteq> 0" "heap_et w b = Some sb" "om_get (conns w) (ch_fd (connHandler sb)) = Some j"
      using assms(1) unfolding et_wf_def by blast
    then have "ch_fd (connHandler sb) \<noteq> fd" using assms(2) j(2) by auto
    with sb other[OF j] assms(4,5) show ?thesis by simp
  qed
  have "\<forall>b. next_et w' \<le> b \<longrightarrow> heap_et w' b = None"
    using assms(1,4,7) lt unfolding et_wf_def by simp
  then show ?thesis
    using c1 c2 c3 unfolding et_wf_def by blast
qed

lemma ok_or_throw_Val:
  "ok_or_throw c msg w = (Val (), w') \<Longrightarrow> \<exists>ks. w' = w\<lparr>r_sys := ks, r_trace := r_trace w @ [c]\<rparr>"
  by (auto simp: ok_or_throw_def sys_et_def bnd_def fail_et_def cpp_run split: list.splits sys_ans.splits)

lemma Session_Close_Val:
  assumes "Session_Close a w = (Val (), w')" "heap_et w a = Some ss"
  shows "heap_et w' = (heap_et w)(a \<mapsto> ss\<lparr>isClosed_et := True\<rparr>)" "conns w' = om_del (ch_fd (connHandler ss)) (conns w)"
    "sessions w' = om_del (ss_id ss) (sessions w)" "next_et w' = next_et w" "nextConnId_et w' = nextConnId_et w"
    "listenFd_et w' = listenFd_et w"
proof -
  have "(if isClosed_et ss then throw (RuntimeError ''Session::Close(), session is closed'')
       else
         sq (closeConn_et (ch_fd (connHandler ss)))
        (sq (ReleaseSession (ss_id ss))
        (sq (say (''Session::Close(), '' @ peerInfo ss))
            (upd_et a (\<lambda>ss. ss\<lparr>isClosed_et := True\<rparr>))))) w = (Val (), w')"
    using assms by (simp add: Session_Close_def bnd_def cpp_run)
  then have "sq (closeConn_et (ch_fd (connHandler ss))) (sq (ReleaseSession (ss_id ss))
        (sq (say (''Session::Close(), '' @ peerInfo ss)) (upd_et a (\<lambda>ss. ss\<lparr>isClosed_et := True\<rparr>)))) w = (Val (), w')"
    by (simp add: cpp_run split: if_splits)
  then obtain w1 w2 w3 where st: "closeConn_et (ch_fd (connHandler ss)) w = (Val (), w1)"
      "ReleaseSession (ss_id ss) w1 = (Val (), w2)" "say (''Session::Close(), '' @ peerInfo ss) w2 = (Val (), w3)"
      "upd_et a (\<lambda>ss. ss\<lparr>isClosed_et := True\<rparr>) w3 = (Val (), w')"
    by (elim sq_ValE) blast
  from st(1) have w1: "heap_et w1 = heap_et w" "conns w1 = om_del (ch_fd (connHandler ss)) (conns w)"
      "sessions w1 = sessions w" "next_et w1 = next_et w" "nextConnId_et w1 = nextConnId_et w" "listenFd_et w1 = listenFd_et w"
    unfolding closeConn_et_def DeleteFd_def CloseFd_et_def
    by (elim sq_ValE; auto dest!: ok_or_throw_Val simp: cpp_run)+
  from st(2) have w2: "w2 = w1\<lparr>sessions := om_del (ss_id ss) (sessions w1)\<rparr>"
    unfolding ReleaseSession_def by (elim sq_ValE) (auto simp: cpp_run split: if_splits)
  from w1 w2 st(3,4) assms(2) show "heap_et w' = (heap_et w)(a \<mapsto> ss\<lparr>isClosed_et := True\<rparr>)"
    "conns w' = om_del (ch_fd (connHandler ss)) (conns w)" "sessions w' = om_del (ss_id ss) (sessions w)"
    "next_et w' = next_et w" "nextConnId_et w' = nextConnId_et w" "listenFd_et w' = listenFd_et w"
    by (auto simp: cpp_run upd_et_def)
qed

text \<open>What an event handler that returns leaves of the parts the invariant is about.\<close>

lemma CanRead_et_Val:
  assumes "om_get (sessions w) i = Some a" "heap_et w a = Some ss" "idle ss" "SessionManager_CanRead i w = (Val (), w')"
  shows "\<exists>s eof. heap_et w' = (heap_et w)(a \<mapsto> after_read s eof ss) \<and> conns w' = conns w \<and> sessions w' = sessions w \<and>
    next_et w' = next_et w \<and> nextConnId_et w' = nextConnId_et w \<and> listenFd_et w' = listenFd_et w"
proof -
  obtain oc as where l: "ConnHandler_Read_loop (strerror_et w) [] (r_read w) = (oc, as)" by fastforce
  show ?thesis
  proof (cases oc)
    case (Val p)
    obtain s eof where "p = (s, eof)" by fastforce
    with CanRead_et_run[OF assms(1-3), of s eof as] l Val assms(4)
    have "w' = w\<lparr>r_read := as, r_trace := r_trace w @ [SysRead (ch_fd (connHandler ss))],
       cout := cout w @ [''SessionManager::CanRead(), '' @ peerInfo ss, read_line ss s],
       heap_et := (heap_et w)(a \<mapsto> after_read s eof ss)\<rparr>" by simp
    then show ?thesis by (intro exI[of _ s] exI[of _ eof]) simp
  qed (use assms l in \<open>simp_all add: SessionManager_CanRead_def Session_Read_def ConnHandler_Read_def cpp_run Let_def\<close>)
qed

lemma ConnHandler_Write_Val:
  assumes "ConnHandler_Write fd s w = (Val r, w')"
  shows "\<exists>ws t. w' = w\<lparr>r_write := ws, r_trace := t\<rparr>"
proof (cases "s = []")
  case True
  with assms have "w' = w\<lparr>r_write := r_write w, r_trace := r_trace w\<rparr>" by (simp add: ConnHandler_Write_def)
  then show ?thesis by blast
next
  case False
  with assms show ?thesis by (auto simp: ConnHandler_Write_def split: prod.splits)
qed

lemma CanWrite_et_Val:
  assumes "om_get (sessions w) i = Some a" "heap_et w a = Some ss" "idle ss" "ss_id ss = i"
    and "SessionManager_CanWrite i w = (Val (), w')"
  shows "(\<exists>rest. heap_et w' = (heap_et w)(a \<mapsto> ss\<lparr>ss_output := rest\<rparr>) \<and> conns w' = conns w \<and> sessions w' = sessions w \<and>
      next_et w' = next_et w \<and> nextConnId_et w' = nextConnId_et w \<and> listenFd_et w' = listenFd_et w) \<or>
    (\<exists>ss'. heap_et w' = (heap_et w)(a \<mapsto> ss') \<and> conns w' = om_del (ch_fd (connHandler ss)) (conns w) \<and>
      sessions w' = om_del i (sessions w) \<and>
      next_et w' = next_et w \<and> nextConnId_et w' = nextConnId_et w \<and> listenFd_et w' = listenFd_et w)"
proof -
  let ?w1 = "w\<lparr>cout := cout w @ [''SessionManager::CanWrite(), '' @ peerInfo ss], heap_et := (heap_et w)(a \<mapsto> ss\<lparr>isWritable_et := True\<rparr>)\<rparr>"
  have "Session_Write a ?w1 = (Val (), w')"
    using assms by (simp add: SessionManager_CanWrite_def cpp_run)
  then have "bnd (ConnHandler_Write (ch_fd (connHandler ss)) (ss_output ss)) (\<lambda>rest.
         sq (upd_et a (\<lambda>ss. ss\<lparr>ss_output := rest, isWritable_et := False\<rparr>))
            (whenb (isEof (connHandler ss) \<and> rest = []) (Session_Close a))) ?w1 = (Val (), w')"
    by (simp add: Session_Write_def cpp_run)
  then obtain rest w2 where w2: "ConnHandler_Write (ch_fd (connHandler ss)) (ss_output ss) ?w1 = (Val rest, w2)"
    "sq (upd_et a (\<lambda>ss. ss\<lparr>ss_output := rest, isWritable_et := False\<rparr>))
            (whenb (isEof (connHandler ss) \<and> rest = []) (Session_Close a)) w2 = (Val (), w')"
    by (rule bnd_ValE)
  obtain ws t where e: "w2 = ?w1\<lparr>r_write := ws, r_trace := t\<rparr>" using ConnHandler_Write_Val[OF w2(1)] by blast
  let ?ss = "ss\<lparr>ss_output := rest\<rparr>"
  let ?w3 = "w2\<lparr>heap_et := (heap_et w)(a \<mapsto> ?ss)\<rparr>"
  have idle_ss: "ss\<lparr>isWritable_et := True, ss_output := rest, isWritable_et := False\<rparr> = ?ss"
    using assms(3) by (simp add: idle_def)
  have "whenb (isEof (connHandler ss) \<and> rest = []) (Session_Close a) ?w3 = (Val (), w')"
    using w2(2) e idle_ss by (simp add: cpp_run)
  then have "(w' = ?w3) \<or> Session_Close a ?w3 = (Val (), w')"
    by (auto simp: cpp_run split: if_splits)
  then show ?thesis
  proof
    assume "w' = ?w3"
    then show ?thesis using e by auto
  next
    assume c: "Session_Close a ?w3 = (Val (), w')"
    have h: "heap_et ?w3 a = Some ?ss" by simp
    show ?thesis using Session_Close_Val[OF c h] e assms(4) by auto
  qed
qed

lemma conns_kept:
  assumes "et_wf w" "om_get (conns w) fd = Some i"
  shows "SessionManager_CanRead i w = (Val (), w') \<Longrightarrow>
      et_wf w' \<and> conns w' = conns w \<and> nextConnId_et w' = nextConnId_et w"
    and "SessionManager_CanWrite i w = (Val (), w') \<Longrightarrow>
      et_wf w' \<and> (conns w' = conns w \<or> om_get (conns w') fd = None) \<and> nextConnId_et w' = nextConnId_et w"
    and "Session_Close a w = (Val (), w') \<Longrightarrow> om_get (sessions w) i = Some a \<Longrightarrow>
      et_wf w' \<and> conns w' = om_del fd (conns w) \<and> nextConnId_et w' = nextConnId_et w"
proof -
  obtain b ss where b: "om_get (sessions w) i = Some b" "heap_et w b = Some ss" "idle ss" "ss_id ss = i"
    "ch_fd (connHandler ss) = fd" "i \<noteq> 0"
    using et_wf_conn[OF assms] .
  have keep: "idle (after_read s eof ss)" "ss_id (after_read s eof ss) = ss_id ss"
    "ch_fd (connHandler (after_read s eof ss)) = ch_fd (connHandler ss)" for s eof
    using b(3) by (auto simp: after_read_def idle_def split: prod.splits)
  show "et_wf w' \<and> conns w' = conns w \<and> nextConnId_et w' = nextConnId_et w" if r: "SessionManager_CanRead i w = (Val (), w')"
    using CanRead_et_Val[OF b(1-3) r] et_wf_update[OF assms(1) b(1,2)] keep by metis
  show "et_wf w' \<and> (conns w' = conns w \<or> om_get (conns w') fd = None) \<and> nextConnId_et w' = nextConnId_et w"
    if r: "SessionManager_CanWrite i w = (Val (), w')"
    using CanWrite_et_Val[OF b(1-4) r]
  proof (elim disjE exE conjE)
    fix rest
    assume n: "heap_et w' = (heap_et w)(b \<mapsto> ss\<lparr>ss_output := rest\<rparr>)" "conns w' = conns w" "sessions w' = sessions w"
      "next_et w' = next_et w" "nextConnId_et w' = nextConnId_et w"
    have "et_wf w'" using b(3) by (intro et_wf_update[OF assms(1) b(1,2) n(1-4)]) (simp_all add: idle_def)
    with n show ?thesis by simp
  next
    fix ss'
    assume n: "heap_et w' = (heap_et w)(b \<mapsto> ss')" "conns w' = om_del (ch_fd (connHandler ss)) (conns w)"
      "sessions w' = om_del i (sessions w)" "next_et w' = next_et w" "nextConnId_et w' = nextConnId_et w"
    have "et_wf w'" using et_wf_close[OF assms b(1) n(1)] n(2-4) b(5) by simp
    with n b(5) show ?thesis by simp
  qed
  show "et_wf w' \<and> conns w' = om_del fd (conns w) \<and> nextConnId_et w' = nextConnId_et w"
    if r: "Session_Close a w = (Val (), w')" "om_get (sessions w) i = Some a"
  proof -
    have a: "heap_et w a = Some ss" using that(2) b(1,2) by simp
    note c = Session_Close_Val[OF r(1) a]
    show ?thesis using et_wf_close[OF assms r(2) c(1)] c b(4,5) by simp
  qed
qed

lemma bnd_lookup_et:
  assumes "om_get (sessions w) i = Some a" "heap_et w a = Some ss"
  shows "bnd (lookup_et i fn) f w = f a (w\<lparr>cout := cout w @ [fn @ peerInfo ss]\<rparr>)"
  using assms by (simp add: cpp_run)

lemma et_wf_cout [simp]: "et_wf (w\<lparr>cout := l\<rparr>) = et_wf w"
  by (simp add: et_wf_def)

lemma closing_Val:
  assumes "et_wf w" "om_get (conns w) fd = Some i"
    and "SessionManager_ErrorOccurred i w = (Val (), w') \<or> SessionManager_TimeToExit i w = (Val (), w')"
  shows "et_wf w' \<and> conns w' = om_del fd (conns w) \<and> nextConnId_et w' = nextConnId_et w"
proof -
  obtain a ss where a: "om_get (sessions w) i = Some a" "heap_et w a = Some ss"
    using et_wf_conn[OF assms(1,2)] by metis
  from assms(3) obtain l where "Session_Close a (w\<lparr>cout := l\<rparr>) = (Val (), w')"
    by (auto simp: SessionManager_ErrorOccurred_def SessionManager_TimeToExit_def bnd_lookup_et[OF a])
  from conns_kept(3)[OF _ _ this, of fd i] assms(1,2) a(1) show ?thesis by simp
qed

lemma bnd_conns_at:
  "om_get (conns w) fd = Some i \<Longrightarrow> bnd (conns_at fd) f w = f i w"
  "om_get (conns w) fd = None \<Longrightarrow> bnd (conns_at fd) f w = f 0 (w\<lparr>conns := om_put fd 0 (conns w)\<rparr>)"
  by (simp_all add: bnd_def conns_at_def)

lemma no_session_zero: "et_wf w \<Longrightarrow> om_get (sessions w) 0 = None"
  unfolding et_wf_def by (metis not_Some_eq)

text \<open>After the socket was closed within an event, the error report of the same event fails.\<close>

lemma error_after_close:
  assumes "et_wf w" "om_get (conns w) fd = None"
  shows "bnd (conns_at fd) SessionManager_ErrorOccurred w =
    (Throw (RuntimeError ''SessionManager::VerifySessionExist()''), w\<lparr>conns := om_put fd 0 (conns w)\<rparr>)"
  using no_session_zero[OF assms(1)] assms(2)
  by (simp add: bnd_conns_at SessionManager_ErrorOccurred_def cpp_run)

lemma ProcessEvent_et_keeps:
  assumes "et_wf w" "ProcessEvent_et fd ev w = (Val (), w')"
  shows "et_wf w' \<and> nextConnId_et w' = nextConnId_et w"
proof -
  obtain i where i: "om_get (conns w) fd = Some i"
    using assms(2) by (cases "om_get (conns w) fd") (auto simp: ProcessEvent_et_def bnd_def cpp_run om_has_def)
  then obtain w1 w2 where
    w1: "whenb (ev AND EPOLLIN \<noteq> 0) (bnd (conns_at fd) SessionManager_CanRead) w = (Val (), w1)" and
    w2: "whenb (ev AND EPOLLOUT \<noteq> 0) (bnd (conns_at fd) SessionManager_CanWrite) w1 = (Val (), w2)" and
    w3: "whenb (ev AND EPOLLERR \<noteq> 0) (bnd (conns_at fd) SessionManager_ErrorOccurred) w2 = (Val (), w')"
    using assms(2) by (auto simp: ProcessEvent_et_def bnd_def[of "gets _"] gets_run om_has_def elim!: sq_ValE)
  have 1: "et_wf w1 \<and> conns w1 = conns w \<and> nextConnId_et w1 = nextConnId_et w"
    using w1 conns_kept(1)[OF assms(1) i, of w1] assms(1) by (auto simp: whenb_run bnd_conns_at(1)[OF i] split: if_splits)
  then have i1: "om_get (conns w1) fd = Some i" using i by simp
  have 2: "et_wf w2 \<and> (om_get (conns w2) fd = Some i \<or> om_get (conns w2) fd = None) \<and> nextConnId_et w2 = nextConnId_et w1"
    using w2 conns_kept(2)[OF _ i1, of w2] 1 i1 by (auto simp: whenb_run bnd_conns_at(1)[OF i1] split: if_splits)
  show ?thesis
  proof (cases "om_get (conns w2) fd")
    case None
    then show ?thesis using w3 error_after_close[OF conjunct1[OF 2] None] 1 2 by (auto simp: whenb_run split: if_splits)
  next
    case (Some j)
    with 2 have i2: "om_get (conns w2) fd = Some i" by auto
    show ?thesis
      using w3 closing_Val[OF conjunct1[OF 2] i2, of w'] 1 2
      by (auto simp: whenb_run bnd_conns_at(1)[OF i2] split: if_splits)
  qed
qed

lemma et_wf_new:
  assumes "et_wf w" "\<not> om_has (conns w) fd" "\<not> om_has (sessions w) i" "i \<noteq> 0"
    and "heap_et w' = (heap_et w)(next_et w \<mapsto> Session_new i ch)" "ch_fd ch = fd" "next_et w' = next_et w + 1"
    and "sessions w' = om_put i (next_et w) (sessions w)" "conns w' = om_put fd i (conns w)"
  shows "et_wf w'"
proof -
  have none: "om_get (conns w) fd = None" "om_get (sessions w) i = None" using assms(2,3) by (simp_all add: om_has_def)
  have fresh: "b \<noteq> next_et w" if "om_get (sessions w) j = Some b" for j b
    using assms(1) that unfolding et_wf_def by (metis le_refl option.distinct(1))
  have c1: "om_wf (conns w')" "om_wf (sessions w')" using assms by (simp_all add: et_wf_def om_wf_put)
  have c2: "\<exists>b ss. om_get (sessions w') j = Some b \<and> heap_et w' b = Some ss \<and> idle ss \<and> ss_id ss = j \<and>
      ch_fd (connHandler ss) = g" if g: "om_get (conns w') g = Some j" for g j
  proof (cases "g = fd")
    case True
    then show ?thesis using g assms(5,6,8,9) by (simp add: Session_new_def idle_def)
  next
    case False
    with g assms(9) have "om_get (conns w) g = Some j" by simp
    from et_wf_conn[OF assms(1) this] obtain b ss where b: "om_get (sessions w) j = Some b" "heap_et w b = Some ss"
      "idle ss" "ss_id ss = j" "ch_fd (connHandler ss) = g" by metis
    moreover have "j \<noteq> i" using b(1) none(2) by auto
    ultimately show ?thesis using fresh[OF b(1)] assms(5,8) by simp
  qed
  have c3: "j \<noteq> 0 \<and> (\<exists>ss. heap_et w' b = Some ss \<and> om_get (conns w') (ch_fd (connHandler ss)) = Some j)"
    if j: "om_get (sessions w') j = Some b" for j b
  proof (cases "j = i")
    case True
    then show ?thesis using j assms(4-6,8,9) by (simp add: Session_new_def)
  next
    case False
    with j assms(8) have o: "om_get (sessions w) j = Some b" by simp
    then obtain ss where "j \<noteq> 0" "heap_et w b = Some ss" "om_get (conns w) (ch_fd (connHandler ss)) = Some j"
      using assms(1) unfolding et_wf_def by metis
    moreover then have "ch_fd (connHandler ss) \<noteq> fd" using none(1) by auto
    ultimately show ?thesis using fresh[OF o] assms(5,9) by simp
  qed
  have "\<forall>b. next_et w' \<le> b \<longrightarrow> heap_et w' b = None" using assms(1,5,7) unfolding et_wf_def by simp
  then show ?thesis using c1 c2 c3 unfolding et_wf_def by blast
qed

lemma ProcessNewConnection_et_keeps:
  assumes "et_wf w" "ProcessNewConnection_et w = (Val (), w')" "nextConnId_et w + 1 \<noteq> 0"
  shows "et_wf w' \<and> nextConnId_et w' = nextConnId_et w + 1"
proof -
  obtain fd ip port w1 where acc: "Accept_et w = (Val (fd, ip, port), w1)"
    and rest: "bnd (gets (\<lambda>w. om_has (conns w) fd)) (\<lambda>b.
     if b then throw (RuntimeError ''Server::ProcessNewConnection(), fd exist'')
     else
       sq (modify (\<lambda>w. w\<lparr>nextConnId_et := nextConnId_et w + 1\<rparr>))
      (sq (SetNonBlocking_et fd)
      (sq (Add_et fd (EPOLLIN OR EPOLLOUT OR EPOLLET))
      (bnd (gets nextConnId_et) (\<lambda>i.
       sq (SessionManager_NewConnection i \<lparr>ch_fd = fd, ch_ip = ip, ch_port = port, isEof = False\<rparr>)
          (modify (\<lambda>w. w\<lparr>conns := om_put fd (nextConnId_et w) (conns w)\<rparr>))))))) w1 = (Val (), w')"
    using assms(2) unfolding ProcessNewConnection_et_def by (elim bnd_ValE) auto
  obtain as where w1: "w1 = w\<lparr>r_accept := as\<rparr>"
    using acc by (auto simp: Accept_et_def fail_et_def bnd_def cpp_run split: list.splits accept_ans.splits sum.splits)
  let ?i = "nextConnId_et w + 1"
  let ?ch = "\<lparr>ch_fd = fd, ch_ip = ip, ch_port = port, isEof = False\<rparr>"
  have nh: "\<not> om_has (conns w1) fd" using rest by (auto simp: bnd_def cpp_run split: if_splits)
  obtain w2 w3 w4 where st: "SetNonBlocking_et fd (w1\<lparr>nextConnId_et := nextConnId_et w1 + 1\<rparr>) = (Val (), w2)"
    "Add_et fd (EPOLLIN OR EPOLLOUT OR EPOLLET) w2 = (Val (), w3)"
    "SessionManager_NewConnection (nextConnId_et w3) ?ch w3 = (Val (), w4)"
    "w' = w4\<lparr>conns := om_put fd (nextConnId_et w4) (conns w4)\<rparr>"
    using rest nh by (auto simp: bnd_def[of "gets _"] cpp_run elim!: sq_ValE)
  obtain k2 t2 where w2: "w2 = w1\<lparr>nextConnId_et := nextConnId_et w1 + 1, r_sys := k2, r_trace := t2\<rparr>"
    using st(1) by (auto simp: SetNonBlocking_et_def sys_et_def bnd_def cpp_run Let_def split: list.splits)
  obtain k3 t3 where w3: "w3 = w2\<lparr>r_sys := k3, r_trace := t3\<rparr>"
    using ok_or_throw_Val[OF st(2)[unfolded Add_et_def]] by blast
  have e: "conns w3 = conns w" "sessions w3 = sessions w" "heap_et w3 = heap_et w" "next_et w3 = next_et w" "nextConnId_et w3 = ?i"
    by (simp_all add: w3 w2 w1)
  have w4: "\<not> om_has (sessions w3) ?i" "heap_et w4 = (heap_et w3)(next_et w3 \<mapsto> Session_new ?i ?ch)"
    "next_et w4 = next_et w3 + 1" "sessions w4 = om_put ?i (next_et w3) (sessions w3)" "conns w4 = conns w3"
    "nextConnId_et w4 = nextConnId_et w3"
    using st(3) e(5) by (auto simp: SessionManager_NewConnection_def sq_def bnd_def cpp_run split: if_splits)
  have "et_wf w'"
    using nh w4 assms(3) st(4) e by (intro et_wf_new[OF assms(1), of fd ?i w' ?ch]) (simp_all add: w1)
  then show ?thesis using st(4) w4(6) e(5) by simp
qed

text \<open>
  C15. The descriptor map and the session map stay in agreement. Whatever events a round of the loop processes, new
  connections included, when it returns (every exception ends the program) each descriptor the server
  knows belongs to exactly one open, idle session and each session to one descriptor, as long as the
  64-bit connection counter does not wrap.
\<close>

theorem session_maps_agree:
  assumes "et_wf w" "unat (nextConnId_et w) + n < 2 ^ 64" "ProcessEvents_et i n w = (Val (), w')"
  shows "et_wf w'"
  using assms
proof (induction n arbitrary: i w)
  case 0
  then show ?case by (simp add: cpp_run)
next
  case (Suc n)
  obtain w1 where w1: "bnd (GetFd_et i) (\<lambda>fd. bnd (gets listenFd_et) (\<lambda>l.
           if fd = l then ProcessNewConnection_et
           else bnd (GetFd_et i) (\<lambda>fd. bnd (GetEvent_et i) (ProcessEvent_et fd)))) w = (Val (), w1)"
    "ProcessEvents_et (Suc i) n w1 = (Val (), w')"
    using Suc.prems(3) unfolding ProcessEvents_et.simps by (rule sq_ValE)
  from w1(1) have "ProcessNewConnection_et w = (Val (), w1) \<or> (\<exists>fd ev. ProcessEvent_et fd ev w = (Val (), w1))"
    by (auto simp: bnd_def GetFd_et_def GetEvent_et_def cpp_run split: if_splits)
  moreover have nz: "nextConnId_et w + 1 \<noteq> 0" and un: "unat (nextConnId_et w + 1) = unat (nextConnId_et w) + 1"
    using Suc.prems(2) by (auto simp: unat_word_ariths unat_eq_0[symmetric])
  ultimately have "et_wf w1 \<and> unat (nextConnId_et w1) + n < 2 ^ 64"
    using ProcessNewConnection_et_keeps[OF Suc.prems(1) _ nz] ProcessEvent_et_keeps[OF Suc.prems(1)] Suc.prems(2) un
    by fastforce
  then show ?case using Suc.IH w1(2) by blast
qed

lemma some_et_wf: "et_wf (some_et\<lparr>r_read := x, r_write := y, r_sys := z, events_et := e\<rparr>)"
  by (auto simp: et_wf_def some_et_def om_wf_def om_get_def Session_new_def idle_def split: if_splits)

text \<open>A readable event on descriptor 7.\<close>

definition readable_et :: et where
  "readable_et = some_et\<lparr>r_read := [ReadErr EAGAIN], r_write := [], r_sys := [], events_et := [(7, EPOLLIN)]\<rparr>"

lemma session_maps_agree_witness: "\<exists>w'. ProcessEvents_et 0 1 readable_et = (Val (), w') \<and> et_wf w'"
proof -
  have "SessionManager_CanRead 1 readable_et = (Val (), snd (SessionManager_CanRead 1 readable_et))"
    using CanRead_et_run[of readable_et 1 0 "Session_new 1 \<lparr>ch_fd = 7, ch_ip = ''10.0.0.1'', ch_port = 4000, isEof = False\<rparr>" "[]" False "[]"]
    by (simp add: readable_et_def some_et_def om_get_def Session_new_def idle_def)
  moreover have "bnd (conns_at 7) SessionManager_CanRead readable_et = SessionManager_CanRead 1 readable_et"
    by (rule bnd_conns_at) (simp add: readable_et_def some_et_def om_get_def)
  ultimately have "ProcessEvent_et 7 EPOLLIN readable_et = (Val (), snd (SessionManager_CanRead 1 readable_et))"
    by (simp add: ProcessEvent_et_def bnd_def[of "gets _"] cpp_run readable_et_def some_et_def om_has_def om_get_def
        EPOLLIN_def EPOLLOUT_def EPOLLERR_def)
  then have run: "ProcessEvents_et 0 1 readable_et = (Val (), snd (SessionManager_CanRead 1 readable_et))"
    by (simp add: cpp_run GetFd_et_def GetEvent_et_def bnd_def readable_et_def some_et_def sq_def)
  have "et_wf readable_et" unfolding readable_et_def by (rule some_et_wf)
  from session_maps_agree[OF this _ run] run show ?thesis by (simp add: readable_et_def some_et_def)
qed

section \<open>Shutdown\<close>

lemma TimeToExit_et_run:
  assumes "et_wf w" "conns w = (fd, i) # m" "r_sys w = SysOk u # SysOk v # ks"
  shows "\<exists>w1. SessionManager_TimeToExit i w = (Val (), w1) \<and> et_wf w1 \<and> conns w1 = m \<and> r_sys w1 = ks \<and>
    r_trace w1 = r_trace w @ [SysCtlDel fd, SysClose fd] \<and> listenFd_et w1 = listenFd_et w"
proof -
  have get: "om_get (conns w) fd = Some i" using assms(2) by (simp add: om_get_def)
  obtain a ss where a: "om_get (sessions w) i = Some a" "heap_et w a = Some ss" "idle ss" "ss_id ss = i"
    "ch_fd (connHandler ss) = fd" using et_wf_conn[OF assms(1) get] .
  obtain w1 where w1: "SessionManager_TimeToExit i w = (Val (), w1)" "r_sys w1 = ks"
    "r_trace w1 = r_trace w @ [SysCtlDel fd, SysClose fd]" "listenFd_et w1 = listenFd_et w"
    using a assms(3)
    by (simp add: SessionManager_TimeToExit_def bnd_lookup_et[OF a(1,2)] Session_Close_def closeConn_et_def DeleteFd_def
        CloseFd_et_def ReleaseSession_def cpp_run idle_def om_has_def)
  have "om_del fd (conns w) = m"
    using assms(1,2) by (simp add: et_wf_def om_del_hd)
  with closing_Val[OF assms(1) get, of w1] w1 show ?thesis by auto
qed

fun sys_oks :: "nat \<Rightarrow> sys_ans list \<Rightarrow> bool" where
  "sys_oks 0 ks = True"
| "sys_oks (Suc n) (SysOk v # ks) = sys_oks n ks"
| "sys_oks (Suc n) _ = False"

lemma sys_oks_Suc: "sys_oks (Suc n) ks \<Longrightarrow> \<exists>v ks'. ks = SysOk v # ks' \<and> sys_oks n ks'"
  by (cases ks; cases "hd ks") auto

lemma Release_loop_run:
  assumes "et_wf w" "sys_oks (2 * length (conns w) + n) (r_sys w)" "length (conns w) < k"
  shows "\<exists>w'. Release_loop k w = (Val (), w') \<and> et_wf w' \<and> conns w' = [] \<and> sys_oks n (r_sys w') \<and>
    r_trace w' = r_trace w @ concat (map (\<lambda>(fd, i). [SysCtlDel fd, SysClose fd]) (conns w)) \<and> listenFd_et w' = listenFd_et w"
  using assms
proof (induction "conns w" arbitrary: w k)
  case Nil
  then show ?case by (cases k) (simp_all split: list.splits)
next
  case (Cons p m)
  obtain fd i where p: "p = (fd, i)" by fastforce
  obtain k' where k: "k = Suc k'" using Cons.prems(3) by (cases k) auto
  obtain u v ks where ks: "r_sys w = SysOk u # SysOk v # ks" "sys_oks (2 * length m + n) ks"
    using Cons.prems(2) unfolding Cons.hyps(2)[symmetric] by (auto dest!: sys_oks_Suc)
  obtain w1 where w1: "SessionManager_TimeToExit i w = (Val (), w1)" "et_wf w1" "conns w1 = m" "r_sys w1 = ks"
    "r_trace w1 = r_trace w @ [SysCtlDel fd, SysClose fd]" "listenFd_et w1 = listenFd_et w"
    using TimeToExit_et_run[OF Cons.prems(1), of fd i m u v ks] Cons.hyps(2) ks(1) p by auto
  have "length (conns w1) < k'" using Cons.prems(3) k w1(3) unfolding Cons.hyps(2)[symmetric] by simp
  from Cons.hyps(1)[OF w1(3)[symmetric] w1(2) _ this] ks(2) w1(3,4) obtain w' where
    w': "Release_loop k' w1 = (Val (), w')" "et_wf w'" "conns w' = []" "sys_oks n (r_sys w')"
    "r_trace w' = r_trace w1 @ concat (map (\<lambda>(fd, i). [SysCtlDel fd, SysClose fd]) m)" "listenFd_et w' = listenFd_et w1"
    by auto
  show ?case
    using w' w1 unfolding k Cons.hyps(2)[symmetric] p by (simp add: Cons.hyps(2)[symmetric] p cpp_run)
qed

text \<open>
  C16. Shutdown ends and closes everything. From a state in which the two maps agree, and when the kernel answers
  without errors, the loop of \<open>Server::Release\<close> runs once per connection and stops; each connection is
  removed from epoll and closed, in descriptor order, then the listening socket; no session is left.
\<close>

theorem release_closes_all:
  assumes "et_wf w" "sys_oks (2 * length (conns w) + 2) (r_sys w)" "length (conns w) < k"
  shows "\<exists>w'. Release_et k w = (Val (), w') \<and> conns w' = [] \<and> (\<forall>i. om_get (sessions w') i = None) \<and>
    r_trace w' = r_trace w @ concat (map (\<lambda>(fd, i). [SysCtlDel fd, SysClose fd]) (conns w)) @
                 [SysCtlDel (listenFd_et w), SysClose (listenFd_et w)]"
proof -
  obtain w1 where w1: "Release_loop k w = (Val (), w1)" "et_wf w1" "conns w1 = []" "sys_oks 2 (r_sys w1)"
    "r_trace w1 = r_trace w @ concat (map (\<lambda>(fd, i). [SysCtlDel fd, SysClose fd]) (conns w))" "listenFd_et w1 = listenFd_et w"
    using Release_loop_run[OF assms] by blast
  obtain u v ks where ks: "r_sys w1 = SysOk u # SysOk v # ks"
    using w1(4) by (auto simp: numeral_2_eq_2 dest!: sys_oks_Suc)
  have none: "om_get (sessions w1) i = None" for i
    using w1(2,3) unfolding et_wf_def by (cases "om_get (sessions w1) i") (auto simp: om_get_def)
  show ?thesis
    using w1 ks none by (simp add: Release_et_def DeleteFd_def CloseFd_et_def cpp_run bnd_def[of "gets _"])
qed

lemma release_closes_all_witness:
  "\<exists>w'. Release_et 2 (some_et\<lparr>r_read := [], r_write := [], r_sys := replicate 4 (SysOk 0), events_et := []\<rparr>) = (Val (), w') \<and>
     r_trace w' = [SysCtlDel 7, SysClose 7, SysCtlDel 3, SysClose 3]"
  using release_closes_all[OF some_et_wf[where x = "[]" and y = "[]" and z = "replicate 4 (SysOk 0)" and e = "[]"], of 2]
  by (auto simp: some_et_def numeral_eq_Suc)

section \<open>An error reported together with the end of the connection\<close>

text \<open>
  An event that reports a finished connection writable and in error at once ends the server. The session has
  seen the end of the stream and has nothing left to send, so the writable report closes it and removes
  the descriptor; the error report then looks the descriptor up again, which inserts it with id 0,
  and fails because there is no such session. The exception leaves \<open>Server::Start\<close>.
\<close>

theorem error_with_close_throws:
  assumes "et_wf w" "om_get (conns w) fd = Some i" "om_get (sessions w) i = Some a" "heap_et w a = Some ss"
    and "isEof (connHandler ss)" "ss_output ss = []" "r_sys w = SysOk u # SysOk v # ks"
  shows "\<exists>w'. ProcessEvent_et fd (EPOLLOUT OR EPOLLERR) w =
    (Throw (RuntimeError ''SessionManager::VerifySessionExist()''), w') \<and> om_get (conns w') fd = Some 0"
proof -
  have ss: "idle ss" "ss_id ss = i" "ch_fd (connHandler ss) = fd"
    using et_wf_conn[OF assms(1,2)] assms(3,4) by (metis option.inject)+
  obtain w1 where w1: "SessionManager_CanWrite i w = (Val (), w1)" "om_get (conns w1) fd = None"
    using assms(3-7) ss
    by (simp add: SessionManager_CanWrite_def bnd_lookup_et[OF assms(3,4)] Session_Write_def ConnHandler_Write_def
        Session_Close_def closeConn_et_def DeleteFd_def CloseFd_et_def ReleaseSession_def cpp_run idle_def om_has_def)
  have "et_wf w1" using conns_kept(2)[OF assms(1,2) w1(1)] by simp
  note err = error_after_close[OF this w1(2)]
  have bits: "(EPOLLOUT OR EPOLLERR) AND EPOLLIN = 0" "(EPOLLOUT OR EPOLLERR) AND EPOLLOUT \<noteq> 0"
    "(EPOLLOUT OR EPOLLERR) AND EPOLLERR \<noteq> 0"
    by (simp_all add: EPOLLIN_def EPOLLOUT_def EPOLLERR_def)
  have "bnd (conns_at fd) SessionManager_CanWrite w = (Val (), w1)"
    using bnd_conns_at(1)[OF assms(2), of SessionManager_CanWrite] w1(1) by simp
  then show ?thesis
    using bits err assms(2)
    by (simp add: ProcessEvent_et_def bnd_def[of "gets _"] gets_run om_has_def sq_whenb sq_run whenb_run)
qed

lemma error_with_close_throws_witness:
  "\<exists>w'. ProcessEvent_et 7 (EPOLLOUT OR EPOLLERR) (some_et\<lparr>r_sys := [SysOk 0, SysOk 0],
      heap_et := [0 \<mapsto> Session_new 1 \<lparr>ch_fd = 7, ch_ip = ''10.0.0.1'', ch_port = 4000, isEof = True\<rparr>]\<rparr>) =
    (Throw (RuntimeError ''SessionManager::VerifySessionExist()''), w')"
proof -
  let ?ss = "Session_new 1 \<lparr>ch_fd = 7, ch_ip = ''10.0.0.1'', ch_port = 4000, isEof = True\<rparr>"
  let ?w = "some_et\<lparr>r_sys := [SysOk 0, SysOk 0], heap_et := [0 \<mapsto> ?ss]\<rparr>"
  have "et_wf ?w"
    by (auto simp: et_wf_def some_et_def om_wf_def om_get_def Session_new_def idle_def split: if_splits)
  from error_with_close_throws[OF this, of 7 1 0 ?ss 0 0 "[]"] show ?thesis
    by (auto simp: some_et_def om_get_def Session_new_def)
qed

end
