(* ===== verification/Poll_Client.thy ===== *)
theory Poll_Client
  imports Http_Utils
begin

text \<open>
  \<open>linux_programming/socket/client/use_poll/main.cpp\<close>: the client of the edge-triggered echo server. It sends
  what is typed, without the line ends, and prints what comes back. The names end in \<open>_pc\<close>.
\<close>

section \<open>State\<close>

datatype poll_pc = PollErr_pc int | PollTimeout_pc | PollReady_pc u16 u16

datatype call_pc = Socket_pc | Connect_call_pc int u16 | Write_call_pc int string

text \<open>
  The scripts of the kernel, standard output, the calls made, and the bytes that \<open>write\<close> has accepted.
\<close>

record pcl =
  strerror_pc :: "int \<Rightarrow> string"
  k_stdin :: "read_ans list"
  k_sock :: "read_ans list"
  k_write_pc :: "write_ans list"
  k_sys_pc :: "sys_ans list"
  k_pton :: bool
  k_poll :: "poll_pc list"
  cout_pc :: string
  calls_pc :: "call_pc list"
  sent_pc :: string

definition POLLIN_pc :: u16 where "POLLIN_pc = 1"
definition POLLOUT_pc :: u16 where "POLLOUT_pc = 4"

definition print_pc :: "string \<Rightarrow> (pcl, unit) cpp" where
  "print_pc t = modify (\<lambda>w. w\<lparr>cout_pc := cout_pc w @ t @ newline\<rparr>)"

definition fail_pc :: "string \<Rightarrow> int \<Rightarrow> (pcl, 'a) cpp" where
  "fail_pc info code = bnd (gets strerror_pc) (\<lambda>se. throw (RuntimeError (GetErrorMsg se info code)))"

definition sys_pc :: "call_pc \<Rightarrow> (pcl, sys_ans) cpp" where
  "sys_pc c = (\<lambda>w. case k_sys_pc w of
       [] \<Rightarrow> (Pending, w\<lparr>calls_pc := calls_pc w @ [c]\<rparr>)
     | a # as \<Rightarrow> (Val a, w\<lparr>calls_pc := calls_pc w @ [c], k_sys_pc := as\<rparr>))"

section \<open>Operations\<close>

definition BUF_SIZE_pc :: nat where "BUF_SIZE_pc = 512"

text \<open>\<open>Read\<close>, on standard input or on the socket. The buffer has one byte more than \<open>read\<close> may fill.\<close>

definition read_ans_pc :: "read_ans \<Rightarrow> (pcl, string) cpp" where
  "read_ans_pc a = (case a of
       ReadErr code \<Rightarrow> fail_pc ''Read() failed'' code
     | ReadOk bs \<Rightarrow> (case c_str (buffer_after (BUF_SIZE_pc + 1) bs) of None \<Rightarrow> undef ''buf'' | Some s \<Rightarrow> ret s))"

definition Read_stdin_pc :: "(pcl, string) cpp" where
  "Read_stdin_pc = (\<lambda>w. case k_stdin w of [] \<Rightarrow> (Pending, w) | a # as \<Rightarrow> read_ans_pc a (w\<lparr>k_stdin := as\<rparr>))"

definition Read_sock_pc :: "(pcl, string) cpp" where
  "Read_sock_pc = (\<lambda>w. case k_sock w of [] \<Rightarrow> (Pending, w) | a # as \<Rightarrow> read_ans_pc a (w\<lparr>k_sock := as\<rparr>))"

text \<open>\<open>Write\<close>: one call of \<open>write\<close>; the rest is returned. (\<open>substr\<close> throws when its start is beyond the end.)\<close>

definition Write_pc :: "int \<Rightarrow> string \<Rightarrow> (pcl, string) cpp" where
  "Write_pc fd s = (\<lambda>w.
     let w' = w\<lparr>calls_pc := calls_pc w @ [Write_call_pc fd s]\<rparr> in
     case k_write_pc w of
       [] \<Rightarrow> (Pending, w')
     | WriteErr code # as \<Rightarrow> fail_pc ''Read() failed'' code (w'\<lparr>k_write_pc := as\<rparr>)
     | WriteOk n # as \<Rightarrow>
         if n \<le> length s then (Val (substr n (length s - n) s), w'\<lparr>k_write_pc := as, sent_pc := sent_pc w @ take n s\<rparr>)
         else (Throw (StdOutOfRange ''basic_string::substr''), w'\<lparr>k_write_pc := as\<rparr>))"

definition Connect_pc :: "u16 \<Rightarrow> (pcl, int) cpp" where
  "Connect_pc port =
     bnd (sys_pc Socket_pc) (\<lambda>r. case r of
       SysErr code \<Rightarrow> fail_pc ''Connect() failed, socket'' code
     | SysOk fd \<Rightarrow>
         bnd (gets k_pton) (\<lambda>ok.
           if \<not> ok then throw (RuntimeError ''Connect() failed, inet_pton'')
           else bnd (sys_pc (Connect_call_pc fd (htons port))) (\<lambda>r. case r of
             SysErr code \<Rightarrow> fail_pc ''Connect() failed, connect'' code
           | SysOk _ \<Rightarrow> ret fd)))"

text \<open>The local variables of \<open>Run\<close>: the text to be sent and the events asked for on the socket.\<close>

record local_pc =
  r_pc :: string
  events_pc :: u16

definition typed_pc :: "u16 \<Rightarrow> local_pc \<Rightarrow> (pcl, local_pc) cpp" where
  "typed_pc revents0 l =
     (if revents0 \<noteq> 0 then
        bnd Read_stdin_pc (\<lambda>s.
          let r = filter (\<lambda>c. c \<noteq> CHR 0x0A) (r_pc l @ s) in
          ret (l\<lparr>r_pc := r, events_pc := (if length r > 0 then events_pc l OR POLLOUT_pc else events_pc l)\<rparr>))
      else ret l)"

text \<open>\<open>False\<close> is the \<open>break\<close> out of the loop.\<close>

definition received_pc :: "u16 \<Rightarrow> (pcl, bool) cpp" where
  "received_pc revents1 =
     (if revents1 AND POLLIN_pc \<noteq> 0 then
        bnd Read_sock_pc (\<lambda>s.
          if length s = 0 then sq (print_pc ''peer closed'') (ret False)
          else sq (print_pc (''>'' @ s)) (ret True))
      else ret True)"

definition flush_pc :: "int \<Rightarrow> u16 \<Rightarrow> local_pc \<Rightarrow> (pcl, local_pc) cpp" where
  "flush_pc fd revents1 l =
     (if revents1 AND POLLOUT_pc \<noteq> 0 then
        bnd (Write_pc fd (r_pc l)) (\<lambda>r.
        sq (print_pc (''<'' @ substr 0 (length (r_pc l) - length r) (r_pc l)))
           (ret (l\<lparr>r_pc := r, events_pc := (if length r = 0 then events_pc l AND NOT POLLOUT_pc else events_pc l)\<rparr>)))
      else ret l)"

definition round_pc :: "int \<Rightarrow> local_pc \<Rightarrow> (pcl, local_pc option) cpp" where
  "round_pc fd l = (\<lambda>w. case k_poll w of
       [] \<Rightarrow> (Pending, w)
     | p # ps \<Rightarrow>
         (case p of
            PollErr_pc code \<Rightarrow> fail_pc ''poll failed'' code
          | PollTimeout_pc \<Rightarrow> ret (Some l)
          | PollReady_pc r0 r1 \<Rightarrow>
              bnd (typed_pc r0 l) (\<lambda>l.
              bnd (received_pc r1) (\<lambda>go.
                if go then bnd (flush_pc fd r1 l) (\<lambda>l. ret (Some l)) else ret None)))
         (w\<lparr>k_poll := ps\<rparr>))"

text \<open>The loop, for at most \<open>n\<close> passes.\<close>

fun rounds_pc :: "nat \<Rightarrow> int \<Rightarrow> local_pc \<Rightarrow> (pcl, local_pc option) cpp" where
  "rounds_pc 0 fd l = ret (Some l)"
| "rounds_pc (Suc n) fd l = bnd (round_pc fd l) (\<lambda>lo. case lo of None \<Rightarrow> ret None | Some l \<Rightarrow> rounds_pc n fd l)"

definition Run_pc :: "nat \<Rightarrow> (pcl, local_pc option) cpp" where
  "Run_pc n = bnd (Connect_pc 5666) (\<lambda>fd. rounds_pc n fd \<lparr>r_pc = [], events_pc = POLLIN_pc\<rparr>)"

definition main_pc :: "nat \<Rightarrow> (pcl, int) cpp" where
  "main_pc n = sq (try_catch (bnd (Run_pc n) (\<lambda>_. skip))
     (\<lambda>e. print_pc (''exception: '' @ (case e of RuntimeError m \<Rightarrow> m | InvalidArgument m \<Rightarrow> m | StdOutOfRange m \<Rightarrow> m)))) (ret 0)"

section \<open>What is typed is sent\<close>

text \<open>The text that answers of \<open>read\<close> on standard input stand for: up to a zero byte, without line ends.\<close>

fun typed_of :: "read_ans list \<Rightarrow> string" where
  "typed_of [] = []"
| "typed_of (ReadOk bs # as) = filter (\<lambda>c. c \<noteq> CHR 0x0A) (takeWhile (\<lambda>c. c \<noteq> CHR 0x00) bs) @ typed_of as"
| "typed_of (ReadErr e # as) = typed_of as"

text \<open>The documented behaviour of \<open>read\<close>: it delivers at most as many bytes as it was asked for.\<close>

definition fits_pc :: "read_ans list \<Rightarrow> bool" where
  "fits_pc as \<longleftrightarrow> (\<forall>bs. ReadOk bs \<in> set as \<longrightarrow> length bs \<le> BUF_SIZE_pc)"

lemma typed_of_append: "typed_of (as @ bs) = typed_of as @ typed_of bs"
  by (induction as rule: typed_of.induct) simp_all

lemma fits_pc_append [simp]: "fits_pc (as @ bs) \<longleftrightarrow> fits_pc as \<and> fits_pc bs"
  by (auto simp: fits_pc_def)

lemma Read_stdin_pc_Val:
  assumes "Read_stdin_pc w = (Val s, w')" "fits_pc (k_stdin w)"
  shows "\<exists>bs as. k_stdin w = ReadOk bs # as \<and> s = takeWhile (\<lambda>c. c \<noteq> CHR 0x00) bs \<and> w' = w\<lparr>k_stdin := as\<rparr>"
proof (cases "k_stdin w")
  case (Cons a as)
  with assms show ?thesis
    by (cases a) (auto simp: Read_stdin_pc_def read_ans_pc_def fail_pc_def fits_pc_def cpp_eval c_str_buffer_zero)
qed (use assms in \<open>simp add: Read_stdin_pc_def\<close>)

lemma read_ans_keeps: "keeps (\<lambda>w. k_stdin w = as \<and> sent_pc w = t) (read_ans_pc a)"
  by (auto simp: keeps_def read_ans_pc_def fail_pc_def cpp_eval split: read_ans.split option.split)

lemma received_keeps: "keeps (\<lambda>w. k_stdin w = as \<and> sent_pc w = t) (received_pc r)"
proof -
  have rd: "keeps (\<lambda>w. k_stdin w = as \<and> sent_pc w = t) Read_sock_pc"
    unfolding Read_sock_pc_def by (rule keepsI) (auto split: list.split intro: keepsD[OF read_ans_keeps, THEN conjunct1]
      keepsD[OF read_ans_keeps, THEN conjunct2])
  show ?thesis unfolding received_pc_def print_pc_def
    by (intro keeps_if keeps_bnd[OF rd] keeps_sq keeps_modify keeps_ret) auto
qed

text \<open>The loop asks for \<open>POLLOUT\<close> exactly when there is something to send, and never sends a line end.\<close>

definition local_ok :: "local_pc \<Rightarrow> bool" where
  "local_ok l \<longleftrightarrow> CHR 0x0A \<notin> set (r_pc l) \<and> (events_pc l AND POLLOUT_pc \<noteq> 0 \<longleftrightarrow> r_pc l \<noteq> [])"

lemma POLLOUT_bits: "(x OR POLLOUT_pc) AND POLLOUT_pc \<noteq> 0" "(x AND NOT POLLOUT_pc) AND POLLOUT_pc = 0"
proof -
  have "(x OR 4) AND 4 = 4" "(x AND NOT 4) AND 4 = 0" for x :: u16
    by (simp_all add: bit.conj_disj_distrib2 and.assoc)
  then show "(x OR POLLOUT_pc) AND POLLOUT_pc \<noteq> 0" "(x AND NOT POLLOUT_pc) AND POLLOUT_pc = 0"
    by (simp_all add: POLLOUT_pc_def)
qed

lemma typed_Val:
  assumes "typed_pc r0 l w = (Val l', w')" "fits_pc (k_stdin w)" "local_ok l"
  shows "\<exists>used. k_stdin w = used @ k_stdin w' \<and> sent_pc w' = sent_pc w \<and> r_pc l' = r_pc l @ typed_of used \<and> local_ok l'"
proof (cases "r0 = 0")
  case True
  with assms show ?thesis by (intro exI[of _ "[]"]) (simp add: typed_pc_def ret_run)
next
  case False
  then obtain s w1 where s: "Read_stdin_pc w = (Val s, w1)"
    and l': "w' = w1" "l' = l\<lparr>r_pc := filter (\<lambda>c. c \<noteq> CHR 0x0A) (r_pc l @ s),
       events_pc := (if filter (\<lambda>c. c \<noteq> CHR 0x0A) (r_pc l @ s) \<noteq> [] then events_pc l OR POLLOUT_pc else events_pc l)\<rparr>"
    using assms(1) by (auto simp: typed_pc_def Let_def ret_run elim!: bnd_ValE)
  from Read_stdin_pc_Val[OF s assms(2)] obtain bs as where rd: "k_stdin w = ReadOk bs # as"
    "s = takeWhile (\<lambda>c. c \<noteq> CHR 0x00) bs" "w1 = w\<lparr>k_stdin := as\<rparr>" by blast
  have nl: "filter (\<lambda>c. c \<noteq> CHR 0x0A) (r_pc l) = r_pc l" using assms(3) by (auto simp: local_ok_def filter_id_conv)
  then have e: "filter (\<lambda>c. c \<noteq> CHR 0x0A) (r_pc l @ s) = r_pc l @ filter (\<lambda>c. c \<noteq> CHR 0x0A) s" by simp
  have "local_ok l'" using assms(3) l'(2)[unfolded e] POLLOUT_bits(1)[of "events_pc l"] by (auto simp: local_ok_def)
  with rd l' nl show ?thesis by (intro exI[of _ "[ReadOk bs]"]) simp
qed

lemma flush_Val:
  assumes "flush_pc fd r1 l w = (Val l', w')" "local_ok l"
  shows "sent_pc w' @ r_pc l' = sent_pc w @ r_pc l \<and> k_stdin w' = k_stdin w \<and> local_ok l'"
proof (cases "r1 AND POLLOUT_pc = 0")
  case True
  with assms show ?thesis by (simp add: flush_pc_def ret_run)
next
  case False
  then obtain r w1 where r: "Write_pc fd (r_pc l) w = (Val r, w1)"
    and l': "sent_pc w' = sent_pc w1" "k_stdin w' = k_stdin w1"
      "l' = l\<lparr>r_pc := r, events_pc := (if r = [] then events_pc l AND NOT POLLOUT_pc else events_pc l)\<rparr>"
    using assms(1) by (auto simp: flush_pc_def print_pc_def sq_eval modify_run ret_run elim!: bnd_ValE)
  from r obtain n where n: "n \<le> length (r_pc l)" "r = drop n (r_pc l)" "sent_pc w1 = sent_pc w @ take n (r_pc l)" "k_stdin w1 = k_stdin w"
    by (auto simp: Write_pc_def fail_pc_def Let_def substr_def cpp_eval split: list.splits write_ans.splits if_splits)
  have "set r \<subseteq> set (r_pc l)" using n(2) by (simp add: set_drop_subset)
  then have "local_ok l'" using assms(2) l'(3) n(2) POLLOUT_bits(2)[of "events_pc l"] by (auto simp: local_ok_def)
  with n l' show ?thesis by simp
qed

lemma round_Val:
  assumes "round_pc fd l w = (Val (Some l'), w')" "fits_pc (k_stdin w)" "local_ok l"
  shows "\<exists>used. k_stdin w = used @ k_stdin w' \<and> sent_pc w' @ r_pc l' = sent_pc w @ r_pc l @ typed_of used \<and> local_ok l'"
proof (cases "k_poll w")
  case (Cons p ps)
  let ?w = "w\<lparr>k_poll := ps\<rparr>"
  show ?thesis
  proof (cases p)
    case (PollReady_pc r0 r1)
    with assms(1) Cons obtain l1 w1 w2 where 1: "typed_pc r0 l ?w = (Val l1, w1)" and 2: "received_pc r1 w1 = (Val True, w2)"
      and 3: "flush_pc fd r1 l1 w2 = (Val l', w')"
      by (auto simp: round_pc_def ret_run elim!: bnd_ValE split: if_splits)
    have f: "fits_pc (k_stdin ?w)" using assms(2) by simp
    from typed_Val[OF 1 f assms(3)] obtain used where u: "k_stdin w = used @ k_stdin w1" "sent_pc w1 = sent_pc w"
      "r_pc l1 = r_pc l @ typed_of used" "local_ok l1" by auto
    have "k_stdin w2 = k_stdin w1 \<and> sent_pc w2 = sent_pc w1"
      using keepsD[OF received_keeps[of "k_stdin w1" "sent_pc w1" r1], of w1] 2 by simp
    with flush_Val[OF 3 u(4)] u show ?thesis by (intro exI[of _ used]) simp
  qed (use assms Cons in \<open>auto simp: round_pc_def fail_pc_def cpp_eval\<close>)
qed (use assms in \<open>simp add: round_pc_def\<close>)

lemma rounds_Val:
  assumes "rounds_pc n fd l w = (Val (Some l'), w')" "fits_pc (k_stdin w)" "local_ok l"
  shows "\<exists>used. k_stdin w = used @ k_stdin w' \<and> sent_pc w' @ r_pc l' = sent_pc w @ r_pc l @ typed_of used \<and> local_ok l'"
  using assms
proof (induction n arbitrary: l w)
  case 0
  then show ?case by (intro exI[of _ "[]"]) (simp add: ret_run)
next
  case (Suc n)
  from Suc.prems(1) obtain l1 w1 where 1: "round_pc fd l w = (Val (Some l1), w1)" and 2: "rounds_pc n fd l1 w1 = (Val (Some l'), w')"
    by (auto simp: ret_run elim!: bnd_ValE split: option.splits)
  from round_Val[OF 1 Suc.prems(2,3)] obtain u1 where u1: "k_stdin w = u1 @ k_stdin w1"
    "sent_pc w1 @ r_pc l1 = sent_pc w @ r_pc l @ typed_of u1" "local_ok l1" by blast
  have "fits_pc (k_stdin w1)" using Suc.prems(2) u1(1) by simp
  from Suc.IH[OF 2 this u1(3)] obtain u2 where "k_stdin w1 = u2 @ k_stdin w'"
    "sent_pc w' @ r_pc l' = sent_pc w1 @ r_pc l1 @ typed_of u2" "local_ok l'" by blast
  with u1 show ?case by (intro exI[of _ "u1 @ u2"]) (simp add: typed_of_append)
qed

lemma keeps_sys_ans:
  "(\<And>x. keeps P (f x)) \<Longrightarrow> (\<And>x. keeps P (g x)) \<Longrightarrow> keeps P (case a of SysErr x \<Rightarrow> f x | SysOk x \<Rightarrow> g x)"
  by (cases a) simp_all

lemma Connect_keeps: "keeps (\<lambda>w. k_stdin w = as \<and> sent_pc w = t) (Connect_pc p)"
proof -
  have sys: "keeps (\<lambda>w. k_stdin w = as \<and> sent_pc w = t) (sys_pc c)" for c
    by (auto simp: keeps_def sys_pc_def split: list.split)
  have fl: "keeps (\<lambda>w. k_stdin w = as \<and> sent_pc w = t) (fail_pc i c)" for i c
    unfolding fail_pc_def by blast
  show ?thesis unfolding Connect_pc_def
    by (intro keeps_bnd[OF sys] keeps_bnd[OF keeps_gets] keeps_sys_ans keeps_if keeps_throw keeps_ret fl)
qed

lemma Run_Val:
  assumes "Run_pc n w = (Val (Some l), w')" "fits_pc (k_stdin w)"
  shows "\<exists>used. k_stdin w = used @ k_stdin w' \<and> sent_pc w' @ r_pc l = sent_pc w @ typed_of used \<and> local_ok l"
proof -
  from assms(1) obtain fd w1 where 1: "Connect_pc 5666 w = (Val fd, w1)"
    and 2: "rounds_pc n fd \<lparr>r_pc = [], events_pc = POLLIN_pc\<rparr> w1 = (Val (Some l), w')"
    unfolding Run_pc_def by (auto elim!: bnd_ValE)
  have c: "k_stdin w1 = k_stdin w \<and> sent_pc w1 = sent_pc w"
    using keepsD[OF Connect_keeps[of "k_stdin w" "sent_pc w"], of w 5666] 1 by simp
  have "local_ok \<lparr>r_pc = [], events_pc = POLLIN_pc\<rparr>" by (simp add: local_ok_def POLLIN_pc_def POLLOUT_pc_def)
  from rounds_Val[OF 2 _ this] c assms(2) show ?thesis by simp
qed

text \<open>
  However many passes the loop of the client has made and whatever its writes accepted: what the kernel has
  taken, followed by what is still to be sent, is exactly the text typed so far without its line ends; and
  the client asks for \<open>POLLOUT\<close> exactly when something is left to send.
\<close>

theorem client_sends_typed:
  assumes "Run_pc n w = (Val (Some l), w')" "fits_pc (k_stdin w)" "sent_pc w = []"
  shows "\<exists>used. k_stdin w = used @ k_stdin w' \<and> sent_pc w' @ r_pc l = typed_of used \<and>
    (events_pc l AND POLLOUT_pc \<noteq> 0 \<longleftrightarrow> r_pc l \<noteq> [])"
  using Run_Val[OF assms(1,2)] assms(3) by (auto simp: local_ok_def)

definition ex_client_pc :: pcl where
  "ex_client_pc = \<lparr>strerror_pc = (\<lambda>_. []), k_stdin = [ReadOk (''ab.c'' @ [CHR 0x0A])], k_sock = [], k_write_pc = [WriteOk 3, WriteOk 1],
     k_sys_pc = [SysOk 5, SysOk 0], k_pton = True, k_poll = [PollReady_pc 1 0, PollReady_pc 0 4, PollReady_pc 0 4],
     cout_pc = [], calls_pc = [], sent_pc = []\<rparr>"

lemma ex_client_run:
  "\<exists>l w'. Run_pc 3 ex_client_pc = (Val (Some l), w') \<and> r_pc l = [] \<and> sent_pc w' = ''ab.c'' \<and> k_stdin w' = []"
  by (simp add: ex_client_pc_def Run_pc_def Connect_pc_def sys_pc_def round_pc_def typed_pc_def received_pc_def flush_pc_def
      Read_stdin_pc_def read_ans_pc_def Write_pc_def print_pc_def substr_def cpp_eval c_str_buffer BUF_SIZE_pc_def
      POLLIN_pc_def POLLOUT_pc_def numeral_3_eq_3 Let_def cong: if_cong)

lemma client_sends_typed_witness:
  "\<exists>l w'. Run_pc 3 ex_client_pc = (Val (Some l), w') \<and> fits_pc (k_stdin ex_client_pc) \<and>
     (\<exists>used. k_stdin ex_client_pc = used @ k_stdin w' \<and> sent_pc w' @ r_pc l = typed_of used)"
proof -
  obtain l w' where run: "Run_pc 3 ex_client_pc = (Val (Some l), w')" using ex_client_run by blast
  have fit: "fits_pc (k_stdin ex_client_pc)" by (simp add: fits_pc_def ex_client_pc_def BUF_SIZE_pc_def)
  have "sent_pc ex_client_pc = []" by (simp add: ex_client_pc_def)
  from client_sends_typed[OF run fit this] run fit show ?thesis by blast
qed

end
