(* ===== verification/Tcp_Tool.thy ===== *)
theory Tcp_Tool
  imports Posix_Io
begin

text \<open>
  \<open>socket/tcp/main.cpp\<close>: a command-line tool that listens, accepts or connects, and then shuttles bytes
  between its standard input and a socket, with \<open>poll\<close> or with \<open>select\<close> (both variants of the source are
  modelled). Names that clash with other programs of the repository end in \<open>_tcp\<close>.
\<close>

section \<open>Configuration\<close>

record config_tcp =
  dstAddr :: string
  dstPort :: int
  srcAddr :: string
  srcPort :: int
  listen_opt :: bool
  accept_opt :: bool
  connect_opt :: bool
  bind_opt :: bool
  read_opt :: bool
  write_opt :: bool

definition Config_tcp_new :: config_tcp where
  "Config_tcp_new = \<lparr>dstAddr = ''127.0.0.1'', dstPort = 10001, srcAddr = ''0.0.0.0'', srcPort = 10000, listen_opt = False,
     accept_opt = False, connect_opt = False, bind_opt = False, read_opt = False, write_opt = False\<rparr>"

text \<open>
  The options are recognised by their first two bytes only: the source compares
  \<open>*(uint16_t*)argv[i]\<close>. An argument of one byte compares its terminator as the second byte; an empty
  argument would be read past its end.
\<close>

definition first_two :: "string \<Rightarrow> string option" where
  "first_two arg = (case arg of [] \<Rightarrow> None | [c] \<Rightarrow> Some [c, CHR 0x00] | c # d # _ \<Rightarrow> Some [c, d])"

fun Config_set_loop :: "string list \<Rightarrow> config_tcp \<Rightarrow> config_tcp outcome" where
  "Config_set_loop [] cfg = Val cfg"
| "Config_set_loop (arg # args) cfg =
     (case first_two arg of
        None \<Rightarrow> Undef ''argument read past its end''
      | Some p \<Rightarrow>
          if p = ''-h'' then Exit 0
          else if p = ''-r'' then Config_set_loop args (cfg\<lparr>read_opt := True\<rparr>)
          else if p = ''-w'' then Config_set_loop args (cfg\<lparr>write_opt := True\<rparr>)
          else if p = ''-l'' then Config_set_loop args (cfg\<lparr>listen_opt := True\<rparr>)
          else if p = ''-a'' then Config_set_loop args (cfg\<lparr>accept_opt := True\<rparr>)
          else if p = ''-b'' then
            (case args of
               a # q # rest \<Rightarrow>
                 (case stoi q of
                    Inl e \<Rightarrow> Throw e
                  | Inr n \<Rightarrow> Config_set_loop rest (cfg\<lparr>srcAddr := a, srcPort := n, bind_opt := True\<rparr>))
             | _ \<Rightarrow> Throw (RuntimeError ''parameter error''))
          else if p = ''-c'' then
            (case args of
               a # q # rest \<Rightarrow>
                 (case stoi q of
                    Inl e \<Rightarrow> Throw e
                  | Inr n \<Rightarrow> Config_set_loop rest (cfg\<lparr>dstAddr := a, dstPort := n, connect_opt := True\<rparr>))
             | _ \<Rightarrow> Throw (RuntimeError ''parameter error''))
          else Throw (RuntimeError ''parameter error''))"

definition Config_set :: "string list \<Rightarrow> config_tcp \<Rightarrow> config_tcp outcome" where
  "Config_set args cfg =
     (case Config_set_loop args cfg of
        Val c \<Rightarrow> if accept_opt c \<and> connect_opt c then Throw (RuntimeError ''parameter conflict'') else Val c
      | r \<Rightarrow> r)"

section \<open>System calls\<close>

datatype call_tcp =
    TSocket | TSignal | TGetFl int | TSetFl int int | TSockopt int int | TBind int u16 | TListen int int
  | TConnect int u16 | TAccept int | TShutdown int int | TRead int | TWrite int string

datatype poll_ans = PollErr int | PollOk u16 u16
datatype select_ans = SelectErr int | SelectOk "int set" "int set"

record tcp =
  strerror_tcp :: "int \<Rightarrow> string"
  aton :: "string \<Rightarrow> bool"
  errno_tcp :: int
  t_sys :: "sys_ans list"
  t_sock :: "read_ans list"
  t_stdin :: "read_ans list"
  t_write :: "write_ans list"
  t_poll :: "poll_ans list"
  t_select :: "select_ans list"
  t_cin :: "string list"
  t_out :: string
  t_trace :: "call_tcp list"

definition print :: "string \<Rightarrow> (tcp, unit) cpp" where
  "print s = modify (\<lambda>w. w\<lparr>t_out := t_out w @ s\<rparr>)"

definition ERROR_MESSAGE :: "string \<Rightarrow> int \<Rightarrow> (tcp, 'a) cpp" where
  "ERROR_MESSAGE fn code = bnd (gets strerror_tcp) (\<lambda>se. throw (RuntimeError (fn @ '', '' @ se code)))"

definition sys_tcp :: "call_tcp \<Rightarrow> (tcp, sys_ans) cpp" where
  "sys_tcp c = (\<lambda>w. case t_sys w of
       [] \<Rightarrow> (Pending, w)
     | a # as \<Rightarrow> (Val a, w\<lparr>t_sys := as, t_trace := t_trace w @ [c]\<rparr>))"

text \<open>
  \<open>inet_aton\<close> does not set \<open>errno\<close>: the message of a malformed address shows whatever \<open>errno\<close> holds
  (\<open>errno_tcp\<close>).
\<close>

text \<open>The common shape of the wrappers: throw when the call answers -1.\<close>

definition wrap :: "string \<Rightarrow> call_tcp \<Rightarrow> (tcp, int) cpp" where
  "wrap fn c = bnd (sys_tcp c) (\<lambda>a. case a of SysOk v \<Rightarrow> ret v | SysErr code \<Rightarrow> ERROR_MESSAGE fn code)"

definition Signal_tcp :: "(tcp, unit) cpp" where
  "Signal_tcp = bnd (wrap ''Signal'' TSignal) (\<lambda>_. skip)"

definition Fcntl_get :: "int \<Rightarrow> (tcp, int) cpp" where
  "Fcntl_get fd = wrap ''Fcntl'' (TGetFl fd)"

definition Fcntl_set :: "int \<Rightarrow> int \<Rightarrow> (tcp, int) cpp" where
  "Fcntl_set fd flags = wrap ''Fcntl'' (TSetFl fd flags)"

definition SetNonBlocking_tcp :: "int \<Rightarrow> (tcp, unit) cpp" where
  "SetNonBlocking_tcp fd = bnd (Fcntl_get fd) (\<lambda>flags. bnd (Fcntl_set fd (flags OR O_NONBLOCK)) (\<lambda>_. skip))"

definition SetBlocking_tcp :: "int \<Rightarrow> (tcp, unit) cpp" where
  "SetBlocking_tcp fd = bnd (Fcntl_get fd) (\<lambda>flags. bnd (Fcntl_set fd (flags AND NOT O_NONBLOCK)) (\<lambda>_. skip))"

text \<open>The two buffer sizes are set without looking at the result.\<close>

definition SetSocketBufferSize :: "int \<Rightarrow> int \<Rightarrow> (tcp, unit) cpp" where
  "SetSocketBufferSize fd n = bnd (sys_tcp (TSockopt fd n)) (\<lambda>_. skip)"

definition Socket_tcp :: "(tcp, int) cpp" where
  "Socket_tcp = wrap ''Socket'' TSocket"

definition Bind_tcp :: "int \<Rightarrow> string \<Rightarrow> int \<Rightarrow> (tcp, unit) cpp" where
  "Bind_tcp fd addr port =
     bnd (gets (\<lambda>w. aton w addr)) (\<lambda>ok.
       if \<not> ok then bnd (gets errno_tcp) (ERROR_MESSAGE ''Bind'')
       else bnd (wrap ''Bind'' (TBind fd (htons (word_of_int port)))) (\<lambda>_. skip))"

definition Connect_tcp :: "int \<Rightarrow> string \<Rightarrow> int \<Rightarrow> (tcp, unit) cpp" where
  "Connect_tcp fd addr port =
     bnd (gets (\<lambda>w. aton w addr)) (\<lambda>ok.
       if \<not> ok then bnd (gets errno_tcp) (ERROR_MESSAGE ''Connect'')
       else bnd (wrap ''Connect'' (TConnect fd (htons (word_of_int port)))) (\<lambda>_. skip))"

text \<open>\<open>listen\<close> answers 0 or -1; the source compares the answer with 1.\<close>

definition Listen_tcp :: "int \<Rightarrow> (tcp, unit) cpp" where
  "Listen_tcp fd =
     bnd (sys_tcp (TListen fd 50)) (\<lambda>a.
       let r = (case a of SysOk v \<Rightarrow> v | SysErr _ \<Rightarrow> - 1);
           errno = (case a of SysOk _ \<Rightarrow> 0 | SysErr code \<Rightarrow> code)
       in if r = 1 then ERROR_MESSAGE ''Listen'' errno else skip)"

definition Accept_tcp :: "int \<Rightarrow> (tcp, int) cpp" where
  "Accept_tcp fd = wrap ''Accept'' (TAccept fd)"

definition Shutdown_tcp :: "int \<Rightarrow> int \<Rightarrow> (tcp, unit) cpp" where
  "Shutdown_tcp fd how = bnd (wrap ''Shutdown'' (TShutdown fd how)) (\<lambda>_. skip)"

definition ShutdownRead :: "int \<Rightarrow> (tcp, unit) cpp" where
  "ShutdownRead fd = sq (print (''SHUT_RD'' @ newline)) (Shutdown_tcp fd 0)"

definition ShutdownWrite :: "int \<Rightarrow> (tcp, unit) cpp" where
  "ShutdownWrite fd = sq (print (''SHUT_WR'' @ newline)) (Shutdown_tcp fd 1)"

definition ShutdownBoth :: "int \<Rightarrow> (tcp, unit) cpp" where
  "ShutdownBoth fd = sq (print (''SHUT_RDWR'' @ newline)) (Shutdown_tcp fd 2)"

section \<open>Reading and writing\<close>

text \<open>
  One buffer of 1001 bytes serves all reads: the bytes are stored at its front and a zero is put behind
  them; what is left from an earlier, longer read stays behind that zero.
\<close>

fun Read_tcp_loop ::
  "(int \<Rightarrow> string) \<Rightarrow> string \<Rightarrow> string \<Rightarrow> read_ans list \<Rightarrow> (string \<times> bool) outcome \<times> read_ans list" where
  "Read_tcp_loop se buf s [] = (Pending, [])"
| "Read_tcp_loop se buf s (ReadErr code # as) =
     (if code = EAGAIN then (Val (s, False), as)
      else (Throw (RuntimeError (''Read'' @ '', '' @ se code)), as))"
| "Read_tcp_loop se buf s (ReadOk bs # as) =
     (if 0 < length bs then
        (if length buf \<le> length bs then (Undef ''write past the end of buf'', as)
         else
           let buf' = bs @ CHR 0x00 # drop (length bs + 1) buf in
           case c_str buf' of
             None \<Rightarrow> (Undef ''read past the end of buf'', as)
           | Some t \<Rightarrow> Read_tcp_loop se buf' (s @ t) as)
      else (Val (s, True), as))"

definition zero_buf :: string where
  "zero_buf = replicate 1001 (CHR 0x00)"

definition Read_sock :: "int \<Rightarrow> (tcp, string \<times> bool) cpp" where
  "Read_sock fd = (\<lambda>w.
     case Read_tcp_loop (strerror_tcp w) zero_buf [] (t_sock w) of
       (oc, as) \<Rightarrow> (oc, w\<lparr>t_sock := as, t_trace := t_trace w @ [TRead fd]\<rparr>))"

definition Read_stdin :: "(tcp, string) cpp" where
  "Read_stdin = (\<lambda>w.
     case Read_tcp_loop (strerror_tcp w) zero_buf [] (t_stdin w) of
       (oc, as) \<Rightarrow>
         let w' = w\<lparr>t_stdin := as, t_trace := t_trace w @ [TRead 0]\<rparr> in
         case oc of
           Val (s, _) \<Rightarrow> (Val s, w')
         | Throw e \<Rightarrow> (Throw e, w') | Undef u \<Rightarrow> (Undef u, w') | Exit n \<Rightarrow> (Exit n, w') | Pending \<Rightarrow> (Pending, w'))"

fun Write_tcp_loop ::
  "(int \<Rightarrow> string) \<Rightarrow> string \<Rightarrow> write_ans list \<Rightarrow> string outcome \<times> write_ans list" where
  "Write_tcp_loop se [] as = (Val [], as)"
| "Write_tcp_loop se (c # cs) [] = (Pending, [])"
| "Write_tcp_loop se (c # cs) (WriteErr code # as) =
     (if code = EAGAIN then (Val (c # cs), as)
      else (Throw (RuntimeError (''Write'' @ '', '' @ se code)), as))"
| "Write_tcp_loop se (c # cs) (WriteOk n # as) = Write_tcp_loop se (drop n (c # cs)) as"

definition Write_tcp :: "int \<Rightarrow> string \<Rightarrow> (tcp, string) cpp" where
  "Write_tcp fd s = (\<lambda>w.
     if s = [] then (Val [], w)
     else case Write_tcp_loop (strerror_tcp w) s (t_write w) of
       (oc, as) \<Rightarrow>
         (oc, w\<lparr>t_write := as, t_trace := t_trace w @
              [TWrite fd (take (accepted (take (length (t_write w) - length as) (t_write w))) s)]\<rparr>))"

section \<open>The session with poll\<close>

definition POLLIN :: u16 where "POLLIN = 1"
definition POLLOUT :: u16 where "POLLOUT = 4"

text \<open>The local variables of \<open>Process\<close>: the events asked for on the socket, the flag and the unsent text.\<close>

record plocal =
  sock_events :: u16
  writeShutdown :: bool
  w_text :: string

definition Poll_tcp :: "(tcp, u16 \<times> u16) cpp" where
  "Poll_tcp = (\<lambda>w.
     case t_poll w of
       [] \<Rightarrow> (Pending, w)
     | PollErr code # as \<Rightarrow> ERROR_MESSAGE ''Poll'' code (w\<lparr>t_poll := as\<rparr>)
     | PollOk r0 r1 # as \<Rightarrow> (Val (r0, r1), w\<lparr>t_poll := as\<rparr>))"

definition Process_poll_init :: "int \<Rightarrow> config_tcp \<Rightarrow> (tcp, plocal) cpp" where
  "Process_poll_init fd cfg =
     sq (SetNonBlocking_tcp fd)
    (sq (SetNonBlocking_tcp 0)
    (sq (whenb (\<not> read_opt cfg) (ShutdownRead fd))
    (sq (whenb (\<not> write_opt cfg) (ShutdownWrite fd))
        (ret \<lparr>sock_events = (if read_opt cfg then POLLIN else 0) OR (if write_opt cfg then POLLOUT else 0),
              writeShutdown = \<not> write_opt cfg, w_text = []\<rparr>))))"

definition cmd_exit :: string where "cmd_exit = ''exit'' @ newline"
definition cmd_shutdown_read :: string where "cmd_shutdown_read = ''shutdown read'' @ newline"
definition cmd_shutdown_write :: string where "cmd_shutdown_write = ''shutdown write'' @ newline"
definition cmd_shutdown_both :: string where "cmd_shutdown_both = ''shutdown both'' @ newline"
definition cmd_unwritten_length :: string where "cmd_unwritten_length = ''unwritten length'' @ newline"

text \<open>The line typed by the user; \<open>None\<close> is the \<open>break\<close> of \<open>exit\<close>.\<close>

definition do_command :: "int \<Rightarrow> string \<Rightarrow> plocal \<Rightarrow> (tcp, plocal option) cpp" where
  "do_command fd r l =
     (if r = cmd_exit then ret None
      else if r = cmd_shutdown_read then sq (ShutdownRead fd) (ret (Some l))
      else if r = cmd_shutdown_write then sq (ShutdownWrite fd) (ret (Some (l\<lparr>writeShutdown := True\<rparr>)))
      else if r = cmd_shutdown_both then sq (ShutdownBoth fd) (ret (Some (l\<lparr>writeShutdown := True\<rparr>)))
      else if r = cmd_unwritten_length then
        sq (print (to_string_nat (length (w_text l)) @ newline)) (ret (Some l))
      else if writeShutdown l then sq (print (''write is shutdown'' @ newline)) (ret (Some l))
      else ret (Some (l\<lparr>w_text := w_text l @ r\<rparr>)))"

definition read_socket_poll :: "int \<Rightarrow> plocal \<Rightarrow> (tcp, plocal) cpp" where
  "read_socket_poll fd l =
     bnd (Read_sock fd) (\<lambda>(s, readStop).
     sq (print s)
        (if readStop then
           sq (print (''read stop'' @ newline)) (ret (l\<lparr>sock_events := sock_events l AND NOT POLLIN\<rparr>))
         else ret l))"

definition read_stdin_poll :: "int \<Rightarrow> plocal \<Rightarrow> (tcp, plocal option) cpp" where
  "read_stdin_poll fd l = bnd Read_stdin (\<lambda>r. do_command fd r l)"

definition flush_poll :: "int \<Rightarrow> u16 \<Rightarrow> plocal \<Rightarrow> (tcp, plocal) cpp" where
  "flush_poll fd r1 l =
     bnd (if r1 AND POLLOUT \<noteq> 0 then Write_tcp fd (w_text l) else ret (w_text l)) (\<lambda>t.
     ret (l\<lparr>w_text := t,
            sock_events := (if t \<noteq> [] then sock_events l OR POLLOUT else sock_events l AND NOT POLLOUT)\<rparr>))"

text \<open>One pass of the loop.\<close>

definition poll_round :: "int \<Rightarrow> plocal \<Rightarrow> (tcp, plocal option) cpp" where
  "poll_round fd l =
     bnd Poll_tcp (\<lambda>(r0, r1).
     bnd (if r1 AND POLLIN \<noteq> 0 then read_socket_poll fd l else ret l) (\<lambda>l.
     bnd (if r0 AND POLLIN \<noteq> 0 then read_stdin_poll fd l else ret (Some l)) (\<lambda>lo.
     case lo of
       None \<Rightarrow> ret None
     | Some l \<Rightarrow> bnd (flush_poll fd r1 l) (\<lambda>l. ret (Some l)))))"

fun Process_poll_loop :: "int \<Rightarrow> nat \<Rightarrow> plocal \<Rightarrow> (tcp, unit) cpp" where
  "Process_poll_loop fd 0 l w = (Pending, w)"
| "Process_poll_loop fd (Suc k) l w =
     bnd (poll_round fd l) (\<lambda>lo. case lo of None \<Rightarrow> SetBlocking_tcp 0 | Some l \<Rightarrow> Process_poll_loop fd k l) w"

definition Process_poll :: "nat \<Rightarrow> int \<Rightarrow> config_tcp \<Rightarrow> (tcp, unit) cpp" where
  "Process_poll k fd cfg = bnd (Process_poll_init fd cfg) (Process_poll_loop fd k)"

section \<open>The session with select\<close>

record slocal =
  rSet :: "int set"
  wSet :: "int set"
  readStop :: bool
  sl :: plocal

definition Select_tcp :: "(tcp, int set \<times> int set) cpp" where
  "Select_tcp = (\<lambda>w.
     case t_select w of
       [] \<Rightarrow> (Pending, w)
     | SelectErr code # as \<Rightarrow> ERROR_MESSAGE ''Select'' code (w\<lparr>t_select := as\<rparr>)
     | SelectOk r s # as \<Rightarrow> (Val (r, s), w\<lparr>t_select := as\<rparr>))"

definition Process_select_init :: "int \<Rightarrow> config_tcp \<Rightarrow> (tcp, slocal) cpp" where
  "Process_select_init fd cfg =
     sq (SetNonBlocking_tcp fd)
    (sq (SetNonBlocking_tcp 0)
    (sq (whenb (\<not> read_opt cfg) (ShutdownRead fd))
    (sq (whenb (\<not> write_opt cfg) (ShutdownWrite fd))
        (ret \<lparr>rSet = (if read_opt cfg then {0, fd} else {0, fd} - {0}), wSet = {}, readStop = False,
              sl = \<lparr>sock_events = 0, writeShutdown = \<not> write_opt cfg, w_text = []\<rparr>\<rparr>))))"

definition select_round :: "int \<Rightarrow> slocal \<Rightarrow> (tcp, slocal option) cpp" where
  "select_round fd x =
     bnd Select_tcp (\<lambda>(r, s).
     let x = x\<lparr>rSet := r, wSet := s\<rparr> in
     bnd (if fd \<in> rSet x
          then bnd (Read_sock fd) (\<lambda>(t, stop).
                 sq (print t)
                    (if stop then
                       sq (print (''read stop'' @ newline)) (ret (x\<lparr>readStop := True, rSet := rSet x - {fd}\<rparr>))
                     else ret (x\<lparr>readStop := False\<rparr>)))
          else ret x) (\<lambda>x.
     let x = (if \<not> readStop x then x\<lparr>rSet := insert fd (rSet x)\<rparr> else x) in
     bnd (if 0 \<in> rSet x
          then bnd Read_stdin (\<lambda>t. bnd (do_command fd t (sl x)) (\<lambda>lo.
                 ret (case lo of None \<Rightarrow> None | Some l \<Rightarrow> Some (x\<lparr>sl := l\<rparr>))))
          else ret (Some (x\<lparr>rSet := insert 0 (rSet x)\<rparr>))) (\<lambda>xo.
     case xo of
       None \<Rightarrow> ret None
     | Some x \<Rightarrow>
         bnd (if fd \<in> wSet x then Write_tcp fd (w_text (sl x)) else ret (w_text (sl x))) (\<lambda>t.
         ret (Some (x\<lparr>sl := (sl x)\<lparr>w_text := t\<rparr>,
                wSet := (if t \<noteq> [] then insert fd (wSet x) else wSet x - {fd})\<rparr>))))))"

fun Process_select_loop :: "int \<Rightarrow> nat \<Rightarrow> slocal \<Rightarrow> (tcp, unit) cpp" where
  "Process_select_loop fd 0 x w = (Pending, w)"
| "Process_select_loop fd (Suc k) x w =
     bnd (select_round fd x) (\<lambda>xo. case xo of None \<Rightarrow> SetBlocking_tcp 0 | Some x \<Rightarrow> Process_select_loop fd k x) w"

definition Process_select :: "nat \<Rightarrow> int \<Rightarrow> config_tcp \<Rightarrow> (tcp, unit) cpp" where
  "Process_select k fd cfg = bnd (Process_select_init fd cfg) (Process_select_loop fd k)"

section \<open>The program\<close>

text \<open>\<open>std::cin >> s\<close> takes the next word of the input.\<close>

fun TypeEToExit :: "nat \<Rightarrow> (tcp, unit) cpp" where
  "TypeEToExit 0 w = (Pending, w)"
| "TypeEToExit (Suc k) w =
     sq (print (''type 'e' to exit'' @ newline))
        (\<lambda>w. case t_cin w of
           [] \<Rightarrow> (Pending, w)
         | s # ss \<Rightarrow> if s = ''e'' then (Val (), w\<lparr>t_cin := ss\<rparr>) else TypeEToExit k (w\<lparr>t_cin := ss\<rparr>)) w"

definition Run_tcp :: "(int \<Rightarrow> config_tcp \<Rightarrow> (tcp, unit) cpp) \<Rightarrow> nat \<Rightarrow> config_tcp \<Rightarrow> (tcp, unit) cpp" where
  "Run_tcp process k cfg =
     bnd Socket_tcp (\<lambda>fd.
     sq (SetSocketBufferSize fd 1152)
    (sq (SetSocketBufferSize fd 2304)
    (sq (whenb (bind_opt cfg) (Bind_tcp fd (srcAddr cfg) (srcPort cfg)))
    (sq (whenb (listen_opt cfg) (Listen_tcp fd))
    (sq (whenb (accept_opt cfg) (bnd (Accept_tcp fd) (\<lambda>connFd. process connFd cfg)))
    (sq (whenb (connect_opt cfg) (sq (Connect_tcp fd (dstAddr cfg) (dstPort cfg)) (process fd cfg)))
        (TypeEToExit k)))))))"

definition usage :: string where
  "usage = ''-l                        Listen'' @ newline @
    ''-a                        Accept'' @ newline @
    ''-b <srcAddr> <srcPort>    Bind'' @ newline @
    ''-c <dstAddr> <dstPort>    Connect'' @ newline @
    ''-r                        Read'' @ newline @
    ''-w                        Write'' @ newline @ newline"

definition configure :: "string list \<Rightarrow> (tcp, config_tcp) cpp" where
  "configure args = (\<lambda>w.
     case Config_set args Config_tcp_new of
       Exit n \<Rightarrow> (Exit n, w\<lparr>t_out := t_out w @ usage\<rparr>)
     | r \<Rightarrow> (r, w))"

definition main_tcp :: "(int \<Rightarrow> config_tcp \<Rightarrow> (tcp, unit) cpp) \<Rightarrow> nat \<Rightarrow> string list \<Rightarrow> (tcp, int) cpp" where
  "main_tcp process k args =
     sq (try_catch
          (bnd (configure args) (\<lambda>cfg. sq Signal_tcp (Run_tcp process k cfg)))
          (\<lambda>e. print ((case e of RuntimeError m \<Rightarrow> m | InvalidArgument m \<Rightarrow> m | StdOutOfRange m \<Rightarrow> m) @ newline)))
        (ret 0)"

end
