(* ===== verification/Tcp_Tool_Props.thy ===== *)
theory Tcp_Tool_Props
  imports Tcp_Tool
begin

text \<open>
  Properties of the command-line TCP tool: its options, its reads (which, unlike those of the two
  servers, cannot overrun their buffer), what one pass of the poll loop does with typed text, and the
  error it cannot see.
\<close>

section \<open>Options\<close>

datatype copt = OptR string | OptW string | OptL string | OptA string | OptB string string nat | OptC string string nat

text \<open>An option as it can be typed: anything may follow the two letters.\<close>

fun render :: "copt \<Rightarrow> string list" where
  "render (OptR x) = [''-r'' @ x]"
| "render (OptW x) = [''-w'' @ x]"
| "render (OptL x) = [''-l'' @ x]"
| "render (OptA x) = [''-a'' @ x]"
| "render (OptB x a n) = [''-b'' @ x, a, to_string_nat n]"
| "render (OptC x a n) = [''-c'' @ x, a, to_string_nat n]"

fun apply_opt :: "copt \<Rightarrow> config_tcp \<Rightarrow> config_tcp" where
  "apply_opt (OptR x) c = c\<lparr>read_opt := True\<rparr>"
| "apply_opt (OptW x) c = c\<lparr>write_opt := True\<rparr>"
| "apply_opt (OptL x) c = c\<lparr>listen_opt := True\<rparr>"
| "apply_opt (OptA x) c = c\<lparr>accept_opt := True\<rparr>"
| "apply_opt (OptB x a n) c = c\<lparr>srcAddr := a, srcPort := int n, bind_opt := True\<rparr>"
| "apply_opt (OptC x a n) c = c\<lparr>dstAddr := a, dstPort := int n, connect_opt := True\<rparr>"

fun opt_ok :: "copt \<Rightarrow> bool" where
  "opt_ok (OptB x a n) = (int n \<le> int_max)"
| "opt_ok (OptC x a n) = (int n \<le> int_max)"
| "opt_ok _ = True"

lemma Config_set_loop_opt:
  "opt_ok p \<Longrightarrow> Config_set_loop (render p @ args) c = Config_set_loop args (apply_opt p c)"
  by (cases p) (simp_all add: first_two_def stoi_to_string_nat)

lemma Config_set_loop_opts:
  "\<forall>p \<in> set ps. opt_ok p \<Longrightarrow>
   Config_set_loop (concat (map render ps) @ args) c = Config_set_loop args (fold apply_opt ps c)"
  by (induction ps arbitrary: c) (simp_all add: Config_set_loop_opt)

text \<open>
  Command-line options are read back: any sequence of options, each with any text after its two letters and
  ports up to \<open>INT_MAX\<close>, gives the configuration in which exactly these options are set, later ones
  overriding earlier ones; only \<open>-a\<close> together with \<open>-c\<close> is rejected.
\<close>

theorem tcp_options_roundtrip:
  assumes "\<forall>p \<in> set ps. opt_ok p"
  shows "Config_set (concat (map render ps)) Config_tcp_new =
    (let c = fold apply_opt ps Config_tcp_new
     in if accept_opt c \<and> connect_opt c then Throw (RuntimeError ''parameter conflict'') else Val c)"
  using Config_set_loop_opts[OF assms, of "[]" Config_tcp_new] by (simp add: Config_set_def Let_def)

lemma tcp_options_roundtrip_witness:
  "Config_set [''-listen'', ''-b'', ''10.0.0.1'', to_string_nat 80] Config_tcp_new =
     Val (Config_tcp_new\<lparr>listen_opt := True, srcAddr := ''10.0.0.1'', srcPort := 80, bind_opt := True\<rparr>)"
  using tcp_options_roundtrip[of "[OptL ''isten'', OptB [] ''10.0.0.1'' 80]"]
  by (simp add: int_max_def Config_tcp_new_def)

section \<open>Reading\<close>

lemma c_str_terminated: "c_str (bs @ CHR 0x00 # t) = Some (takeWhile (\<lambda>c. c \<noteq> CHR 0x00) bs)"
  by (induction bs) auto

lemma zero_buf_length [simp]: "length zero_buf = 1001"
  by (simp add: zero_buf_def)

text \<open>What earlier reads left in the buffer does not matter.\<close>

lemma Read_tcp_loop_buf:
  "length buf = 1001 \<Longrightarrow> Read_tcp_loop se buf s as = Read_tcp_loop se zero_buf s as"
proof (induction as arbitrary: buf s)
  case (Cons a as)
  show ?case
  proof (cases a)
    case (ReadOk bs)
    have "Read_tcp_loop se (bs @ CHR 0x00 # drop (length bs + 1) b) t as = Read_tcp_loop se zero_buf t as"
      if "length b = 1001" "length bs < 1001" for b t
      by (rule Cons.IH) (use that in simp)
    then show ?thesis using ReadOk Cons.prems by (auto simp: c_str_terminated Let_def)
  qed simp
qed simp

lemma Read_tcp_loop_chunk:
  assumes "c \<noteq> []" "length c \<le> 1000"
  shows "Read_tcp_loop se zero_buf s (ReadOk c # as) =
    Read_tcp_loop se zero_buf (s @ takeWhile (\<lambda>x. x \<noteq> CHR 0x00) c) as"
proof -
  let ?buf = "c @ CHR 0x00 # drop (length c + 1) zero_buf"
  have "Read_tcp_loop se zero_buf s (ReadOk c # as) =
      Read_tcp_loop se ?buf (s @ takeWhile (\<lambda>x. x \<noteq> CHR 0x00) c) as"
    using assms by (simp add: c_str_terminated Let_def)
  also have "\<dots> = Read_tcp_loop se zero_buf (s @ takeWhile (\<lambda>x. x \<noteq> CHR 0x00) c) as"
    using assms(2) by (intro Read_tcp_loop_buf) simp
  finally show ?thesis .
qed

interpretation tcp_read: chunk_reader "Read_tcp_loop se zero_buf" "\<lambda>s eof. (s, eof)"
  "\<lambda>c. length c \<le> 1000 \<and> CHR 0x00 \<notin> set c" for se
proof unfold_locales
  fix c s as assume "length c \<le> 1000 \<and> CHR 0x00 \<notin> set c" "c \<noteq> []"
  moreover then have "takeWhile (\<lambda>x. x \<noteq> CHR 0x00) c = c" by (auto simp: takeWhile_eq_all_conv)
  ultimately show "Read_tcp_loop se zero_buf s (ReadOk c # as) = Read_tcp_loop se zero_buf (s @ c) as"
    using Read_tcp_loop_chunk[of c se s as] by metis
qed simp_all

interpretation tcp_write: partial_writer "Write_tcp_loop se" for se
proof unfold_locales
  fix s :: string and e as
  assume "s \<noteq> []" "e \<noteq> EAGAIN"
  then show "\<exists>x. Write_tcp_loop se s (WriteErr e # as) = (Throw x, as)"
    by (cases s) auto
next
  fix s :: string and n as
  assume "s \<noteq> []" "n \<le> length s"
  then show "Write_tcp_loop se s (WriteOk n # as) = Write_tcp_loop se (drop n s) as"
    by (cases s) auto
next
  fix s :: string and as
  assume "s \<noteq> []"
  then show "Write_tcp_loop se s [] = (Pending, [])"
    and "Write_tcp_loop se s (WriteErr EAGAIN # as) = (Val s, as)"
    by (cases s; simp)+
qed simp

text \<open>
  The tool's reads stay inside their buffer. For every sequence of answers in which \<open>read\<close> delivers at most
  the 1000 bytes it was asked for, \<open>Read\<close> has no undefined behaviour; and when the chunks contain no zero
  byte it returns exactly their concatenation, with the flag raised exactly at the end of the stream.
\<close>

theorem tcp_read_safe:
  assumes "\<forall>c. ReadOk c \<in> set (t_sock w) \<longrightarrow> length c \<le> 1000"
  shows "(\<forall>u. fst (Read_sock fd w) \<noteq> Undef u) \<and>
    (\<forall>cs a as. t_sock w = map ReadOk cs @ a # as \<longrightarrow> a \<in> {ReadErr EAGAIN, ReadOk []} \<longrightarrow>
       (\<forall>c \<in> set cs. c \<noteq> [] \<and> CHR 0x00 \<notin> set c) \<longrightarrow> fst (Read_sock fd w) = Val (concat cs, a = ReadOk []))"
proof (intro conjI allI impI)
  fix u
  have "fst (Read_tcp_loop se zero_buf s as) \<noteq> Undef u" if "\<forall>c. ReadOk c \<in> set as \<longrightarrow> length c \<le> 1000" for se s as
    using that
  proof (induction as arbitrary: s)
    case (Cons a as)
    show ?case
    proof (cases a)
      case (ReadOk c)
      then show ?thesis using Cons Read_tcp_loop_chunk[of c se s as] by (cases "c = []") auto
    qed (use Cons in simp)
  qed simp
  from this[OF assms] show "fst (Read_sock fd w) \<noteq> Undef u" by (simp add: Read_sock_def split: prod.splits) (metis fst_conv)
next
  fix cs a as
  assume r: "t_sock w = map ReadOk cs @ a # as" "a \<in> {ReadErr EAGAIN, ReadOk []}" "\<forall>c \<in> set cs. c \<noteq> [] \<and> CHR 0x00 \<notin> set c"
  then have "\<forall>c \<in> set cs. (length c \<le> 1000 \<and> CHR 0x00 \<notin> set c) \<and> c \<noteq> []" using assms by auto
  then show "fst (Read_sock fd w) = Val (concat cs, a = ReadOk [])"
    using r(1,2) tcp_read.rd_until_again[of cs "strerror_tcp w" "[]" as] tcp_read.rd_until_eof[of cs "strerror_tcp w" "[]" as]
    by (auto simp: Read_sock_def)
qed

definition some_tcp :: tcp where
  "some_tcp = \<lparr>strerror_tcp = (\<lambda>_. []), aton = (\<lambda>_. True), errno_tcp = 0, t_sys = [], t_sock = [], t_stdin = [], t_write = [],
     t_poll = [], t_select = [], t_cin = [], t_out = [], t_trace = []\<rparr>"

lemma tcp_read_safe_witness:
  "fst (Read_sock 5 (some_tcp\<lparr>t_sock := [ReadOk (replicate 1000 (CHR ''a'')), ReadOk []]\<rparr>)) =
     Val (replicate 1000 (CHR ''a''), True)"
proof -
  let ?w = "some_tcp\<lparr>t_sock := [ReadOk (replicate 1000 (CHR ''a'')), ReadOk []]\<rparr>"
  have "\<forall>c. ReadOk c \<in> set (t_sock ?w) \<longrightarrow> length c \<le> 1000" by auto
  from conjunct2[OF tcp_read_safe[OF this, of 5], rule_format, of "[replicate 1000 (CHR ''a'')]" "ReadOk []" "[]"]
  show ?thesis by simp
qed

section \<open>One pass of the poll loop\<close>

definition commands :: "string list" where
  "commands = [cmd_exit, cmd_shutdown_read, cmd_shutdown_write, cmd_shutdown_both, cmd_unwritten_length]"

text \<open>The bytes the kernel has taken, in order.\<close>

fun written :: "call_tcp list \<Rightarrow> string" where
  "written [] = []"
| "written (TWrite fd s # cs) = s @ written cs"
| "written (_ # cs) = written cs"

lemma written_append [simp]: "written (xs @ ys) = written xs @ written ys"
  by (induction xs rule: written.induct) simp_all

lemma Write_tcp_conserves:
  assumes "answers_fit (t_write w) (length s)" "Write_tcp fd s w = (Val r, w')"
  shows "written (t_trace w') @ r = written (t_trace w) @ s"
proof (cases "s = []")
  case True
  then show ?thesis using assms(2) by (simp add: Write_tcp_def)
next
  case False
  then obtain as where l: "Write_tcp_loop (strerror_tcp w) s (t_write w) = (Val r, as)"
    and w': "w' = w\<lparr>t_write := as, t_trace := t_trace w @
              [TWrite fd (take (accepted (take (length (t_write w) - length as) (t_write w))) s)]\<rparr>"
    using assms(2) by (auto simp: Write_tcp_def split: prod.splits)
  obtain used where "t_write w = used @ as" "r = drop (accepted used) s"
    using tcp_write.wr_conserves[OF assms(1) l] by blast
  then show ?thesis using w' by simp
qed

lemma print_run [cpp_run]: "print s w = (Val (), w\<lparr>t_out := t_out w @ s\<rparr>)"
  by (simp add: print_def cpp_run)

text \<open>No command and no read touches what was written or what is to be written.\<close>

lemma Shutdown_Val:
  "Shutdown_tcp fd how w = (Val (), w') \<Longrightarrow> t_trace w' = t_trace w @ [TShutdown fd how] \<and> t_write w' = t_write w"
  by (auto simp: Shutdown_tcp_def wrap_def sys_tcp_def ERROR_MESSAGE_def bnd_def cpp_run split: list.splits sys_ans.splits)

lemma Shutdowns_Val:
  "ShutdownRead fd w = (Val (), w') \<Longrightarrow> written (t_trace w') = written (t_trace w) \<and> t_write w' = t_write w"
  "ShutdownWrite fd w = (Val (), w') \<Longrightarrow> written (t_trace w') = written (t_trace w) \<and> t_write w' = t_write w"
  "ShutdownBoth fd w = (Val (), w') \<Longrightarrow> written (t_trace w') = written (t_trace w) \<and> t_write w' = t_write w"
  unfolding ShutdownRead_def ShutdownWrite_def ShutdownBoth_def
  by (auto simp: cpp_run elim!: sq_ValE dest!: Shutdown_Val)

lemma do_command_Val:
  assumes "do_command fd r l w = (Val (Some l'), w')"
  shows "written (t_trace w') = written (t_trace w)" "t_write w' = t_write w" "sock_events l' = sock_events l"
    "w_text l' = w_text l @ (if r \<in> set commands \<or> writeShutdown l then [] else r)"
  using assms by (auto simp: do_command_def commands_def cpp_run split: if_splits elim!: sq_ValE dest!: Shutdowns_Val)

lemma read_socket_poll_Val:
  "read_socket_poll fd l w = (Val l', w') \<Longrightarrow>
     written (t_trace w') = written (t_trace w) \<and> t_write w' = t_write w \<and> w_text l' = w_text l \<and>
     writeShutdown l' = writeShutdown l \<and> t_stdin w' = t_stdin w \<and> strerror_tcp w' = strerror_tcp w"
  by (auto simp: read_socket_poll_def Read_sock_def cpp_run elim!: bnd_ValE sq_ValE split: if_splits prod.splits)

lemma Read_stdin_Val:
  "Read_stdin w = (Val r, w') \<Longrightarrow> written (t_trace w') = written (t_trace w) \<and> t_write w' = t_write w \<and>
     (\<exists>b as. Read_tcp_loop (strerror_tcp w) zero_buf [] (t_stdin w) = (Val (r, b), as))"
  by (auto simp: Read_stdin_def Let_def split: prod.splits outcome.splits)

lemma read_stdin_poll_Val:
  assumes "read_stdin_poll fd l w = (Val (Some l'), w')"
    and "Read_tcp_loop (strerror_tcp w) zero_buf [] (t_stdin w) = (Val (r, eof), as)"
  shows "written (t_trace w') = written (t_trace w) \<and> t_write w' = t_write w \<and>
    w_text l' = w_text l @ (if r \<in> set commands \<or> writeShutdown l then [] else r)"
proof -
  obtain q wq where q: "Read_stdin w = (Val q, wq)" and c: "do_command fd q l wq = (Val (Some l'), w')"
    using assms(1) unfolding read_stdin_poll_def by (auto elim!: bnd_ValE)
  show ?thesis using Read_stdin_Val[OF q] assms(2) do_command_Val[OF c] by auto
qed

definition typed_line :: "u16 \<Rightarrow> string \<Rightarrow> plocal \<Rightarrow> string" where
  "typed_line r0 r l = (if r0 AND POLLIN \<noteq> 0 \<and> r \<notin> set commands \<and> \<not> writeShutdown l then r else [])"

lemma flush_poll_Val:
  assumes "flush_poll fd r1 l w = (Val l', w')" "answers_fit (t_write w) (length (w_text l))"
  shows "written (t_trace w') @ w_text l' = written (t_trace w) @ w_text l"
    and "sock_events l' AND POLLOUT \<noteq> 0 \<longleftrightarrow> w_text l' \<noteq> []"
proof -
  obtain t where t: "(if r1 AND POLLOUT \<noteq> 0 then Write_tcp fd (w_text l) else ret (w_text l)) w = (Val t, w')"
    and l': "l' = l\<lparr>w_text := t, sock_events := (if t \<noteq> [] then sock_events l OR POLLOUT else sock_events l AND NOT POLLOUT)\<rparr>"
    using assms(1) unfolding flush_poll_def by (auto elim!: bnd_ValE simp: ret_run)
  show "written (t_trace w') @ w_text l' = written (t_trace w) @ w_text l"
    using t l' Write_tcp_conserves[OF assms(2), of fd t w'] by (auto simp: ret_run split: if_splits)
  have "(x OR 4) AND 4 = 4" "(x AND NOT 4) AND 4 = 0" for x :: u16
    by (simp_all add: bit.conj_disj_distrib2 and.assoc)
  then show "sock_events l' AND POLLOUT \<noteq> 0 \<longleftrightarrow> w_text l' \<noteq> []" by (simp add: l' POLLOUT_def)
qed

text \<open>
  C17. Typed text is neither lost nor reordered. In one pass of the poll loop that goes on, with \<open>r\<close> the line that
  standard input delivers: what the kernel has taken so far followed by what is still to be sent grows by
  exactly that line, if standard input was ready, the line is no command and writing has not been shut
  down, and by nothing otherwise; and afterwards the loop asks for \<open>POLLOUT\<close> exactly when there is
  something to send.
\<close>

theorem poll_round_conserves:
  assumes "t_poll w = PollOk r0 r1 # ps" "poll_round fd l w = (Val (Some l'), w')"
    and "Read_tcp_loop (strerror_tcp w) zero_buf [] (t_stdin w) = (Val (r, eof), as)"
    and "answers_fit (t_write w) (length (w_text l @ typed_line r0 r l))"
  shows "written (t_trace w') @ w_text l' = written (t_trace w) @ w_text l @ typed_line r0 r l \<and>
    (sock_events l' AND POLLOUT \<noteq> 0 \<longleftrightarrow> w_text l' \<noteq> [])"
proof -
  let ?w0 = "w\<lparr>t_poll := ps\<rparr>"
  have "Poll_tcp w = (Val (r0, r1), ?w0)" using assms(1) by (simp add: Poll_tcp_def)
  then obtain l1 w1 lo w2 where
    1: "(if r1 AND POLLIN \<noteq> 0 then read_socket_poll fd l else ret l) ?w0 = (Val l1, w1)" and
    2: "(if r0 AND POLLIN \<noteq> 0 then read_stdin_poll fd l1 else ret (Some l1)) w1 = (Val lo, w2)" and
    3: "(case lo of None \<Rightarrow> ret None | Some l \<Rightarrow> bnd (flush_poll fd r1 l) (\<lambda>l. ret (Some l))) w2 = (Val (Some l'), w')"
    using assms(2) unfolding poll_round_def by (auto simp: bnd_run(1) elim!: bnd_ValE)
  from 3 obtain l2 where lo: "lo = Some l2" and 3: "flush_poll fd r1 l2 w2 = (Val l', w')"
    by (cases lo) (auto simp: ret_run elim!: bnd_ValE)
  have s1: "written (t_trace w1) = written (t_trace w)" "t_write w1 = t_write w" "w_text l1 = w_text l"
    "writeShutdown l1 = writeShutdown l" "t_stdin w1 = t_stdin w" "strerror_tcp w1 = strerror_tcp w"
    using 1 read_socket_poll_Val[of fd l ?w0 l1 w1] by (auto simp: ret_run split: if_splits)
  have s2: "written (t_trace w2) = written (t_trace w1) \<and> t_write w2 = t_write w1 \<and>
      w_text l2 = w_text l1 @ typed_line r0 r l"
  proof (cases "r0 AND POLLIN = 0")
    case True
    then show ?thesis using 2 lo by (simp add: ret_run typed_line_def)
  next
    case False
    then have "read_stdin_poll fd l1 w1 = (Val (Some l2), w2)" using 2 lo by simp
    from read_stdin_poll_Val[OF this, unfolded s1, OF assms(3)] False show ?thesis
      by (simp add: s1 typed_line_def)
  qed
  have "answers_fit (t_write w2) (length (w_text l2))" using assms(4) s1 s2 by simp
  from flush_poll_Val[OF 3 this] show ?thesis using s1 s2 by simp
qed

definition talk_tcp :: tcp where
  "talk_tcp = some_tcp\<lparr>t_stdin := [ReadOk ''hello'', ReadErr EAGAIN], t_write := [WriteOk 2, WriteErr EAGAIN],
     t_poll := [PollOk POLLIN POLLOUT]\<rparr>"

definition quiet_local :: plocal where
  "quiet_local = \<lparr>sock_events = POLLIN, writeShutdown = False, w_text = []\<rparr>"

lemma talk_stdin: "Read_tcp_loop se zero_buf [] [ReadOk ''hello'', ReadErr EAGAIN] = (Val (''hello'', False), [])"
  using tcp_read.rd_until_again[of "[''hello'']" se "[]" "[]"] by simp

lemma talk_round:
  "\<exists>w'. poll_round 5 quiet_local talk_tcp = (Val (Some \<lparr>sock_events = 5, writeShutdown = False, w_text = ''llo''\<rparr>), w') \<and>
     written (t_trace w') = ''he''"
  by (simp add: poll_round_def Poll_tcp_def talk_tcp_def some_tcp_def quiet_local_def POLLIN_def POLLOUT_def cpp_run
      read_stdin_poll_def Read_stdin_def talk_stdin do_command_def cmd_exit_def cmd_shutdown_read_def
      cmd_shutdown_write_def cmd_shutdown_both_def cmd_unwritten_length_def flush_poll_def Write_tcp_def)

lemma poll_round_conserves_witness:
  "\<exists>l' w'. poll_round 5 quiet_local talk_tcp = (Val (Some l'), w') \<and> w_text l' = ''llo'' \<and>
     written (t_trace w') @ w_text l' = ''hello'' \<and> sock_events l' AND POLLOUT \<noteq> 0"
proof -
  obtain w' where w': "poll_round 5 quiet_local talk_tcp =
      (Val (Some \<lparr>sock_events = 5, writeShutdown = False, w_text = ''llo''\<rparr>), w')" using talk_round by blast
  have line: "typed_line POLLIN ''hello'' quiet_local = ''hello''"
    by (simp add: typed_line_def POLLIN_def commands_def quiet_local_def cmd_exit_def cmd_shutdown_read_def
        cmd_shutdown_write_def cmd_shutdown_both_def cmd_unwritten_length_def)
  have 1: "t_poll talk_tcp = PollOk POLLIN POLLOUT # []" by (simp add: talk_tcp_def)
  have 2: "Read_tcp_loop (strerror_tcp talk_tcp) zero_buf [] (t_stdin talk_tcp) = (Val (''hello'', False), [])"
    by (simp add: talk_tcp_def some_tcp_def talk_stdin)
  have 3: "answers_fit (t_write talk_tcp) (length (w_text quiet_local @ typed_line POLLIN ''hello'' quiet_local))"
    unfolding line by (simp add: talk_tcp_def quiet_local_def)
  have "written (t_trace w') @ ''llo'' = ''hello'' \<and> (5 AND POLLOUT \<noteq> 0 \<longleftrightarrow> ''llo'' \<noteq> ([] :: string))"
    using poll_round_conserves[OF 1 w' 2 3] unfolding line by (simp add: talk_tcp_def some_tcp_def quiet_local_def)
  then show ?thesis using w' by simp
qed

section \<open>A failing listen\<close>

text \<open>
  A refused \<open>listen\<close> goes unnoticed. \<open>Listen\<close> compares the result with 1, and \<open>listen\<close> fails with
  \<open>-1\<close>: whatever error the kernel reports, the function returns normally, and the server goes on to \<open>Accept\<close>
  on a socket that does not listen.
\<close>

theorem listen_error_ignored:
  assumes "t_sys w = SysErr code # ks"
  shows "Listen_tcp fd w = (Val (), w\<lparr>t_sys := ks, t_trace := t_trace w @ [TListen fd 50]\<rparr>)"
  using assms by (simp add: Listen_tcp_def sys_tcp_def cpp_run)

lemma listen_error_ignored_witness:
  "fst (Listen_tcp 3 (some_tcp\<lparr>t_sys := [SysErr 98]\<rparr>)) = Val ()"
  using listen_error_ignored[of "some_tcp\<lparr>t_sys := [SysErr 98]\<rparr>" 98 "[]" 3] by simp

end
