(* ===== verification/Grpc_Event.thy ===== *)
theory Grpc_Event
  imports Cpp_Strings Std_Map
begin

unbundle bit_operations_syntax

text \<open>
  The event library of the gRPC example (\<open>learn_grpc/hello_world/src/lib/event\<close>): an event, which is the
  64-bit tag handed to gRPC with every asynchronous operation and handed back when it completes, and the
  manager of event handlers, which gives every handler a 32-bit key.
\<close>

section \<open>event.h\<close>

text \<open>
  An \<open>Event\<close> is a union of the pointer-sized token with a key and an operation code of 32 bits each. On the
  little-endian 64-bit machines the program is built for, the key is the low half of the token and the
  code is the high half. The constructor from a key leaves the code uninitialised: the high half is
  whatever the memory held, the argument \<open>junk\<close>.
\<close>

type_synonym event_key_t = u32
type_synonym event_opt_t = u32

record Event =
  getToken :: u64

definition Event_of_token :: "u64 \<Rightarrow> Event" where
  "Event_of_token p = \<lparr>getToken = p\<rparr>"

definition Event_of_key :: "u32 \<Rightarrow> event_key_t \<Rightarrow> Event" where
  "Event_of_key junk k = \<lparr>getToken = push_bit 32 (ucast junk) OR ucast k\<rparr>"

definition getKey :: "Event \<Rightarrow> event_key_t" where
  "getKey e = ucast (getToken e)"

definition getOpt :: "Event \<Rightarrow> event_opt_t" where
  "getOpt e = ucast (drop_bit 32 (getToken e))"

definition setOpt :: "event_opt_t \<Rightarrow> Event \<Rightarrow> Event" where
  "setOpt opt e = e\<lparr>getToken := push_bit 32 (ucast opt) OR (getToken e AND 0xFFFFFFFF)\<rparr>"

text \<open>Every token in use is of this form: a key with an operation code.\<close>

definition tok :: "event_key_t \<Rightarrow> event_opt_t \<Rightarrow> Event" where
  "tok k opt = \<lparr>getToken = push_bit 32 (ucast opt) OR ucast k\<rparr>"

lemma low_half: "(0xFFFFFFFF :: u64) = mask 32"
  by (simp add: mask_eq_exp_minus_1)

lemma bit_u32D: "bit (w :: u32) n \<Longrightarrow> n < 32"
  using bit_imp_le_length[of w n] by simp

lemma setOpt_key: "setOpt opt (Event_of_key junk k) = tok k opt"
  unfolding setOpt_def Event_of_key_def tok_def low_half
  by (auto intro!: bit_word_eqI simp: bit_simps dest: bit_u32D)

lemma setOpt_tok [simp]: "setOpt opt (tok k opt') = tok k opt"
  unfolding setOpt_def tok_def low_half
  by (auto intro!: bit_word_eqI simp: bit_simps dest: bit_u32D)

lemma getKey_tok [simp]: "getKey (tok k opt) = k"
  unfolding getKey_def tok_def by (auto intro!: bit_word_eqI simp: bit_simps dest: bit_u32D)

lemma getOpt_tok [simp]: "getOpt (tok k opt) = opt"
  unfolding getOpt_def tok_def by (auto intro!: bit_word_eqI simp: bit_simps dest: bit_u32D)

lemma tok_eq [simp]: "tok k opt = tok k' opt' \<longleftrightarrow> k = k' \<and> opt = opt'"
  by (metis getKey_tok getOpt_tok)

lemma Event_of_token_tok [simp]: "Event_of_token (getToken (tok k opt)) = tok k opt"
  by (simp add: Event_of_token_def tok_def)

lemma Event_is_tok: "e = tok (getKey e) (getOpt e)"
  unfolding getOpt_def getKey_def tok_def
  by (rule Event.equality) (auto intro!: bit_word_eqI simp: bit_simps dest: bit_u32D)

section \<open>event_handler_manager.h\<close>

record 'h manager =
  handlers :: "(event_key_t, 'h) omap"
  lastKey :: event_key_t

definition EventHandlerManager_new :: "'h manager" where
  "EventHandlerManager_new = \<lparr>handlers = om_empty, lastKey = 0\<rparr>"

lemma unat_dec: "w \<noteq> 0 \<Longrightarrow> unat (w - 1) < unat (w :: u32)"
  by (metis diff_less less_one unat_minus_one word_gt_0 unat_gt_0)

text \<open>
  The search of \<open>add\<close>: \<open>++lastKey\<close>, which wraps around, until a key that is not in use; back at the old
  key, which is in use, it gives up.
\<close>

function next_key :: "(event_key_t, 'h) omap \<Rightarrow> event_key_t \<Rightarrow> event_key_t \<Rightarrow> event_key_t option" where
  "next_key m old k =
     (if om_has m (k + 1) then (if k + 1 = old then None else next_key m old (k + 1)) else Some (k + 1))"
  by pat_completeness auto

termination
proof (relation "measure (\<lambda>(m, old, k). unat (old - (k + 1)))")
  fix m :: "(event_key_t, 'h) omap" and old k :: event_key_t
  assume "k + 1 \<noteq> old"
  then have "unat (old - (k + 1) - 1) < unat (old - (k + 1))" by (intro unat_dec) simp
  moreover have "old - (k + 1 + 1) = old - (k + 1) - 1" by simp
  ultimately show "((m, old, k + 1), (m, old, k)) \<in> measure (\<lambda>(m, old, k). unat (old - (k + 1)))"
    by (simp add: algebra_simps)
qed simp

declare next_key.simps [simp del]

definition EventHandlerManager_add :: "u32 \<Rightarrow> 'h \<Rightarrow> ('h manager, Event) cpp" where
  "EventHandlerManager_add junk h = (\<lambda>s.
     case next_key (handlers s) (lastKey s) (lastKey s) of
       None \<Rightarrow> (Throw (RuntimeError ''no more space for new event handler''), s)
     | Some k \<Rightarrow> (Val (Event_of_key junk k), s\<lparr>lastKey := k, handlers := om_put k h (handlers s)\<rparr>))"

definition EventHandlerManager_contains :: "event_key_t \<Rightarrow> ('h manager, bool) cpp" where
  "EventHandlerManager_contains k = gets (\<lambda>s. om_has (handlers s) k)"

definition EventHandlerManager_get :: "event_key_t \<Rightarrow> ('h manager, 'h) cpp" where
  "EventHandlerManager_get k = (\<lambda>s.
     case om_get (handlers s) k of
       None \<Rightarrow> (Throw (RuntimeError ''failed to find eventHandler''), s)
     | Some h \<Rightarrow> (Val h, s))"

definition EventHandlerManager_count :: "('h manager, nat) cpp" where
  "EventHandlerManager_count = gets (\<lambda>s. length (handlers s))"

definition EventHandlerManager_remove :: "event_key_t \<Rightarrow> ('h manager, unit) cpp" where
  "EventHandlerManager_remove k = modify (\<lambda>s. s\<lparr>handlers := om_del k (handlers s)\<rparr>)"

definition EventHandlerManager_clear :: "('h manager, unit) cpp" where
  "EventHandlerManager_clear = modify (\<lambda>s. s\<lparr>handlers := om_empty\<rparr>)"

text \<open>The iteration order of an \<open>unordered_map\<close> is not specified: \<open>getKeys\<close> takes it as an argument.\<close>

definition EventHandlerManager_getKeys :: "(event_key_t list \<Rightarrow> event_key_t list) \<Rightarrow> ('h manager, string) cpp" where
  "EventHandlerManager_getKeys order =
     gets (\<lambda>s. concat (map (\<lambda>k. to_string_nat (unat k) @ '','') (order (map fst (handlers s)))))"

lemma unat_distance: "a - (k + 1) \<noteq> 0 \<Longrightarrow> unat (a - (k + 1 + 1)) = unat (a - (k + 1) :: u32) - 1"
  using unat_minus_one[of "a - (k + 1)"] by (simp add: algebra_simps)

text \<open>The key found is free, and it is the first free one after the old key, in cyclic order.\<close>

lemma next_key_Some:
  "next_key m old k = Some k' \<Longrightarrow>
     \<not> om_has m k' \<and> (\<forall>i < unat (k' - (k + 1)). om_has m (k + 1 + of_nat i))"
proof (induction m old k rule: next_key.induct)
  case (1 m old k)
  show ?case
  proof (cases "om_has m (k + 1)")
    case False
    then show ?thesis using 1 by (subst (asm) next_key.simps) simp
  next
    case True
    with 1(2) have ne: "k + 1 \<noteq> old" and rec: "next_key m old (k + 1) = Some k'"
      by (subst (asm) next_key.simps, simp split: if_splits)+
    from 1(1)[OF True ne rec] have free: "\<not> om_has m k'"
      and used: "\<forall>i < unat (k' - (k + 1 + 1)). om_has m (k + 1 + 1 + of_nat i)" by auto
    have "om_has m (k + 1 + of_nat i)" if i: "i < unat (k' - (k + 1))" for i
    proof (cases i)
      case (Suc j)
      have "k' - (k + 1) \<noteq> 0" using i by (metis less_nat_zero_code unat_0)
      then have "j < unat (k' - (k + 1 + 1))"
        using i Suc unat_distance[of k' k] by linarith
      with used Suc show ?thesis by (simp add: algebra_simps)
    qed (use True in simp)
    with free show ?thesis by blast
  qed
qed

lemma next_key_None:
  "next_key m old k = None \<Longrightarrow> i \<le> unat (old - (k + 1)) \<Longrightarrow> om_has m (k + 1 + of_nat i)"
proof (induction m old k arbitrary: i rule: next_key.induct)
  case (1 m old k)
  have has: "om_has m (k + 1)" using 1(2) by (subst (asm) next_key.simps) (simp split: if_splits)
  show ?case
  proof (cases i)
    case (Suc j)
    then have ne: "old - (k + 1) \<noteq> 0" using 1(3) by (metis le_zero_eq nat.distinct(2) unat_0)
    then have "k + 1 \<noteq> old" by simp
    with has 1(2) have rec: "next_key m old (k + 1) = None" by (subst (asm) next_key.simps) simp
    have "j \<le> unat (old - (k + 1 + 1))" using 1(3) Suc unat_distance[OF ne] by linarith
    from 1(1)[OF has \<open>k + 1 \<noteq> old\<close> rec this] show ?thesis using Suc by (simp add: algebra_simps)
  qed (use has in simp)
qed

lemma next_key_full: "next_key m old old = None \<longleftrightarrow> (\<forall>k. om_has m k)"
proof
  assume none: "next_key m old old = None"
  show "\<forall>k. om_has m k"
  proof
    fix k :: event_key_t
    have "unat (k - (old + 1)) \<le> unat (- 1 :: event_key_t)" by (simp add: word_le_nat_alt[symmetric])
    then have "om_has m (old + 1 + of_nat (unat (k - (old + 1))))"
      by (intro next_key_None[OF none]) simp
    then show "om_has m k" by simp
  qed
next
  assume "\<forall>k. om_has m k"
  then show "next_key m old old = None" using next_key_Some[of m old old] by (cases "next_key m old old") auto
qed

text \<open>
  A new handler always gets a key of its own. Whatever keys are in use and wherever the 32-bit counter
  stands, \<open>add\<close> returns: if any key is free, it is the first free one after the last one given out (so a key
  that has just been released is not given out again before the counter has come round), the handler is
  stored under it and no other entry changes; only with all \<open>2 ^ 32\<close> keys in use it throws, and changes nothing.
\<close>

theorem add_gives_fresh_key:
  "(\<exists>k. \<not> om_has (handlers s) k \<and> (\<forall>i < unat (k - (lastKey s + 1)). om_has (handlers s) (lastKey s + 1 + of_nat i)) \<and>
      (\<exists>s'. EventHandlerManager_add junk h s = (Val (Event_of_key junk k), s') \<and> lastKey s' = k \<and>
         om_get (handlers s') = (om_get (handlers s))(k \<mapsto> h)))
   \<or> (\<forall>k. om_has (handlers s) k) \<and>
      EventHandlerManager_add junk h s = (Throw (RuntimeError ''no more space for new event handler''), s)"
proof (cases "next_key (handlers s) (lastKey s) (lastKey s)")
  case None
  then show ?thesis using next_key_full[of "handlers s" "lastKey s"] by (simp add: EventHandlerManager_add_def)
next
  case (Some k)
  have "om_get (om_put k h (handlers s)) = (om_get (handlers s))(k \<mapsto> h)" by (rule ext) simp
  then show ?thesis using next_key_Some[OF Some] Some by (auto simp: EventHandlerManager_add_def)
qed

lemma add_gives_fresh_key_witness:
  "\<exists>s'. EventHandlerManager_add 7 ''handler'' EventHandlerManager_new = (Val (Event_of_key 7 1), s') \<and>
     om_get (handlers s') 1 = Some ''handler''"
proof -
  have empty: "om_has (om_empty :: (event_key_t, string) omap) k = False" for k by (simp add: om_has_def)
  have one: "k = 1" if "\<forall>i. \<not> i < unat (k - 1 :: event_key_t)" for k
    using that by (metis eq_iff_diff_eq_0 neq0_conv unat_eq_zero)
  show ?thesis
    using add_gives_fresh_key[of "EventHandlerManager_new :: string manager" 7 "''handler''"]
    by (auto simp: EventHandlerManager_new_def empty) (metis one)
qed

end
