(* ===== verification/Grpc_Api.thy ===== *)
theory Grpc_Api
  imports Grpc_Event
begin

text \<open>
  The boundary to gRPC, protobuf, the logger and the clock, none of which is part of the repository. The
  program starts operations and hands gRPC a tag with each; gRPC reports every started operation once
  on a completion queue, with its tag and a flag that says whether it succeeded, after it has stored
  what was received where the operation said. Which operation completes next, with which flag and which
  data, is not up to the program.
\<close>

section \<open>Services and messages\<close>

text \<open>The methods of \<open>hello.proto\<close>, \<open>goodbye.proto\<close> and \<open>chat.proto\<close>.\<close>

datatype rpc = SayHello | SayHelloAgain | SayGoodbye | SayGoodbyeAgain | Greet | Listen | Speak | Talk

text \<open>
  A request is a pair of strings: first and last name for the hello and goodbye services, time stamp
  and content for the chat service. A response is a greeting or, in the chat service, words.
\<close>

type_synonym request = "string \<times> string"

datatype message = Greeting string | Words string string

datatype status = StatusOK | StatusCANCELLED

text \<open>The operations the program starts. \<open>Request\<close> asks for the next call of a method, on a completion queue.\<close>

datatype grpc_call =
    Request rpc nat
  | Write message | Read | Finish status "message option"
  | StartCall | WritesDone | FinishInto

type_synonym operation = "grpc_call \<times> Event"

text \<open>What \<open>AsyncNext\<close> answers: an event brings its token, its flag and the data stored for it.\<close>

datatype next_ans = NextShutdown | NextTimeout | GotEvent u64 bool request

section \<open>Logging\<close>

datatype loglevel = LogDebug | LogInfo | LogWarn | LogError

type_synonym logline = "loglevel \<times> string \<times> string list"

section \<open>Operations in flight\<close>

text \<open>The operations in flight with one of the given keys.\<close>

definition keys_of :: "operation list \<Rightarrow> event_key_t list" where
  "keys_of ops = map (\<lambda>op. getKey (snd op)) ops"

lemma keys_of_simps [simp]:
  "keys_of [] = []" "keys_of ((c, e) # ops) = getKey e # keys_of ops" "keys_of (xs @ ys) = keys_of xs @ keys_of ys"
  by (simp_all add: keys_of_def)

definition take_out :: "nat \<Rightarrow> 'a list \<Rightarrow> 'a list" where
  "take_out i xs = take i xs @ drop (Suc i) xs"

lemma take_out_split: "i < length xs \<Longrightarrow> xs = take i xs @ xs ! i # drop (Suc i) xs"
  by (rule id_take_nth_drop)

lemma mset_split_take_out: "i < length xs \<Longrightarrow> set xs = insert (xs ! i) (set (take_out i xs))"
  using arg_cong[where f = set, OF take_out_split[of i xs]] by (simp add: take_out_def)

lemma take_out_keys: "keys_of (take_out i ops) = take_out i (keys_of ops)"
  by (simp add: keys_of_def take_out_def take_map drop_map)

lemma distinct_take_out:
  assumes "distinct xs" "i < length xs"
  shows "distinct (take_out i xs)" "set (take_out i xs) = set xs - {xs ! i}"
proof -
  have "distinct (take i xs @ xs ! i # drop (Suc i) xs)" using assms take_out_split[of i xs] by simp
  then show "distinct (take_out i xs)" "set (take_out i xs) = set xs - {xs ! i}"
    using mset_split_take_out[OF assms(2)] by (auto simp: take_out_def)
qed

end
