(* ===== verification/Grpc_Server.thy ===== *)
theory Grpc_Server
  imports Grpc_Api
begin

text \<open>
  The asynchronous gRPC server of \<open>learn_grpc/hello_world/src/server/async\<close>: one event handler per call
  in progress, a state machine driven by the completion of its own operations, and the proactor that
  takes events from the completion queues and hands them to the handlers.
\<close>

section \<open>server_event_opt.h\<close>

definition S_RECEIVE :: event_opt_t where "S_RECEIVE = 1"
definition S_FINISH :: event_opt_t where "S_FINISH = 2"
definition S_WRITE :: event_opt_t where "S_WRITE = 3"
definition S_READ :: event_opt_t where "S_READ = 4"

section \<open>The state\<close>

text \<open>
  The fields every handler class has: its completion queue, the request that gRPC fills in, and the
  flag \<open>finish\<close>. Only \<open>ChatListenEventHandler\<close> has more, the queue of responses.
\<close>

record handler =
  h_cq :: nat
  h_request :: request
  finish :: bool

datatype event_handler =
    HelloEventHandler handler
  | HelloAgainEventHandler handler
  | GoodbyeEventHandler handler
  | GoodbyeAgainEventHandler handler
  | ChatGreetEventHandler handler
  | ChatListenEventHandler handler "message list"
  | ChatSpeakEventHandler handler
  | ChatTalkEventHandler handler

text \<open>
  \<open>ServerProactor\<close>, with what the outside world holds: the clock read by \<open>utils::GetCurrentTimeString\<close>, the
  log, the bytes found in uninitialised memory, the operations started and not yet completed, all
  operations started so far, the answers of \<open>AsyncNext\<close> to come, whether \<open>AsyncServer\<close> holds a server, whether
  it has been shut down, and the queues that have been.
\<close>

record gsrv =
  handlerManager :: "event_handler manager"
  threadPoolSize :: nat
  cqs :: "nat list"
  cqIdx :: nat
  stopped :: bool
  clock :: "nat \<Rightarrow> string"
  ticks :: nat
  order :: "event_key_t list \<Rightarrow> event_key_t list"
  junk :: u32
  s_log :: "logline list"
  inflight :: "operation list"
  started :: "operation list"
  s_next :: "next_ans list"
  g_build :: bool               \<comment> \<open>what \<open>BuildAndStart\<close> will answer: a server or null\<close>
  grpcServer :: bool
  server_down :: bool
  cqs_down :: "nat list"

definition LOG :: "loglevel \<Rightarrow> string \<Rightarrow> string list \<Rightarrow> (gsrv, unit) cpp" where
  "LOG l fmt args = modify (\<lambda>s. s\<lparr>s_log := s_log s @ [(l, fmt, args)]\<rparr>)"

definition GetCurrentTimeString :: "(gsrv, string) cpp" where
  "GetCurrentTimeString = (\<lambda>s. (Val (clock s (ticks s)), s\<lparr>ticks := ticks s + 1\<rparr>))"

definition start_op :: "grpc_call \<Rightarrow> Event \<Rightarrow> (gsrv, unit) cpp" where
  "start_op c e = modify (\<lambda>s. s\<lparr>inflight := inflight s @ [(c, e)], started := started s @ [(c, e)]\<rparr>)"

definition mgr :: "(event_handler manager, 'a) cpp \<Rightarrow> (gsrv, 'a) cpp" where
  "mgr m = (\<lambda>s. case m (handlerManager s) of (oc, hm) \<Rightarrow> (oc, s\<lparr>handlerManager := hm\<rparr>))"

definition show_key :: "event_key_t \<Rightarrow> string" where
  "show_key k = to_string_nat (unat k)"

text \<open>The placeholder of a quoted argument in a log format.\<close>

definition quoted :: string where
  "quoted = CHR 0x22 # ''{}'' @ [CHR 0x22]"

section \<open>Registering handlers\<close>

text \<open>
  A handler registers itself in its constructor. When the proactor has been stopped, the only pointer
  to the new handler goes away with the call and the handler is gone.
\<close>

definition registerHandler :: "rpc \<Rightarrow> nat \<Rightarrow> event_handler \<Rightarrow> (gsrv, unit) cpp" where
  "registerHandler method cq h =
     bnd (gets stopped) (\<lambda>st.
     if st then LOG LogInfo ''stopped'' []
     else bnd (gets junk) (\<lambda>j.
          bnd (mgr (EventHandlerManager_add j h)) (\<lambda>event.
          start_op (Request method cq) (setOpt S_RECEIVE event))))"

definition blank :: "nat \<Rightarrow> handler" where
  "blank cq = \<lparr>h_cq = cq, h_request = ([], []), finish = False\<rparr>"

definition new_Hello :: "nat \<Rightarrow> (gsrv, unit) cpp" where
  "new_Hello cq = registerHandler SayHello cq (HelloEventHandler (blank cq))"

definition new_HelloAgain :: "nat \<Rightarrow> (gsrv, unit) cpp" where
  "new_HelloAgain cq = registerHandler SayHelloAgain cq (HelloAgainEventHandler (blank cq))"

definition new_Goodbye :: "nat \<Rightarrow> (gsrv, unit) cpp" where
  "new_Goodbye cq = registerHandler SayGoodbye cq (GoodbyeEventHandler (blank cq))"

definition new_GoodbyeAgain :: "nat \<Rightarrow> (gsrv, unit) cpp" where
  "new_GoodbyeAgain cq = registerHandler SayGoodbyeAgain cq (GoodbyeAgainEventHandler (blank cq))"

definition new_ChatGreet :: "nat \<Rightarrow> (gsrv, unit) cpp" where
  "new_ChatGreet cq = registerHandler Greet cq (ChatGreetEventHandler (blank cq))"

definition new_ChatListen :: "nat \<Rightarrow> (gsrv, unit) cpp" where
  "new_ChatListen cq = registerHandler Listen cq (ChatListenEventHandler (blank cq) [])"

definition new_ChatSpeak :: "nat \<Rightarrow> (gsrv, unit) cpp" where
  "new_ChatSpeak cq = registerHandler Speak cq (ChatSpeakEventHandler (blank cq))"

definition new_ChatTalk :: "nat \<Rightarrow> (gsrv, unit) cpp" where
  "new_ChatTalk cq = registerHandler Talk cq (ChatTalkEventHandler (blank cq))"

section \<open>The handlers\<close>

definition fmt_unexpected :: string where
  "fmt_unexpected = ''unexpected routine, key({}), opt({})''"

definition unexpected :: "Event \<Rightarrow> (gsrv, unit) cpp" where
  "unexpected event =
     LOG LogError fmt_unexpected [show_key (getKey event), show_key (getOpt event)]"

text \<open>The \<open>FINISH\<close> branch, the same in all classes but \<open>ChatTalkEventHandler\<close>.\<close>

definition on_finish :: "bool \<Rightarrow> Event \<Rightarrow> handler \<Rightarrow> (gsrv, handler) cpp" where
  "on_finish optOk event h =
     sq (whenb (\<not> optOk) (LOG LogError ''Finish operation not ok, key({})'' [show_key (getKey event)]))
     (ret (h\<lparr>finish := True\<rparr>))"

definition HelloEventHandler_process :: "bool \<Rightarrow> Event \<Rightarrow> handler \<Rightarrow> (gsrv, handler) cpp" where
  "HelloEventHandler_process optOk event h =
     (if getOpt event = S_RECEIVE then
        sq (new_Hello (h_cq h))
        (if optOk then
           sq (LOG LogInfo ''SayHello request, firstname: {}, lastname: {}'' [fst (h_request h), snd (h_request h)])
           (sq (start_op (Finish StatusOK (Some (Greeting (''Hello, '' @ fst (h_request h) @ '' '' @ snd (h_request h)))))
                 (setOpt S_FINISH event))
           (ret h))
         else sq (LOG LogError ''Receive operation not ok'' []) (ret (h\<lparr>finish := True\<rparr>)))
      else if getOpt event = S_FINISH then on_finish optOk event h
      else sq (unexpected event) (ret h))"

definition HelloAgainEventHandler_process :: "bool \<Rightarrow> Event \<Rightarrow> handler \<Rightarrow> (gsrv, handler) cpp" where
  "HelloAgainEventHandler_process optOk event h =
     (if getOpt event = S_RECEIVE then
        sq (new_HelloAgain (h_cq h))
        (if optOk then
           sq (LOG LogInfo ''SayHelloAgain request, firstname: {}, lastname: {}'' [fst (h_request h), snd (h_request h)])
           (sq (start_op (Finish StatusOK (Some (Greeting (''Hello, '' @ fst (h_request h) @ '' '' @ snd (h_request h)))))
                 (setOpt S_FINISH event))
           (ret h))
         else sq (LOG LogError ''Receive operation not ok'' []) (ret (h\<lparr>finish := True\<rparr>)))
      else if getOpt event = S_FINISH then on_finish optOk event h
      else sq (unexpected event) (ret h))"

definition GoodbyeEventHandler_process :: "bool \<Rightarrow> Event \<Rightarrow> handler \<Rightarrow> (gsrv, handler) cpp" where
  "GoodbyeEventHandler_process optOk event h =
     (if getOpt event = S_RECEIVE then
        sq (new_Goodbye (h_cq h))
        (if optOk then
           sq (LOG LogInfo ''SayGoodbye request, firstname: {}, lastname: {}'' [fst (h_request h), snd (h_request h)])
           (sq (start_op (Finish StatusOK (Some (Greeting (''Goodbye, '' @ fst (h_request h) @ '' '' @ snd (h_request h)))))
                 (setOpt S_FINISH event))
           (ret h))
         else sq (LOG LogError ''Receive operation not ok'' []) (ret (h\<lparr>finish := True\<rparr>)))
      else if getOpt event = S_FINISH then on_finish optOk event h
      else sq (unexpected event) (ret h))"

definition GoodbyeAgainEventHandler_process :: "bool \<Rightarrow> Event \<Rightarrow> handler \<Rightarrow> (gsrv, handler) cpp" where
  "GoodbyeAgainEventHandler_process optOk event h =
     (if getOpt event = S_RECEIVE then
        sq (new_GoodbyeAgain (h_cq h))
        (if optOk then
           sq (LOG LogInfo ''SayGoodbyeAgain request, firstname: {}, lastname: {}'' [fst (h_request h), snd (h_request h)])
           (sq (start_op (Finish StatusOK (Some (Greeting (''Goodbye, '' @ fst (h_request h) @ '' '' @ snd (h_request h)))))
                 (setOpt S_FINISH event))
           (ret h))
         else sq (LOG LogError ''Receive operation not ok'' []) (ret (h\<lparr>finish := True\<rparr>)))
      else if getOpt event = S_FINISH then on_finish optOk event h
      else sq (unexpected event) (ret h))"

definition ChatGreetEventHandler_process :: "bool \<Rightarrow> Event \<Rightarrow> handler \<Rightarrow> (gsrv, handler) cpp" where
  "ChatGreetEventHandler_process optOk event h =
     (if getOpt event = S_RECEIVE then
        sq (new_ChatGreet (h_cq h))
        (if optOk then
           sq (LOG LogInfo (''Greet request: {} - '' @ quoted) [fst (h_request h), snd (h_request h)])
           (bnd GetCurrentTimeString (\<lambda>ts.
            sq (start_op (Finish StatusOK (Some (Words ts ''Me too!''))) (setOpt S_FINISH event))
            (ret h)))
         else sq (LOG LogError ''operation not ok'' []) (ret (h\<lparr>finish := True\<rparr>)))
      else if getOpt event = S_FINISH then on_finish optOk event h
      else sq (unexpected event) (ret h))"

definition ChatListenEventHandler_process ::
  "bool \<Rightarrow> Event \<Rightarrow> handler \<Rightarrow> message list \<Rightarrow> (gsrv, handler \<times> message list) cpp" where
  "ChatListenEventHandler_process optOk event h responses =
     (if getOpt event = S_RECEIVE then
        sq (new_ChatListen (h_cq h))
        (if optOk then
           sq (LOG LogInfo (''Listen request: {} - '' @ quoted) [fst (h_request h), snd (h_request h)])
           (bnd GetCurrentTimeString (\<lambda>t1.
            bnd GetCurrentTimeString (\<lambda>t2.
            bnd GetCurrentTimeString (\<lambda>t3.
            let q = responses @ [Words t1 ''aaa'', Words t2 ''bbb'', Words t3 ''ccc''] in
            sq (start_op (Write (hd q)) (setOpt S_WRITE event))
            (ret (h, tl q))))))
         else sq (LOG LogError ''Receive operation not ok'' []) (ret (h\<lparr>finish := True\<rparr>, responses)))
      else if getOpt event = S_WRITE then
        (if optOk then
           (case responses of
              [] \<Rightarrow> sq (start_op (Finish StatusOK None) (setOpt S_FINISH event)) (ret (h, []))
            | r # rs \<Rightarrow> sq (start_op (Write r) (setOpt S_WRITE event)) (ret (h, rs)))
         else sq (LOG LogError ''Write operation not ok'' []) (ret (h\<lparr>finish := True\<rparr>, responses)))
      else if getOpt event = S_FINISH then bnd (on_finish optOk event h) (\<lambda>h. ret (h, responses))
      else sq (unexpected event) (ret (h, responses)))"

definition ChatSpeakEventHandler_process :: "bool \<Rightarrow> Event \<Rightarrow> handler \<Rightarrow> (gsrv, handler) cpp" where
  "ChatSpeakEventHandler_process optOk event h =
     (if getOpt event = S_RECEIVE then
        sq (new_ChatSpeak (h_cq h))
        (if optOk then sq (start_op Read (setOpt S_READ event)) (ret h)
         else sq (LOG LogError ''Receive operation not ok'' []) (ret (h\<lparr>finish := True\<rparr>)))
      else if getOpt event = S_READ then
        (if optOk then
           sq (LOG LogInfo (''Speak request: {} - '' @ quoted) [fst (h_request h), snd (h_request h)])
           (sq (start_op Read event) (ret h))
         else
           bnd GetCurrentTimeString (\<lambda>ts.
           sq (start_op (Finish StatusOK (Some (Words ts ''OK.''))) (setOpt S_FINISH event)) (ret h)))
      else if getOpt event = S_FINISH then on_finish optOk event h
      else sq (unexpected event) (ret h))"

definition ChatTalkEventHandler_process :: "bool \<Rightarrow> Event \<Rightarrow> handler \<Rightarrow> (gsrv, handler) cpp" where
  "ChatTalkEventHandler_process optOk event h =
     (let key = show_key (getKey event) in
      if getOpt event = S_RECEIVE then
        sq (new_ChatTalk (h_cq h))
        (if optOk then
           sq (LOG LogDebug ''Talk recieve, key({})'' [key])
           (sq (start_op Read (setOpt S_READ event)) (ret h))
         else sq (LOG LogError ''Talk receive operation not ok, key({})'' [key]) (ret (h\<lparr>finish := True\<rparr>)))
      else if getOpt event = S_READ then
        (if optOk then
           sq (LOG LogInfo (''Talk request: {} - '' @ quoted @ '', key({})'') [fst (h_request h), snd (h_request h), key])
           (bnd GetCurrentTimeString (\<lambda>ts.
            sq (start_op (Write (Words ts (snd (h_request h)))) (setOpt S_WRITE event)) (ret h)))
         else
           sq (LOG LogInfo ''Talk read end, key({})'' [key])
           (sq (start_op (Finish StatusOK None) (setOpt S_FINISH event)) (ret h)))
      else if getOpt event = S_WRITE then
        (if optOk then
           sq (LOG LogDebug ''Talk write, key({})'' [key])
           (sq (start_op Read (setOpt S_READ event)) (ret h))
         else
           sq (LOG LogError ''Talk write operation not ok, key({})'' [key])
           (sq (start_op (Finish StatusCANCELLED None) event) (ret h)))
      else if getOpt event = S_FINISH then
        sq (LOG LogDebug ''Talk finish, key({})'' [key]) (on_finish optOk event h)
      else sq (unexpected event) (ret (h\<lparr>finish := True\<rparr>)))"

text \<open>The virtual calls \<open>process\<close> and \<open>isComplete\<close>.\<close>

fun EventHandler_process :: "bool \<Rightarrow> Event \<Rightarrow> event_handler \<Rightarrow> (gsrv, event_handler) cpp" where
  "EventHandler_process ok e (HelloEventHandler h) = bnd (HelloEventHandler_process ok e h) (\<lambda>h. ret (HelloEventHandler h))"
| "EventHandler_process ok e (HelloAgainEventHandler h) =
     bnd (HelloAgainEventHandler_process ok e h) (\<lambda>h. ret (HelloAgainEventHandler h))"
| "EventHandler_process ok e (GoodbyeEventHandler h) =
     bnd (GoodbyeEventHandler_process ok e h) (\<lambda>h. ret (GoodbyeEventHandler h))"
| "EventHandler_process ok e (GoodbyeAgainEventHandler h) =
     bnd (GoodbyeAgainEventHandler_process ok e h) (\<lambda>h. ret (GoodbyeAgainEventHandler h))"
| "EventHandler_process ok e (ChatGreetEventHandler h) =
     bnd (ChatGreetEventHandler_process ok e h) (\<lambda>h. ret (ChatGreetEventHandler h))"
| "EventHandler_process ok e (ChatListenEventHandler h q) =
     bnd (ChatListenEventHandler_process ok e h q) (\<lambda>(h, q). ret (ChatListenEventHandler h q))"
| "EventHandler_process ok e (ChatSpeakEventHandler h) =
     bnd (ChatSpeakEventHandler_process ok e h) (\<lambda>h. ret (ChatSpeakEventHandler h))"
| "EventHandler_process ok e (ChatTalkEventHandler h) =
     bnd (ChatTalkEventHandler_process ok e h) (\<lambda>h. ret (ChatTalkEventHandler h))"

fun base :: "event_handler \<Rightarrow> handler" where
  "base (HelloEventHandler h) = h" | "base (HelloAgainEventHandler h) = h"
| "base (GoodbyeEventHandler h) = h" | "base (GoodbyeAgainEventHandler h) = h"
| "base (ChatGreetEventHandler h) = h" | "base (ChatListenEventHandler h q) = h"
| "base (ChatSpeakEventHandler h) = h" | "base (ChatTalkEventHandler h) = h"

definition isComplete :: "event_handler \<Rightarrow> bool" where
  "isComplete h = finish (base h)"

fun map_base :: "(handler \<Rightarrow> handler) \<Rightarrow> event_handler \<Rightarrow> event_handler" where
  "map_base f (HelloEventHandler h) = HelloEventHandler (f h)"
| "map_base f (HelloAgainEventHandler h) = HelloAgainEventHandler (f h)"
| "map_base f (GoodbyeEventHandler h) = GoodbyeEventHandler (f h)"
| "map_base f (GoodbyeAgainEventHandler h) = GoodbyeAgainEventHandler (f h)"
| "map_base f (ChatGreetEventHandler h) = ChatGreetEventHandler (f h)"
| "map_base f (ChatListenEventHandler h q) = ChatListenEventHandler (f h) q"
| "map_base f (ChatSpeakEventHandler h) = ChatSpeakEventHandler (f h)"
| "map_base f (ChatTalkEventHandler h) = ChatTalkEventHandler (f h)"

section \<open>The proactor\<close>

text \<open>
  What happens to one event taken from a queue. The handler is an object shared with the manager's map,
  so what \<open>process\<close> changes in it is changed in the map.
\<close>

definition store :: "event_key_t \<Rightarrow> event_handler \<Rightarrow> (gsrv, unit) cpp" where
  "store k h = mgr (modify (\<lambda>m. m\<lparr>handlers := om_put k h (handlers m)\<rparr>))"

definition fmt_unknown :: string where
  "fmt_unknown = ''event key({}) not exist''"

definition handle_event :: "bool \<Rightarrow> Event \<Rightarrow> (gsrv, unit) cpp" where
  "handle_event ok event =
     bnd (mgr (EventHandlerManager_contains (getKey event))) (\<lambda>known.
     if \<not> known then LOG LogWarn fmt_unknown [show_key (getKey event)]
     else bnd (mgr (EventHandlerManager_get (getKey event))) (\<lambda>h.
          bnd (EventHandler_process ok event h) (\<lambda>h'.
          sq (store (getKey event) h')
          (whenb (isComplete h') (mgr (EventHandlerManager_remove (getKey event)))))))"

text \<open>
  gRPC's part in the delivery of a token: a completed \<open>RECEIVE\<close> or \<open>READ\<close> has stored the data in the
  handler's \<open>request\<close>.
\<close>

definition fill :: "bool \<Rightarrow> Event \<Rightarrow> request \<Rightarrow> gsrv \<Rightarrow> gsrv" where
  "fill ok event rq s =
     (if ok \<and> getOpt event \<in> {S_RECEIVE, S_READ} then
        (case om_get (handlers (handlerManager s)) (getKey event) of
           None \<Rightarrow> s
         | Some h \<Rightarrow> s\<lparr>handlerManager := (handlerManager s)\<lparr>handlers :=
             om_put (getKey event) (map_base (\<lambda>h. h\<lparr>h_request := rq\<rparr>) h) (handlers (handlerManager s))\<rparr>\<rparr>)
      else s)"

fun demux_loop :: "nat \<Rightarrow> (gsrv, unit) cpp" where
  "demux_loop 0 s = (Pending, s)"
| "demux_loop (Suc k) s =
     (case s_next s of
        [] \<Rightarrow> (Pending, s)
      | NextShutdown # as \<Rightarrow>
          bnd (gets order) (\<lambda>ord.
          bnd (mgr EventHandlerManager_count) (\<lambda>n.
          bnd (mgr (EventHandlerManager_getKeys ord)) (\<lambda>ks.
          LOG LogInfo ''cq shutdown, remaining eventHandler count: {}, keys: {}'' [to_string_nat n, ks]))) (s\<lparr>s_next := as\<rparr>)
      | NextTimeout # as \<Rightarrow>
          bnd (mgr EventHandlerManager_count) (\<lambda>n. if n \<noteq> 0 then demux_loop k else skip) (s\<lparr>s_next := as\<rparr>)
      | GotEvent token ok rq # as \<Rightarrow>
          sq (handle_event ok (Event_of_token token)) (demux_loop k) (fill ok (Event_of_token token) rq (s\<lparr>s_next := as\<rparr>)))"

definition new_handlers :: "nat \<Rightarrow> (gsrv, unit) cpp" where
  "new_handlers cq =
     sq (new_Hello cq) (sq (new_HelloAgain cq) (sq (new_Goodbye cq) (sq (new_GoodbyeAgain cq)
     (sq (new_ChatGreet cq) (sq (new_ChatListen cq) (sq (new_ChatSpeak cq) (new_ChatTalk cq)))))))"

definition demux_begin :: "(gsrv, unit) cpp" where
  "demux_begin =
     bnd (\<lambda>s. (Val (cqIdx s), s\<lparr>cqIdx := cqIdx s + 1\<rparr>)) (\<lambda>i.
     bnd (gets cqs) (\<lambda>qs.
     if i < length qs then new_handlers (qs ! i) else undef ''cqs[cqIdx] out of range''))"

definition demultiplex :: "nat \<Rightarrow> (gsrv, unit) cpp" where
  "demultiplex k = sq demux_begin (demux_loop k)"

definition ServerProactor_new :: "nat \<Rightarrow> (nat \<Rightarrow> string) \<Rightarrow> (event_key_t list \<Rightarrow> event_key_t list) \<Rightarrow> u32 \<Rightarrow> gsrv" where
  "ServerProactor_new n clk ord j =
     \<lparr>handlerManager = EventHandlerManager_new, threadPoolSize = n, cqs = [], cqIdx = 0, stopped = False, clock = clk,
      ticks = 0, order = ord, junk = j, s_log = [], inflight = [], started = [], s_next = [],
      g_build = True, grpcServer = False, server_down = False, cqs_down = []\<rparr>"

definition ServerProactor_stop :: "(gsrv, unit) cpp" where
  "ServerProactor_stop = sq (LOG LogInfo ''stop'' []) (modify (\<lambda>s. s\<lparr>stopped := True\<rparr>))"

definition ServerProactor_shutdown :: "(gsrv, unit) cpp" where
  "ServerProactor_shutdown = sq (LOG LogInfo ''shutdown'' []) (modify (\<lambda>s. s\<lparr>cqs_down := cqs_down s @ cqs s\<rparr>))"

definition AsyncServer_stop :: "(gsrv, unit) cpp" where
  "AsyncServer_stop =
     sq (LOG LogInfo ''Stop AsyncServer'' [])
     (sq ServerProactor_stop
     (bnd (gets grpcServer) (\<lambda>g.
      sq (whenb g (modify (\<lambda>s. s\<lparr>server_down := True\<rparr>)))
      (sq ServerProactor_shutdown
      (LOG LogInfo ''AsyncServer stopped'' [])))))"

definition addCompletionQueue :: "nat \<Rightarrow> (gsrv, unit) cpp" where
  "addCompletionQueue q = modify (\<lambda>s. s\<lparr>cqs := cqs s @ [q]\<rparr>)"

text \<open>The queues that \<open>AsyncServer::start\<close> creates, one per thread of the pool.\<close>

primrec add_queues :: "nat \<Rightarrow> (gsrv, unit) cpp" where
  "add_queues 0 = skip"
| "add_queues (Suc n) = sq (add_queues n) (addCompletionQueue n)"

text \<open>
  \<open>startDemuxer\<close> posts \<open>demultiplex\<close> once per thread of the pool: each thread takes the next queue and
  registers its handlers, and then serves events.
\<close>

primrec begin_threads :: "nat \<Rightarrow> (gsrv, unit) cpp" where
  "begin_threads 0 = skip"
| "begin_threads (Suc n) = sq (begin_threads n) demux_begin"

definition startDemuxer :: "(gsrv, unit) cpp" where
  "startDemuxer = bnd (gets threadPoolSize) begin_threads"

text \<open>
  \<open>AsyncServer::start\<close> up to the call of \<open>Wait\<close>, from where on only the threads of the pool run. As in the synchronous
  server, \<open>BuildAndStart\<close> returns no server when the port cannot be used, and \<open>start\<close> does not look: the demultiplexer
  is started all the same and \<open>Wait\<close> is called on a null pointer.
\<close>

definition AsyncServer_start :: "nat \<Rightarrow> (gsrv, unit) cpp" where
  "AsyncServer_start port =
     sq (LOG LogInfo ''SyncServer listening on {}'' [''0.0.0.0:'' @ to_string_nat port])
     (bnd (gets threadPoolSize) (\<lambda>n.
      sq (add_queues n)
     (bnd (gets g_build) (\<lambda>ok. sq (modify (\<lambda>s. s\<lparr>grpcServer := ok\<rparr>))
     (sq startDemuxer (if ok then skip else undef ''grpcServer is null''))))))"

section \<open>The server as a transition system\<close>

text \<open>
  Any operation in flight may complete next, with either flag and any data; the proactor may be stopped
  at any time. The handlers of different queues run in different threads: a handler only touches its own
  object and the manager, whose operations are atomic.
\<close>

inductive srv_step :: "gsrv \<Rightarrow> gsrv \<Rightarrow> bool" where
  complete: "i < length (inflight s) \<Longrightarrow> e = snd (inflight s ! i) \<Longrightarrow>
     handle_event ok e (fill ok e rq (s\<lparr>inflight := take_out i (inflight s)\<rparr>)) = (Val (), s') \<Longrightarrow> srv_step s s'"
| stop: "AsyncServer_stop s = (Val (), s') \<Longrightarrow> srv_step s s'"

end
