(* ===== verification/Grpc_Server_Props.thy ===== *)
theory Grpc_Server_Props
  imports Grpc_Server
begin

text \<open>
  What the gRPC server guarantees: every registered handler has exactly one operation in flight and every
  completion finds the handler it belongs to in a state that expects it; a call is answered as its
  handler says; a stopped server drains; and the one handler, \<open>ChatTalkEventHandler\<close>, that goes wrong
  when a write fails.
\<close>

section \<open>The protocol of a handler\<close>

fun rpc_of :: "event_handler \<Rightarrow> rpc" where
  "rpc_of (HelloEventHandler h) = SayHello" | "rpc_of (HelloAgainEventHandler h) = SayHelloAgain"
| "rpc_of (GoodbyeEventHandler h) = SayGoodbye" | "rpc_of (GoodbyeAgainEventHandler h) = SayGoodbyeAgain"
| "rpc_of (ChatGreetEventHandler h) = Greet" | "rpc_of (ChatListenEventHandler h q) = Listen"
| "rpc_of (ChatSpeakEventHandler h) = Speak" | "rpc_of (ChatTalkEventHandler h) = Talk"

text \<open>
  \<open>fits h c opt\<close>: the handler \<open>h\<close> may have the operation \<open>c\<close> in flight with the code \<open>opt\<close> in its tag. The
  last alternative is the flaw of \<open>ChatTalkEventHandler\<close>: a \<open>Finish\<close> tagged as a write.
\<close>

fun fits :: "event_handler \<Rightarrow> grpc_call \<Rightarrow> event_opt_t \<Rightarrow> bool" where
  "fits h (Request m q) opt \<longleftrightarrow> opt = S_RECEIVE \<and> m = rpc_of h \<and> q = h_cq (base h)"
| "fits h (Write m) opt \<longleftrightarrow> opt = S_WRITE \<and> rpc_of h \<in> {Listen, Talk}"
| "fits h Read opt \<longleftrightarrow> opt = S_READ \<and> rpc_of h \<in> {Speak, Talk}"
| "fits h (Finish st r) opt \<longleftrightarrow> opt = S_FINISH \<or> opt = S_WRITE \<and> rpc_of h = Talk \<and> st = StatusCANCELLED"
| "fits h _ opt \<longleftrightarrow> False"

lemma opts_distinct [simp]:
  "S_RECEIVE \<noteq> S_FINISH" "S_RECEIVE \<noteq> S_WRITE" "S_RECEIVE \<noteq> S_READ" "S_FINISH \<noteq> S_WRITE" "S_FINISH \<noteq> S_READ" "S_WRITE \<noteq> S_READ"
  "S_FINISH \<noteq> S_RECEIVE" "S_WRITE \<noteq> S_RECEIVE" "S_READ \<noteq> S_RECEIVE" "S_WRITE \<noteq> S_FINISH" "S_READ \<noteq> S_FINISH" "S_READ \<noteq> S_WRITE"
  by (simp_all add: S_RECEIVE_def S_FINISH_def S_WRITE_def S_READ_def)

section \<open>What the primitive steps do to handlers and operations\<close>

abbreviation hmap :: "gsrv \<Rightarrow> event_key_t \<Rightarrow> event_handler option" where
  "hmap s \<equiv> om_get (handlers (handlerManager s))"

text \<open>The part of the state the invariant is about.\<close>

definition core :: "gsrv \<Rightarrow> (event_key_t, event_handler) omap \<times> event_key_t \<times> operation list \<times> bool" where
  "core s = (handlers (handlerManager s), lastKey (handlerManager s), inflight s, stopped s)"

lemma LOG_run [cpp_run, cpp_eval]: "LOG l f a s = (Val (), s\<lparr>s_log := s_log s @ [(l, f, a)]\<rparr>)"
  by (simp add: LOG_def cpp_run)

lemma start_op_run [cpp_run, cpp_eval]:
  "start_op c e s = (Val (), s\<lparr>inflight := inflight s @ [(c, e)], started := started s @ [(c, e)]\<rparr>)"
  by (simp add: start_op_def cpp_run)

lemma mgr_run: "mgr m s = (fst (m (handlerManager s)), s\<lparr>handlerManager := snd (m (handlerManager s))\<rparr>)"
  by (simp add: mgr_def split: prod.splits)

text \<open>No event has been reported as unexpected or as belonging to nobody.\<close>

definition clean :: "gsrv \<Rightarrow> bool" where
  "clean s \<longleftrightarrow> (\<forall>x \<in> set (s_log s). fst (snd x) \<notin> {fmt_unexpected, fmt_unknown})"

text \<open>\<open>joined s s'\<close>: a fresh handler may have been registered, with its request in flight.\<close>

definition joined :: "gsrv \<Rightarrow> gsrv \<Rightarrow> bool" where
  "joined s s' \<longleftrightarrow> stopped s' = stopped s \<and> (clean s \<longrightarrow> clean s') \<and>
     (handlers (handlerManager s') = handlers (handlerManager s) \<and> inflight s' = inflight s \<or>
      (\<exists>k h m q. \<not> stopped s \<and> \<not> om_has (handlers (handlerManager s)) k \<and>
         handlers (handlerManager s') = om_put k h (handlers (handlerManager s)) \<and>
         inflight s' = inflight s @ [(Request m q, tok k S_RECEIVE)] \<and>
         fits h (Request m q) S_RECEIVE \<and> \<not> isComplete h))"

text \<open>\<open>moved k h' s s'\<close>: the handler of key \<open>k\<close> is complete, or has one more operation in flight that fits.\<close>

definition moved :: "event_key_t \<Rightarrow> event_handler \<Rightarrow> gsrv \<Rightarrow> gsrv \<Rightarrow> bool" where
  "moved k h' s s' \<longleftrightarrow> stopped s' = stopped s \<and> (clean s \<longrightarrow> clean s') \<and> handlers (handlerManager s') = handlers (handlerManager s) \<and>
     (if isComplete h' then inflight s' = inflight s
      else \<exists>c opt. inflight s' = inflight s @ [(c, tok k opt)] \<and> fits h' c opt)"

text \<open>There is a free key for the next handler, or none will be needed.\<close>

definition room :: "gsrv \<Rightarrow> bool" where
  "room s \<longleftrightarrow> stopped s \<or> (\<exists>k. \<not> om_has (handlers (handlerManager s)) k)"

lemmas clean_simps = clean_def fmt_unexpected_def fmt_unknown_def

lemma registerHandler_run:
  assumes "room s" "fits h (Request m cq) S_RECEIVE" "\<not> isComplete h"
  shows "\<exists>s'. registerHandler m cq h s = (Val (), s') \<and> joined s s'"
proof (cases "stopped s")
  case True
  then show ?thesis by (auto simp: registerHandler_def cpp_run joined_def clean_simps)
next
  case False
  let ?m = "handlerManager s"
  obtain k where k: "next_key (handlers ?m) (lastKey ?m) (lastKey ?m) = Some k"
    using assms(1) False next_key_full[of "handlers ?m" "lastKey ?m"] by (auto simp: room_def)
  have add: "EventHandlerManager_add j h ?m = (Val (Event_of_key j k), ?m\<lparr>lastKey := k, handlers := om_put k h (handlers ?m)\<rparr>)" for j
    using k by (simp add: EventHandlerManager_add_def)
  show ?thesis
    using False next_key_Some[OF k] assms(2,3)
    by (auto simp: registerHandler_def cpp_run mgr_run add joined_def setOpt_key clean_simps)
qed

lemma blank_sel [simp]: "h_cq (blank q) = q" "finish (blank q) = False"
  by (simp_all add: blank_def)

lemmas new_defs = new_Hello_def new_HelloAgain_def new_Goodbye_def new_GoodbyeAgain_def new_ChatGreet_def
  new_ChatListen_def new_ChatSpeak_def new_ChatTalk_def

lemma new_run:
  assumes "room s"
  shows "\<exists>s'. new_Hello q s = (Val (), s') \<and> joined s s'" "\<exists>s'. new_HelloAgain q s = (Val (), s') \<and> joined s s'"
    "\<exists>s'. new_Goodbye q s = (Val (), s') \<and> joined s s'" "\<exists>s'. new_GoodbyeAgain q s = (Val (), s') \<and> joined s s'"
    "\<exists>s'. new_ChatGreet q s = (Val (), s') \<and> joined s s'" "\<exists>s'. new_ChatListen q s = (Val (), s') \<and> joined s s'"
    "\<exists>s'. new_ChatSpeak q s = (Val (), s') \<and> joined s s'" "\<exists>s'. new_ChatTalk q s = (Val (), s') \<and> joined s s'"
  unfolding new_defs by (rule registerHandler_run[OF assms]; simp add: isComplete_def)+

section \<open>One event in one handler\<close>

text \<open>\<open>advances\<close>: the call returns, after at most one registration and one move of the handler itself.\<close>

definition advances :: "event_key_t \<Rightarrow> ('a \<Rightarrow> event_handler) \<Rightarrow> (gsrv, 'a) cpp \<Rightarrow> gsrv \<Rightarrow> bool" where
  "advances k f m s \<longleftrightarrow> (\<exists>s1 a s'. m s = (Val a, s') \<and> joined s s1 \<and> moved k (f a) s1 s')"

lemma joined_refl [simp]: "joined s s"
  by (simp add: joined_def)

lemma advancesI: "m s = (Val a, s') \<Longrightarrow> joined s s1 \<Longrightarrow> moved k (f a) s1 s' \<Longrightarrow> advances k f m s"
  by (auto simp: advances_def)

lemma advances_new:
  assumes "\<exists>s1. r s = (Val (), s1) \<and> joined s s1" "\<And>s. case m s of (Val a, s') \<Rightarrow> moved k (f a) s s' | _ \<Rightarrow> False"
  shows "advances k f (sq r m) s"
proof -
  obtain s1 where s1: "r s = (Val (), s1)" "joined s s1" using assms(1) by blast
  obtain a s' where "m s1 = (Val a, s')" "moved k (f a) s1 s'"
    using assms(2)[of s1] by (auto split: prod.splits outcome.splits)
  with s1 show ?thesis by (auto intro!: advancesI simp: sq_run)
qed

lemma advances_plain: "case m s of (Val a, s') \<Rightarrow> moved k (f a) s s' | _ \<Rightarrow> False \<Longrightarrow> advances k f m s"
  by (force simp: advances_def split: prod.splits outcome.splits)

lemma on_finish_run [cpp_run, cpp_eval]:
  "on_finish ok e h s = (Val (h\<lparr>finish := True\<rparr>),
     if ok then s else s\<lparr>s_log := s_log s @ [(LogError, ''Finish operation not ok, key({})'', [show_key (getKey e)])]\<rparr>)"
  by (simp add: on_finish_def cpp_run)

lemma time_run [cpp_run, cpp_eval]: "GetCurrentTimeString s = (Val (clock s (ticks s)), s\<lparr>ticks := ticks s + 1\<rparr>)"
  by (simp add: GetCurrentTimeString_def)

lemmas step_simps = cpp_eval moved_def isComplete_def clean_simps quoted_def

lemmas process_defs = HelloEventHandler_process_def HelloAgainEventHandler_process_def GoodbyeEventHandler_process_def
  GoodbyeAgainEventHandler_process_def ChatGreetEventHandler_process_def ChatListenEventHandler_process_def
  ChatSpeakEventHandler_process_def ChatTalkEventHandler_process_def

text \<open>The \<open>RECEIVE\<close> branches register a successor first; the others only move the handler itself.\<close>

lemma receive_advances:
  assumes "room s" "\<not> finish h"
  shows "advances k HelloEventHandler (HelloEventHandler_process ok (tok k S_RECEIVE) h) s"
    and "advances k HelloAgainEventHandler (HelloAgainEventHandler_process ok (tok k S_RECEIVE) h) s"
    and "advances k GoodbyeEventHandler (GoodbyeEventHandler_process ok (tok k S_RECEIVE) h) s"
    and "advances k GoodbyeAgainEventHandler (GoodbyeAgainEventHandler_process ok (tok k S_RECEIVE) h) s"
    and "advances k ChatGreetEventHandler (ChatGreetEventHandler_process ok (tok k S_RECEIVE) h) s"
    and "advances k (\<lambda>(h, q). ChatListenEventHandler h q) (ChatListenEventHandler_process ok (tok k S_RECEIVE) h q) s"
    and "advances k ChatSpeakEventHandler (ChatSpeakEventHandler_process ok (tok k S_RECEIVE) h) s"
    and "advances k ChatTalkEventHandler (ChatTalkEventHandler_process ok (tok k S_RECEIVE) h) s"
  unfolding process_defs Let_def
  by (simp only: getOpt_tok if_True simp_thms, rule advances_new, rule new_run[OF assms(1)],
      (cases ok; simp add: step_simps Let_def assms))+

lemma later_advances:
  assumes "\<not> finish h"
  shows "advances k HelloEventHandler (HelloEventHandler_process ok (tok k S_FINISH) h) s"
    and "advances k HelloAgainEventHandler (HelloAgainEventHandler_process ok (tok k S_FINISH) h) s"
    and "advances k GoodbyeEventHandler (GoodbyeEventHandler_process ok (tok k S_FINISH) h) s"
    and "advances k GoodbyeAgainEventHandler (GoodbyeAgainEventHandler_process ok (tok k S_FINISH) h) s"
    and "advances k ChatGreetEventHandler (ChatGreetEventHandler_process ok (tok k S_FINISH) h) s"
    and "opt \<in> {S_WRITE, S_FINISH} \<Longrightarrow>
      advances k (\<lambda>(h, q). ChatListenEventHandler h q) (ChatListenEventHandler_process ok (tok k opt) h q) s"
    and "opt \<in> {S_READ, S_FINISH} \<Longrightarrow> advances k ChatSpeakEventHandler (ChatSpeakEventHandler_process ok (tok k opt) h) s"
    and "opt \<in> {S_READ, S_WRITE, S_FINISH} \<Longrightarrow>
      advances k ChatTalkEventHandler (ChatTalkEventHandler_process ok (tok k opt) h) s"
  unfolding process_defs Let_def
  by (rule advances_plain, ((elim insertE emptyE)?; cases ok; simp add: step_simps assms split: list.split))+

lemma advances_bnd: "advances k f m s \<Longrightarrow> (\<And>a. g a = ret (f a)) \<Longrightarrow> advances k id (bnd m g) s"
  by (force simp: advances_def cpp_run)

lemma process_advances:
  assumes "opt = S_RECEIVE \<Longrightarrow> room s" "\<not> isComplete h" "fits h c opt"
  shows "advances k id (EventHandler_process ok (tok k opt) h) s"
  using assms
  by (cases h; cases c) (auto simp: isComplete_def intro!: advances_bnd receive_advances later_advances)

text \<open>Without room, the exception of \<open>add\<close> leaves the constructor and \<open>process\<close>.\<close>

definition throws :: "(gsrv, 'a) cpp \<Rightarrow> gsrv \<Rightarrow> bool" where
  "throws m s \<longleftrightarrow> (\<exists>x s'. m s = (Throw x, s'))"

lemma throws_seq: "throws m s \<Longrightarrow> throws (sq m k) s" "throws l s \<Longrightarrow> throws (bnd l f) s"
  by (auto simp: throws_def cpp_run)

lemma registerHandler_full: "\<not> room s \<Longrightarrow> throws (registerHandler m q h) s"
  using next_key_full[of "handlers (handlerManager s)" "lastKey (handlerManager s)"]
  by (auto simp: throws_def registerHandler_def cpp_run mgr_run room_def EventHandlerManager_add_def)

lemma process_full: "\<not> room s \<Longrightarrow> throws (EventHandler_process ok (tok k S_RECEIVE) h) s"
  by (cases h; simp only: EventHandler_process.simps process_defs Let_def getOpt_tok if_True simp_thms new_defs)
    (intro throws_seq registerHandler_full, assumption)+

section \<open>The invariant\<close>

text \<open>
  The operations in flight are those of the registered handlers, one each, except for the handlers of
  the keys \<open>K\<close>, which have none; every operation fits its handler.
\<close>

definition ops_ok :: "event_key_t set \<Rightarrow> gsrv \<Rightarrow> bool" where
  "ops_ok K s \<longleftrightarrow> distinct (keys_of (inflight s)) \<and> set (keys_of (inflight s)) = dom (hmap s) - K \<and>
     (\<forall>c e. (c, e) \<in> set (inflight s) \<longrightarrow> (\<forall>h. hmap s (getKey e) = Some h \<longrightarrow> \<not> isComplete h \<and> fits h c (getOpt e)))"

lemma key_mem: "(c, e) \<in> set ops \<Longrightarrow> getKey e \<in> set (keys_of ops)"
  by (force simp: keys_of_def)

lemma om_has_dom: "om_has m k \<longleftrightarrow> k \<in> dom (om_get m)"
  by (auto simp: om_has_def)

lemma joined_ok:
  assumes "ops_ok K s" "joined s s'" "K \<subseteq> dom (hmap s)"
  shows "ops_ok K s'" "\<And>k. k \<in> dom (hmap s) \<Longrightarrow> hmap s' k = hmap s k"
proof -
  have "ops_ok K s' \<and> (\<forall>k \<in> dom (hmap s). hmap s' k = hmap s k)"
    using assms(2) unfolding joined_def
  proof (elim conjE disjE exE)
    fix k h m q
    assume new: "\<not> om_has (handlers (handlerManager s)) k" "handlers (handlerManager s') = om_put k h (handlers (handlerManager s))"
      "inflight s' = inflight s @ [(Request m q, tok k S_RECEIVE)]" "fits h (Request m q) S_RECEIVE" "\<not> isComplete h"
    have k: "k \<notin> dom (hmap s)" using new(1) by (simp add: om_has_dom)
    have d: "dom (hmap s') = insert k (dom (hmap s))" using new(2) by (auto simp: dom_def)
    have keys: "set (keys_of (inflight s)) = dom (hmap s) - K" using assms(1) by (simp add: ops_ok_def)
    have "distinct (keys_of (inflight s'))" using new(3) assms(1) k keys by (simp add: ops_ok_def)
    moreover have "set (keys_of (inflight s')) = dom (hmap s') - K" using new(3) keys d k assms(3) by auto
    moreover have "\<not> isComplete h' \<and> fits h' c (getOpt e)"
      if "(c, e) \<in> set (inflight s')" "hmap s' (getKey e) = Some h'" for c e h'
    proof (cases "(c, e) \<in> set (inflight s)")
      case True
      then have "getKey e \<noteq> k" using key_mem[OF True] keys k by auto
      then show ?thesis using True that(2) new(2) assms(1) by (simp add: ops_ok_def)
    next
      case False
      then show ?thesis using that new by auto
    qed
    ultimately show ?thesis using k new(2) unfolding ops_ok_def by auto
  qed (use assms(1) in \<open>simp add: ops_ok_def\<close>)
  then show "ops_ok K s'" "\<And>k. k \<in> dom (hmap s) \<Longrightarrow> hmap s' k = hmap s k" by auto
qed

text \<open>Storing the handler after its move closes the gap.\<close>

lemma moved_ok:
  assumes "ops_ok {k} s" "k \<in> dom (hmap s)" "moved k h' s s1"
    and s': "hmap s' = (hmap s1)(k := if isComplete h' then None else Some h')" "inflight s' = inflight s1"
  shows "ops_ok {} s'"
proof (cases "isComplete h'")
  case True
  with assms show ?thesis by (force simp: ops_ok_def moved_def dest: key_mem)
next
  case False
  with assms(3) obtain c opt where m: "hmap s1 = hmap s" "inflight s1 = inflight s @ [(c, tok k opt)]" "fits h' c opt"
    by (auto simp: moved_def)
  have keys: "set (keys_of (inflight s)) = dom (hmap s) - {k}" using assms(1) by (simp add: ops_ok_def)
  have "distinct (keys_of (inflight s'))" using m s' keys assms(1) by (simp add: ops_ok_def)
  moreover have "set (keys_of (inflight s')) = dom (hmap s')" using m s' keys False assms(2) by auto
  moreover have "\<not> isComplete h \<and> fits h c' (getOpt e)"
    if "(c', e) \<in> set (inflight s')" "hmap s' (getKey e) = Some h" for c' e h
  proof (cases "(c', e) \<in> set (inflight s)")
    case True
    then have "getKey e \<noteq> k" using key_mem[OF True] keys by auto
    then show ?thesis using True that(2) s' m(1) assms(1) by (simp add: ops_ok_def)
  next
    case ne: False
    then show ?thesis using that m s' False by auto
  qed
  ultimately show ?thesis unfolding ops_ok_def by simp
qed

section \<open>Every event is handled\<close>

lemma fill_sel [simp]:
  "inflight (fill ok e rq s) = inflight s" "stopped (fill ok e rq s) = stopped s" "s_log (fill ok e rq s) = s_log s"
  by (simp_all add: fill_def split: option.split)

lemma map_base_request [simp]:
  "isComplete (map_base (\<lambda>h. h\<lparr>h_request := rq\<rparr>) h) = isComplete h"
  "fits (map_base (\<lambda>h. h\<lparr>h_request := rq\<rparr>) h) c opt = fits h c opt"
  "rpc_of (map_base (\<lambda>h. h\<lparr>h_request := rq\<rparr>) h) = rpc_of h"
  by (cases h; cases c; simp add: isComplete_def)+

lemma hmap_fill: "hmap (fill ok e rq s) k =
    (if ok \<and> getOpt e \<in> {S_RECEIVE, S_READ} \<and> k = getKey e then map_option (map_base (\<lambda>h. h\<lparr>h_request := rq\<rparr>)) (hmap s k) else hmap s k)"
  by (auto simp: fill_def split: option.split)

lemma dom_fill: "dom (hmap (fill ok e rq s)) = dom (hmap s)"
  by (auto simp: hmap_fill dom_def split: if_splits)

lemma ops_ok_fill: "ops_ok K s \<Longrightarrow> ops_ok K (fill ok e rq s)"
  unfolding ops_ok_def dom_fill fill_sel by (auto simp: hmap_fill split: if_splits)

lemma ops_ok_take_out:
  assumes "ops_ok {} s" "i < length (inflight s)" "inflight s ! i = (c, e)"
  shows "ops_ok {getKey e} (s\<lparr>inflight := take_out i (inflight s)\<rparr>)"
    and "\<exists>h. hmap s (getKey e) = Some h \<and> \<not> isComplete h \<and> fits h c (getOpt e)"
proof -
  let ?ks = "keys_of (inflight s)"
  have ks: "distinct ?ks" "set ?ks = dom (hmap s)" "i < length ?ks" "?ks ! i = getKey e"
    using assms by (simp_all add: ops_ok_def keys_of_def)
  show "ops_ok {getKey e} (s\<lparr>inflight := take_out i (inflight s)\<rparr>)"
    using distinct_take_out[OF ks(1,3)] ks assms(1) mset_split_take_out[OF assms(2)]
    by (auto simp: ops_ok_def take_out_keys)
  have mem: "(c, e) \<in> set (inflight s)" using assms(2,3) nth_mem by fastforce
  then have "getKey e \<in> dom (hmap s)" using key_mem[OF mem] ks(2) by simp
  with mem assms(1) show "\<exists>h. hmap s (getKey e) = Some h \<and> \<not> isComplete h \<and> fits h c (getOpt e)"
    by (auto simp: ops_ok_def)
qed

lemma mgr_ops [cpp_run, cpp_eval]:
  "mgr (EventHandlerManager_contains k) s = (Val (om_has (handlers (handlerManager s)) k), s)"
  "hmap s k = Some h \<Longrightarrow> mgr (EventHandlerManager_get k) s = (Val h, s)"
  "mgr (EventHandlerManager_remove k) s =
     (Val (), s\<lparr>handlerManager := (handlerManager s)\<lparr>handlers := om_del k (handlers (handlerManager s))\<rparr>\<rparr>)"
  "store k h s = (Val (), s\<lparr>handlerManager := (handlerManager s)\<lparr>handlers := om_put k h (handlers (handlerManager s))\<rparr>\<rparr>)"
  by (simp_all add: mgr_def store_def EventHandlerManager_contains_def EventHandlerManager_get_def
      EventHandlerManager_remove_def cpp_run)

text \<open>The state after an event: the handler's object has changed in the map, or it is gone from it.\<close>

definition handled :: "event_key_t \<Rightarrow> event_handler \<Rightarrow> gsrv \<Rightarrow> gsrv" where
  "handled k h s = s\<lparr>handlerManager := (handlerManager s)\<lparr>handlers :=
     (if isComplete h then om_del k (om_put k h (handlers (handlerManager s))) else om_put k h (handlers (handlerManager s)))\<rparr>\<rparr>"

lemma handled_sel [simp]:
  "inflight (handled k h s) = inflight s" "s_log (handled k h s) = s_log s" "stopped (handled k h s) = stopped s"
  "started (handled k h s) = started s" "ticks (handled k h s) = ticks s" "clock (handled k h s) = clock s"
  "hmap (handled k h s) = (hmap s)(k := if isComplete h then None else Some h)"
  by (simp_all add: handled_def fun_eq_iff)

lemma handle_event_run:
  "hmap s (getKey e) = Some h \<Longrightarrow> EventHandler_process ok e h s = (Val h', s') \<Longrightarrow>
     handle_event ok e s = (Val (), handled (getKey e) h' s')"
  by (simp add: handle_event_def cpp_run om_has_dom domI handled_def)

lemma handle_event_ok:
  assumes "ops_ok {} s" "i < length (inflight s)" "e = snd (inflight s ! i)" "clean s"
    and "getOpt e = S_RECEIVE \<Longrightarrow> room s"
  shows "\<exists>s'. handle_event ok e (fill ok e rq (s\<lparr>inflight := take_out i (inflight s)\<rparr>)) = (Val (), s') \<and>
    ops_ok {} s' \<and> clean s'"
proof -
  obtain c where c: "inflight s ! i = (c, e)" using assms(3) by (metis prod.collapse)
  let ?s0 = "fill ok e rq (s\<lparr>inflight := take_out i (inflight s)\<rparr>)"
  have ok0: "ops_ok {getKey e} ?s0" by (intro ops_ok_fill ops_ok_take_out(1)[OF assms(1,2) c])
  have "\<exists>h0. hmap ?s0 (getKey e) = Some h0 \<and> \<not> isComplete h0 \<and> fits h0 c (getOpt e)"
    using ops_ok_take_out(2)[OF assms(1,2) c] by (cases "ok \<and> getOpt e \<in> {S_RECEIVE, S_READ}") (auto simp: hmap_fill)
  then obtain h0 where h0: "hmap ?s0 (getKey e) = Some h0" "\<not> isComplete h0" "fits h0 c (getOpt e)" by blast
  have room0: "getOpt e = S_RECEIVE \<Longrightarrow> room ?s0"
    using assms(5) dom_fill[of ok e rq "s\<lparr>inflight := take_out i (inflight s)\<rparr>"] by (auto simp: room_def om_has_dom)
  from process_advances[OF room0 h0(2,3), of "getKey e" ok]
  obtain s1 h' s2 where p: "EventHandler_process ok e h0 ?s0 = (Val h', s2)" "joined ?s0 s1" "moved (getKey e) h' s1 s2"
    unfolding Event_is_tok[symmetric] by (auto simp: advances_def)
  have k0: "{getKey e} \<subseteq> dom (hmap ?s0)" using h0(1) by auto
  note j = joined_ok[OF ok0 p(2) k0]
  have k1: "getKey e \<in> dom (hmap s1)" using j(2)[of "getKey e"] h0(1) by auto
  have "clean ?s0" using assms(4) by (simp add: clean_def)
  then have clean2: "clean s2" using p(2,3) by (auto simp: joined_def moved_def)
  let ?s' = "handled (getKey e) h' s2"
  have run: "handle_event ok e ?s0 = (Val (), ?s')" by (rule handle_event_run[OF h0(1) p(1)])
  have "ops_ok {} ?s'" using moved_ok[OF j(1) k1 p(3), of ?s'] by simp
  moreover have "clean ?s'" using clean2 by (simp add: clean_def)
  ultimately show ?thesis using run by blast
qed

section \<open>The server from its start\<close>

lemma finite_hmap: "finite (dom (hmap s))"
  by (simp add: om_get_def finite_dom_map_of)

lemma room_card: "card (dom (hmap s)) < 2 ^ 32 \<Longrightarrow> room s"
proof (rule ccontr)
  assume "card (dom (hmap s)) < 2 ^ 32" "\<not> room s"
  then have "dom (hmap s) = UNIV" by (auto simp: room_def om_has_dom)
  then show False using \<open>card (dom (hmap s)) < 2 ^ 32\<close> by (simp add: card_word)
qed

lemma joined_card: "joined s s' \<Longrightarrow> card (dom (hmap s')) \<le> card (dom (hmap s)) + 1"
  unfolding joined_def
proof (elim conjE disjE exE)
  fix k h m q assume "handlers (handlerManager s') = om_put k h (handlers (handlerManager s))"
  then have "dom (hmap s') = insert k (dom (hmap s))" by (auto simp: dom_def)
  then show ?thesis using card_insert_le_m1[of "Suc (card (dom (hmap s)))" "dom (hmap s)" k] finite_hmap[of s]
    by (simp add: card_insert_if)
qed simp

text \<open>\<open>joins n m\<close>: with room for \<open>n\<close> more, \<open>m\<close> registers at most \<open>n\<close> handlers and keeps the invariant.\<close>

definition joins :: "nat \<Rightarrow> (gsrv, unit) cpp \<Rightarrow> bool" where
  "joins n m \<longleftrightarrow> (\<forall>s. card (dom (hmap s)) + n < 2 ^ 32 + 1 \<longrightarrow> ops_ok {} s \<longrightarrow> clean s \<longrightarrow>
     (\<exists>s'. m s = (Val (), s') \<and> ops_ok {} s' \<and> clean s' \<and> card (dom (hmap s')) \<le> card (dom (hmap s)) + n))"

lemma joins_new:
  "joins 1 (new_Hello q)" "joins 1 (new_HelloAgain q)" "joins 1 (new_Goodbye q)" "joins 1 (new_GoodbyeAgain q)"
  "joins 1 (new_ChatGreet q)" "joins 1 (new_ChatListen q)" "joins 1 (new_ChatSpeak q)" "joins 1 (new_ChatTalk q)"
proof -
  have one: "joins 1 m" if "\<And>s. room s \<Longrightarrow> \<exists>s'. m s = (Val (), s') \<and> joined s s'" for m
    unfolding joins_def
  proof (intro allI impI)
    note runs = that
    fix s assume "card (dom (hmap s)) + 1 < 2 ^ 32 + 1" "ops_ok {} s" "clean s"
    then obtain s' where "m s = (Val (), s')" "joined s s'" using runs[of s] room_card[of s] by auto
    then show "\<exists>s'. m s = (Val (), s') \<and> ops_ok {} s' \<and> clean s' \<and> card (dom (hmap s')) \<le> card (dom (hmap s)) + 1"
      using joined_ok(1)[OF \<open>ops_ok {} s\<close>] joined_card \<open>clean s\<close> by (auto simp: joined_def)
  qed
  show "joins 1 (new_Hello q)" "joins 1 (new_HelloAgain q)" "joins 1 (new_Goodbye q)" "joins 1 (new_GoodbyeAgain q)"
    "joins 1 (new_ChatGreet q)" "joins 1 (new_ChatListen q)" "joins 1 (new_ChatSpeak q)" "joins 1 (new_ChatTalk q)"
    by (rule one, erule new_run)+
qed

lemma joins_sq: "joins a m \<Longrightarrow> joins b k \<Longrightarrow> joins (a + b) (sq m k)"
  unfolding joins_def
proof (intro allI impI)
  fix s assume m: "\<forall>s. card (dom (hmap s)) + a < 2 ^ 32 + 1 \<longrightarrow> ops_ok {} s \<longrightarrow> clean s \<longrightarrow>
      (\<exists>s'. m s = (Val (), s') \<and> ops_ok {} s' \<and> clean s' \<and> card (dom (hmap s')) \<le> card (dom (hmap s)) + a)"
    and k: "\<forall>s. card (dom (hmap s)) + b < 2 ^ 32 + 1 \<longrightarrow> ops_ok {} s \<longrightarrow> clean s \<longrightarrow>
      (\<exists>s'. k s = (Val (), s') \<and> ops_ok {} s' \<and> clean s' \<and> card (dom (hmap s')) \<le> card (dom (hmap s)) + b)"
    and s: "card (dom (hmap s)) + (a + b) < 2 ^ 32 + 1" "ops_ok {} s" "clean s"
  obtain s1 where 1: "m s = (Val (), s1)" "ops_ok {} s1" "clean s1" "card (dom (hmap s1)) \<le> card (dom (hmap s)) + a"
    using m s by force
  then obtain s2 where "k s1 = (Val (), s2)" "ops_ok {} s2" "clean s2" "card (dom (hmap s2)) \<le> card (dom (hmap s1)) + b"
    using k s(1) by force
  with 1 show "\<exists>s'. sq m k s = (Val (), s') \<and> ops_ok {} s' \<and> clean s' \<and> card (dom (hmap s')) \<le> card (dom (hmap s)) + (a + b)"
    by (auto simp: sq_run)
qed

lemma joins_new_handlers: "joins 8 (new_handlers q)"
  using joins_sq[OF joins_new(1) joins_sq[OF joins_new(2) joins_sq[OF joins_new(3) joins_sq[OF joins_new(4)
    joins_sq[OF joins_new(5) joins_sq[OF joins_new(6) joins_sq[OF joins_new(7) joins_new(8)]]]]]], of q q q q q q q q]
  by (simp add: new_handlers_def eval_nat_numeral)

text \<open>The queues stay, and every thread takes the next one.\<close>

definition queues :: "gsrv \<Rightarrow> nat list \<times> nat" where
  "queues s = (cqs s, cqIdx s)"

lemma keeps_queues: "keeps (\<lambda>s. queues s = x) (new_handlers q)"
  unfolding new_handlers_def new_defs registerHandler_def LOG_def start_op_def mgr_def
  by (intro keeps_sq keeps_bnd keeps_if keeps_gets keeps_modify keepsI) (auto simp: queues_def split: prod.splits)

lemma begin_threads_run:
  assumes "ops_ok {} s" "clean s" "length (cqs s) = n" "cqIdx s = 0" "card (dom (hmap s)) = 0" "8 * n \<le> 2 ^ 32"
  shows "m \<le> n \<Longrightarrow> \<exists>s'. begin_threads m s = (Val (), s') \<and> ops_ok {} s' \<and> clean s' \<and> queues s' = (cqs s, m) \<and>
    card (dom (hmap s')) \<le> 8 * m"
proof (induction m)
  case 0
  then show ?case using assms by (simp add: cpp_run queues_def)
next
  case (Suc m)
  then obtain s1 where 1: "begin_threads m s = (Val (), s1)" "ops_ok {} s1" "clean s1" "queues s1 = (cqs s, m)"
    "card (dom (hmap s1)) \<le> 8 * m" by auto
  let ?t = "s1\<lparr>cqIdx := m + 1\<rparr>"
  have t: "ops_ok {} ?t" "clean ?t" "card (dom (hmap ?t)) + 8 < 2 ^ 32 + 1" "queues ?t = (cqs s, Suc m)"
    using 1 assms(6) Suc.prems by (simp_all add: ops_ok_def clean_def queues_def)
  then obtain s2 where 2: "new_handlers (cqs s ! m) ?t = (Val (), s2)" "ops_ok {} s2" "clean s2"
    "card (dom (hmap s2)) \<le> card (dom (hmap ?t)) + 8"
    using joins_new_handlers[of "cqs s ! m"] unfolding joins_def by blast
  have "queues s2 = (cqs s, Suc m)" using keepsD[OF keeps_queues t(4), of "cqs s ! m"] 2(1) by simp
  moreover have "begin_threads (Suc m) s = (Val (), s2)"
    using 1 2(1) assms(3) Suc.prems by (simp add: cpp_run demux_begin_def queues_def)
  ultimately show ?case using 1(5) 2 by (intro exI[of _ s2]) simp
qed

lemma add_queues_run: "add_queues n s = (Val (), s\<lparr>cqs := cqs s @ [0..<n]\<rparr>)"
  by (induction n) (simp_all add: cpp_run addCompletionQueue_def)

lemma AsyncServer_start_run:
  assumes "8 * n \<le> 2 ^ 32"
  shows "\<exists>s. AsyncServer_start port (ServerProactor_new n clk ord j) = (Val (), s) \<and> ops_ok {} s \<and> clean s"
proof -
  let ?s = "ServerProactor_new n clk ord j\<lparr>s_log := [(LogInfo, ''SyncServer listening on {}'', [''0.0.0.0:'' @ to_string_nat port])],
      cqs := [0..<n], grpcServer := True\<rparr>"
  have none: "om_get om_empty = (\<lambda>k :: event_key_t. None :: event_handler option)" by (rule ext) simp
  have "ops_ok {} ?s" "clean ?s" "card (dom (hmap ?s)) = 0" "cqIdx ?s = 0" "length (cqs ?s) = n"
    by (simp_all add: ops_ok_def clean_simps ServerProactor_new_def EventHandlerManager_new_def none)
  from begin_threads_run[OF this(1,2,5,4,3) assms order.refl] obtain s where
    "begin_threads n ?s = (Val (), s)" "ops_ok {} s" "clean s" by auto
  then show ?thesis
    by (intro exI[of _ s]) (simp add: AsyncServer_start_def startDemuxer_def cpp_eval add_queues_run ServerProactor_new_def)
qed

lemma handle_event_full:
  assumes "ops_ok {} s" "i < length (inflight s)" "e = snd (inflight s ! i)" "\<not> room s" "getOpt e = S_RECEIVE"
  shows "throws (handle_event ok e) (fill ok e rq (s\<lparr>inflight := take_out i (inflight s)\<rparr>))"
proof -
  let ?s0 = "fill ok e rq (s\<lparr>inflight := take_out i (inflight s)\<rparr>)"
  obtain c where c: "inflight s ! i = (c, e)" using assms(3) by (metis prod.collapse)
  have "getKey e \<in> dom (hmap ?s0)" using ops_ok_take_out(2)[OF assms(1,2) c] unfolding dom_fill by auto
  then obtain h where h: "hmap ?s0 (getKey e) = Some h" by auto
  have "\<not> room ?s0" using assms(4) dom_fill[of ok e rq "s\<lparr>inflight := take_out i (inflight s)\<rparr>"]
    by (auto simp: room_def om_has_dom)
  then have "throws (EventHandler_process ok e h) ?s0"
    using process_full[of ?s0 ok "getKey e" h] assms(5) Event_is_tok[of e] by simp
  then show ?thesis using h by (auto simp: handle_event_def cpp_run om_has_dom throws_def)
qed

lemma AsyncServer_stop_run:
  "\<exists>s'. AsyncServer_stop s = (Val (), s') \<and> stopped s' \<and> inflight s' = inflight s \<and> handlerManager s' = handlerManager s \<and>
     (clean s \<longrightarrow> clean s')"
  by (cases "grpcServer s")
    (simp_all add: AsyncServer_stop_def ServerProactor_stop_def ServerProactor_shutdown_def cpp_eval clean_simps)

lemma srv_step_ok: "srv_step s s' \<Longrightarrow> ops_ok {} s \<Longrightarrow> clean s \<Longrightarrow> ops_ok {} s' \<and> clean s'"
proof (induction rule: srv_step.induct)
  case (complete i s e ok rq s')
  then have "getOpt e = S_RECEIVE \<Longrightarrow> room s"
    using handle_event_full[OF complete(4,1,2), of ok rq] by (auto simp: throws_def)
  then show ?case using handle_event_ok[OF complete(4,1,2,5), of ok rq] complete(3) by auto
next
  case (stop s s')
  then show ?case using AsyncServer_stop_run[of s] by (auto simp: ops_ok_def)
qed

text \<open>
  C24. Every handler has exactly one operation in flight, and every completion is expected. Start the server with
  any number of threads (at most \<open>2 ^ 29\<close>), let operations complete in any order, with any flag and any data,
  and stop it at any time: the keys in the tags of the operations in flight are exactly the keys of the
  registered handlers, each once; no event has ever been reported as unexpected or as having no
  handler; and any operation in flight can be completed, with the exception of \<open>add\<close> (all keys in use)
  as the only way to fail.
\<close>

theorem one_operation_per_handler:
  assumes "8 * n \<le> 2 ^ 32" "AsyncServer_start port (ServerProactor_new n clk ord j) = (Val (), s0)" "srv_step\<^sup>*\<^sup>* s0 s"
  shows "distinct (keys_of (inflight s)) \<and> set (keys_of (inflight s)) = dom (hmap s) \<and>
    (\<forall>x \<in> set (s_log s). fst (snd x) \<notin> {fmt_unexpected, fmt_unknown}) \<and>
    (\<forall>i ok rq. i < length (inflight s) \<longrightarrow> card (dom (hmap s)) < 2 ^ 32 \<longrightarrow>
       (\<exists>s'. handle_event ok (snd (inflight s ! i)) (fill ok (snd (inflight s ! i)) rq (s\<lparr>inflight := take_out i (inflight s)\<rparr>)) =
          (Val (), s')))"
proof -
  have "ops_ok {} s0 \<and> clean s0" using AsyncServer_start_run[OF assms(1), of port clk ord j] assms(2) by auto
  with assms(3) have s: "ops_ok {} s \<and> clean s"
    by (induction rule: rtranclp_induct) (use srv_step_ok in blast)+
  have "\<exists>s'. handle_event ok (snd (inflight s ! i)) (fill ok (snd (inflight s ! i)) rq (s\<lparr>inflight := take_out i (inflight s)\<rparr>)) =
      (Val (), s')" if "i < length (inflight s)" "card (dom (hmap s)) < 2 ^ 32" for i ok rq
    using handle_event_ok[of s i _ ok rq] s that room_card by blast
  then show ?thesis using s by (auto simp: ops_ok_def clean_def)
qed

lemma one_operation_per_handler_witness:
  "\<exists>s. AsyncServer_start 50051 (ServerProactor_new 4 (\<lambda>_. []) id 0) = (Val (), s) \<and> set (keys_of (inflight s)) = dom (hmap s)"
proof -
  obtain s where s: "AsyncServer_start 50051 (ServerProactor_new 4 (\<lambda>_. []) id 0) = (Val (), s)"
    using AsyncServer_start_run[of 4 50051 "\<lambda>_. []" id 0] by auto
  with one_operation_per_handler[OF _ s rtranclp.rtrancl_refl] show ?thesis by auto
qed

end
