(* ===== verification/Grpc_Calls.thy ===== *)
theory Grpc_Calls
  imports Grpc_Server_Props
begin

text \<open>
  Whole calls of the gRPC server: the answers of the unary methods, the echo of \<open>talk\<close>, the end of a
  stopped server, and the failed write that \<open>ChatTalkEventHandler\<close> never recovers from.
\<close>

section \<open>A sequence of completions\<close>

primrec completions :: "(bool \<times> Event \<times> request) list \<Rightarrow> (gsrv, unit) cpp" where
  "completions [] = skip"
| "completions (x # xs) =
     sq (\<lambda>s. handle_event (fst x) (fst (snd x)) (fill (fst x) (fst (snd x)) (snd (snd x)) s)) (completions xs)"

text \<open>The operations that have been started for a key, in order.\<close>

definition ops_of :: "event_key_t \<Rightarrow> gsrv \<Rightarrow> grpc_call list" where
  "ops_of k s = map fst (filter (\<lambda>op. getKey (snd op) = k) (started s))"

text \<open>The state after a successor of a handler has been registered.\<close>

definition registered :: "rpc \<Rightarrow> nat \<Rightarrow> event_handler \<Rightarrow> gsrv \<Rightarrow> gsrv" where
  "registered m cq h s =
     (if stopped s then s\<lparr>s_log := s_log s @ [(LogInfo, ''stopped'', [])]\<rparr>
      else let hm = handlerManager s; k = the (next_key (handlers hm) (lastKey hm) (lastKey hm)) in
        s\<lparr>handlerManager := hm\<lparr>lastKey := k, handlers := om_put k h (handlers hm)\<rparr>,
          inflight := inflight s @ [(Request m cq, tok k S_RECEIVE)], started := started s @ [(Request m cq, tok k S_RECEIVE)]\<rparr>)"

lemma next_key_room:
  assumes "room s" "\<not> stopped s"
  obtains k where "next_key (handlers (handlerManager s)) (lastKey (handlerManager s)) (lastKey (handlerManager s)) = Some k"
    "hmap s k = None"
  using assms next_key_full[of "handlers (handlerManager s)" "lastKey (handlerManager s)"] next_key_Some
  by (fastforce simp: room_def om_has_dom)

lemma registerHandler_registered: "room s \<Longrightarrow> registerHandler m cq h s = (Val (), registered m cq h s)"
proof (cases "stopped s")
  case False
  assume "room s"
  then obtain k where "next_key (handlers (handlerManager s)) (lastKey (handlerManager s)) (lastKey (handlerManager s)) = Some k"
    using next_key_room[OF _ False] by blast
  with False show ?thesis
    by (simp add: registerHandler_def registered_def cpp_eval mgr_run EventHandlerManager_add_def setOpt_key Let_def)
qed (simp add: registerHandler_def registered_def cpp_eval)

lemma registered_sel [simp]:
  "clock (registered m cq h s) = clock s" "ticks (registered m cq h s) = ticks s" "stopped (registered m cq h s) = stopped s"
  by (simp_all add: registered_def Let_def)

lemma registered_other:
  assumes "room s" "hmap s k = Some h'"
  shows "hmap (registered m cq h s) k = Some h'" "ops_of k (registered m cq h s) = ops_of k s"
proof -
  have "hmap (registered m cq h s) k = Some h' \<and> ops_of k (registered m cq h s) = ops_of k s"
  proof (cases "stopped s")
    case False
    from next_key_room[OF assms(1) False] obtain k' where
      "next_key (handlers (handlerManager s)) (lastKey (handlerManager s)) (lastKey (handlerManager s)) = Some k'" "hmap s k' = None" .
    moreover from this(2) assms(2) have "k \<noteq> k'" by auto
    ultimately show ?thesis using False assms(2) by (simp add: registered_def Let_def ops_of_def)
  qed (use assms(2) in \<open>simp add: registered_def ops_of_def\<close>)
  then show "hmap (registered m cq h s) k = Some h'" "ops_of k (registered m cq h s) = ops_of k s" by auto
qed

lemma registered_waits:
  assumes "room s" "\<not> stopped s"
  shows "\<exists>k. hmap s k = None \<and> hmap (registered m cq h s) k = Some h \<and>
    (Request m cq, tok k S_RECEIVE) \<in> set (started (registered m cq h s))"
proof -
  from next_key_room[OF assms] obtain k where
    "next_key (handlers (handlerManager s)) (lastKey (handlerManager s)) (lastKey (handlerManager s)) = Some k" "hmap s k = None" .
  then show ?thesis using assms(2) by (intro exI[of _ k]) (simp add: registered_def Let_def)
qed

section \<open>Unary calls\<close>

fun reply :: "event_handler \<Rightarrow> request \<Rightarrow> string \<Rightarrow> message" where
  "reply (HelloEventHandler h) rq ts = Greeting (''Hello, '' @ fst rq @ '' '' @ snd rq)"
| "reply (HelloAgainEventHandler h) rq ts = Greeting (''Hello, '' @ fst rq @ '' '' @ snd rq)"
| "reply (GoodbyeEventHandler h) rq ts = Greeting (''Goodbye, '' @ fst rq @ '' '' @ snd rq)"
| "reply (GoodbyeAgainEventHandler h) rq ts = Greeting (''Goodbye, '' @ fst rq @ '' '' @ snd rq)"
| "reply (ChatGreetEventHandler h) rq ts = Words ts ''Me too!''"
| "reply _ rq ts = Words [] []"

definition unary :: "event_handler \<Rightarrow> bool" where
  "unary h \<longleftrightarrow> rpc_of h \<in> {SayHello, SayHelloAgain, SayGoodbye, SayGoodbyeAgain, Greet}"

fun fresh :: "event_handler \<Rightarrow> event_handler" where
  "fresh (ChatListenEventHandler h q) = ChatListenEventHandler (blank (h_cq h)) []"
| "fresh h = map_base (\<lambda>b. blank (h_cq b)) h"

lemma new_registered:
  assumes "room s"
  shows "new_Hello q s = (Val (), registered SayHello q (HelloEventHandler (blank q)) s)"
    "new_HelloAgain q s = (Val (), registered SayHelloAgain q (HelloAgainEventHandler (blank q)) s)"
    "new_Goodbye q s = (Val (), registered SayGoodbye q (GoodbyeEventHandler (blank q)) s)"
    "new_GoodbyeAgain q s = (Val (), registered SayGoodbyeAgain q (GoodbyeAgainEventHandler (blank q)) s)"
    "new_ChatGreet q s = (Val (), registered Greet q (ChatGreetEventHandler (blank q)) s)"
    "new_ChatListen q s = (Val (), registered Listen q (ChatListenEventHandler (blank q) []) s)"
    "new_ChatSpeak q s = (Val (), registered Speak q (ChatSpeakEventHandler (blank q)) s)"
    "new_ChatTalk q s = (Val (), registered Talk q (ChatTalkEventHandler (blank q)) s)"
  unfolding new_defs by (rule registerHandler_registered[OF assms])+

lemmas unary_defs = HelloEventHandler_process_def HelloAgainEventHandler_process_def GoodbyeEventHandler_process_def
  GoodbyeAgainEventHandler_process_def ChatGreetEventHandler_process_def

lemma unary_receive:
  assumes "unary h" "room s"
  shows "\<exists>s'. EventHandler_process True (tok k S_RECEIVE) h s = (Val h, s') \<and>
    handlerManager s' = handlerManager (registered (rpc_of h) (h_cq (base h)) (fresh h) s) \<and>
    started s' = started (registered (rpc_of h) (h_cq (base h)) (fresh h) s) @
      [(Finish StatusOK (Some (reply h (h_request (base h)) (clock s (ticks s)))), tok k S_FINISH)]"
proof -
  show ?thesis using assms(1)
    by (cases h) (simp_all add: unary_def unary_defs new_registered[OF assms(2)] cpp_eval)
qed

lemma unary_finish:
  assumes "unary h"
  shows "\<exists>h' s'. EventHandler_process ok (tok k S_FINISH) h s = (Val h', s') \<and> isComplete h' \<and>
     handlerManager s' = handlerManager s \<and> started s' = started s"
  using assms by (cases h) (simp_all add: unary_def unary_defs cpp_eval isComplete_def)

lemma unary_map_base [simp]: "unary (map_base (\<lambda>b. b\<lparr>h_request := rq\<rparr>) h) = unary h"
  by (simp add: unary_def)

lemma base_request [simp]:
  "h_request (base (map_base (\<lambda>b. b\<lparr>h_request := rq\<rparr>) h)) = rq"
  "h_cq (base (map_base (\<lambda>b. b\<lparr>h_request := rq\<rparr>) h)) = h_cq (base h)"
  "fresh (map_base (\<lambda>b. b\<lparr>h_request := rq\<rparr>) h) = fresh h"
  "reply (map_base (\<lambda>b. b\<lparr>h_request := rq\<rparr>) h) = reply h"
  by (cases h; simp add: fun_eq_iff)+

lemma fill_more [simp]:
  "clock (fill ok e rq s) = clock s" "ticks (fill ok e rq s) = ticks s" "started (fill ok e rq s) = started s"
  by (simp_all add: fill_def split: option.split)

lemma room_fill [simp]: "room (fill ok e rq s) = room s"
  using dom_fill[of ok e rq s] by (simp add: room_def om_has_dom set_eq_iff)

lemma ops_of_fill [simp]: "ops_of k (fill ok e rq s) = ops_of k s"
  by (simp add: ops_of_def)

lemma ops_of_handled [simp]: "ops_of k (handled k' h s) = ops_of k s"
  by (simp add: ops_of_def)

lemma ops_of_started: "started s' = started s @ [(c, tok k opt)] \<Longrightarrow> ops_of k s' = ops_of k s @ [c]"
  by (simp add: ops_of_def)

lemma unary_run:
  assumes "hmap s k = Some h" "unary h" "\<not> isComplete h" "room s"
  shows "\<exists>s'. completions [(True, tok k S_RECEIVE, rq), (ok, tok k S_FINISH, rq')] s = (Val (), s') \<and>
    ops_of k s' = ops_of k s @ [Finish StatusOK (Some (reply h rq (clock s (ticks s))))] \<and> hmap s' k = None \<and>
    (\<not> stopped s \<longrightarrow> (\<exists>k'. k' \<noteq> k \<and> hmap s' k' = Some (fresh h) \<and>
       (Request (rpc_of h) (h_cq (base h)), tok k' S_RECEIVE) \<in> set (started s')))"
proof -
  let ?s0 = "fill True (tok k S_RECEIVE) rq s" and ?h0 = "map_base (\<lambda>b. b\<lparr>h_request := rq\<rparr>) h"
  let ?r = "registered (rpc_of h) (h_cq (base h)) (fresh h) ?s0"
  have h0: "hmap ?s0 k = Some ?h0" using assms(1) by (simp add: hmap_fill)
  obtain s1 where s1: "EventHandler_process True (tok k S_RECEIVE) ?h0 ?s0 = (Val ?h0, s1)"
    "handlerManager s1 = handlerManager ?r"
    "started s1 = started ?r @ [(Finish StatusOK (Some (reply h rq (clock s (ticks s)))), tok k S_FINISH)]"
    using unary_receive[of ?h0 ?s0 k] assms(2,4) by auto
  let ?s1 = "handled k ?h0 s1"
  have r1: "handle_event True (tok k S_RECEIVE) ?s0 = (Val (), ?s1)"
    using handle_event_run[of ?s0 "tok k S_RECEIVE"] h0 s1(1) by simp
  have ops1: "ops_of k ?s1 = ops_of k s @ [Finish StatusOK (Some (reply h rq (clock s (ticks s))))]"
    using ops_of_started[OF s1(3)] registered_other(2)[OF _ h0] assms(4) by simp
  let ?t = "fill ok (tok k S_FINISH) rq' ?s1"
  have h1: "hmap ?t k = Some ?h0" using assms(3) by (simp add: hmap_fill)
  obtain h2 s2 where s2: "EventHandler_process ok (tok k S_FINISH) ?h0 ?t = (Val h2, s2)" "isComplete h2"
    "handlerManager s2 = handlerManager ?t" "started s2 = started ?t"
    using unary_finish[of ?h0 ok k ?t] assms(2) by auto
  have r2: "handle_event ok (tok k S_FINISH) ?t = (Val (), handled k h2 s2)"
    using handle_event_run[of ?t "tok k S_FINISH"] h1 s2(1) by simp
  have "\<exists>k'. k' \<noteq> k \<and> hmap (handled k h2 s2) k' = Some (fresh h) \<and>
      (Request (rpc_of h) (h_cq (base h)), tok k' S_RECEIVE) \<in> set (started (handled k h2 s2))" if ns: "\<not> stopped s"
  proof -
    from registered_waits[of ?s0 "rpc_of h" "h_cq (base h)" "fresh h"] ns assms(4) obtain k' where
      k': "hmap ?s0 k' = None" "hmap ?r k' = Some (fresh h)" "(Request (rpc_of h) (h_cq (base h)), tok k' S_RECEIVE) \<in> set (started ?r)"
      by auto
    have "k' \<noteq> k" using k'(1) h0 by auto
    with k' show ?thesis using s1(2,3) s2 by (intro exI[of _ k']) (simp add: hmap_fill)
  qed
  moreover have "ops_of k (handled k h2 s2) = ops_of k ?s1" using s2(4) by (simp add: ops_of_def)
  ultimately show ?thesis using r1 r2 ops1 s2(2) by (intro exI[of _ "handled k h2 s2"]) (simp add: cpp_eval)
qed

text \<open>
  A unary call is answered once, and the next one is waited for. When a request arrives for a registered
  handler of \<open>sayHello\<close>, \<open>sayHelloAgain\<close>, \<open>sayGoodbye\<close>, \<open>sayGoodbyeAgain\<close> or \<open>greet\<close> and its answer then
  completes (successfully or not), exactly one operation has been started for the handler's key, \<open>Finish\<close> with
  status OK and the greeting built from this request; the handler is gone; and unless the server has
  been stopped, a fresh handler of the same class waits under another key for the next call.
\<close>

theorem unary_answered:
  assumes "hmap s k = Some h" "unary h" "\<not> isComplete h" "room s"
  shows "\<exists>s'. completions [(True, tok k S_RECEIVE, rq), (ok, tok k S_FINISH, rq')] s = (Val (), s') \<and>
    ops_of k s' = ops_of k s @ [Finish StatusOK (Some (reply h rq (clock s (ticks s))))] \<and> hmap s' k = None \<and>
    (\<not> stopped s \<longrightarrow> (\<exists>k'. k' \<noteq> k \<and> hmap s' k' = Some (fresh h) \<and>
       (Request (rpc_of h) (h_cq (base h)), tok k' S_RECEIVE) \<in> set (started s')))"
  by (rule unary_run[OF assms])

definition alone :: "event_handler \<Rightarrow> gsrv" where
  "alone h = (ServerProactor_new 1 (\<lambda>n. replicate n (CHR ''t'')) id 0)\<lparr>handlerManager := \<lparr>handlers = [(1, h)], lastKey = 1\<rparr>\<rparr>"

lemma alone_sel [simp]: "hmap (alone h) = [1 \<mapsto> h]" "stopped (alone h) = False" "ops_of k (alone h) = []" "started (alone h) = []"
  "inflight (alone h) = []" "clock (alone h) = (\<lambda>n. replicate n (CHR ''t''))" "ticks (alone h) = 0"
  by (simp_all add: alone_def ServerProactor_new_def om_get_def ops_of_def fun_eq_iff)

lemma room_alone [simp]: "room (alone h)"
  by (rule room_card) simp

lemma unary_answered_witness:
  "\<exists>s'. completions [(True, tok 1 S_RECEIVE, (''Foo'', ''Bar'')), (False, tok 1 S_FINISH, ([], []))]
       (alone (GoodbyeEventHandler (blank 0))) = (Val (), s') \<and>
     ops_of 1 s' = [Finish StatusOK (Some (Greeting ''Goodbye, Foo Bar''))] \<and> hmap s' 1 = None"
  using unary_answered[of "alone (GoodbyeEventHandler (blank 0))" 1 "GoodbyeEventHandler (blank 0)" "(''Foo'', ''Bar'')" False "([], [])"]
  by (auto simp: unary_def isComplete_def)

section \<open>talk\<close>

text \<open>
  The completions of a whole conversation: the call arrives, every message of the client is read and
  its echo written, the client ends its side, the final status is sent.
\<close>

definition talk_events :: "event_key_t \<Rightarrow> request list \<Rightarrow> bool \<Rightarrow> (bool \<times> Event \<times> request) list" where
  "talk_events k ms ok = (True, tok k S_RECEIVE, ([], [])) #
     concat (map (\<lambda>m. [(True, tok k S_READ, m), (True, tok k S_WRITE, ([], []))]) ms) @
     [(False, tok k S_READ, ([], [])), (ok, tok k S_FINISH, ([], []))]"

text \<open>The operations that answer it: every message comes back with its content and a fresh time stamp.\<close>

fun talk_ops :: "(nat \<Rightarrow> string) \<Rightarrow> nat \<Rightarrow> request list \<Rightarrow> grpc_call list" where
  "talk_ops clk t [] = [Finish StatusOK None]"
| "talk_ops clk t (m # ms) = Write (Words (clk t) (snd m)) # Read # talk_ops clk (t + 1) ms"

text \<open>\<open>talking k s c s'\<close>: one completion, after which the handler of \<open>k\<close> goes on with the operation \<open>c\<close>.\<close>

definition talking :: "event_key_t \<Rightarrow> gsrv \<Rightarrow> bool \<times> Event \<times> request \<Rightarrow> grpc_call \<Rightarrow> nat \<Rightarrow> gsrv \<Rightarrow> bool" where
  "talking k s x c n s' \<longleftrightarrow>
     handle_event (fst x) (fst (snd x)) (fill (fst x) (fst (snd x)) (snd (snd x)) s) = (Val (), s') \<and>
     (\<exists>h. hmap s' k = Some (ChatTalkEventHandler h) \<and> \<not> finish h) \<and> ops_of k s' = ops_of k s @ [c] \<and>
     clock s' = clock s \<and> ticks s' = ticks s + n"

lemma talking_run:
  assumes "hmap (fill ok (tok k opt) rq s) k = Some (ChatTalkEventHandler h)" "\<not> finish h"
    and "case ChatTalkEventHandler_process ok (tok k opt) h (fill ok (tok k opt) rq s) of
      (Val h', s1) \<Rightarrow> h' = h \<and> ops_of k s1 = ops_of k s @ [c] \<and> clock s1 = clock s \<and> ticks s1 = ticks s + n | _ \<Rightarrow> False"
  shows "\<exists>s'. talking k s (ok, tok k opt, rq) c n s'"
proof -
  obtain s1 where s1: "ChatTalkEventHandler_process ok (tok k opt) h (fill ok (tok k opt) rq s) = (Val h, s1)"
    "ops_of k s1 = ops_of k s @ [c]" "clock s1 = clock s" "ticks s1 = ticks s + n"
    using assms(3) by (auto split: prod.splits outcome.splits)
  then have "talking k s (ok, tok k opt, rq) c n (handled k (ChatTalkEventHandler h) s1)"
    using handle_event_run[of "fill ok (tok k opt) rq s" "tok k opt" "ChatTalkEventHandler h" ok "ChatTalkEventHandler h" s1] assms
    by (simp add: talking_def cpp_eval isComplete_def)
  then show ?thesis by blast
qed

lemma talk_receive:
  assumes "hmap s k = Some (ChatTalkEventHandler h)" "\<not> finish h" "room s"
  shows "\<exists>s'. talking k s (True, tok k S_RECEIVE, rq) Read 0 s'"
proof -
  let ?s = "fill True (tok k S_RECEIVE) rq s" and ?h = "h\<lparr>h_request := rq\<rparr>"
  have r: "room ?s" "hmap ?s k = Some (ChatTalkEventHandler ?h)" using assms by (simp_all add: hmap_fill)
  show ?thesis
    using assms(2) registered_other(2)[OF r, of Talk "h_cq h" "ChatTalkEventHandler (blank (h_cq h))"]
    by (intro talking_run[OF r(2)]) (simp_all add: ChatTalkEventHandler_process_def Let_def new_registered[OF r(1)] cpp_eval ops_of_def)
qed

lemma talk_read:
  assumes "hmap s k = Some (ChatTalkEventHandler h)" "\<not> finish h"
  shows "\<exists>s'. talking k s (True, tok k S_READ, rq) (Write (Words (clock s (ticks s)) (snd rq))) 1 s'"
    and "\<exists>s'. talking k s (True, tok k S_WRITE, rq) Read 0 s'"
    and "\<exists>s'. talking k s (False, tok k S_READ, rq) (Finish StatusOK None) 0 s'"
proof -
  have r: "hmap (fill True (tok k S_READ) rq s) k = Some (ChatTalkEventHandler (h\<lparr>h_request := rq\<rparr>))"
    "hmap (fill True (tok k S_WRITE) rq s) k = Some (ChatTalkEventHandler h)"
    "hmap (fill False (tok k S_READ) rq s) k = Some (ChatTalkEventHandler h)"
    using assms(1) by (simp_all add: hmap_fill)
  show "\<exists>s'. talking k s (True, tok k S_READ, rq) (Write (Words (clock s (ticks s)) (snd rq))) 1 s'"
    by (rule talking_run[OF r(1)]) (simp_all add: ChatTalkEventHandler_process_def Let_def cpp_eval assms(2) ops_of_def)
  show "\<exists>s'. talking k s (True, tok k S_WRITE, rq) Read 0 s'"
    by (rule talking_run[OF r(2)]) (simp_all add: ChatTalkEventHandler_process_def Let_def cpp_eval assms(2) ops_of_def)
  show "\<exists>s'. talking k s (False, tok k S_READ, rq) (Finish StatusOK None) 0 s'"
    by (rule talking_run[OF r(3)]) (simp_all add: ChatTalkEventHandler_process_def Let_def cpp_eval assms(2) ops_of_def)
qed

lemma talk_finish:
  assumes "hmap s k = Some (ChatTalkEventHandler h)"
  shows "\<exists>s'. completions [(ok, tok k S_FINISH, rq)] s = (Val (), s') \<and> hmap s' k = None \<and> ops_of k s' = ops_of k s"
proof -
  let ?s = "fill ok (tok k S_FINISH) rq s"
  have h: "hmap ?s k = Some (ChatTalkEventHandler h)" using assms by (simp add: hmap_fill)
  define s1 where "s1 = snd (ChatTalkEventHandler_process ok (tok k S_FINISH) h ?s)"
  have "EventHandler_process ok (tok k S_FINISH) (ChatTalkEventHandler h) ?s = (Val (ChatTalkEventHandler (h\<lparr>finish := True\<rparr>)), s1)"
    "started s1 = started s"
    by (simp_all add: s1_def ChatTalkEventHandler_process_def Let_def cpp_eval)
  with handle_event_run[of ?s "tok k S_FINISH", OF _ this(1)] h show ?thesis
    by (intro exI[of _ "handled k (ChatTalkEventHandler (h\<lparr>finish := True\<rparr>)) s1"])
      (simp add: cpp_eval isComplete_def ops_of_def)
qed

lemma completions_talking:
  "talking k s x c n s' \<Longrightarrow> completions (x # xs) s = completions xs s'"
  by (simp add: talking_def cpp_eval)

lemma talk_conversation:
  assumes "hmap s k = Some (ChatTalkEventHandler h)" "\<not> finish h"
  shows "\<exists>s'. completions (tl (talk_events k ms ok)) s = (Val (), s') \<and>
    ops_of k s' = ops_of k s @ talk_ops (clock s) (ticks s) ms \<and> hmap s' k = None"
  using assms
proof (induction ms arbitrary: s h)
  case Nil
  obtain s1 where s1: "talking k s (False, tok k S_READ, ([], [])) (Finish StatusOK None) 0 s1"
    using talk_read(3)[OF Nil] by blast
  then obtain h1 where "hmap s1 k = Some (ChatTalkEventHandler h1)" by (auto simp: talking_def)
  from talk_finish[OF this, of ok "([], [])"] s1 show ?case
    by (auto simp: talk_events_def completions_talking[OF s1] talking_def simp del: completions.simps)
next
  case (Cons m ms)
  obtain s1 where s1: "talking k s (True, tok k S_READ, m) (Write (Words (clock s (ticks s)) (snd m))) 1 s1"
    using talk_read(1)[OF Cons.prems] by blast
  then obtain h1 where h1: "hmap s1 k = Some (ChatTalkEventHandler h1)" "\<not> finish h1" by (auto simp: talking_def)
  obtain s2 where s2: "talking k s1 (True, tok k S_WRITE, ([], [])) Read 0 s2" using talk_read(2)[OF h1] by blast
  then obtain h2 where h2: "hmap s2 k = Some (ChatTalkEventHandler h2)" "\<not> finish h2" by (auto simp: talking_def)
  from Cons.IH[OF h2] s1 s2 show ?case
    by (simp add: talk_events_def completions_talking[OF s1] completions_talking[OF s2] del: completions.simps)
      (simp add: talking_def)
qed

lemma talk_run:
  assumes "hmap s k = Some (ChatTalkEventHandler h)" "\<not> finish h" "room s"
  shows "\<exists>s'. completions (talk_events k ms ok) s = (Val (), s') \<and>
    ops_of k s' = ops_of k s @ Read # talk_ops (clock s) (ticks s) ms \<and> hmap s' k = None"
proof -
  obtain s1 where s1: "talking k s (True, tok k S_RECEIVE, ([], [])) Read 0 s1" using talk_receive[OF assms] by blast
  then obtain h1 where h1: "hmap s1 k = Some (ChatTalkEventHandler h1)" "\<not> finish h1" by (auto simp: talking_def)
  have "completions (talk_events k ms ok) s = completions (tl (talk_events k ms ok)) s1"
    by (simp add: talk_events_def completions_talking[OF s1] del: completions.simps)
  with talk_conversation[OF h1, of ms ok] s1 show ?thesis by (auto simp: talking_def)
qed

text \<open>
  \<open>talk\<close> echoes a conversation. For any number of messages, read one after the other while every write
  succeeds, the handler starts exactly these operations: a read, then for each message a write of its
  content under the time of that moment and the next read, and, when the client has ended its side,
  \<open>Finish\<close> with status OK; and when that completes the handler is gone.
\<close>

theorem talk_echoes:
  assumes "hmap s k = Some (ChatTalkEventHandler h)" "\<not> finish h" "room s"
  shows "\<exists>s'. completions (talk_events k ms ok) s = (Val (), s') \<and>
    ops_of k s' = ops_of k s @ Read # talk_ops (clock s) (ticks s) ms \<and> hmap s' k = None"
  by (rule talk_run[OF assms])

lemma talk_echoes_witness:
  "\<exists>s'. completions (talk_events 1 [(''10:00'', ''ping''), (''10:01'', ''pong'')] True) (alone (ChatTalkEventHandler (blank 0))) = (Val (), s') \<and>
     ops_of 1 s' = [Read, Write (Words [] ''ping''), Read, Write (Words ''t'' ''pong''), Read, Finish StatusOK None]"
  using talk_echoes[of "alone (ChatTalkEventHandler (blank 0))" 1 "blank 0" "[(''10:00'', ''ping''), (''10:01'', ''pong'')]" True]
  by (auto simp: isComplete_def)

section \<open>A failed write in talk\<close>

primrec failing_writes :: "nat \<Rightarrow> event_key_t \<Rightarrow> (gsrv, unit) cpp" where
  "failing_writes 0 k = skip"
| "failing_writes (Suc n) k = sq (handle_event False (tok k S_WRITE)) (failing_writes n k)"

lemma talk_write_fails:
  assumes "hmap s k = Some (ChatTalkEventHandler h)" "\<not> finish h"
  shows "\<exists>s'. handle_event False (tok k S_WRITE) s = (Val (), s') \<and> hmap s' k = Some (ChatTalkEventHandler h) \<and>
    started s' = started s @ [(Finish StatusCANCELLED None, tok k S_WRITE)]"
proof -
  define s1 where "s1 = snd (ChatTalkEventHandler_process False (tok k S_WRITE) h s)"
  have "EventHandler_process False (tok k S_WRITE) (ChatTalkEventHandler h) s = (Val (ChatTalkEventHandler h), s1)"
    "started s1 = started s @ [(Finish StatusCANCELLED None, tok k S_WRITE)]"
    by (simp_all add: s1_def ChatTalkEventHandler_process_def Let_def cpp_eval)
  with handle_event_run[of s "tok k S_WRITE", OF _ this(1)] assms show ?thesis
    by (intro exI[of _ "handled k (ChatTalkEventHandler h) s1"]) (simp add: isComplete_def)
qed

text \<open>
  A failed write in \<open>talk\<close> is never recovered from. The handler then starts \<open>Finish\<close>, but leaves the code
  \<open>WRITE\<close> in the tag: when the \<open>Finish\<close> completes, it is taken for a write. If it has failed, \<open>Finish\<close> is
  started again, and so on for ever: after any number of failures that many \<open>Finish\<close> operations have been started
  on the one call and the handler is still registered; if it has succeeded, a \<open>Read\<close> is started on the
  finished call.
\<close>

theorem talk_write_failure_loops:
  assumes "hmap s k = Some (ChatTalkEventHandler h)" "\<not> finish h"
  shows "\<exists>s'. failing_writes n k s = (Val (), s') \<and> hmap s' k = Some (ChatTalkEventHandler h) \<and>
    ops_of k s' = ops_of k s @ replicate n (Finish StatusCANCELLED None) \<and>
    (\<exists>s''. completions [(True, tok k S_WRITE, rq)] s' = (Val (), s'') \<and>
       ops_of k s'' = ops_of k s @ replicate n (Finish StatusCANCELLED None) @ [Read])"
  using assms(1)
proof (induction n arbitrary: s)
  case 0
  obtain s'' where "talking k s (True, tok k S_WRITE, rq) Read 0 s''" using talk_read(2)[OF 0 assms(2)] by blast
  then show ?case using 0 by (auto simp: cpp_eval talking_def)
next
  case (Suc n)
  obtain s1 where s1: "handle_event False (tok k S_WRITE) s = (Val (), s1)" "hmap s1 k = Some (ChatTalkEventHandler h)"
    "started s1 = started s @ [(Finish StatusCANCELLED None, tok k S_WRITE)]"
    using talk_write_fails[OF Suc.prems assms(2)] by blast
  from Suc.IH[OF s1(2)] show ?case using s1(1) ops_of_started[OF s1(3)] by (simp add: cpp_eval)
qed

lemma talk_write_failure_loops_witness:
  "\<exists>s'. failing_writes 3 1 (alone (ChatTalkEventHandler (blank 0))) = (Val (), s') \<and>
     hmap s' 1 = Some (ChatTalkEventHandler (blank 0)) \<and> ops_of 1 s' = replicate 3 (Finish StatusCANCELLED None)"
  using talk_write_failure_loops[of "alone (ChatTalkEventHandler (blank 0))" 1 "blank 0" 3 "([], [])"] by auto

section \<open>The end of a stopped server\<close>

text \<open>After the queues have been shut down, the operations still in flight complete with a failure, in any order.\<close>

inductive fail_step :: "gsrv \<Rightarrow> gsrv \<Rightarrow> bool" where
  "i < length (inflight s) \<Longrightarrow> e = snd (inflight s ! i) \<Longrightarrow>
     handle_event False e (fill False e rq (s\<lparr>inflight := take_out i (inflight s)\<rparr>)) = (Val (), s') \<Longrightarrow> fail_step s s'"

text \<open>No handler of \<open>talk\<close> has an operation in flight that is tagged as a write.\<close>

definition no_talk_write :: "gsrv \<Rightarrow> bool" where
  "no_talk_write s \<longleftrightarrow> (\<forall>op \<in> set (inflight s). \<forall>h. hmap s (getKey (snd op)) = Some h \<longrightarrow> rpc_of h = Talk \<longrightarrow> getOpt (snd op) \<noteq> S_WRITE)"

definition weight :: "operation \<Rightarrow> nat" where
  "weight op = (if getOpt (snd op) = S_READ then 2 else 1)"

lemma fill_False [simp]: "fill False e rq s = s"
  by (simp add: fill_def)

definition winds_down :: "event_key_t \<Rightarrow> event_opt_t \<Rightarrow> event_handler \<Rightarrow> gsrv \<Rightarrow> bool" where
  "winds_down k opt h s \<longleftrightarrow> (case EventHandler_process False (tok k opt) h s of
      (Val h', s') \<Rightarrow> handlerManager s' = handlerManager s \<and> stopped s' \<and>
        (if opt = S_READ then isComplete h' = isComplete h \<and> rpc_of h' = rpc_of h \<and>
           (\<exists>m. inflight s' = inflight s @ [(Finish StatusOK m, tok k S_FINISH)])
         else isComplete h' \<and> inflight s' = inflight s)
    | _ \<Rightarrow> False)"

lemma stopped_register [cpp_eval]:
  "stopped s \<Longrightarrow> registerHandler m q h s = (Val (), s\<lparr>s_log := s_log s @ [(LogInfo, ''stopped'', [])]\<rparr>)"
  by (simp add: registerHandler_def cpp_eval)

lemma unary_winds_down:
  assumes "stopped s" "opt \<in> {S_RECEIVE, S_FINISH}"
  shows "winds_down k opt (HelloEventHandler h) s" "winds_down k opt (HelloAgainEventHandler h) s"
    "winds_down k opt (GoodbyeEventHandler h) s" "winds_down k opt (GoodbyeAgainEventHandler h) s"
    "winds_down k opt (ChatGreetEventHandler h) s"
  using assms unfolding winds_down_def EventHandler_process.simps
  by (auto simp: unary_defs new_defs cpp_eval isComplete_def)

lemma stream_winds_down:
  assumes "stopped s"
  shows "opt \<in> {S_RECEIVE, S_WRITE, S_FINISH} \<Longrightarrow> winds_down k opt (ChatListenEventHandler h q) s"
    "opt \<in> {S_RECEIVE, S_READ, S_FINISH} \<Longrightarrow> winds_down k opt (ChatSpeakEventHandler h) s"
    "opt \<in> {S_RECEIVE, S_READ, S_FINISH} \<Longrightarrow> winds_down k opt (ChatTalkEventHandler h) s"
  unfolding winds_down_def EventHandler_process.simps
  by ((elim insertE emptyE; simp add: ChatListenEventHandler_process_def Let_def new_defs cpp_eval isComplete_def assms),
      (elim insertE emptyE; simp add: ChatSpeakEventHandler_process_def Let_def new_defs cpp_eval isComplete_def assms),
      (elim insertE emptyE; simp add: ChatTalkEventHandler_process_def Let_def new_defs cpp_eval isComplete_def assms))

lemma process_fails:
  assumes "stopped s" "fits h c opt" "rpc_of h = Talk \<Longrightarrow> opt \<noteq> S_WRITE"
  shows "winds_down k opt h s"
  using assms by (cases h; cases c) (auto intro!: unary_winds_down stream_winds_down)

definition load :: "gsrv \<Rightarrow> nat" where
  "load s = sum_list (map weight (inflight s))"

lemma load_take_out: "i < length (inflight s) \<Longrightarrow>
    load s = weight (inflight s ! i) + sum_list (map weight (take_out i (inflight s)))"
  using arg_cong[where f = "\<lambda>ops. sum_list (map weight ops)", OF take_out_split[of i "inflight s"]]
  by (simp add: load_def take_out_def)

definition draining :: "gsrv \<Rightarrow> bool" where
  "draining s \<longleftrightarrow> ops_ok {} s \<and> clean s \<and> stopped s \<and> no_talk_write s"

lemma fail_step_drains:
  assumes "fail_step s s'" "draining s"
  shows "draining s' \<and> load s' < load s"
  using assms(1)
proof cases
  case (1 i e rq)
  let ?s0 = "s\<lparr>inflight := take_out i (inflight s)\<rparr>"
  have d: "ops_ok {} s" "clean s" "stopped s" "no_talk_write s" using assms(2) by (simp_all add: draining_def)
  obtain c where c: "inflight s ! i = (c, e)" using 1(2) by (metis prod.collapse)
  obtain h where h: "hmap s (getKey e) = Some h" "\<not> isComplete h" "fits h c (getOpt e)"
    using ops_ok_take_out(2)[OF d(1) 1(1) c] by auto
  have mem: "inflight s ! i \<in> set (inflight s)" using 1(1) by simp
  have "rpc_of h = Talk \<Longrightarrow> getOpt e \<noteq> S_WRITE"
    using d(4) mem h(1) c unfolding no_talk_write_def by (metis snd_conv)
  from process_fails[of ?s0, OF _ h(3) this, of "getKey e"] d(3)
  obtain h' s1 where p: "EventHandler_process False e h ?s0 = (Val h', s1)" "handlerManager s1 = handlerManager s" "stopped s1"
    and q: "if getOpt e = S_READ then isComplete h' = isComplete h \<and> rpc_of h' = rpc_of h \<and>
           (\<exists>m. inflight s1 = take_out i (inflight s) @ [(Finish StatusOK m, tok (getKey e) S_FINISH)])
         else isComplete h' \<and> inflight s1 = take_out i (inflight s)"
    unfolding winds_down_def Event_is_tok[symmetric]
    by (cases "getOpt e = S_READ") (auto split: prod.splits outcome.splits)
  have s': "s' = handled (getKey e) h' s1" using 1(3) handle_event_run[OF _ p(1)] h(1) by simp
  have ok: "ops_ok {} s'" "clean s'"
    using handle_event_ok[OF d(1) 1(1,2) d(2), of False rq] d(3) 1(3) by (auto simp: room_def)
  have old: "rpc_of h0 = Talk \<longrightarrow> getOpt (snd op) \<noteq> S_WRITE"
    if "op \<in> set (take_out i (inflight s))" "hmap s (getKey (snd op)) = Some h0" for op h0
    using that d(4) mset_split_take_out[OF 1(1)] unfolding no_talk_write_def by auto
  have key: "getKey (snd op) \<noteq> getKey e" if "op \<in> set (take_out i (inflight s))" for op
  proof -
    have "set (keys_of (take_out i (inflight s))) = dom (hmap s) - {getKey e}"
      using ops_ok_take_out(1)[OF d(1) 1(1) c] by (simp add: ops_ok_def)
    moreover have "getKey (snd op) \<in> set (keys_of (take_out i (inflight s)))" using that by (simp add: keys_of_def)
    ultimately show ?thesis by auto
  qed
  have "no_talk_write s'" unfolding no_talk_write_def
  proof (intro ballI allI impI)
    fix op h0 assume o: "op \<in> set (inflight s')" "hmap s' (getKey (snd op)) = Some h0" "rpc_of h0 = Talk"
    show "getOpt (snd op) \<noteq> S_WRITE"
    proof (cases "op \<in> set (take_out i (inflight s))")
      case True
      then have "hmap s (getKey (snd op)) = Some h0" using o(2) key[OF True] s' p(2) by simp
      then show ?thesis using old True o(3) by blast
    next
      case False
      then show ?thesis using o(1) s' q by (auto split: if_splits)
    qed
  qed
  moreover have "load s' < load s"
    unfolding load_take_out[OF 1(1)] using c q s' by (auto simp: load_def weight_def split: if_splits)
  ultimately show ?thesis using ok p(3) s' by (simp add: draining_def)
qed

lemma draining_enabled: "draining s \<Longrightarrow> inflight s \<noteq> [] \<Longrightarrow> \<exists>s'. fail_step s s'"
  using handle_event_ok[of s 0 _ False] by (fastforce simp: draining_def room_def intro: fail_step.intros)

lemma load_bound: "load s \<le> 2 * length (inflight s)"
proof -
  have "sum_list (map weight ops) \<le> 2 * length ops" for ops by (induction ops) (auto simp: weight_def)
  then show ?thesis by (simp add: load_def)
qed

text \<open>
  C25. A stopped server comes to its end, unless a \<open>talk\<close> handler waits for a write. From any state that a server with
  a pool of at most \<open>2 ^ 29\<close> threads can reach, once it has been stopped and while no operation in flight is the
  write of a \<open>talk\<close> handler, let the operations in flight fail one after the other in any order: after at most two
  failures per handler no operation can fail any more, and then no handler is registered, which is the
  condition on which the threads leave their loops. The write of a \<open>talk\<close> handler is excluded because its failure
  starts \<open>Finish\<close> under the tag of a write, and a failure of that starts it again (\<open>talk_write_failure_loops\<close>).
\<close>

theorem stopped_server_drains:
  assumes "8 * n \<le> 2 ^ 32" "AsyncServer_start port (ServerProactor_new n clk ord j) = (Val (), s0)" "srv_step\<^sup>*\<^sup>* s0 s"
    and "stopped s" "no_talk_write s" "(fail_step ^^ m) s s'"
  shows "m \<le> 2 * card (dom (hmap s)) \<and> ((\<nexists>s''. fail_step s' s'') \<longleftrightarrow> dom (hmap s') = {})"
proof -
  have "ops_ok {} s0 \<and> clean s0" using AsyncServer_start_run[OF assms(1), of port clk ord j] assms(2) by auto
  with assms(3) have "ops_ok {} s \<and> clean s" by (induction rule: rtranclp_induct) (use srv_step_ok in blast)+
  with assms(4,5) have d: "draining s" by (simp add: draining_def)
  have "draining s' \<and> load s' + m \<le> load s" using assms(6)
  proof (induction m arbitrary: s')
    case (Suc m)
    then obtain t where "draining t" "load t + m \<le> load s" "fail_step t s'" by auto
    then show ?case using fail_step_drains[of t s'] by auto
  qed (use d in simp)
  moreover have "length (inflight s) = card (dom (hmap s))"
    using d distinct_card[of "keys_of (inflight s)"] by (simp add: draining_def ops_ok_def keys_of_def)
  moreover have "dom (hmap s') = {} \<longleftrightarrow> inflight s' = []" if "draining s'"
    using that unfolding draining_def ops_ok_def keys_of_def by (metis Diff_empty map_is_Nil_conv set_empty)
  moreover have "fail_step s' s'' \<Longrightarrow> inflight s' \<noteq> []" for s'' by (auto elim: fail_step.cases)
  ultimately show ?thesis using load_bound[of s] draining_enabled[of s'] by fastforce
qed

text \<open>At the start every operation in flight is a request.\<close>

definition only_requests :: "gsrv \<Rightarrow> bool" where
  "only_requests s \<longleftrightarrow> (\<forall>op \<in> set (inflight s). getOpt (snd op) = S_RECEIVE)"

lemma getOpt_setOpt: "getOpt (setOpt opt e) = opt"
  by (metis Event_is_tok getOpt_tok setOpt_tok)

lemma keeps_requests: "keeps only_requests (registerHandler m q h)" "keeps only_requests (begin_threads n)"
  "keeps only_requests (add_queues n)"
proof -
  show r: "keeps only_requests (registerHandler m q h)" for m q h
    unfolding registerHandler_def LOG_def start_op_def mgr_def
    by (intro keeps_bnd keeps_if keeps_gets keeps_modify keepsI)
      (auto simp: only_requests_def getOpt_setOpt split: prod.splits)
  show "keeps only_requests (add_queues n)"
    by (induction n) (auto intro!: keeps_sq keeps_modify simp: addCompletionQueue_def only_requests_def)
  have "keeps only_requests demux_begin"
    unfolding demux_begin_def new_handlers_def new_defs
    by (intro keeps_bnd keeps_if keeps_gets keeps_undef keeps_sq r keepsI) (simp add: only_requests_def)
  then show "keeps only_requests (begin_threads n)" by (induction n) auto
qed

lemma start_only_requests:
  assumes "AsyncServer_start port (ServerProactor_new n clk ord j) = (Val (), s)"
  shows "only_requests s"
proof -
  have "keeps only_requests (AsyncServer_start port)"
    unfolding AsyncServer_start_def startDemuxer_def LOG_def
    by (intro keeps_bnd keeps_gets keeps_sq keeps_requests keeps_modify keeps_if keeps_skip keeps_undef)
      (simp_all add: only_requests_def)
  from keepsD[OF this, of "ServerProactor_new n clk ord j"] assms show ?thesis
    by (simp add: only_requests_def ServerProactor_new_def)
qed

lemma stopped_server_drains_witness:
  "\<exists>s. stopped s \<and> no_talk_write s \<and> (\<forall>m s'. (fail_step ^^ m) s s' \<longrightarrow> m \<le> 2 * card (dom (hmap s)))"
proof -
  obtain s where s: "AsyncServer_start 50051 (ServerProactor_new 1 (\<lambda>_. []) id 0) = (Val (), s)"
    using AsyncServer_start_run[of 1 50051 "\<lambda>_. []" id 0] by auto
  obtain s' where s': "AsyncServer_stop s = (Val (), s')" "stopped s'" "inflight s' = inflight s"
    using AsyncServer_stop_run[of s] by blast
  have r: "srv_step\<^sup>*\<^sup>* s s'" using srv_step.stop[OF s'(1)] by blast
  have n: "no_talk_write s'" using start_only_requests[OF s] s'(3) by (simp add: no_talk_write_def only_requests_def)
  have "m \<le> 2 * card (dom (hmap s'))" if "(fail_step ^^ m) s' s''" for m s''
    using stopped_server_drains[OF _ s r s'(2) n that] by simp
  with s'(2) n show ?thesis by blast
qed

end
