(* ===== verification/Semaphore.thy ===== *)
theory Semaphore
  imports Cpp_Prelude
begin

text \<open>
  The counting semaphore of \<open>thread/semaphore/main.cpp\<close>, which \<open>learn_grpc\<close> carries a copy of
  (\<open>src/lib/utils/semaphore.h\<close>): an atomic counter moved by compare-and-exchange, with a mutex and a
  condition variable only for the threads that have to sleep. Any number of threads run \<open>acquire\<close> and
  \<open>release\<close>; every atomic access, every lock and unlock, the wait and the notification are steps of their
  own, and any two steps of different threads may be interleaved.
\<close>

section \<open>The program points\<close>

datatype spc =
    SIdle                 \<comment> \<open>outside both operations\<close>
  | AqLoad | AqCas int | AqLock | AqInc | AqPred | AqSleep | AqWoken | AqDec | AqUnlock | AqRet
  | RlLoad | RlCas int | RlCheck | RlLock | RlNotify | RlUnlock | RlRet bool

text \<open>
  The fields of \<open>Semaphore\<close>, the program point of every thread, and two counters kept for the statements:
  how many calls of \<open>acquire\<close> have returned, and how many calls of \<open>release\<close> have raised the counter.
\<close>

record sem =
  capacity :: int
  remaining :: int
  waited :: int
  owner :: "nat option"
  pcs :: "spc list"
  granted :: int
  given :: int

definition Semaphore_new :: "int \<Rightarrow> nat \<Rightarrow> sem" where
  "Semaphore_new c n = \<lparr>capacity = c, remaining = c, waited = 0, owner = None, pcs = replicate n SIdle, granted = 0, given = 0\<rparr>"

definition at :: "sem \<Rightarrow> nat \<Rightarrow> spc \<Rightarrow> bool" where
  "at s t p \<longleftrightarrow> t < length (pcs s) \<and> pcs s ! t = p"

definition goto :: "nat \<Rightarrow> spc \<Rightarrow> sem \<Rightarrow> sem" where
  "goto t p s = s\<lparr>pcs := (pcs s)[t := p]\<rparr>"

section \<open>acquire\<close>

text \<open>
  \<open>compare_exchange_weak\<close> may fail although the values agree; a failure loads the current value into
  \<open>expected\<close>. The inner loop ends when the exchange succeeds or \<open>expected\<close> is not positive; then a zero
  leads to the condition variable, anything else to \<open>return\<close>.
\<close>

inductive acquire :: "nat \<Rightarrow> sem \<Rightarrow> sem \<Rightarrow> bool" for t where
  aq_call: "at s t SIdle \<Longrightarrow> acquire t s (goto t AqLoad s)"
| aq_load: "at s t AqLoad \<Longrightarrow> acquire t s (goto t (AqCas (remaining s)) s)"
| aq_take: "at s t (AqCas e) \<Longrightarrow> e > 0 \<Longrightarrow> remaining s = e \<Longrightarrow>
     acquire t s (goto t AqRet (s\<lparr>remaining := e - 1\<rparr>))"
| aq_fail: "at s t (AqCas e) \<Longrightarrow> e > 0 \<Longrightarrow> acquire t s (goto t (AqCas (remaining s)) s)"
| aq_zero: "at s t (AqCas 0) \<Longrightarrow> acquire t s (goto t AqLock s)"
| aq_negative: "at s t (AqCas e) \<Longrightarrow> e < 0 \<Longrightarrow> acquire t s (goto t AqRet s)"
| aq_lock: "at s t AqLock \<Longrightarrow> owner s = None \<Longrightarrow> acquire t s (goto t AqInc (s\<lparr>owner := Some t\<rparr>))"
| aq_inc: "at s t AqInc \<Longrightarrow> acquire t s (goto t AqPred (s\<lparr>waited := waited s + 1\<rparr>))"
| aq_sleep: "at s t AqPred \<Longrightarrow> \<not> remaining s > 0 \<Longrightarrow> acquire t s (goto t AqSleep (s\<lparr>owner := None\<rparr>))"
| aq_pass: "at s t AqPred \<Longrightarrow> remaining s > 0 \<Longrightarrow> acquire t s (goto t AqDec s)"
| aq_spurious: "at s t AqSleep \<Longrightarrow> acquire t s (goto t AqWoken s)"
| aq_relock: "at s t AqWoken \<Longrightarrow> owner s = None \<Longrightarrow> acquire t s (goto t AqPred (s\<lparr>owner := Some t\<rparr>))"
| aq_dec: "at s t AqDec \<Longrightarrow> acquire t s (goto t AqUnlock (s\<lparr>waited := waited s - 1\<rparr>))"
| aq_unlock: "at s t AqUnlock \<Longrightarrow> acquire t s (goto t AqLoad (s\<lparr>owner := None\<rparr>))"
| aq_return: "at s t AqRet \<Longrightarrow> acquire t s (goto t SIdle (s\<lparr>granted := granted s + 1\<rparr>))"

section \<open>release\<close>

inductive release :: "nat \<Rightarrow> sem \<Rightarrow> sem \<Rightarrow> bool" for t where
  rl_call: "at s t SIdle \<Longrightarrow> release t s (goto t RlLoad s)"
| rl_load: "at s t RlLoad \<Longrightarrow> release t s (goto t (RlCas (remaining s)) s)"
| rl_give: "at s t (RlCas e) \<Longrightarrow> e < capacity s \<Longrightarrow> remaining s = e \<Longrightarrow>
     release t s (goto t RlCheck (s\<lparr>remaining := e + 1, given := given s + 1\<rparr>))"
| rl_fail: "at s t (RlCas e) \<Longrightarrow> e < capacity s \<Longrightarrow> release t s (goto t (RlCas (remaining s)) s)"
| rl_full: "at s t (RlCas e) \<Longrightarrow> e = capacity s \<Longrightarrow> release t s (goto t (RlRet False) s)"
| rl_above: "at s t (RlCas e) \<Longrightarrow> e > capacity s \<Longrightarrow> release t s (goto t RlCheck s)"
| rl_waited: "at s t RlCheck \<Longrightarrow> waited s > 0 \<Longrightarrow> release t s (goto t RlLock s)"
| rl_alone: "at s t RlCheck \<Longrightarrow> \<not> waited s > 0 \<Longrightarrow> release t s (goto t (RlRet True) s)"
| rl_lock: "at s t RlLock \<Longrightarrow> owner s = None \<Longrightarrow> release t s (goto t RlNotify (s\<lparr>owner := Some t\<rparr>))"
| rl_notify: "at s t RlNotify \<Longrightarrow> at s u AqSleep \<Longrightarrow> release t s (goto t RlUnlock (goto u AqWoken s))"
| rl_notify_none: "at s t RlNotify \<Longrightarrow> \<forall>u. \<not> at s u AqSleep \<Longrightarrow> release t s (goto t RlUnlock s)"
| rl_unlock: "at s t RlUnlock \<Longrightarrow> release t s (goto t (RlRet True) (s\<lparr>owner := None\<rparr>))"
| rl_return: "at s t (RlRet b) \<Longrightarrow> release t s (goto t SIdle s)"

definition sem_step :: "sem \<Rightarrow> sem \<Rightarrow> bool" where
  "sem_step s s' \<longleftrightarrow> (\<exists>t. acquire t s s' \<or> release t s s')"

section \<open>Counting threads\<close>

definition cnt :: "(spc \<Rightarrow> bool) \<Rightarrow> sem \<Rightarrow> nat" where
  "cnt P s = length (filter P (pcs s))"

lemma cnt_goto: "t < length (pcs s) \<Longrightarrow> int (cnt P (goto t p s)) = int (cnt P s) + of_bool (P p) - of_bool (P (pcs s ! t))"
  using filter_update_length[of t "pcs s" P p] by (simp add: cnt_def goto_def split: if_splits)

lemma cnt_fields [simp]:
  "cnt P (s\<lparr>remaining := a\<rparr>) = cnt P s" "cnt P (s\<lparr>waited := a\<rparr>) = cnt P s" "cnt P (s\<lparr>owner := x\<rparr>) = cnt P s"
  "cnt P (s\<lparr>granted := a\<rparr>) = cnt P s" "cnt P (s\<lparr>given := a\<rparr>) = cnt P s"
  by (simp_all add: cnt_def)

lemma goto_fields [simp]:
  "capacity (goto t p s) = capacity s" "remaining (goto t p s) = remaining s" "waited (goto t p s) = waited s"
  "owner (goto t p s) = owner s" "granted (goto t p s) = granted s" "given (goto t p s) = given s"
  "length (pcs (goto t p s)) = length (pcs s)"
  by (simp_all add: goto_def)

lemma at_goto: "at (goto t p s) u q \<longleftrightarrow> (if u = t then t < length (pcs s) \<and> p = q else at s u q)"
  by (auto simp: at_def goto_def)

lemma at_fields [simp]:
  "at (s\<lparr>remaining := a\<rparr>) = at s" "at (s\<lparr>waited := a\<rparr>) = at s" "at (s\<lparr>owner := x\<rparr>) = at s"
  "at (s\<lparr>granted := a\<rparr>) = at s" "at (s\<lparr>given := a\<rparr>) = at s"
  by (simp_all add: at_def fun_eq_iff)

lemma cnt_pos: "0 < cnt P s \<longleftrightarrow> (\<exists>t p. at s t p \<and> P p)"
  by (auto simp: cnt_def at_def length_filter_conv_card card_gt_0_iff)

section \<open>The invariant\<close>

fun in_mutex :: "spc \<Rightarrow> bool" where
  "in_mutex AqInc = True" | "in_mutex AqPred = True" | "in_mutex AqDec = True" | "in_mutex AqUnlock = True"
| "in_mutex RlNotify = True" | "in_mutex RlUnlock = True" | "in_mutex _ = False"

fun counted :: "spc \<Rightarrow> bool" where
  "counted AqPred = True" | "counted AqSleep = True" | "counted AqWoken = True" | "counted AqDec = True"
| "counted _ = False"

fun notifying :: "spc \<Rightarrow> bool" where
  "notifying RlCheck = True" | "notifying RlLock = True" | "notifying RlNotify = True" | "notifying _ = False"

text \<open>Inside \<open>acquire\<close>, awake and without a permit: such a thread will look at the counter again.\<close>

fun looking :: "spc \<Rightarrow> bool" where
  "looking AqLoad = True" | "looking (AqCas e) = True" | "looking AqLock = True" | "looking AqInc = True"
| "looking AqPred = True" | "looking AqWoken = True" | "looking AqDec = True" | "looking AqUnlock = True"
| "looking _ = False"

fun sane :: "int \<Rightarrow> spc \<Rightarrow> bool" where
  "sane c (AqCas e) = (0 \<le> e)" | "sane c (RlCas e) = (e \<le> c)" | "sane c _ = True"

definition permits_ok :: "sem \<Rightarrow> bool" where
  "permits_ok s \<longleftrightarrow> 0 \<le> remaining s \<and> remaining s \<le> capacity s \<and>
     remaining s + granted s + int (cnt (\<lambda>p. p = AqRet) s) = capacity s + given s \<and>
     (\<forall>t p. at s t p \<longrightarrow> sane (capacity s) p)"

definition mutex_ok :: "sem \<Rightarrow> bool" where
  "mutex_ok s \<longleftrightarrow> (\<forall>t p. at s t p \<longrightarrow> (owner s = Some t \<longleftrightarrow> in_mutex p)) \<and>
     (\<forall>t. owner s = Some t \<longrightarrow> t < length (pcs s))"

definition wakeups_ok :: "sem \<Rightarrow> bool" where
  "wakeups_ok s \<longleftrightarrow> waited s = int (cnt counted s) \<and>
     (0 < int (cnt (\<lambda>p. p = AqSleep) s) \<longrightarrow> remaining s \<le> int (cnt notifying s) + int (cnt looking s))"

lemma at_length: "at s t p \<Longrightarrow> t < length (pcs s)" and at_nth: "at s t p \<Longrightarrow> pcs s ! t = p"
  by (simp_all add: at_def)

lemma nth_goto: "u < length (pcs s) \<Longrightarrow> pcs (goto t p s) ! u = (if u = t then p else pcs s ! u)"
  by (auto simp: goto_def)

lemmas sem_simps = cnt_goto at_length at_nth at_goto nth_goto

lemma permits_sane: "permits_ok s \<Longrightarrow> at s t p \<Longrightarrow> sane (capacity s) p"
  by (simp add: permits_ok_def)

lemma permits_acquire: "acquire t s s' \<Longrightarrow> permits_ok s \<Longrightarrow> permits_ok s'"
  by (induction rule: acquire.induct)
    (frule permits_sane, assumption, (auto simp: permits_ok_def sem_simps split: if_splits)[1])+

lemma permits_release: "release t s s' \<Longrightarrow> permits_ok s \<Longrightarrow> permits_ok s'"
  by (induction rule: release.induct)
    (frule permits_sane, assumption, (auto simp: permits_ok_def sem_simps split: if_splits)[1])+

lemma mutex_acquire: "acquire t s s' \<Longrightarrow> mutex_ok s \<Longrightarrow> mutex_ok s'"
  by (induction rule: acquire.induct; auto simp: mutex_ok_def sem_simps split: if_splits; metis in_mutex.simps option.inject)

lemma mutex_release: "release t s s' \<Longrightarrow> mutex_ok s \<Longrightarrow> mutex_ok s'"
  by (induction rule: release.induct; auto simp: mutex_ok_def sem_simps split: if_splits; metis in_mutex.simps option.inject)

lemma cnt_at: "at s t p \<Longrightarrow> of_bool (P p) \<le> int (cnt P s)"
  using cnt_pos[of P s] by (cases "P p") force+

lemma cnt_mono: "(\<And>p. P p \<Longrightarrow> Q p) \<Longrightarrow> int (cnt P s) \<le> int (cnt Q s)"
  unfolding cnt_def length_filter_conv_card by (auto intro!: card_mono)

lemma sleepers_counted: "int (cnt (\<lambda>p. p = AqSleep) s) \<le> int (cnt counted s)"
  by (rule cnt_mono) simp

lemma sleepers_none: "\<forall>u. \<not> at s u AqSleep \<Longrightarrow> int (cnt (\<lambda>p. p = AqSleep) s) = 0"
  using cnt_pos[of "\<lambda>p. p = AqSleep" s] by auto

lemma wakeups_acquire: "acquire t s s' \<Longrightarrow> permits_ok s \<Longrightarrow> wakeups_ok s \<Longrightarrow> wakeups_ok s'"
  by (induction rule: acquire.induct;
      frule permits_sane, assumption, frule cnt_at[where P = looking],
      auto simp: wakeups_ok_def sem_simps simp del: of_nat_0_less_iff split: if_splits)

lemma wakeups_release: "release t s s' \<Longrightarrow> permits_ok s \<Longrightarrow> wakeups_ok s \<Longrightarrow> wakeups_ok s'"
proof (induction rule: release.induct)
  case (rl_alone s)
  then show ?case using sleepers_counted[of s]
    by (auto simp: wakeups_ok_def sem_simps simp del: of_nat_0_less_iff)
next
  case (rl_notify s u)
  then have "t \<noteq> u" by (auto simp: at_def)
  with rl_notify cnt_at[of s u AqSleep "\<lambda>p. p = AqSleep"] show ?case
    by (auto simp: wakeups_ok_def sem_simps simp del: of_nat_0_less_iff)
next
  case (rl_notify_none s)
  then show ?case using sleepers_none[of s]
    by (auto simp: wakeups_ok_def sem_simps simp del: of_nat_0_less_iff)
qed (auto simp: wakeups_ok_def sem_simps permits_ok_def simp del: of_nat_0_less_iff)

section \<open>What the semaphore promises\<close>

definition sem_inv :: "sem \<Rightarrow> bool" where
  "sem_inv s \<longleftrightarrow> permits_ok s \<and> mutex_ok s \<and> wakeups_ok s"

lemma sem_inv_new: "0 \<le> c \<Longrightarrow> sem_inv (Semaphore_new c n)"
  by (auto simp: sem_inv_def permits_ok_def mutex_ok_def wakeups_ok_def Semaphore_new_def cnt_def at_def)

lemma sem_inv_step: "sem_step s s' \<Longrightarrow> sem_inv s \<Longrightarrow> sem_inv s'"
  unfolding sem_step_def sem_inv_def
  by (meson permits_acquire permits_release mutex_acquire mutex_release wakeups_acquire wakeups_release)

lemma step_capacity: "sem_step s s' \<Longrightarrow> capacity s' = capacity s"
  by (auto simp: sem_step_def elim!: acquire.cases release.cases)

lemma sem_reachable:
  assumes "sem_step\<^sup>*\<^sup>* (Semaphore_new c n) s" "0 \<le> c"
  shows "sem_inv s \<and> capacity s = c"
  using assms(1)
proof (induction rule: rtranclp_induct)
  case base
  show ?case using sem_inv_new[OF assms(2)] by (simp add: Semaphore_new_def)
next
  case (step s s')
  then show ?case using sem_inv_step step_capacity by simp
qed

text \<open>
  The counter and the permits. However any number of threads interleave their calls, the counter stays
  between 0 and the capacity, and the calls of \<open>acquire\<close> that have returned never exceed the capacity by
  more than the calls of \<open>release\<close> that took effect: no more than \<open>capacity\<close> permits are ever out.
\<close>

theorem semaphore_bounds:
  assumes "sem_step\<^sup>*\<^sup>* (Semaphore_new c n) s" "0 \<le> c"
  shows "0 \<le> remaining s \<and> remaining s \<le> c \<and> granted s - given s \<le> c"
  using sem_reachable[OF assms] by (auto simp: sem_inv_def permits_ok_def)

text \<open>A run of three threads: one holds the only permit, one sleeps, one has just raised the counter.\<close>

definition st1 :: "int \<Rightarrow> int \<Rightarrow> nat option \<Rightarrow> spc list \<Rightarrow> int \<Rightarrow> int \<Rightarrow> sem" where
  "st1 r w own ps g v = \<lparr>capacity = 1, remaining = r, waited = w, owner = own, pcs = ps, granted = g, given = v\<rparr>"

lemma sem_aq: "sem_step\<^sup>*\<^sup>* s0 s \<Longrightarrow> acquire t s s' \<Longrightarrow> sem_step\<^sup>*\<^sup>* s0 s'"
  using rtranclp.rtrancl_into_rtrancl[of sem_step s0 s s'] unfolding sem_step_def by blast

lemma sem_rl: "sem_step\<^sup>*\<^sup>* s0 s \<Longrightarrow> release t s s' \<Longrightarrow> sem_step\<^sup>*\<^sup>* s0 s'"
  using rtranclp.rtrancl_into_rtrancl[of sem_step s0 s s'] unfolding sem_step_def by blast

lemma sleeper_run: "sem_step\<^sup>*\<^sup>* (Semaphore_new 1 3) (st1 1 1 None [SIdle, AqSleep, RlCheck] 1 1)"
proof -
  have "sem_step\<^sup>*\<^sup>* (Semaphore_new 1 3) (st1 1 0 None [SIdle, SIdle, SIdle] 0 0)"
    by (simp add: st1_def Semaphore_new_def numeral_3_eq_3)
  from sem_aq[OF this aq_call[of "st1 1 0 None [SIdle, SIdle, SIdle] 0 0" 0]] have "sem_step\<^sup>*\<^sup>* (Semaphore_new 1 3) (st1 1 0 None [AqLoad, SIdle, SIdle] 0 0)"
    by (simp add: st1_def at_def goto_def)
  from sem_aq[OF this aq_load[of "st1 1 0 None [AqLoad, SIdle, SIdle] 0 0" 0]] have "sem_step\<^sup>*\<^sup>* (Semaphore_new 1 3) (st1 1 0 None [AqCas 1, SIdle, SIdle] 0 0)"
    by (simp add: st1_def at_def goto_def)
  from sem_aq[OF this aq_take[of "st1 1 0 None [AqCas 1, SIdle, SIdle] 0 0" 0 1]] have "sem_step\<^sup>*\<^sup>* (Semaphore_new 1 3) (st1 0 0 None [AqRet, SIdle, SIdle] 0 0)"
    by (simp add: st1_def at_def goto_def)
  from sem_aq[OF this aq_return[of "st1 0 0 None [AqRet, SIdle, SIdle] 0 0" 0]] have "sem_step\<^sup>*\<^sup>* (Semaphore_new 1 3) (st1 0 0 None [SIdle, SIdle, SIdle] 1 0)"
    by (simp add: st1_def at_def goto_def)
  from sem_aq[OF this aq_call[of "st1 0 0 None [SIdle, SIdle, SIdle] 1 0" 1]] have "sem_step\<^sup>*\<^sup>* (Semaphore_new 1 3) (st1 0 0 None [SIdle, AqLoad, SIdle] 1 0)"
    by (simp add: st1_def at_def goto_def)
  from sem_aq[OF this aq_load[of "st1 0 0 None [SIdle, AqLoad, SIdle] 1 0" 1]] have "sem_step\<^sup>*\<^sup>* (Semaphore_new 1 3) (st1 0 0 None [SIdle, AqCas 0, SIdle] 1 0)"
    by (simp add: st1_def at_def goto_def)
  from sem_aq[OF this aq_zero[of "st1 0 0 None [SIdle, AqCas 0, SIdle] 1 0" 1]] have "sem_step\<^sup>*\<^sup>* (Semaphore_new 1 3) (st1 0 0 None [SIdle, AqLock, SIdle] 1 0)"
    by (simp add: st1_def at_def goto_def)
  from sem_aq[OF this aq_lock[of "st1 0 0 None [SIdle, AqLock, SIdle] 1 0" 1]] have "sem_step\<^sup>*\<^sup>* (Semaphore_new 1 3) (st1 0 0 (Some 1) [SIdle, AqInc, SIdle] 1 0)"
    by (simp add: st1_def at_def goto_def)
  from sem_aq[OF this aq_inc[of "st1 0 0 (Some 1) [SIdle, AqInc, SIdle] 1 0" 1]] have "sem_step\<^sup>*\<^sup>* (Semaphore_new 1 3) (st1 0 1 (Some 1) [SIdle, AqPred, SIdle] 1 0)"
    by (simp add: st1_def at_def goto_def)
  from sem_aq[OF this aq_sleep[of "st1 0 1 (Some 1) [SIdle, AqPred, SIdle] 1 0" 1]] have "sem_step\<^sup>*\<^sup>* (Semaphore_new 1 3) (st1 0 1 None [SIdle, AqSleep, SIdle] 1 0)"
    by (simp add: st1_def at_def goto_def)
  from sem_rl[OF this rl_call[of "st1 0 1 None [SIdle, AqSleep, SIdle] 1 0" 2]] have "sem_step\<^sup>*\<^sup>* (Semaphore_new 1 3) (st1 0 1 None [SIdle, AqSleep, RlLoad] 1 0)"
    by (simp add: st1_def at_def goto_def)
  from sem_rl[OF this rl_load[of "st1 0 1 None [SIdle, AqSleep, RlLoad] 1 0" 2]] have "sem_step\<^sup>*\<^sup>* (Semaphore_new 1 3) (st1 0 1 None [SIdle, AqSleep, RlCas 0] 1 0)"
    by (simp add: st1_def at_def goto_def)
  from sem_rl[OF this rl_give[of "st1 0 1 None [SIdle, AqSleep, RlCas 0] 1 0" 2 0]] have "sem_step\<^sup>*\<^sup>* (Semaphore_new 1 3) (st1 1 1 None [SIdle, AqSleep, RlCheck] 1 1)"
    by (simp add: st1_def at_def goto_def)
  then show ?thesis .
qed

lemma semaphore_bounds_witness:
  "(\<exists>s. sem_step\<^sup>*\<^sup>* (Semaphore_new 1 3) s \<and> granted s = 1 \<and> granted s - given s \<le> 1)"
  using semaphore_bounds[OF sleeper_run] sleeper_run by (intro exI[of _ "st1 1 1 None [SIdle, AqSleep, RlCheck] 1 1"]) (simp add: st1_def)

lemma step_enabled:
  assumes "at s u p" "p \<notin> {SIdle, AqSleep, AqLock, AqWoken, RlLock}"
  shows "\<exists>s'. acquire u s s' \<or> release u s s'"
proof (cases p)
  case (AqCas e)
  then show ?thesis using assms(1)
    by (cases e "0 :: int" rule: linorder_cases) (auto intro: acquire.intros)
next
  case (RlCas e)
  then show ?thesis using assms(1)
    by (cases e "capacity s" rule: linorder_cases) (auto intro: release.intros)
next
  case RlNotify
  then show ?thesis using assms(1) rl_notify[of s u] rl_notify_none[of s u] by blast
next
  case AqPred
  then show ?thesis using assms(1) aq_sleep[of s u] aq_pass[of s u] by blast
next
  case RlCheck
  then show ?thesis using assms(1) rl_waited[of s u] rl_alone[of s u] by blast
qed (use assms in \<open>auto intro: acquire.intros release.intros\<close>)

text \<open>
  C18. No lost wake-up. Whenever permits are available while a thread sleeps in \<open>acquire\<close>, some other thread is
  awake inside \<open>acquire\<close> and will look at the counter again, or is on its way to notify; and some thread that
  is awake inside \<open>acquire\<close> or \<open>release\<close> can take its next step: the threads are not stuck with a permit free.
\<close>

theorem semaphore_no_lost_wakeup:
  assumes "sem_step\<^sup>*\<^sup>* (Semaphore_new c n) s" "0 \<le> c" "at s t AqSleep" "0 < remaining s"
  shows "(\<exists>u p. at s u p \<and> (notifying p \<or> looking p)) \<and>
    (\<exists>u p s'. at s u p \<and> p \<notin> {SIdle, AqSleep} \<and> (acquire u s s' \<or> release u s s'))"
proof -
  have inv: "mutex_ok s" "wakeups_ok s" using sem_reachable[OF assms(1,2)] by (simp_all add: sem_inv_def)
  have "0 < int (cnt notifying s) + int (cnt looking s)"
    using inv(2) assms(3,4) cnt_at[of s t AqSleep "\<lambda>p. p = AqSleep"] by (auto simp: wakeups_ok_def)
  then obtain u p where u: "at s u p" "notifying p \<or> looking p"
    using cnt_pos[of notifying s] cnt_pos[of looking s] by fastforce
  have "\<exists>u p s'. at s u p \<and> p \<notin> {SIdle, AqSleep} \<and> (acquire u s s' \<or> release u s s')"
  proof (cases "owner s")
    case (Some v)
    with inv(1) have "at s v (pcs s ! v)" "in_mutex (pcs s ! v)"
      by (auto simp: mutex_ok_def at_def)
    with step_enabled[of s v "pcs s ! v"] show ?thesis by (metis in_mutex.simps insertE singletonD)
  next
    case None
    have "p \<notin> {SIdle, AqSleep}" using u(2) by auto
    moreover have "\<exists>s'. acquire u s s' \<or> release u s s'"
      using step_enabled[OF u(1)] aq_lock[of s u] aq_relock[of s u] rl_lock[of s u] u(1) None calculation by blast
    ultimately show ?thesis using u(1) by blast
  qed
  with u show ?thesis by blast
qed

lemma semaphore_no_lost_wakeup_witness:
  "\<exists>u p. at (st1 1 1 None [SIdle, AqSleep, RlCheck] 1 1) u p \<and> (notifying p \<or> looking p)"
  using semaphore_no_lost_wakeup[OF sleeper_run, of 1] by (simp add: st1_def at_def)

section \<open>The abstract semaphore\<close>

text \<open>
  What a client sees: a counter. \<open>acquire\<close> takes one if there is one and otherwise does not return
  (\<open>None\<close>); \<open>release\<close> gives one back and says so, or, with the counter at its capacity, has no effect.
\<close>

definition acquire_spec :: "int \<Rightarrow> int option" where
  "acquire_spec n = (if n > 0 then Some (n - 1) else None)"

definition release_spec :: "int \<Rightarrow> int \<Rightarrow> bool \<times> int" where
  "release_spec c n = (if n < c then (True, n + 1) else (False, n))"

text \<open>
  C21. The atomic counter implements the abstract semaphore. From every reachable state, a step of \<open>acquire\<close> changes
  the counter exactly when it is the step after which the call returns, and then as the abstract
  \<open>acquire\<close> does; a step of \<open>release\<close> changes it exactly when it is the step that takes effect, as the
  abstract \<open>release\<close> does; and a call that returns \<open>false\<close> has read a counter at its capacity, where the abstract
  \<open>release\<close> says \<open>false\<close> too.
\<close>

theorem semaphore_refines:
  assumes "sem_step\<^sup>*\<^sup>* (Semaphore_new c n) s" "0 \<le> c"
  shows "(\<forall>t s'. acquire t s s' \<longrightarrow>
      (if at s' t AqRet then acquire_spec (remaining s) = Some (remaining s') else remaining s' = remaining s)) \<and>
    (\<forall>t s'. release t s s' \<longrightarrow>
      (if at s' t RlCheck then release_spec c (remaining s) = (True, remaining s') else remaining s' = remaining s) \<and>
      (at s' t (RlCas c) \<longrightarrow> release_spec c (remaining s) = (False, remaining s')) \<and>
      (at s' t (RlRet False) \<longrightarrow> at s t (RlCas c)))"
proof (intro conjI allI impI)
  have inv: "permits_ok s" "capacity s = c" using sem_reachable[OF assms] by (simp_all add: sem_inv_def)
  { fix t s' assume "acquire t s s'"
    then show "if at s' t AqRet then acquire_spec (remaining s) = Some (remaining s') else remaining s' = remaining s"
      using inv(1) by cases (frule permits_sane, assumption, auto simp: at_goto acquire_spec_def at_length)+ }
  { fix t s' assume r: "release t s s'"
    then show "if at s' t RlCheck then release_spec c (remaining s) = (True, remaining s') else remaining s' = remaining s"
      using inv by cases (frule permits_sane, assumption, auto simp: at_goto release_spec_def at_length)+
    show "at s' t (RlCas c) \<Longrightarrow> release_spec c (remaining s) = (False, remaining s')"
      using r inv by cases (auto simp: at_goto release_spec_def at_length)
    show "at s' t (RlRet False) \<Longrightarrow> at s t (RlCas c)"
      using r inv by cases (auto simp: at_goto at_length) }
qed

lemma semaphore_refines_witness:
  "acquire_spec 1 = Some 0 \<and> acquire 0 (goto 0 (AqCas 1) (goto 0 AqLoad (Semaphore_new 1 1)))
      (goto 0 AqRet (goto 0 (AqCas 1) (goto 0 AqLoad (Semaphore_new 1 1))\<lparr>remaining := 0\<rparr>))"
proof -
  let ?s1 = "goto 0 AqLoad (Semaphore_new 1 1)" let ?s2 = "goto 0 (AqCas 1) ?s1"
  let ?s3 = "goto 0 AqRet (?s2\<lparr>remaining := 0\<rparr>)"
  have "sem_step\<^sup>*\<^sup>* (Semaphore_new 1 1) ?s1"
    by (rule sem_aq[OF rtranclp.rtrancl_refl], rule aq_call) (simp add: at_def Semaphore_new_def)
  from sem_aq[OF this aq_load[of ?s1 0]] have r: "sem_step\<^sup>*\<^sup>* (Semaphore_new 1 1) ?s2"
    by (simp add: at_goto) (simp add: Semaphore_new_def)
  have t: "acquire 0 ?s2 ?s3" using aq_take[of ?s2 0 1] by (simp add: at_def Semaphore_new_def goto_def)
  have "at ?s3 0 AqRet" by (simp add: at_def goto_def Semaphore_new_def)
  with conjunct1[OF semaphore_refines[OF r], rule_format, OF _ t] t show ?thesis
    by (simp add: Semaphore_new_def goto_def)
qed

end
