(* ===== verification/Grpc_Client.thy ===== *)
theory Grpc_Client
  imports Grpc_Api Semaphore "HOL-Library.Signed_Division"
begin

text \<open>
  The asynchronous gRPC client of \<open>learn_grpc/hello_world/src/client/async\<close>: one call object per call in
  progress, registered with the proactor; the proactor's loop that hands completions to the call objects;
  and the writers of \<open>speak\<close> and \<open>talk\<close>, which take turns through a semaphore of capacity one.
\<close>

section \<open>client_event_opt.h\<close>

definition C_START_CALL :: event_opt_t where "C_START_CALL = 0"
definition C_FINISH :: event_opt_t where "C_FINISH = 1"
definition C_READ :: event_opt_t where "C_READ = 2"
definition C_WRITE :: event_opt_t where "C_WRITE = 3"
definition C_WRITE_DONE :: event_opt_t where "C_WRITE_DONE = 4"

section \<open>The state\<close>

text \<open>The status of a finished call: \<open>None\<close> is OK, otherwise the error's code and message.\<close>

type_synonym rpc_status = "(nat \<times> string) option"

text \<open>
  The fields of the call objects. \<open>finish\<close>, \<open>closed\<close> and the semaphore \<open>canWrite\<close> are only used by the classes
  that have them; \<open>canWrite\<close> is the abstract semaphore of capacity 1, its number of free permits.
\<close>

record call =
  c_key :: event_key_t
  c_status :: rpc_status
  c_response :: request
  c_finish :: bool
  c_closed :: bool
  canWrite :: int

datatype client_call =
    SayHelloCall call
  | SayHelloAgainCall call
  | SayGoodbyeCall call
  | SayGoodbyeAgainCall call
  | GreetCall call
  | ListenCall call
  | SpeakCall call
  | TalkCall call

text \<open>
  \<open>ClientProactor\<close> with the outside world. \<open>cqIdx\<close> is a 32-bit signed counter. \<open>c_started\<close> are the operations
  started, \<open>c_calls\<close> the calls prepared, with their request and their completion queue; a completion queue answers with a token, a flag, the response
  and the status it has stored.
\<close>

datatype cnext_ans = CNextShutdown | CNextTimeout | CGotEvent u64 bool request rpc_status

record gcli =
  c_manager :: "client_call manager"
  c_poolSize :: nat
  c_cqIdx :: u32
  c_clock :: "nat \<Rightarrow> string"
  c_ticks :: nat
  c_order :: "event_key_t list \<Rightarrow> event_key_t list"
  c_junk :: u32
  c_log :: "logline list"
  c_inflight :: "operation list"
  c_started :: "operation list"
  c_next :: "cnext_ans list"
  c_calls :: "(rpc \<times> request option \<times> nat) list"

definition LOG_c :: "loglevel \<Rightarrow> string \<Rightarrow> string list \<Rightarrow> (gcli, unit) cpp" where
  "LOG_c l fmt args = modify (\<lambda>s. s\<lparr>c_log := c_log s @ [(l, fmt, args)]\<rparr>)"

definition time_c :: "(gcli, string) cpp" where
  "time_c = (\<lambda>s. (Val (c_clock s (c_ticks s)), s\<lparr>c_ticks := c_ticks s + 1\<rparr>))"

definition op_c :: "grpc_call \<Rightarrow> Event \<Rightarrow> (gcli, unit) cpp" where
  "op_c c e = modify (\<lambda>s. s\<lparr>c_inflight := c_inflight s @ [(c, e)], c_started := c_started s @ [(c, e)]\<rparr>)"

definition mgr_c :: "(client_call manager, 'a) cpp \<Rightarrow> (gcli, 'a) cpp" where
  "mgr_c m = (\<lambda>s. case m (c_manager s) of (oc, hm) \<Rightarrow> (oc, s\<lparr>c_manager := hm\<rparr>))"

definition key_text :: "event_key_t \<Rightarrow> string" where
  "key_text k = to_string_nat (unat k)"

definition quoted_c :: string where
  "quoted_c = CHR 0x22 # ''{}'' @ [CHR 0x22]"

section \<open>The semaphore of a writer\<close>

text \<open>
  \<open>canWrite.acquire()\<close> does not return while there is no permit; \<open>while (!canWrite.release()) {}\<close> does not
  return while the semaphore is at its capacity.
\<close>

definition canWrite_acquire :: "call \<Rightarrow> (gcli, call) cpp" where
  "canWrite_acquire c = (\<lambda>s. case acquire_spec (canWrite c) of None \<Rightarrow> (Pending, s) | Some n \<Rightarrow> (Val (c\<lparr>canWrite := n\<rparr>), s))"

definition canWrite_release :: "call \<Rightarrow> (gcli, call) cpp" where
  "canWrite_release c = (\<lambda>s. case release_spec 1 (canWrite c) of (True, n) \<Rightarrow> (Val (c\<lparr>canWrite := n\<rparr>), s) | (False, n) \<Rightarrow> (Pending, s))"

section \<open>Starting a call\<close>

text \<open>
  \<open>cqs[cqIdx++ % threadPoolSize]\<close>: the counter wraps around like a 32-bit integer, and the remainder has the
  sign of the counter; an index outside the vector, or a pool of size 0, is undefined behaviour.
\<close>

definition next_cq :: "(gcli, nat) cpp" where
  "next_cq = (\<lambda>s.
     let i = sint (c_cqIdx s); n = int (c_poolSize s); s' = s\<lparr>c_cqIdx := c_cqIdx s + 1\<rparr> in
     if n = 0 then (Undef ''division by zero'', s')
     else if 0 \<le> i smod n then (Val (nat (i smod n)), s')
     else (Undef ''cqs[negative]'', s'))"

text \<open>The call object is in the manager before its key is known to it.\<close>

definition set_key :: "event_key_t \<Rightarrow> (call \<Rightarrow> client_call) \<Rightarrow> call \<Rightarrow> (gcli, unit) cpp" where
  "set_key k con c = mgr_c (modify (\<lambda>m. m\<lparr>handlers := om_put k (con (c\<lparr>c_key := k\<rparr>)) (handlers m)\<rparr>))"

definition prepareAsyncCall :: "rpc \<Rightarrow> request option \<Rightarrow> (call \<Rightarrow> client_call) \<Rightarrow> call \<Rightarrow> (gcli, event_key_t) cpp" where
  "prepareAsyncCall method rq con c =
     bnd (gets c_junk) (\<lambda>j.
     bnd (mgr_c (EventHandlerManager_add j (con c))) (\<lambda>event.
     sq (set_key (getKey event) con c)
     (bnd next_cq (\<lambda>cq.
     sq (modify (\<lambda>s. s\<lparr>c_calls := c_calls s @ [(method, rq, cq)]\<rparr>))
     (ret (getKey event))))))"

definition new_call :: call where
  "new_call = \<lparr>c_key = 0, c_status = None, c_response = ([], []), c_finish = False, c_closed = False, canWrite = 1\<rparr>"

text \<open>A tag: \<open>Event event(key); event.setOpt(opt);\<close>\<close>

definition tag :: "event_key_t \<Rightarrow> event_opt_t \<Rightarrow> (gcli, Event) cpp" where
  "tag k opt = bnd (gets c_junk) (\<lambda>j. ret (setOpt opt (Event_of_key j k)))"

text \<open>The unary calls: \<open>StartCall\<close> has no tag, the answer is asked for at once.\<close>

definition unary_call :: "rpc \<Rightarrow> request \<Rightarrow> (call \<Rightarrow> client_call) \<Rightarrow> (gcli, unit) cpp" where
  "unary_call method rq con =
     bnd (prepareAsyncCall method (Some rq) con new_call) (\<lambda>k.
     bnd (tag k C_FINISH) (\<lambda>e.
     op_c FinishInto e))"

definition sayHello :: "(gcli, unit) cpp" where
  "sayHello = unary_call SayHello (''Foo'', ''Bar'') SayHelloCall"

definition sayHelloAgain :: "(gcli, unit) cpp" where
  "sayHelloAgain = unary_call SayHelloAgain (''Foo'', ''Bar'') SayHelloAgainCall"

definition sayGoodbye :: "(gcli, unit) cpp" where
  "sayGoodbye = unary_call SayGoodbye (''Foo'', ''Bar'') SayGoodbyeCall"

definition sayGoodbyeAgain :: "(gcli, unit) cpp" where
  "sayGoodbyeAgain = unary_call SayGoodbyeAgain (''Foo'', ''Bar'') SayGoodbyeAgainCall"

definition greet :: "(gcli, unit) cpp" where
  "greet = bnd time_c (\<lambda>ts. unary_call Greet (ts, ''Nice to meet you!'') GreetCall)"

definition ListenCall_start :: "event_key_t \<Rightarrow> (gcli, unit) cpp" where
  "ListenCall_start k = bnd (tag k C_START_CALL) (\<lambda>e. op_c StartCall e)"

definition client_listen :: "(gcli, unit) cpp" where
  "client_listen = bnd time_c (\<lambda>ts. bnd (prepareAsyncCall Listen (Some (ts, ''Speaking!'')) ListenCall new_call) ListenCall_start)"

text \<open>
  Access to a writer, by the reference that \<open>speak\<close> or \<open>talk\<close> has returned: the object lives as long as the manager
  holds it, and a reference used after that dangles.
\<close>

fun writer :: "client_call \<Rightarrow> ((call \<Rightarrow> client_call) \<times> call) option" where
  "writer (SpeakCall c) = Some (SpeakCall, c)"
| "writer (TalkCall c) = Some (TalkCall, c)"
| "writer _ = None"

definition with_writer :: "event_key_t \<Rightarrow> (call \<Rightarrow> (gcli, call) cpp) \<Rightarrow> (gcli, unit) cpp" where
  "with_writer k f =
     bnd (gets (\<lambda>s. Option.bind (om_get (handlers (c_manager s)) k) writer)) (\<lambda>w.
     case w of
       None \<Rightarrow> undef ''dangling writer''
     | Some (con, c) \<Rightarrow>
         bnd (f c) (\<lambda>c'. mgr_c (modify (\<lambda>m. m\<lparr>handlers := om_put k (con c') (handlers m)\<rparr>))))"

definition SpeakCall_start :: "event_key_t \<Rightarrow> (gcli, unit) cpp" where
  "SpeakCall_start k =
     with_writer k (\<lambda>c.
       bnd (tag k C_START_CALL) (\<lambda>e.
       bnd (canWrite_acquire c) (\<lambda>c.
       sq (op_c StartCall e)
       (sq (op_c FinishInto (setOpt C_FINISH e))
       (ret c)))))"

definition TalkCall_start :: "event_key_t \<Rightarrow> (gcli, unit) cpp" where
  "TalkCall_start k =
     with_writer k (\<lambda>c.
       bnd (tag k C_START_CALL) (\<lambda>e.
       bnd (canWrite_acquire c) (\<lambda>c.
       sq (op_c StartCall e) (ret c))))"

definition client_speak :: "(gcli, event_key_t) cpp" where
  "client_speak = bnd time_c (\<lambda>ts. bnd (prepareAsyncCall Speak None SpeakCall new_call) (\<lambda>k. sq (SpeakCall_start k) (ret k)))"

definition client_talk :: "(gcli, event_key_t) cpp" where
  "client_talk = bnd time_c (\<lambda>ts. bnd (prepareAsyncCall Talk None TalkCall new_call) (\<lambda>k. sq (TalkCall_start k) (ret k)))"

text \<open>\<open>write\<close> and \<open>close\<close>, the same in \<open>SpeakCall\<close> and \<open>TalkCall\<close>.\<close>

definition writer_write :: "event_key_t \<Rightarrow> string \<Rightarrow> (gcli, unit) cpp" where
  "writer_write k msg =
     with_writer k (\<lambda>c.
       bnd (tag k C_WRITE) (\<lambda>e.
       bnd time_c (\<lambda>ts.
       bnd (canWrite_acquire c) (\<lambda>c.
       sq (op_c (Write (Words ts msg)) e) (ret c)))))"

definition writer_close :: "event_key_t \<Rightarrow> (gcli, unit) cpp" where
  "writer_close k =
     with_writer k (\<lambda>c.
       bnd (tag k C_WRITE_DONE) (\<lambda>e.
       bnd (canWrite_acquire c) (\<lambda>c.
       sq (op_c WritesDone e) (ret c))))"

section \<open>Completions\<close>

definition rpc_failed :: "call \<Rightarrow> event_key_t option \<Rightarrow> (gcli, unit) cpp" where
  "rpc_failed c ko = (case c_status c of
       None \<Rightarrow> skip
     | Some (code, msg) \<Rightarrow>
         (case ko of
            None \<Rightarrow> LOG_c LogError (''rpc failed, error_code({}), error_message: '' @ quoted_c) [to_string_nat code, msg]
          | Some k \<Rightarrow> LOG_c LogError (''rpc failed, key({}), error_code({}), error_message: '' @ quoted_c)
              [key_text k, to_string_nat code, msg]))"

definition unary_process :: "string \<Rightarrow> string list \<Rightarrow> bool \<Rightarrow> call \<Rightarrow> (gcli, call) cpp" where
  "unary_process fmt args optOk c =
     sq (if optOk then
           (if c_status c = None then LOG_c LogInfo fmt args else rpc_failed c None)
         else LOG_c LogError ''operation not ok'' [])
     (ret c)"

definition SayHelloCall_process :: "bool \<Rightarrow> call \<Rightarrow> (gcli, call) cpp" where
  "SayHelloCall_process optOk c = unary_process (''SayHello response: '' @ quoted_c) [fst (c_response c)] optOk c"

definition SayHelloAgainCall_process :: "bool \<Rightarrow> call \<Rightarrow> (gcli, call) cpp" where
  "SayHelloAgainCall_process optOk c = unary_process (''SayHelloAgain response: '' @ quoted_c) [fst (c_response c)] optOk c"

definition SayGoodbyeCall_process :: "bool \<Rightarrow> call \<Rightarrow> (gcli, call) cpp" where
  "SayGoodbyeCall_process optOk c = unary_process (''SayGoodbye response: '' @ quoted_c) [fst (c_response c)] optOk c"

definition SayGoodbyeAgainCall_process :: "bool \<Rightarrow> call \<Rightarrow> (gcli, call) cpp" where
  "SayGoodbyeAgainCall_process optOk c = unary_process (''SayGoodbyeAgain response: '' @ quoted_c) [fst (c_response c)] optOk c"

definition GreetCall_process :: "bool \<Rightarrow> call \<Rightarrow> (gcli, call) cpp" where
  "GreetCall_process optOk c = unary_process (''Greet response: {} - '' @ quoted_c) [fst (c_response c), snd (c_response c)] optOk c"

definition unexpected_c :: "Event \<Rightarrow> (gcli, unit) cpp" where
  "unexpected_c e = LOG_c LogError ''unexpected routine, key({}), opt({})'' [key_text (getKey e), key_text (getOpt e)]"

definition wrong_key :: "Event \<Rightarrow> call \<Rightarrow> (gcli, call) cpp \<Rightarrow> (gcli, call) cpp" where
  "wrong_key e c m = (if c_key c \<noteq> getKey e then throw (RuntimeError ''wrong key'') else m)"

definition ListenCall_process :: "bool \<Rightarrow> Event \<Rightarrow> call \<Rightarrow> (gcli, call) cpp" where
  "ListenCall_process optOk event c = wrong_key event c
     (let key = key_text (getKey event) in
      if getOpt event = C_START_CALL then
        (if optOk then
           sq (op_c Read (setOpt C_READ event)) (sq (LOG_c LogDebug ''start read, key({})'' [key]) (ret c))
         else sq (LOG_c LogError ''StartCall operation not ok, key({})'' [key]) (ret (c\<lparr>c_finish := True\<rparr>)))
      else if getOpt event = C_READ then
        (if optOk then
           sq (LOG_c LogInfo (''Listen response: {} - '' @ quoted_c @ '', key({})'') [fst (c_response c), snd (c_response c), key])
           (sq (op_c Read event) (ret c))
         else
           sq (LOG_c LogDebug ''read end, key({})'' [key])
           (sq (op_c FinishInto (setOpt C_FINISH event)) (ret c)))
      else if getOpt event = C_FINISH then
        sq (if optOk then
              (if c_status c = None then LOG_c LogInfo ''Listen end call, key({})'' [key] else rpc_failed c (Some (getKey event)))
            else LOG_c LogError ''Finish operation not ok, key({})'' [key])
        (ret (c\<lparr>c_finish := True\<rparr>))
      else sq (unexpected_c event) (ret c))"

text \<open>The branches that \<open>SpeakCall\<close> and \<open>TalkCall\<close> share.\<close>

definition on_write :: "bool \<Rightarrow> Event \<Rightarrow> call \<Rightarrow> (gcli, call) cpp" where
  "on_write optOk event c =
     bnd (canWrite_release c) (\<lambda>c.
     sq (LOG_c LogDebug ''Write ok, key({})'' [key_text (getKey event)])
     (sq (whenb (\<not> optOk) (LOG_c LogError ''Write operation not ok, key({})'' [key_text (getKey event)]))
     (ret c)))"

definition on_write_done :: "bool \<Rightarrow> Event \<Rightarrow> call \<Rightarrow> (gcli, call) cpp" where
  "on_write_done optOk event c =
     sq (if optOk then LOG_c LogDebug ''WritesDone ok, key({})'' [key_text (getKey event)]
         else LOG_c LogError ''WritesDone operation not ok, key({})'' [key_text (getKey event)])
     (ret (c\<lparr>c_closed := True\<rparr>))"

definition on_finish_c :: "string \<Rightarrow> bool \<Rightarrow> Event \<Rightarrow> call \<Rightarrow> (gcli, call) cpp" where
  "on_finish_c fmt optOk event c =
     sq (if optOk then
           (if c_status c = None then LOG_c LogInfo fmt [key_text (getKey event), fst (c_response c), snd (c_response c)]
            else rpc_failed c (Some (getKey event)))
         else LOG_c LogError ''Finish operation not ok, key({})'' [key_text (getKey event)])
     (ret (c\<lparr>c_finish := True\<rparr>))"

definition SpeakCall_process :: "bool \<Rightarrow> Event \<Rightarrow> call \<Rightarrow> (gcli, call) cpp" where
  "SpeakCall_process optOk event c = wrong_key event c
     (let key = key_text (getKey event) in
      if getOpt event = C_START_CALL then
        bnd (canWrite_release c) (\<lambda>c.
        sq (if optOk then LOG_c LogDebug ''StartCall ok, key({})'' [key]
            else LOG_c LogError ''StartCall operation not ok, key({})'' [key])
        (ret c))
      else if getOpt event = C_WRITE then on_write optOk event c
      else if getOpt event = C_WRITE_DONE then on_write_done optOk event c
      else if getOpt event = C_FINISH then on_finish_c (''Speak Finish, key({}), response: {} - '' @ quoted_c) optOk event c
      else sq (unexpected_c event) (ret c))"

definition TalkCall_process :: "bool \<Rightarrow> Event \<Rightarrow> call \<Rightarrow> (gcli, call) cpp" where
  "TalkCall_process optOk event c = wrong_key event c
     (let key = key_text (getKey event) in
      if getOpt event = C_START_CALL then
        bnd (if optOk then
               sq (op_c Read (setOpt C_READ event)) (sq (LOG_c LogDebug ''StartCall ok, key({})'' [key]) (ret c))
             else sq (LOG_c LogError ''StartCall operation not ok, key({})'' [key]) (ret (c\<lparr>c_finish := True\<rparr>)))
        canWrite_release
      else if getOpt event = C_READ then
        (if optOk then
           sq (LOG_c LogInfo (''Talk response: {} - '' @ quoted_c @ '', key({})'') [fst (c_response c), snd (c_response c), key])
           (sq (op_c Read event) (ret c))
         else
           sq (LOG_c LogDebug ''read end, key({})'' [key])
           (sq (op_c FinishInto (setOpt C_FINISH event)) (ret c)))
      else if getOpt event = C_WRITE then on_write optOk event c
      else if getOpt event = C_WRITE_DONE then on_write_done optOk event c
      else if getOpt event = C_FINISH then on_finish_c (''Talk Finish, key({}), response: {} - '' @ quoted_c) optOk event c
      else sq (unexpected_c event) (ret c))"

fun client_process :: "bool \<Rightarrow> Event \<Rightarrow> client_call \<Rightarrow> (gcli, client_call) cpp" where
  "client_process ok e (SayHelloCall c) = bnd (SayHelloCall_process ok c) (\<lambda>c. ret (SayHelloCall c))"
| "client_process ok e (SayHelloAgainCall c) = bnd (SayHelloAgainCall_process ok c) (\<lambda>c. ret (SayHelloAgainCall c))"
| "client_process ok e (SayGoodbyeCall c) = bnd (SayGoodbyeCall_process ok c) (\<lambda>c. ret (SayGoodbyeCall c))"
| "client_process ok e (SayGoodbyeAgainCall c) = bnd (SayGoodbyeAgainCall_process ok c) (\<lambda>c. ret (SayGoodbyeAgainCall c))"
| "client_process ok e (GreetCall c) = bnd (GreetCall_process ok c) (\<lambda>c. ret (GreetCall c))"
| "client_process ok e (ListenCall c) = bnd (ListenCall_process ok e c) (\<lambda>c. ret (ListenCall c))"
| "client_process ok e (SpeakCall c) = bnd (SpeakCall_process ok e c) (\<lambda>c. ret (SpeakCall c))"
| "client_process ok e (TalkCall c) = bnd (TalkCall_process ok e c) (\<lambda>c. ret (TalkCall c))"

fun client_isComplete :: "client_call \<Rightarrow> bool" where
  "client_isComplete (ListenCall c) = c_finish c"
| "client_isComplete (SpeakCall c) = (c_finish c \<and> c_closed c)"
| "client_isComplete (TalkCall c) = (c_finish c \<and> c_closed c)"
| "client_isComplete _ = True"

section \<open>The proactor\<close>

definition client_event :: "bool \<Rightarrow> Event \<Rightarrow> (gcli, unit) cpp" where
  "client_event ok e =
     bnd (mgr_c (EventHandlerManager_contains (getKey e))) (\<lambda>known.
     if \<not> known then LOG_c LogWarn ''event key({}) not exist'' [key_text (getKey e)]
     else bnd (mgr_c (EventHandlerManager_get (getKey e))) (\<lambda>h.
          bnd (client_process ok e h) (\<lambda>h'.
          sq (mgr_c (modify (\<lambda>m. m\<lparr>handlers := om_put (getKey e) h' (handlers m)\<rparr>)))
          (whenb (client_isComplete h') (mgr_c (EventHandlerManager_remove (getKey e)))))))"

fun map_call :: "(call \<Rightarrow> call) \<Rightarrow> client_call \<Rightarrow> client_call" where
  "map_call f (SayHelloCall c) = SayHelloCall (f c)" | "map_call f (SayHelloAgainCall c) = SayHelloAgainCall (f c)"
| "map_call f (SayGoodbyeCall c) = SayGoodbyeCall (f c)" | "map_call f (SayGoodbyeAgainCall c) = SayGoodbyeAgainCall (f c)"
| "map_call f (GreetCall c) = GreetCall (f c)" | "map_call f (ListenCall c) = ListenCall (f c)"
| "map_call f (SpeakCall c) = SpeakCall (f c)" | "map_call f (TalkCall c) = TalkCall (f c)"

text \<open>gRPC's part: a completed \<open>READ\<close> or \<open>FINISH\<close> has stored the response, a \<open>FINISH\<close> also the status.\<close>

definition cfill :: "bool \<Rightarrow> Event \<Rightarrow> request \<Rightarrow> rpc_status \<Rightarrow> gcli \<Rightarrow> gcli" where
  "cfill ok e r st s =
     (case om_get (handlers (c_manager s)) (getKey e) of
        None \<Rightarrow> s
      | Some h \<Rightarrow> s\<lparr>c_manager := (c_manager s)\<lparr>handlers := om_put (getKey e)
          (map_call (\<lambda>c. if ok \<and> getOpt e = C_READ then c\<lparr>c_response := r\<rparr>
             else if ok \<and> getOpt e = C_FINISH then c\<lparr>c_response := r, c_status := st\<rparr> else c) h) (handlers (c_manager s))\<rparr>\<rparr>)"

fun asyncCompleteRpc :: "nat \<Rightarrow> (gcli, unit) cpp" where
  "asyncCompleteRpc 0 s = (Pending, s)"
| "asyncCompleteRpc (Suc k) s =
     (case c_next s of
        [] \<Rightarrow> (Pending, s)
      | CNextShutdown # as \<Rightarrow>
          bnd (gets c_order) (\<lambda>ord.
          bnd (mgr_c EventHandlerManager_count) (\<lambda>n.
          bnd (mgr_c (EventHandlerManager_getKeys ord)) (\<lambda>ks.
          sq (LOG_c LogInfo ''cq shutdown, remaining eventHandler count: {}, keys: {}'' [to_string_nat n, ks])
          (mgr_c EventHandlerManager_clear)))) (s\<lparr>c_next := as\<rparr>)
      | CNextTimeout # as \<Rightarrow>
          bnd (gets c_order) (\<lambda>ord.
          bnd (mgr_c EventHandlerManager_count) (\<lambda>n.
          bnd (mgr_c (EventHandlerManager_getKeys ord)) (\<lambda>ks.
          sq (LOG_c LogDebug ''Timeout, handlerManager count: {}, keys: {}'' [to_string_nat n, ks])
          (if n \<noteq> 0 then asyncCompleteRpc k else skip)))) (s\<lparr>c_next := as\<rparr>)
      | CGotEvent token ok r st # as \<Rightarrow>
          sq (client_event ok (Event_of_token token)) (asyncCompleteRpc k) (cfill ok (Event_of_token token) r st (s\<lparr>c_next := as\<rparr>)))"

definition ClientProactor_new :: "nat \<Rightarrow> (nat \<Rightarrow> string) \<Rightarrow> (event_key_t list \<Rightarrow> event_key_t list) \<Rightarrow> u32 \<Rightarrow> gcli" where
  "ClientProactor_new n clk ord j =
     \<lparr>c_manager = EventHandlerManager_new, c_poolSize = n, c_cqIdx = 0, c_clock = clk, c_ticks = 0, c_order = ord, c_junk = j,
      c_log = [], c_inflight = [], c_started = [], c_next = [], c_calls = []\<rparr>"

section \<open>The client as a transition system\<close>

text \<open>The application may start calls, write and close at any time; any operation in flight may complete.\<close>

inductive cli_step :: "gcli \<Rightarrow> gcli \<Rightarrow> bool" where
  cs_unary: "m \<in> {sayHello, sayHelloAgain, sayGoodbye, sayGoodbyeAgain, greet, client_listen} \<Longrightarrow> m s = (Val (), s') \<Longrightarrow> cli_step s s'"
| cs_stream: "m \<in> {client_speak, client_talk} \<Longrightarrow> m s = (Val k, s') \<Longrightarrow> cli_step s s'"
| cs_write: "writer_write k msg s = (Val (), s') \<Longrightarrow> cli_step s s'"
| cs_close: "writer_close k s = (Val (), s') \<Longrightarrow> cli_step s s'"
| cs_complete: "i < length (c_inflight s) \<Longrightarrow> e = snd (c_inflight s ! i) \<Longrightarrow>
     client_event ok e (cfill ok e r st (s\<lparr>c_inflight := take_out i (c_inflight s)\<rparr>)) = (Val (), s') \<Longrightarrow> cli_step s s'"

end
