(* ===== verification/Grpc_Client_Props.thy ===== *)
theory Grpc_Client_Props
  imports Grpc_Client
begin

text \<open>
  What the gRPC client guarantees: every completion reaches the call it belongs to and is processed without
  waiting, and the writers of \<open>speak\<close> and \<open>talk\<close> never have two writes in flight, which gRPC forbids.
\<close>

section \<open>Operations in flight, by tag\<close>

definition cnl :: "operation list \<Rightarrow> event_key_t \<Rightarrow> event_opt_t \<Rightarrow> int" where
  "cnl ops k opt = int (length (filter (\<lambda>op. snd op = tok k opt) ops))"

abbreviation cn :: "gcli \<Rightarrow> event_key_t \<Rightarrow> event_opt_t \<Rightarrow> int" where
  "cn s \<equiv> cnl (c_inflight s)"

abbreviation cmap :: "gcli \<Rightarrow> event_key_t \<Rightarrow> client_call option" where
  "cmap s \<equiv> om_get (handlers (c_manager s))"

lemma copts_distinct [simp]:
  "C_START_CALL \<noteq> C_FINISH" "C_START_CALL \<noteq> C_READ" "C_START_CALL \<noteq> C_WRITE" "C_START_CALL \<noteq> C_WRITE_DONE"
  "C_FINISH \<noteq> C_READ" "C_FINISH \<noteq> C_WRITE" "C_FINISH \<noteq> C_WRITE_DONE" "C_READ \<noteq> C_WRITE" "C_READ \<noteq> C_WRITE_DONE"
  "C_WRITE \<noteq> C_WRITE_DONE" "C_FINISH \<noteq> C_START_CALL" "C_READ \<noteq> C_START_CALL" "C_WRITE \<noteq> C_START_CALL"
  "C_WRITE_DONE \<noteq> C_START_CALL" "C_READ \<noteq> C_FINISH" "C_WRITE \<noteq> C_FINISH" "C_WRITE_DONE \<noteq> C_FINISH" "C_WRITE \<noteq> C_READ"
  "C_WRITE_DONE \<noteq> C_READ" "C_WRITE_DONE \<noteq> C_WRITE"
  by (simp_all add: C_START_CALL_def C_FINISH_def C_READ_def C_WRITE_def C_WRITE_DONE_def)

definition copts :: "event_opt_t set" where
  "copts = {C_START_CALL, C_FINISH, C_READ, C_WRITE, C_WRITE_DONE}"

text \<open>
  The protocol of a call with the numbers \<open>n\<close> of operations in flight: a unary call waits for its answer; \<open>listen\<close>
  has one operation; in \<open>speak\<close> and \<open>talk\<close> the permit is free, or with an operation that writes, or has been
  used up by closing; \<open>speak\<close> also waits for its end, and \<open>talk\<close> reads or waits for its end.
\<close>

fun protocol :: "client_call \<Rightarrow> event_key_t \<Rightarrow> (event_opt_t \<Rightarrow> int) \<Rightarrow> bool" where
  "protocol (ListenCall c) k n \<longleftrightarrow> c_key c = k \<and> \<not> c_finish c \<and>
     n C_START_CALL + n C_READ + n C_FINISH = 1 \<and> n C_WRITE = 0 \<and> n C_WRITE_DONE = 0"
| "protocol (SpeakCall c) k n \<longleftrightarrow> c_key c = k \<and> 0 \<le> canWrite c \<and>
     canWrite c + n C_START_CALL + n C_WRITE + n C_WRITE_DONE + of_bool (c_closed c) = 1 \<and>
     n C_READ = 0 \<and> n C_FINISH + of_bool (c_finish c) = 1"
| "protocol (TalkCall c) k n \<longleftrightarrow> c_key c = k \<and> 0 \<le> canWrite c \<and>
     canWrite c + n C_START_CALL + n C_WRITE + n C_WRITE_DONE + of_bool (c_closed c) = 1 \<and>
     n C_START_CALL + n C_READ + n C_FINISH + of_bool (c_finish c) = 1"
| "protocol h k n \<longleftrightarrow> n C_START_CALL = 0 \<and> n C_READ = 0 \<and> n C_FINISH = 1 \<and> n C_WRITE = 0 \<and> n C_WRITE_DONE = 0"

definition none_in_flight :: "(event_opt_t \<Rightarrow> int) \<Rightarrow> bool" where
  "none_in_flight n \<longleftrightarrow> n C_START_CALL = 0 \<and> n C_READ = 0 \<and> n C_FINISH = 0 \<and> n C_WRITE = 0 \<and> n C_WRITE_DONE = 0"

definition call_ok :: "event_key_t \<Rightarrow> client_call option \<Rightarrow> (event_opt_t \<Rightarrow> int) \<Rightarrow> bool" where
  "call_ok k ho n \<longleftrightarrow> (case ho of None \<Rightarrow> none_in_flight n
     | Some h \<Rightarrow> protocol h k n \<and> (writer h \<noteq> None \<longrightarrow> \<not> client_isComplete h))"

definition cli_inv :: "gcli \<Rightarrow> bool" where
  "cli_inv s \<longleftrightarrow> (\<forall>op \<in> set (c_inflight s). getOpt (snd op) \<in> copts) \<and> (\<forall>k. call_ok k (cmap s k) (cn s k))"

section \<open>Evaluation\<close>

lemma LOG_c_run [cpp_eval]: "LOG_c l f a s = (Val (), s\<lparr>c_log := c_log s @ [(l, f, a)]\<rparr>)"
  by (simp add: LOG_c_def cpp_eval)

lemma op_c_run [cpp_eval]:
  "op_c c e s = (Val (), s\<lparr>c_inflight := c_inflight s @ [(c, e)], c_started := c_started s @ [(c, e)]\<rparr>)"
  by (simp add: op_c_def cpp_eval)

lemma time_c_run [cpp_eval]: "time_c s = (Val (c_clock s (c_ticks s)), s\<lparr>c_ticks := c_ticks s + 1\<rparr>)"
  by (simp add: time_c_def)

lemma tag_run [cpp_eval]: "tag k opt s = (Val (tok k opt), s)"
  by (simp add: tag_def cpp_eval setOpt_key)

lemma mgr_c_ops [cpp_eval]:
  "mgr_c (EventHandlerManager_contains k) s = (Val (om_has (handlers (c_manager s)) k), s)"
  "cmap s k = Some h \<Longrightarrow> mgr_c (EventHandlerManager_get k) s = (Val h, s)"
  "mgr_c (EventHandlerManager_remove k) s = (Val (), s\<lparr>c_manager := (c_manager s)\<lparr>handlers := om_del k (handlers (c_manager s))\<rparr>\<rparr>)"
  "mgr_c (modify f) s = (Val (), s\<lparr>c_manager := f (c_manager s)\<rparr>)"
  by (simp_all add: mgr_c_def EventHandlerManager_contains_def EventHandlerManager_get_def EventHandlerManager_remove_def cpp_eval)

lemma release_run [cpp_eval]: "canWrite c < 1 \<Longrightarrow> canWrite_release c s = (Val (c\<lparr>canWrite := canWrite c + 1\<rparr>), s)"
  by (simp add: canWrite_release_def release_spec_def)

lemma acquire_run [cpp_eval]:
  "canWrite_acquire c s = (if 0 < canWrite c then (Val (c\<lparr>canWrite := canWrite c - 1\<rparr>), s) else (Pending, s))"
  by (simp add: canWrite_acquire_def acquire_spec_def)

definition failure_text :: "call \<Rightarrow> event_key_t option \<Rightarrow> logline list" where
  "failure_text c ko = (case c_status c of
       None \<Rightarrow> []
     | Some (code, msg) \<Rightarrow>
         (case ko of
            None \<Rightarrow> [(LogError, ''rpc failed, error_code({}), error_message: '' @ quoted_c, [to_string_nat code, msg])]
          | Some k \<Rightarrow> [(LogError, ''rpc failed, key({}), error_code({}), error_message: '' @ quoted_c,
              [key_text k, to_string_nat code, msg])]))"

lemma rpc_failed_run [cpp_eval]: "rpc_failed c ko s = (Val (), s\<lparr>c_log := c_log s @ failure_text c ko\<rparr>)"
  by (simp add: rpc_failed_def failure_text_def LOG_c_run skip_run split: option.split)

lemma cnl_simps [simp]:
  "cnl [] k x = 0" "cnl (ops @ ops') k x = cnl ops k x + cnl ops' k x"
  "cnl ((c, tok k opt) # ops) k' x = of_bool (k = k' \<and> opt = x) + cnl ops k' x"
  by (simp_all add: cnl_def)

lemma cnl_nonneg [simp]: "0 \<le> cnl ops k x"
  by (simp add: cnl_def)

lemma cnl_take_out: "i < length ops \<Longrightarrow> snd (ops ! i) = tok k opt \<Longrightarrow>
    cnl ops k' x = cnl (take_out i ops) k' x + of_bool (k = k' \<and> opt = x)"
  using arg_cong[where f = "\<lambda>ops. cnl ops k' x", OF take_out_split[of i ops]]
  by (cases "ops ! i") (simp add: take_out_def)

section \<open>One completion in one call\<close>

text \<open>
  \<open>proceeds\<close>: the call returns, touches only operations of its own key, and is then complete with nothing in
  flight or follows its protocol again.
\<close>

definition proceeds :: "event_key_t \<Rightarrow> ('a \<Rightarrow> client_call) \<Rightarrow> (gcli, 'a) cpp \<Rightarrow> gcli \<Rightarrow> bool" where
  "proceeds k con m s \<longleftrightarrow> (case m s of
      (Val a, s') \<Rightarrow> c_manager s' = c_manager s \<and> (\<forall>k' x. k' \<noteq> k \<longrightarrow> cn s' k' x = cn s k' x) \<and>
        (\<forall>op \<in> set (c_inflight s'). op \<in> set (c_inflight s) \<or> getOpt (snd op) \<in> copts) \<and>
        (if client_isComplete (con a) then none_in_flight (cn s' k) else protocol (con a) k (cn s' k))
    | _ \<Rightarrow> False)"

definition removed :: "event_opt_t \<Rightarrow> (event_opt_t \<Rightarrow> int) \<Rightarrow> event_opt_t \<Rightarrow> int" where
  "removed opt n = (\<lambda>x. n x + of_bool (opt = x))"

lemma unary_proceeds:
  assumes "none_in_flight (cn s k)" "\<And>a. client_isComplete (con a)"
  shows "proceeds k con (unary_process f as ok c) s"
  using assms by (simp add: proceeds_def unary_process_def cpp_eval)

lemma listen_proceeds:
  assumes "protocol (ListenCall c) k (removed opt (cn s k))" "opt \<in> copts"
  shows "proceeds k ListenCall (ListenCall_process ok (tok k opt) c) s"
proof -
  have nn: "0 \<le> cn s k x" for x by simp
  note nn[of C_START_CALL] nn[of C_READ] nn[of C_FINISH] nn[of C_WRITE] nn[of C_WRITE_DONE]
  with assms show ?thesis
    unfolding copts_def proceeds_def ListenCall_process_def wrong_key_def
    by (elim insertE emptyE; cases ok; simp add: removed_def cpp_eval none_in_flight_def copts_def; linarith?)
qed

lemmas writer_defs = on_write_def on_write_done_def on_finish_c_def

text \<open>While an operation that writes is in flight, nobody else has the permit.\<close>

lemma writer_turn:
  assumes "0 \<le> w" "w + removed opt (cn s k) C_START_CALL + removed opt (cn s k) C_WRITE + removed opt (cn s k) C_WRITE_DONE +
      of_bool b = (1 :: int)" "opt \<in> {C_START_CALL, C_WRITE, C_WRITE_DONE}"
  shows "w = 0 \<and> \<not> b \<and> cn s k C_START_CALL = 0 \<and> cn s k C_WRITE = 0 \<and> cn s k C_WRITE_DONE = 0"
proof -
  have nn: "0 \<le> cn s k x" for x by simp
  have "removed opt (cn s k) C_START_CALL + removed opt (cn s k) C_WRITE + removed opt (cn s k) C_WRITE_DONE =
      cn s k C_START_CALL + cn s k C_WRITE + cn s k C_WRITE_DONE + 1"
    using assms(3) by (auto simp: removed_def)
  then show ?thesis using assms(1,2) nn[of C_START_CALL] nn[of C_WRITE] nn[of C_WRITE_DONE]
    by (cases b) (auto simp del: cnl_nonneg)
qed

lemma speak_proceeds:
  assumes "protocol (SpeakCall c) k (removed opt (cn s k))" "opt \<in> copts"
  shows "proceeds k SpeakCall (SpeakCall_process ok (tok k opt) c) s"
proof (cases "opt \<in> {C_START_CALL, C_WRITE, C_WRITE_DONE}")
  case True
  with assms(1) writer_turn[of "canWrite c" opt s k "c_closed c"]
  have t: "canWrite c = 0" "\<not> c_closed c" "cn s k C_START_CALL = 0" "cn s k C_WRITE = 0" "cn s k C_WRITE_DONE = 0" by auto
  from True assms(1) t show ?thesis
    unfolding proceeds_def SpeakCall_process_def wrong_key_def
    by (elim insertE emptyE; cases ok; cases "c_finish c";
        simp add: removed_def writer_defs cpp_eval none_in_flight_def copts_def)
next
  case False
  then have "opt = C_READ \<or> opt = C_FINISH" using assms(2) by (auto simp: copts_def)
  moreover have "0 \<le> cn s k x" for x by simp
  note this[of C_START_CALL] this[of C_READ] this[of C_FINISH] this[of C_WRITE] this[of C_WRITE_DONE]
  ultimately show ?thesis using assms(1)
    unfolding proceeds_def SpeakCall_process_def wrong_key_def
    by (elim disjE; cases ok; cases "c_closed c"; cases "c_finish c";
        simp add: removed_def writer_defs cpp_eval none_in_flight_def copts_def; linarith?)
qed

lemma talk_proceeds:
  assumes "protocol (TalkCall c) k (removed opt (cn s k))" "opt \<in> copts"
  shows "proceeds k TalkCall (TalkCall_process ok (tok k opt) c) s"
proof -
  have nn: "0 \<le> cn s k x" for x by simp
  note nn = nn[of C_START_CALL] nn[of C_READ] nn[of C_FINISH] nn[of C_WRITE] nn[of C_WRITE_DONE]
  show ?thesis
  proof (cases "opt \<in> {C_START_CALL, C_WRITE, C_WRITE_DONE}")
    case True
    with assms(1) writer_turn[of "canWrite c" opt s k "c_closed c"]
    have t: "canWrite c = 0" "\<not> c_closed c" "cn s k C_START_CALL = 0" "cn s k C_WRITE = 0" "cn s k C_WRITE_DONE = 0" by auto
    from True assms(1) t nn show ?thesis
      unfolding proceeds_def TalkCall_process_def wrong_key_def
      by (elim insertE emptyE; cases ok; cases "c_finish c";
          simp add: removed_def writer_defs cpp_eval none_in_flight_def copts_def; linarith?)
  next
    case False
    then have "opt = C_READ \<or> opt = C_FINISH" using assms(2) by (auto simp: copts_def)
    with assms(1) nn show ?thesis
      unfolding proceeds_def TalkCall_process_def wrong_key_def
      by (elim disjE; cases ok; cases "c_closed c"; cases "c_finish c";
          simp add: removed_def writer_defs cpp_eval none_in_flight_def copts_def; linarith?)
  qed
qed

lemma proceeds_bnd: "proceeds k con m s \<Longrightarrow> proceeds k id (bnd m (\<lambda>a. ret (con a))) s"
  by (auto simp: proceeds_def cpp_eval split: prod.splits outcome.splits)

lemma unary_removed:
  assumes "protocol h k (removed opt (cn s k))" "opt \<in> copts" "writer h = None" "\<forall>c. h \<noteq> ListenCall c"
  shows "none_in_flight (cn s k)"
proof -
  have nn: "0 \<le> cn s k x" for x by simp
  note nn[of C_START_CALL] nn[of C_READ] nn[of C_FINISH] nn[of C_WRITE] nn[of C_WRITE_DONE]
  with assms show ?thesis unfolding copts_def
    by (elim insertE emptyE; cases h; simp add: removed_def none_in_flight_def)
qed

lemma client_process_proceeds:
  assumes "protocol h k (removed opt (cn s k))" "opt \<in> copts"
  shows "proceeds k id (client_process ok (tok k opt) h) s"
  using assms
proof (cases h)
  case (ListenCall c)
  then show ?thesis using listen_proceeds[of c k opt s ok] assms by (simp only: client_process.simps proceeds_bnd)
next
  case (SpeakCall c)
  then show ?thesis using speak_proceeds[of c k opt s ok] assms by (simp only: client_process.simps proceeds_bnd)
next
  case (TalkCall c)
  then show ?thesis using talk_proceeds[of c k opt s ok] assms by (simp only: client_process.simps proceeds_bnd)
qed (use unary_removed[OF assms] in \<open>simp_all add: proceeds_bnd unary_proceeds SayHelloCall_process_def
      SayHelloAgainCall_process_def SayGoodbyeCall_process_def SayGoodbyeAgainCall_process_def GreetCall_process_def\<close>)

section \<open>Every completion is processed\<close>

lemma cfill_sel [simp]: "c_inflight (cfill ok e r st s) = c_inflight s"
  by (simp add: cfill_def split: option.split)

lemma map_call_fill:
  assumes "\<And>c. c_key (f c) = c_key c \<and> c_finish (f c) = c_finish c \<and> c_closed (f c) = c_closed c \<and> canWrite (f c) = canWrite c"
  shows "protocol (map_call f h) k n = protocol h k n" "client_isComplete (map_call f h) = client_isComplete h"
    "writer (map_call f h) = None \<longleftrightarrow> writer h = None"
  using assms by (cases h; simp)+

lemma cmap_cfill:
  "\<exists>f. (\<forall>c. c_key (f c) = c_key c \<and> c_finish (f c) = c_finish c \<and> c_closed (f c) = c_closed c \<and> canWrite (f c) = canWrite c) \<and>
     cmap (cfill ok e r st s) = (\<lambda>k. if k = getKey e then map_option (map_call f) (cmap s k) else cmap s k)"
proof -
  let ?f = "\<lambda>c. if ok \<and> getOpt e = C_READ then c\<lparr>c_response := r\<rparr>
      else if ok \<and> getOpt e = C_FINISH then c\<lparr>c_response := r, c_status := st\<rparr> else c"
  show ?thesis by (rule exI[of _ ?f]) (auto simp: cfill_def fun_eq_iff split: option.split)
qed

lemma client_event_run:
  "cmap s (getKey e) = Some h \<Longrightarrow> client_process ok e h s = (Val h', s') \<Longrightarrow>
     \<exists>t. client_event ok e s = (Val (), t) \<and> c_inflight t = c_inflight s' \<and>
       cmap t = (cmap s')(getKey e := if client_isComplete h' then None else Some h')"
  by (simp add: client_event_def cpp_eval om_has_def fun_eq_iff)

lemma client_event_ok:
  assumes "cli_inv s" "i < length (c_inflight s)" "e = snd (c_inflight s ! i)"
  shows "\<exists>s'. client_event ok e (cfill ok e r st (s\<lparr>c_inflight := take_out i (c_inflight s)\<rparr>)) = (Val (), s') \<and> cli_inv s'"
proof -
  let ?k = "getKey e" and ?opt = "getOpt e"
  let ?s0 = "cfill ok e r st (s\<lparr>c_inflight := take_out i (c_inflight s)\<rparr>)"
  have e: "snd (c_inflight s ! i) = tok ?k ?opt" using assms(3) Event_is_tok[of e] by simp
  have mem: "c_inflight s ! i \<in> set (c_inflight s)" using assms(2) by simp
  have opt: "?opt \<in> copts" using assms(1,3) mem by (auto simp: cli_inv_def)
  have cnt: "cn s k' x = cn ?s0 k' x + of_bool (?k = k' \<and> ?opt = x)" for k' x
    using cnl_take_out[OF assms(2) e, of k' x] by simp
  have pos: "\<not> none_in_flight (cn s ?k)"
    using cnt[of ?k ?opt] opt cnl_nonneg[of "take_out i (c_inflight s)" ?k ?opt]
    by (auto simp: none_in_flight_def copts_def simp del: cnl_nonneg)
  obtain h where h: "cmap s ?k = Some h" "protocol h ?k (cn s ?k)"
    using assms(1) pos by (cases "cmap s ?k") (auto simp: cli_inv_def call_ok_def dest: spec[of _ ?k])
  from cmap_cfill[of ok e r st "s\<lparr>c_inflight := take_out i (c_inflight s)\<rparr>"] obtain f where
    f: "\<And>c. c_key (f c) = c_key c \<and> c_finish (f c) = c_finish c \<and> c_closed (f c) = c_closed c \<and> canWrite (f c) = canWrite c"
    and "cmap ?s0 = (\<lambda>k. if k = ?k then map_option (map_call f) (cmap (s\<lparr>c_inflight := take_out i (c_inflight s)\<rparr>) k)
      else cmap (s\<lparr>c_inflight := take_out i (c_inflight s)\<rparr>) k)" by blast
  then have m0: "cmap ?s0 = (\<lambda>k. if k = ?k then map_option (map_call f) (cmap s k) else cmap s k)" by (simp cong: if_cong)
  have "removed ?opt (cn ?s0 ?k) = cn s ?k" using cnt by (auto simp: removed_def fun_eq_iff)
  then have "protocol (map_call f h) ?k (removed ?opt (cn ?s0 ?k))" using h(2) map_call_fill(1)[OF f] by simp
  from client_process_proceeds[OF this opt, of ok] obtain h' s1 where
    p: "client_process ok e (map_call f h) ?s0 = (Val h', s1)" "c_manager s1 = c_manager ?s0"
      "\<forall>k' x. k' \<noteq> ?k \<longrightarrow> cn s1 k' x = cn ?s0 k' x"
      "\<forall>op \<in> set (c_inflight s1). op \<in> set (c_inflight ?s0) \<or> getOpt (snd op) \<in> copts"
      "if client_isComplete h' then none_in_flight (cn s1 ?k) else protocol h' ?k (cn s1 ?k)"
    unfolding proceeds_def Event_is_tok[symmetric] id_apply by (auto split: prod.splits outcome.splits)
  from client_event_run[OF _ p(1)] m0 h(1) obtain t where
    t: "client_event ok e ?s0 = (Val (), t)" "c_inflight t = c_inflight s1"
      "cmap t = (cmap s1)(?k := if client_isComplete h' then None else Some h')" by auto
  have "\<forall>op \<in> set (c_inflight t). getOpt (snd op) \<in> copts"
    using p(4) t(2) assms(1) mset_split_take_out[OF assms(2)] by (auto simp: cli_inv_def)
  moreover have "call_ok k' (cmap t k') (cn t k')" for k'
  proof (cases "k' = ?k")
    case True
    then show ?thesis using t p(5) by (auto simp: call_ok_def split: if_splits)
  next
    case False
    then have "cn t k' = cn s k'" using t(2) p(3) cnt by (auto simp: fun_eq_iff)
    moreover have "cmap t k' = cmap s k'" using False t(3) p(2) m0 by simp
    ultimately show ?thesis using assms(1) by (simp add: cli_inv_def)
  qed
  ultimately show ?thesis using t(1) by (auto simp: cli_inv_def)
qed

section \<open>The calls of the application\<close>

lemma prepare_Val:
  assumes "prepareAsyncCall m rq con c s = (Val k, s')"
  shows "cmap s k = None" "cmap s' = (cmap s)(k \<mapsto> con (c\<lparr>c_key := k\<rparr>))" "c_inflight s' = c_inflight s"
proof -
  let ?m = "c_manager s"
  obtain k' where k': "next_key (handlers ?m) (lastKey ?m) (lastKey ?m) = Some k'"
    using assms by (cases "next_key (handlers ?m) (lastKey ?m) (lastKey ?m)")
      (simp_all add: prepareAsyncCall_def cpp_eval mgr_c_def EventHandlerManager_add_def)
  have gk: "getKey (Event_of_key j k') = k'" for j by (metis Event_is_tok getKey_tok setOpt_key setOpt_tok)
  have "\<not> om_has (handlers ?m) k'" using next_key_Some[OF k'] by simp
  then have "cmap s k' = None" by (simp add: om_has_def)
  with assms k' show "cmap s k = None" "cmap s' = (cmap s)(k \<mapsto> con (c\<lparr>c_key := k\<rparr>))" "c_inflight s' = c_inflight s"
    by (auto simp: prepareAsyncCall_def cpp_eval mgr_c_def EventHandlerManager_add_def set_key_def next_cq_def Let_def gk fun_eq_iff
        split: if_splits)
qed

text \<open>Changing one call and adding operations of its key keeps the invariant, if the call follows its protocol.\<close>

lemma cli_inv_update:
  assumes "cli_inv s" "cmap s' = (cmap s)(k \<mapsto> h)" "c_inflight s' = c_inflight s @ ops"
    and "\<forall>op \<in> set ops. getKey (snd op) = k \<and> getOpt (snd op) \<in> copts"
    and "protocol h k (cn s' k)" "writer h \<noteq> None \<longrightarrow> \<not> client_isComplete h"
  shows "cli_inv s'"
proof -
  have "cnl ops k' x = 0" if "k' \<noteq> k" for k' x using assms(4) that by (auto simp: cnl_def filter_empty_conv)
  then have same: "cn s' k' = cn s k'" if "k' \<noteq> k" for k' using that assms(3) by (auto simp: fun_eq_iff)
  have "call_ok k' (cmap s' k') (cn s' k')" for k'
  proof (cases "k' = k")
    case True
    then show ?thesis using assms(2,5,6) by (simp add: call_ok_def)
  next
    case False
    then show ?thesis using assms(1,2) same[OF False] by (simp add: cli_inv_def)
  qed
  then show ?thesis using assms(1,3,4) by (auto simp: cli_inv_def)
qed

lemma fresh_zero:
  assumes "cli_inv s" "cmap s k = None" "x \<in> copts"
  shows "cn s k x = 0"
proof -
  have "call_ok k (cmap s k) (cn s k)" using assms(1) by (simp add: cli_inv_def)
  then have "none_in_flight (cn s k)" using assms(2) by (simp add: call_ok_def)
  then show ?thesis using assms(3) by (auto simp: none_in_flight_def copts_def)
qed

lemma unary_call_ok:
  assumes "unary_call m rq con s = (Val (), s')" "cli_inv s"
    and "\<And>c k n. protocol (con c) k n \<longleftrightarrow> n C_START_CALL = 0 \<and> n C_READ = 0 \<and> n C_FINISH = 1 \<and> n C_WRITE = 0 \<and> n C_WRITE_DONE = 0"
    and "\<And>c. writer (con c) = None"
  shows "cli_inv s'"
proof -
  obtain k s1 where p: "prepareAsyncCall m (Some rq) con new_call s = (Val k, s1)"
    and s': "s' = s1\<lparr>c_inflight := c_inflight s1 @ [(FinishInto, tok k C_FINISH)], c_started := c_started s1 @ [(FinishInto, tok k C_FINISH)]\<rparr>"
    using assms(1) unfolding unary_call_def by (elim bnd_ValE) (simp add: tag_run op_c_run)
  note q = prepare_Val[OF p]
  have "cn s k x = 0" if "x \<in> copts" for x by (rule fresh_zero[OF assms(2) q(1) that])
  then show ?thesis
    by (intro cli_inv_update[OF assms(2), of s' k "con (new_call\<lparr>c_key := k\<rparr>)" "[(FinishInto, tok k C_FINISH)]"])
      (simp_all add: s' q assms(3,4) copts_def)
qed

lemma with_writer_Val:
  assumes "with_writer k f s = (Val (), s')"
  obtains con c c' s1 where "cmap s k = Some (con c)" "con = SpeakCall \<or> con = TalkCall" "f c s = (Val c', s1)"
    "c_inflight s' = c_inflight s1" "cmap s' = (cmap s1)(k \<mapsto> con c')"
proof (cases "cmap s k")
  case None
  then show ?thesis using assms by (simp add: with_writer_def cpp_eval)
next
  case (Some h)
  then obtain con c where h: "writer h = Some (con, c)" using assms by (cases "writer h") (auto simp: with_writer_def cpp_eval)
  have f: "bnd (f c) (\<lambda>c'. mgr_c (modify (\<lambda>m. m\<lparr>handlers := om_put k (con c') (handlers m)\<rparr>))) s = (Val (), s')"
    using assms Some h by (simp add: with_writer_def cpp_eval)
  then obtain c' s1 where "f c s = (Val c', s1)" "s' = s1\<lparr>c_manager := (c_manager s1)\<lparr>handlers := om_put k (con c') (handlers (c_manager s1))\<rparr>\<rparr>"
    by (auto simp: mgr_c_ops elim!: bnd_ValE)
  moreover have "h = con c \<and> (con = SpeakCall \<or> con = TalkCall)" using h by (cases h) auto
  ultimately show ?thesis using that[of con c c' s1] Some by (simp add: fun_eq_iff)
qed

text \<open>An operation that takes the permit.\<close>

lemma taking_permit_ok:
  assumes "cli_inv s" "cmap s k = Some (con c)" "con = SpeakCall \<or> con = TalkCall" "0 < canWrite c"
    and "cmap s' = (cmap s)(k \<mapsto> con (c\<lparr>canWrite := canWrite c - 1\<rparr>))" "c_inflight s' = c_inflight s @ [(op, tok k opt)]"
    and "opt = C_WRITE \<or> opt = C_WRITE_DONE"
  shows "cli_inv s'"
proof (rule cli_inv_update[OF assms(1,5,6)])
  have "call_ok k (cmap s k) (cn s k)" using assms(1) by (simp add: cli_inv_def)
  with assms(2,3) have old: "protocol (con c) k (cn s k)" "\<not> client_isComplete (con c)" by (auto simp: call_ok_def)
  then show "protocol (con (c\<lparr>canWrite := canWrite c - 1\<rparr>)) k (cn s' k)" using assms(3,4,6,7) by auto
  from old(2) show "writer (con (c\<lparr>canWrite := canWrite c - 1\<rparr>)) \<noteq> None \<longrightarrow> \<not> client_isComplete (con (c\<lparr>canWrite := canWrite c - 1\<rparr>))"
    using assms(3) by auto
qed (use assms(7) in \<open>auto simp: copts_def\<close>)

lemma writer_write_ok: "writer_write k msg s = (Val (), s') \<Longrightarrow> cli_inv s \<Longrightarrow> cli_inv s'"
  unfolding writer_write_def
proof (elim with_writer_Val)
  fix con c c' s1
  assume a: "cli_inv s" "cmap s k = Some (con c)" "con = SpeakCall \<or> con = TalkCall"
    "c_inflight s' = c_inflight s1" "cmap s' = (cmap s1)(k \<mapsto> con c')"
    and "bnd (tag k C_WRITE) (\<lambda>e. bnd time_c (\<lambda>ts. bnd (canWrite_acquire c) (\<lambda>c. sq (op_c (Write (Words ts msg)) e) (ret c)))) s = (Val c', s1)"
  then have "0 < canWrite c" "c' = c\<lparr>canWrite := canWrite c - 1\<rparr>" "cmap s1 = cmap s"
    "\<exists>w. c_inflight s1 = c_inflight s @ [(Write w, tok k C_WRITE)]"
    by (auto simp: cpp_eval split: if_splits)
  with a taking_permit_ok[OF a(1-3), of s' _ C_WRITE] show ?thesis by auto
qed

lemma writer_close_ok: "writer_close k s = (Val (), s') \<Longrightarrow> cli_inv s \<Longrightarrow> cli_inv s'"
  unfolding writer_close_def
proof (elim with_writer_Val)
  fix con c c' s1
  assume a: "cli_inv s" "cmap s k = Some (con c)" "con = SpeakCall \<or> con = TalkCall"
    "c_inflight s' = c_inflight s1" "cmap s' = (cmap s1)(k \<mapsto> con c')"
    and "bnd (tag k C_WRITE_DONE) (\<lambda>e. bnd (canWrite_acquire c) (\<lambda>c. sq (op_c WritesDone e) (ret c))) s = (Val c', s1)"
  then have "0 < canWrite c" "c' = c\<lparr>canWrite := canWrite c - 1\<rparr>" "cmap s1 = cmap s"
    "c_inflight s1 = c_inflight s @ [(WritesDone, tok k C_WRITE_DONE)]"
    by (auto simp: cpp_eval split: if_splits)
  with a taking_permit_ok[OF a(1-3), of s' _ C_WRITE_DONE] show ?thesis by auto
qed

text \<open>The start of a stream: a fresh key, then the first operations.\<close>

lemma started_ok:
  assumes "cli_inv s" "cmap s k = None" "cmap s' = (cmap s)(k \<mapsto> h)" "c_inflight s' = c_inflight s @ ops"
    and "\<forall>op \<in> set ops. getKey (snd op) = k \<and> getOpt (snd op) \<in> copts"
    and "protocol h k (cnl ops k)" "writer h \<noteq> None \<longrightarrow> \<not> client_isComplete h"
  shows "cli_inv s'"
proof (rule cli_inv_update[OF assms(1,3,4,5) _ assms(7)])
  have "cn s k x = 0" if "x \<in> copts" for x by (rule fresh_zero[OF assms(1,2) that])
  then show "protocol h k (cn s' k)" using assms(4,6) by (cases h) (simp_all add: copts_def)
qed

lemma client_listen_ok:
  assumes "client_listen s = (Val (), s')" "cli_inv s"
  shows "cli_inv s'"
proof -
  let ?s = "s\<lparr>c_ticks := c_ticks s + 1\<rparr>"
  obtain k s1 where p: "prepareAsyncCall Listen (Some (c_clock s (c_ticks s), ''Speaking!'')) ListenCall new_call ?s = (Val k, s1)"
    and l: "ListenCall_start k s1 = (Val (), s')"
    using assms(1) unfolding client_listen_def by (elim bnd_ValE) (simp add: time_c_run)
  note q = prepare_Val[OF p]
  have "c_inflight s' = c_inflight s @ [(StartCall, tok k C_START_CALL)]" "cmap s' = cmap s1"
    using l q(3) by (auto simp: ListenCall_start_def cpp_eval)
  then show ?thesis using q
    by (intro started_ok[OF assms(2), of k s' "ListenCall (new_call\<lparr>c_key := k\<rparr>)"]) (auto simp: new_call_def copts_def)
qed

lemma client_speak_ok:
  assumes "client_speak s = (Val k, s')" "cli_inv s"
  shows "cli_inv s'"
proof -
  let ?s = "s\<lparr>c_ticks := c_ticks s + 1\<rparr>"
  obtain s1 where p: "prepareAsyncCall Speak None SpeakCall new_call ?s = (Val k, s1)"
    and l: "SpeakCall_start k s1 = (Val (), s')"
    using assms(1) unfolding client_speak_def by (elim bnd_ValE sq_ValE) (simp add: time_c_run ret_run)
  note q = prepare_Val[OF p]
  have "c_inflight s' = c_inflight s @ [(StartCall, tok k C_START_CALL), (FinishInto, tok k C_FINISH)]"
    "cmap s' = (cmap s1)(k \<mapsto> SpeakCall (new_call\<lparr>c_key := k, canWrite := 0\<rparr>))"
    using l q by (auto simp: SpeakCall_start_def with_writer_def cpp_eval new_call_def fun_eq_iff)
  then show ?thesis using q
    by (intro started_ok[OF assms(2), of k s' "SpeakCall (new_call\<lparr>c_key := k, canWrite := 0\<rparr>)"]) (auto simp: new_call_def copts_def)
qed

lemma client_talk_ok:
  assumes "client_talk s = (Val k, s')" "cli_inv s"
  shows "cli_inv s'"
proof -
  let ?s = "s\<lparr>c_ticks := c_ticks s + 1\<rparr>"
  obtain s1 where p: "prepareAsyncCall Talk None TalkCall new_call ?s = (Val k, s1)"
    and l: "TalkCall_start k s1 = (Val (), s')"
    using assms(1) unfolding client_talk_def by (elim bnd_ValE sq_ValE) (simp add: time_c_run ret_run)
  note q = prepare_Val[OF p]
  have "c_inflight s' = c_inflight s @ [(StartCall, tok k C_START_CALL)]"
    "cmap s' = (cmap s1)(k \<mapsto> TalkCall (new_call\<lparr>c_key := k, canWrite := 0\<rparr>))"
    using l q by (auto simp: TalkCall_start_def with_writer_def cpp_eval new_call_def fun_eq_iff)
  then show ?thesis using q
    by (intro started_ok[OF assms(2), of k s' "TalkCall (new_call\<lparr>c_key := k, canWrite := 0\<rparr>)"]) (auto simp: new_call_def copts_def)
qed

lemma cli_step_ok: "cli_step s s' \<Longrightarrow> cli_inv s \<Longrightarrow> cli_inv s'"
proof (induction rule: cli_step.induct)
  case (cs_unary m s s')
  have tick: "cli_inv (s\<lparr>c_ticks := t\<rparr>)" for t using cs_unary(3) by (simp add: cli_inv_def)
  from cs_unary show ?case
    by (auto simp: sayHello_def sayHelloAgain_def sayGoodbye_def sayGoodbyeAgain_def greet_def time_c_run
        intro: unary_call_ok[OF _ tick] unary_call_ok client_listen_ok elim!: bnd_ValE)
next
  case (cs_stream m s k s')
  then show ?case using client_speak_ok client_talk_ok by auto
next
  case (cs_complete i s e ok r st s')
  then show ?case using client_event_ok[of s i e ok r st] by auto
qed (use writer_write_ok writer_close_ok in auto)

section \<open>What the client promises\<close>

definition writes_in_flight :: "event_key_t \<Rightarrow> gcli \<Rightarrow> nat" where
  "writes_in_flight k s = length (filter (\<lambda>op. getKey (snd op) = k \<and> getOpt (snd op) \<in> {C_START_CALL, C_WRITE, C_WRITE_DONE}) (c_inflight s))"

lemma writes_in_flight_cn: "int (writes_in_flight k s) = cn s k C_START_CALL + cn s k C_WRITE + cn s k C_WRITE_DONE"
proof -
  have "e = tok k opt \<longleftrightarrow> getKey e = k \<and> getOpt e = opt" for e opt by (metis Event_is_tok getKey_tok getOpt_tok)
  then have "int (length (filter (\<lambda>op. getKey (snd op) = k \<and> getOpt (snd op) \<in> {C_START_CALL, C_WRITE, C_WRITE_DONE}) ops)) =
      cnl ops k C_START_CALL + cnl ops k C_WRITE + cnl ops k C_WRITE_DONE" for ops
    by (induction ops) (auto simp: cnl_def)
  then show ?thesis by (simp add: writes_in_flight_def)
qed

lemma cli_inv_new: "cli_inv (ClientProactor_new n clk ord j)"
  by (simp add: cli_inv_def call_ok_def none_in_flight_def ClientProactor_new_def EventHandlerManager_new_def)

text \<open>
  C26. Writers take turns, and every completion is processed. However the application starts calls, writes and
  closes, and in whatever order operations complete: a \<open>speak\<close> or \<open>talk\<close> call never has more than one starting,
  writing or closing operation in flight, and none while its permit is free; every operation in flight
  belongs to a registered call; and when it completes, \<open>process\<close> returns: the key is right, and the loop
  around \<open>release\<close> gives the permit back at once.
\<close>

theorem one_write_in_flight:
  assumes "cli_step\<^sup>*\<^sup>* (ClientProactor_new n clk ord j) s"
  shows "(\<forall>k con c. Option.bind (cmap s k) writer = Some (con, c) \<longrightarrow>
      writes_in_flight k s \<le> 1 \<and> (0 < canWrite c \<longrightarrow> writes_in_flight k s = 0)) \<and>
    (\<forall>i ok r st. i < length (c_inflight s) \<longrightarrow> cmap s (getKey (snd (c_inflight s ! i))) \<noteq> None \<and>
      (\<exists>s'. client_event ok (snd (c_inflight s ! i)) (cfill ok (snd (c_inflight s ! i)) r st
         (s\<lparr>c_inflight := take_out i (c_inflight s)\<rparr>)) = (Val (), s')))"
proof -
  have inv: "cli_inv s" using assms
    by (induction rule: rtranclp_induct) (use cli_inv_new cli_step_ok in auto)
  have "writes_in_flight k s \<le> 1 \<and> (0 < canWrite c \<longrightarrow> writes_in_flight k s = 0)"
    if w: "Option.bind (cmap s k) writer = Some (con, c)" for k con c
  proof -
    obtain h where h: "cmap s k = Some h" "writer h = Some (con, c)" using w by (auto simp: bind_eq_Some_conv)
    have "call_ok k (cmap s k) (cn s k)" using inv by (simp add: cli_inv_def)
    then have "canWrite c + int (writes_in_flight k s) + of_bool (c_closed c) = 1 \<and> 0 \<le> canWrite c"
      using h by (cases h) (auto simp: call_ok_def writes_in_flight_cn)
    then show ?thesis by (cases "c_closed c") auto
  qed
  moreover have "cmap s (getKey (snd (c_inflight s ! i))) \<noteq> None" if i: "i < length (c_inflight s)" for i
  proof
    let ?e = "snd (c_inflight s ! i)"
    assume "cmap s (getKey ?e) = None"
    moreover have "getOpt ?e \<in> copts" using inv i by (auto simp: cli_inv_def)
    ultimately have "cn s (getKey ?e) (getOpt ?e) = 0" using fresh_zero[OF inv] by blast
    then have "c_inflight s ! i \<notin> set (c_inflight s)" using Event_is_tok[of ?e] by (auto simp: cnl_def filter_empty_conv)
    then show False using i by simp
  qed
  ultimately show ?thesis using client_event_ok[OF inv] by blast
qed

section \<open>The completion queue of a call\<close>

lemma smod_nonneg: "0 \<le> i \<Longrightarrow> 0 < n \<Longrightarrow> i smod n = i mod (n :: int)"
  by (simp add: signed_modulo_int_def signed_divide_int_def minus_div_mult_eq_mod sgn_if)

lemma smod_neg: "i < 0 \<Longrightarrow> 0 < n \<Longrightarrow> i smod n = - ((- i) mod (n :: int))"
  by (simp add: signed_modulo_int_def signed_divide_int_def minus_div_mult_eq_mod[symmetric] sgn_if)

lemma one_write_in_flight_witness:
  "\<exists>s. cli_step\<^sup>*\<^sup>* (ClientProactor_new 2 (\<lambda>_. []) id 0) s \<and> Option.bind (cmap s 1) writer \<noteq> None \<and> writes_in_flight 1 s \<le> 1"
proof -
  let ?s0 = "ClientProactor_new 2 (\<lambda>_. []) id 0"
  obtain s where s: "client_speak ?s0 = (Val 1, s)" "Option.bind (cmap s 1) writer \<noteq> None"
    by (simp add: client_speak_def prepareAsyncCall_def SpeakCall_start_def with_writer_def set_key_def next_cq_def
        EventHandlerManager_add_def mgr_c_def next_key.simps ClientProactor_new_def EventHandlerManager_new_def new_call_def
        Event_of_key_def getKey_def smod_nonneg cpp_eval om_has_def)
  then have r: "cli_step\<^sup>*\<^sup>* ?s0 s" using cli_step.cs_stream[of client_speak ?s0 1 s] by auto
  from conjunct1[OF one_write_in_flight[OF r]] s(2) have "writes_in_flight 1 s \<le> 1" by (metis not_None_eq surj_pair)
  with r s(2) show ?thesis by blast
qed

text \<open>
  Which completion queue a call gets. While the 32-bit counter is not negative (the first \<open>2 ^ 31\<close> calls) it is
  the counter modulo the size of the pool, so the queues are used in turn and the index is in range;
  afterwards the counter is negative, and unless the size divides it the index is negative and the
  access undefined.
\<close>

theorem cq_index:
  assumes "0 < c_poolSize s"
  shows "next_cq s = (if 0 \<le> sint (c_cqIdx s) then Val (unat (c_cqIdx s) mod c_poolSize s)
      else if int (c_poolSize s) dvd sint (c_cqIdx s) then Val 0 else Undef ''cqs[negative]'', s\<lparr>c_cqIdx := c_cqIdx s + 1\<rparr>)"
proof (cases "0 \<le> sint (c_cqIdx s)")
  case True
  moreover have "sint (c_cqIdx s) < 2 ^ 32" using sint_lt[of "c_cqIdx s"] by simp
  ultimately have "sint (c_cqIdx s) = int (unat (c_cqIdx s))"
    using uint_sint[of "c_cqIdx s"] by (simp add: take_bit_int_eq_self)
  with True assms show ?thesis by (simp add: next_cq_def Let_def smod_nonneg nat_mod_distrib)
next
  case False
  define x where "x = (- sint (c_cqIdx s)) mod int (c_poolSize s)"
  have "sint (c_cqIdx s) smod int (c_poolSize s) = - x" using False assms by (simp add: smod_neg x_def)
  moreover have "0 \<le> x" using assms by (simp add: x_def)
  moreover have "x = 0 \<longleftrightarrow> int (c_poolSize s) dvd sint (c_cqIdx s)" by (simp add: x_def mod_eq_0_iff_dvd)
  ultimately show ?thesis using False assms by (auto simp: next_cq_def Let_def)
qed

lemma cq_index_witness:
  "fst (next_cq ((ClientProactor_new 3 (\<lambda>_. []) id 0)\<lparr>c_cqIdx := 7\<rparr>)) = Val 1 \<and>
   fst (next_cq ((ClientProactor_new 3 (\<lambda>_. []) id 0)\<lparr>c_cqIdx := 0x80000000\<rparr>)) = Undef ''cqs[negative]''"
proof -
  let ?s = "ClientProactor_new 3 (\<lambda>_. []) id 0"
  have "sint (7 :: u32) = 7" "sint (0x80000000 :: u32) = - 2147483648" by simp_all
  moreover have "\<not> (3 :: int) dvd 2147483648" by simp
  ultimately show ?thesis
    using cq_index[of "?s\<lparr>c_cqIdx := 7\<rparr>"] cq_index[of "?s\<lparr>c_cqIdx := 0x80000000\<rparr>"]
    by (simp add: ClientProactor_new_def)
qed

end
