(* ===== verification/Win_Iocp.thy ===== *)
theory Win_Iocp
  imports Std_Map Http_Log
begin

text \<open>
  \<open>win32_programming/use_iocp/iocp_demo\<close>: an echo server on a Windows I/O completion port. One thread
  accepts connections; a pool of threads takes completion packets from the port. Every client has a
  context with one buffer and at most one overlapped operation at a time.

  Winsock and the kernel are outside the repository. Every call is recorded in \<open>win_calls\<close> and answered
  from the script \<open>k_win\<close>. What they do with an accepted overlapped operation is a part of the state: an
  operation that was started is \<open>pending\<close>, and when it has completed its packet waits in \<open>packets\<close>, the
  queue of the port. The class \<open>Logger\<close> of the demo is that of \<open>simple_http/log\<close>.
\<close>

unbundle bit_operations_syntax

section \<open>client_context.h\<close>

definition BUFFER_SIZE_ip :: nat where "BUFFER_SIZE_ip = 4096"

datatype cc_option = OPTION_NONE | OPTION_SEND | OPTION_RECV

text \<open>
  A \<open>WSABUF\<close> that points into the context's buffer is an offset and a length; \<open>None\<close> is the \<open>wsaBuf\<close> that the
  constructor leaves uninitialised. The last two fields are kept for the statements: the bytes the
  kernel has stored in the buffer and the bytes it has sent from it.
\<close>

record client_context =
  lastOption :: cc_option
  cc_id :: u32
  cc_socket :: int
  wsaBuf :: "(nat \<times> nat) option"
  cc_buffer :: string
  numberOfBytesToSend :: u32
  numberOfBytesSent :: u32
  cc_in :: string
  cc_out :: string

definition ClientContext_new :: "u32 \<Rightarrow> int \<Rightarrow> client_context" where
  "ClientContext_new i sk =
     \<lparr>lastOption = OPTION_NONE, cc_id = i, cc_socket = sk, wsaBuf = None,
      cc_buffer = replicate BUFFER_SIZE_ip (CHR 0x00), numberOfBytesToSend = 0, numberOfBytesSent = 0,
      cc_in = [], cc_out = []\<rparr>"

definition setLastOptionRecv :: "client_context \<Rightarrow> client_context" where
  "setLastOptionRecv c = c\<lparr>lastOption := OPTION_RECV\<rparr>"

definition setLastOptionSend :: "client_context \<Rightarrow> client_context" where
  "setLastOptionSend c = c\<lparr>lastOption := OPTION_SEND\<rparr>"

definition isLastOptionRecv :: "client_context \<Rightarrow> bool" where
  "isLastOptionRecv c = (lastOption c = OPTION_RECV)"

definition isLastOptionSend :: "client_context \<Rightarrow> bool" where
  "isLastOptionSend c = (lastOption c = OPTION_SEND)"

section \<open>The state\<close>

datatype win_call =
    CallStartup | CallWSASocket | CallBind int u16 | CallListen int | CallClosesocket int
  | CallCreatePort int | CallCloseHandle int | CallCreateEvent | CallEventSelect int int | CallCloseEvent int
  | CallWait int | CallEnum int int | CallAccept int | CallAssociate int int u32
  | CallRecv int nat nat | CallSend int string | CallPost int u32

datatype win_ans = WinErr int | WinOk int

text \<open>What \<open>WSAEnumNetworkEvents\<close> answers: the mask and the error code at \<open>FD_ACCEPT_BIT\<close>.\<close>

datatype enum_ans = EnumErr int | EnumOk u32 int

text \<open>
  An operation in flight carries the completion key of its socket and the client whose buffer it uses. A
  packet is what \<open>GetQueuedCompletionStatus\<close> returns: an error, or a number of bytes and a key.
\<close>

datatype io_op = IoRecv nat nat | IoSend string

record io =
  io_key :: u32
  io_owner :: u32
  io_what :: io_op

datatype packet = GqFail int u32 | GqOk u32 u32

record iocp =
  ip_started :: bool
  ip_stopped :: bool
  ip_iocp :: int
  ip_listenSocket :: int
  ip_acceptEvent :: int
  threadPool :: nat
  clientContexts :: "(u64, client_context) omap"
  static_id :: u32
  ip_lg :: logger
  k_win :: "win_ans list"
  k_enum :: "enum_ans list"
  win_calls :: "win_call list"
  ports :: "int \<Rightarrow> u32 option"
  pending :: "io list"
  packets :: "packet list"

definition INVALID_SOCKET :: int where "INVALID_SOCKET = - 1"
definition WSA_IO_PENDING :: int where "WSA_IO_PENDING = 997"
definition WSA_WAIT_TIMEOUT :: int where "WSA_WAIT_TIMEOUT = 258"
definition FD_ACCEPT :: u32 where "FD_ACCEPT = 8"
definition INVALID_CLIENT_CONTEXT_ID :: u32 where "INVALID_CLIENT_CONTEXT_ID = 1"

definition IOCP_new :: "logger \<Rightarrow> win_ans list \<Rightarrow> enum_ans list \<Rightarrow> iocp" where
  "IOCP_new lg ks es =
     \<lparr>ip_started = False, ip_stopped = False, ip_iocp = 0, ip_listenSocket = INVALID_SOCKET, ip_acceptEvent = 0,
      threadPool = 0, clientContexts = om_empty, static_id = 0, ip_lg = lg, k_win = ks, k_enum = es,
      win_calls = [], ports = (\<lambda>_. None), pending = [], packets = []\<rparr>"

definition win :: "win_call \<Rightarrow> (iocp, win_ans) cpp" where
  "win c = (\<lambda>s.
     let s' = s\<lparr>win_calls := win_calls s @ [c]\<rparr> in
     case k_win s of [] \<Rightarrow> (Pending, s') | a # as \<Rightarrow> (Val a, s'\<lparr>k_win := as\<rparr>))"

definition WSAEnumNetworkEvents :: "int \<Rightarrow> int \<Rightarrow> (iocp, enum_ans) cpp" where
  "WSAEnumNetworkEvents l ev = (\<lambda>s.
     let s' = s\<lparr>win_calls := win_calls s @ [CallEnum l ev]\<rparr> in
     case k_enum s of [] \<Rightarrow> (Pending, s') | a # as \<Rightarrow> (Val a, s'\<lparr>k_enum := as\<rparr>))"

definition LogError_ip :: "string \<Rightarrow> string list \<Rightarrow> (iocp, unit) cpp" where
  "LogError_ip fn args = modify (\<lambda>s. s\<lparr>ip_lg := Logger_LogError (log_prefix fn # args) (ip_lg s)\<rparr>)"

text \<open>\<open>what + ", code(" + std::to_string(code) + ")"\<close>\<close>

definition with_code :: "string \<Rightarrow> int \<Rightarrow> string" where
  "with_code what code = what @ '', code('' @ to_string_int code @ '')''"

section \<open>socket.cpp\<close>

definition InitWinsock :: "(iocp, unit) cpp" where
  "InitWinsock =
     bnd (win CallStartup) (\<lambda>r. case r of
       WinOk _ \<Rightarrow> skip
     | WinErr code \<Rightarrow> throw (RuntimeError (''WSAStartup failed with error: '' @ to_string_int code)))"

text \<open>Closing a socket ends its association with the port.\<close>

definition CloseSocket :: "int \<Rightarrow> (iocp, unit) cpp" where
  "CloseSocket sk =
     bnd (win (CallClosesocket sk)) (\<lambda>r. case r of
       WinOk _ \<Rightarrow> modify (\<lambda>s. s\<lparr>ports := (ports s)(sk := None)\<rparr>)
     | WinErr code \<Rightarrow> LogError_ip ''CloseSocket'' [''closesocket failed, code('', to_string_int code, '')''])"

definition CreateListenSocket :: "int \<Rightarrow> (iocp, int) cpp" where
  "CreateListenSocket port =
     bnd (win CallWSASocket) (\<lambda>r. case r of
       WinErr code \<Rightarrow> throw (RuntimeError (with_code ''CreateListenSocket, WSASocket() failed'' code))
     | WinOk sk \<Rightarrow>
         bnd (win (CallBind sk (of_int port))) (\<lambda>r. case r of
           WinErr code \<Rightarrow>
             sq (CloseSocket sk) (throw (RuntimeError (with_code ''CreateListenSocket, bind() failed'' code)))
         | WinOk _ \<Rightarrow>
             bnd (win (CallListen sk)) (\<lambda>r. case r of
               WinErr code \<Rightarrow>
                 sq (CloseSocket sk) (throw (RuntimeError (with_code ''CreateListenSocket, listen() failed'' code)))
             | WinOk _ \<Rightarrow> ret sk)))"

section \<open>iocp.cpp: handles\<close>

definition CreateIOCP :: "int \<Rightarrow> (iocp, int) cpp" where
  "CreateIOCP concurrentNumber =
     bnd (win (CallCreatePort concurrentNumber)) (\<lambda>r. case r of
       WinErr code \<Rightarrow> throw (RuntimeError (with_code ''CreateIOCP failed'' code))
     | WinOk h \<Rightarrow> ret h)"

definition CloseAcceptEvent :: "int \<Rightarrow> (iocp, unit) cpp" where
  "CloseAcceptEvent ev =
     bnd (win (CallCloseEvent ev)) (\<lambda>r. case r of
       WinErr code \<Rightarrow> LogError_ip ''CloseAcceptEvent'' [''WSACloseEvent failed, code('', to_string_int code, '')'']
     | WinOk _ \<Rightarrow> skip)"

definition CreateAcceptEvent :: "int \<Rightarrow> (iocp, int) cpp" where
  "CreateAcceptEvent sk =
     bnd (win CallCreateEvent) (\<lambda>r. case r of
       WinErr code \<Rightarrow> throw (RuntimeError (with_code ''CreateAcceptEvent, WSACreateEvent failed'' code))
     | WinOk ev \<Rightarrow>
         bnd (win (CallEventSelect sk ev)) (\<lambda>r. case r of
           WinErr code \<Rightarrow>
             sq (CloseAcceptEvent ev) (throw (RuntimeError (with_code ''CreateAcceptEvent, WSAEventSelect() failed'' code)))
         | WinOk _ \<Rightarrow> ret ev))"

definition CloseIOCP :: "(iocp, unit) cpp" where
  "CloseIOCP =
     bnd (gets ip_iocp) (\<lambda>h.
     bnd (win (CallCloseHandle h)) (\<lambda>r.
     sq (case r of
           WinErr code \<Rightarrow> LogError_ip ''CloseIOCP'' [''CloseHandle() failed, code('', to_string_int code, '')'']
         | WinOk _ \<Rightarrow> skip)
        (modify (\<lambda>s. s\<lparr>ip_iocp := 0\<rparr>))))"

section \<open>iocp.cpp: client contexts\<close>

text \<open>The key of \<open>clientContexts\<close> is a \<open>uint64_t\<close>, the identifiers are 32 bits wide.\<close>

definition ckey :: "u32 \<Rightarrow> u64" where
  "ckey i = ucast i"

text \<open>The search for an identifier, which goes on for ever when all are in use.\<close>

partial_function (option) find_id :: "(u64, client_context) omap \<Rightarrow> u32 \<Rightarrow> u32 option" where
  "find_id m i =
     (if om_has m (ckey i) \<or> i = INVALID_CLIENT_CONTEXT_ID then find_id m (i + 1) else Some i)"

definition createClientContext :: "int \<Rightarrow> (iocp, u32) cpp" where
  "createClientContext sk = (\<lambda>s.
     case find_id (clientContexts s) (static_id s) of
       None \<Rightarrow> (Pending, s)
     | Some i \<Rightarrow>
         (Val i, s\<lparr>static_id := i, clientContexts := om_put (ckey i) (ClientContext_new i sk) (clientContexts s)\<rparr>))"

text \<open>
  Erasing the entry drops the last reference but one at most: the calling function may hold the other, and
  returns at once. So the destructor, which closes the socket, runs here.
\<close>

definition removeClientContext :: "u32 \<Rightarrow> (iocp, unit) cpp" where
  "removeClientContext i =
     bnd (gets (\<lambda>s. om_get (clientContexts s) (ckey i))) (\<lambda>oc. case oc of
       None \<Rightarrow> LogError_ip ''IOCP::removeClientContext'' [''ClientContext id('', to_string_nat (unat i), '') not exist'']
     | Some c \<Rightarrow>
         sq (modify (\<lambda>s. s\<lparr>clientContexts := om_del (ckey i) (clientContexts s)\<rparr>)) (CloseSocket (cc_socket c)))"

definition getClientContext :: "u32 \<Rightarrow> (iocp, client_context option) cpp" where
  "getClientContext i =
     bnd (gets (\<lambda>s. om_get (clientContexts s) (ckey i))) (\<lambda>oc. case oc of
       None \<Rightarrow>
         sq (LogError_ip ''IOCP::getClientContext'' [''ClientContext id('', to_string_nat (unat i), '') not exist'']) (ret None)
     | Some c \<Rightarrow> ret (Some c))"

text \<open>An assignment through the shared pointer of a registered context.\<close>

definition upd_ctx :: "u32 \<Rightarrow> (client_context \<Rightarrow> client_context) \<Rightarrow> iocp \<Rightarrow> iocp" where
  "upd_ctx i f s =
     (case om_get (clientContexts s) (ckey i) of
        None \<Rightarrow> s
      | Some c \<Rightarrow> s\<lparr>clientContexts := om_put (ckey i) (f c) (clientContexts s)\<rparr>)"

definition associateWithIOCP :: "u32 \<Rightarrow> int \<Rightarrow> (iocp, bool) cpp" where
  "associateWithIOCP i sk =
     bnd (gets ip_iocp) (\<lambda>h.
     bnd (win (CallAssociate sk h i)) (\<lambda>r. case r of
       WinErr code \<Rightarrow>
         sq (LogError_ip ''IOCP::associateWithIOCP'' [''CreateToCompletionPort failed, code('', to_string_int code, '')'']) (ret False)
     | WinOk _ \<Rightarrow> sq (modify (\<lambda>s. s\<lparr>ports := (ports s)(sk \<mapsto> i)\<rparr>)) (ret True)))"

section \<open>iocp.cpp: overlapped operations\<close>

text \<open>
  \<open>WSARecv\<close> and \<open>WSASend\<close>: an answer of zero and the error \<open>WSA_IO_PENDING\<close> both mean that the operation was
  started and will be reported on the port of its socket; with any other error it was not. The result is
  the error code, if the call returned \<open>SOCKET_ERROR\<close>. A buffer that does not lie in the context's is
  undefined behaviour, and so is the use of an uninitialised \<open>WSABUF\<close>.
\<close>

definition start_io :: "u32 \<Rightarrow> int \<Rightarrow> io_op \<Rightarrow> win_call \<Rightarrow> (iocp, int option) cpp" where
  "start_io i sk op c =
     (let go = modify (\<lambda>s. case ports s sk of
                 None \<Rightarrow> s | Some k \<Rightarrow> s\<lparr>pending := pending s @ [\<lparr>io_key = k, io_owner = i, io_what = op\<rparr>]\<rparr>) in
      bnd (win c) (\<lambda>r. case r of
        WinOk _ \<Rightarrow> sq go (ret None)
      | WinErr code \<Rightarrow> sq (whenb (code = WSA_IO_PENDING) go) (ret (Some code))))"

definition WSARecv :: "client_context \<Rightarrow> (nat \<times> nat) option \<Rightarrow> (iocp, int option) cpp" where
  "WSARecv c buf = (case buf of
       None \<Rightarrow> undef ''WSARecv: uninitialised WSABUF''
     | Some (off, len) \<Rightarrow>
         if length (cc_buffer c) < off + len then undef ''WSARecv: buffer''
         else start_io (cc_id c) (cc_socket c) (IoRecv off len) (CallRecv (cc_socket c) off len))"

definition WSASend :: "client_context \<Rightarrow> (nat \<times> nat) option \<Rightarrow> (iocp, int option) cpp" where
  "WSASend c buf = (case buf of
       None \<Rightarrow> undef ''WSASend: uninitialised WSABUF''
     | Some (off, len) \<Rightarrow>
         if length (cc_buffer c) < off + len then undef ''WSASend: buffer''
         else let b = take len (drop off (cc_buffer c)) in
           start_io (cc_id c) (cc_socket c) (IoSend b) (CallSend (cc_socket c) b))"

text \<open>What follows every such call: an error other than \<open>WSA_IO_PENDING\<close> removes the client.\<close>

definition started_or_remove :: "string \<Rightarrow> string \<Rightarrow> u32 \<Rightarrow> int option \<Rightarrow> (iocp, unit) cpp" where
  "started_or_remove fn what i r = (case r of
       None \<Rightarrow> skip
     | Some code \<Rightarrow>
         whenb (code \<noteq> WSA_IO_PENDING)
           (sq (LogError_ip fn [what @ '' failed, code('', to_string_int code, '')'']) (removeClientContext i)))"

definition acceptConnection :: "(iocp, unit) cpp" where
  "acceptConnection =
     bnd (gets ip_listenSocket) (\<lambda>l.
     bnd (win (CallAccept l)) (\<lambda>r. case r of
       WinErr code \<Rightarrow> LogError_ip ''IOCP::acceptConnection'' [''accept failed, code('', to_string_int code, '')'']
     | WinOk sk \<Rightarrow>
         bnd (createClientContext sk) (\<lambda>i.
         bnd (associateWithIOCP i sk) (\<lambda>ok.
         if ok then
           let c = setLastOptionRecv (ClientContext_new i sk) \<lparr>wsaBuf := Some (0, length (cc_buffer (ClientContext_new i sk)))\<rparr> in
           sq (modify (upd_ctx i (\<lambda>_. c)))
           (bnd (WSARecv c (wsaBuf c)) (started_or_remove ''IOCP::acceptConnection'' ''WSARecv()'' i))
         else skip))))"

text \<open>One pass of the loop of the accept thread.\<close>

definition acceptThread_body :: "(iocp, unit) cpp" where
  "acceptThread_body =
     (let fn = ''IOCP::createAcceptThread::<lambda>::operator ()'' in
      bnd (gets ip_acceptEvent) (\<lambda>ev.
      bnd (gets ip_listenSocket) (\<lambda>l.
      bnd (win (CallWait ev)) (\<lambda>r. case r of
        WinErr code \<Rightarrow> LogError_ip fn [''WSAWaitForMultipleEvents() failed, code('', to_string_int code, '')'']
      | WinOk v \<Rightarrow>
          if v = WSA_WAIT_TIMEOUT then skip
          else bnd (WSAEnumNetworkEvents l ev) (\<lambda>e. case e of
            EnumErr code \<Rightarrow> LogError_ip fn [''WSAEnumNetworkEvents() failed, code('', to_string_int code, '')'']
          | EnumOk events err \<Rightarrow>
              if events AND FD_ACCEPT \<noteq> 0 then
                if err \<noteq> 0 then LogError_ip fn [''FD_ACCEPT failed''] else acceptConnection
              else skip)))))"

text \<open>
  \<open>process\<close>, with the packet that \<open>GetQueuedCompletionStatus\<close> returned. A failed operation makes it return
  \<open>FALSE\<close>; the code then looks at nothing but the error.
\<close>

definition process_ip :: "packet \<Rightarrow> (iocp, unit) cpp" where
  "process_ip p = (let fn = ''IOCP::process'' in case p of
       GqFail code key \<Rightarrow> LogError_ip fn [''GetQueuedCompletionStatus() failed, code('', to_string_int code, '')'']
     | GqOk numberOfBytes key \<Rightarrow>
         if key = INVALID_CLIENT_CONTEXT_ID then skip
         else if numberOfBytes = 0 then removeClientContext key
         else bnd (getClientContext key) (\<lambda>oc. case oc of
           None \<Rightarrow> skip
         | Some c \<Rightarrow>
             if isLastOptionRecv c then
               let c' = setLastOptionSend c\<lparr>numberOfBytesToSend := numberOfBytes, numberOfBytesSent := 0,
                           wsaBuf := map_option (\<lambda>(off, len). (off, unat numberOfBytes)) (wsaBuf c)\<rparr> in
               sq (modify (upd_ctx key (\<lambda>_. c')))
               (bnd (WSASend c' (wsaBuf c')) (started_or_remove fn ''WSASend()'' (cc_id c')))
             else if isLastOptionSend c then
               let sent = numberOfBytesSent c + numberOfBytes in
               (if sent < numberOfBytesToSend c then
                  let c' = setLastOptionSend c\<lparr>numberOfBytesSent := sent\<rparr> in
                  sq (modify (upd_ctx key (\<lambda>_. c')))
                  (bnd (WSASend c' (Some (unat sent, unat (numberOfBytesToSend c' - sent))))
                       (started_or_remove fn ''WSASend()'' (cc_id c')))
                else
                  let c' = setLastOptionRecv c\<lparr>numberOfBytesSent := sent\<rparr> in
                  sq (modify (upd_ctx key (\<lambda>_. c')))
                  (bnd (WSARecv c' (Some (0, length (cc_buffer c'))))
                       (started_or_remove fn ''WSASend()'' (cc_id c'))))
             else skip))"

section \<open>iocp.cpp: start and stop\<close>

definition IOCP_start :: "int \<Rightarrow> int \<Rightarrow> nat \<Rightarrow> (iocp, unit) cpp" where
  "IOCP_start port concurrentNumber threadPoolSize =
     bnd (gets ip_started) (\<lambda>st.
       if st then throw (RuntimeError ''IOCP::start, already inited'')
       else
         sq (modify (\<lambda>s. s\<lparr>ip_started := True\<rparr>))
        (bnd (CreateIOCP concurrentNumber) (\<lambda>h.
         sq (modify (\<lambda>s. s\<lparr>ip_iocp := h\<rparr>))
        (bnd (CreateListenSocket port) (\<lambda>l.
         sq (modify (\<lambda>s. s\<lparr>ip_listenSocket := l\<rparr>))
        (bnd (CreateAcceptEvent l) (\<lambda>ev.
         sq (modify (\<lambda>s. s\<lparr>ip_acceptEvent := ev\<rparr>))
            (modify (\<lambda>s. s\<lparr>threadPool := threadPoolSize\<rparr>)))))))))"

text \<open>The first loop of \<open>stopThreadPool\<close>: a packet for every thread of the pool.\<close>

primrec post_packets :: "nat \<Rightarrow> (iocp, unit) cpp" where
  "post_packets 0 = skip"
| "post_packets (Suc n) =
     bnd (gets ip_iocp) (\<lambda>h.
     bnd (win (CallPost h INVALID_CLIENT_CONTEXT_ID)) (\<lambda>r.
     sq (case r of
           WinErr code \<Rightarrow> LogError_ip ''IOCP::stopThreadPool'' [''PostQueuedCompletionStatus() failed, code('', to_string_int code, '')'']
         | WinOk _ \<Rightarrow> modify (\<lambda>s. s\<lparr>packets := packets s @ [GqOk 0 INVALID_CLIENT_CONTEXT_ID]\<rparr>))
        (post_packets n)))"

definition stop_begin :: "(iocp, unit) cpp" where
  "stop_begin = modify (\<lambda>s. s\<lparr>ip_stopped := True\<rparr>)"

definition stopThreadPool :: "(iocp, unit) cpp" where
  "stopThreadPool = bnd (gets threadPool) post_packets"

definition stop_end :: "(iocp, unit) cpp" where
  "stop_end =
     bnd (gets ip_acceptEvent) (\<lambda>ev. sq (CloseAcceptEvent ev)
    (bnd (gets ip_listenSocket) (\<lambda>l. sq (CloseSocket l) CloseIOCP)))"

section \<open>The server as a transition system\<close>

text \<open>
  The program points of a thread of the pool: at the test of \<open>stopped\<close>, in \<open>GetQueuedCompletionStatus\<close>, done;
  and of the thread that calls \<open>stop\<close>: before the call, joining the accept thread, joining the pool, done.
\<close>

datatype tpc = PTest | PWait | PDone
datatype mpc = MRun | MStopping | MPosted | MEnd

record ip_sys =
  ip :: iocp
  pool :: "tpc list"
  stopper :: mpc

text \<open>
  The kernel completes an operation in flight: received bytes are put into the owner's buffer, at most as
  many as there is room for; sent bytes are taken from the front; and a packet is queued. A failed send
  may have sent something.
\<close>

definition put_bytes :: "nat \<Rightarrow> string \<Rightarrow> string \<Rightarrow> string" where
  "put_bytes off d b = take off b @ d @ drop (off + length d) b"

fun complete_io :: "io \<Rightarrow> string \<Rightarrow> iocp \<Rightarrow> iocp" where
  "complete_io o1 d s = (case io_what o1 of
       IoRecv off len \<Rightarrow>
         (upd_ctx (io_owner o1) (\<lambda>c. c\<lparr>cc_buffer := put_bytes off d (cc_buffer c), cc_in := cc_in c @ d\<rparr>) s)
     | IoSend b \<Rightarrow> upd_ctx (io_owner o1) (\<lambda>c. c\<lparr>cc_out := cc_out c @ d\<rparr>) s)"

fun io_fits :: "io_op \<Rightarrow> string \<Rightarrow> bool" where
  "io_fits (IoRecv off len) d = (length d \<le> len)"
| "io_fits (IoSend b) d = (d = take (length d) b)"

text \<open>
  \<open>accept\<close> never returns a handle that is still open. It is the second call of a pass of the accept thread
  that is answered from the script.
\<close>

definition fresh_socket :: "iocp \<Rightarrow> int \<Rightarrow> bool" where
  "fresh_socket s sk = (sk \<noteq> ip_listenSocket s \<and> (\<forall>(k, c) \<in> set (clientContexts s). cc_socket c \<noteq> sk))"

inductive ip_step :: "ip_sys \<Rightarrow> ip_sys \<Rightarrow> bool" where
  completes: "j < length (pending s) \<Longrightarrow> o1 = pending s ! j \<Longrightarrow> io_fits (io_what o1) d \<Longrightarrow>
     s' = complete_io o1 d (s\<lparr>pending := take j (pending s) @ drop (Suc j) (pending s)\<rparr>) \<Longrightarrow>
     ip_step \<lparr>ip = s, pool = ps, stopper = m\<rparr>
             \<lparr>ip = s'\<lparr>packets := packets s @ [GqOk (of_nat (length d)) (io_key o1)]\<rparr>, pool = ps, stopper = m\<rparr>"
| fails: "j < length (pending s) \<Longrightarrow> o1 = pending s ! j \<Longrightarrow> io_fits (io_what o1) d \<Longrightarrow>
     (\<forall>off len. io_what o1 = IoRecv off len \<longrightarrow> d = []) \<Longrightarrow>
     s' = complete_io o1 d (s\<lparr>pending := take j (pending s) @ drop (Suc j) (pending s)\<rparr>) \<Longrightarrow>
     ip_step \<lparr>ip = s, pool = ps, stopper = m\<rparr>
             \<lparr>ip = s'\<lparr>packets := packets s @ [GqFail code (io_key o1)]\<rparr>, pool = ps, stopper = m\<rparr>"
| test_go: "t < length ps \<Longrightarrow> ps ! t = PTest \<Longrightarrow> \<not> ip_stopped s \<Longrightarrow>
     ip_step \<lparr>ip = s, pool = ps, stopper = m\<rparr> \<lparr>ip = s, pool = ps[t := PWait], stopper = m\<rparr>"
| test_exit: "t < length ps \<Longrightarrow> ps ! t = PTest \<Longrightarrow> ip_stopped s \<Longrightarrow>
     ip_step \<lparr>ip = s, pool = ps, stopper = m\<rparr> \<lparr>ip = s, pool = ps[t := PDone], stopper = m\<rparr>"
| wakes: "t < length ps \<Longrightarrow> ps ! t = PWait \<Longrightarrow> packets s = p # pk \<Longrightarrow>
     process_ip p (s\<lparr>packets := pk\<rparr>) = (Val (), s') \<Longrightarrow>
     ip_step \<lparr>ip = s, pool = ps, stopper = m\<rparr> \<lparr>ip = s', pool = ps[t := PTest], stopper = m\<rparr>"
| accepts: "m = MRun \<or> m = MStopping \<Longrightarrow> acceptThread_body s = (Val (), s') \<Longrightarrow>
     (\<forall>a sk ks. k_win s = a # WinOk sk # ks \<longrightarrow> fresh_socket s sk) \<Longrightarrow>
     ip_step \<lparr>ip = s, pool = ps, stopper = m\<rparr> \<lparr>ip = s', pool = ps, stopper = m\<rparr>"
| stop_1: "stop_begin s = (Val (), s') \<Longrightarrow>
     ip_step \<lparr>ip = s, pool = ps, stopper = MRun\<rparr> \<lparr>ip = s', pool = ps, stopper = MStopping\<rparr>"
| stop_2: "stopThreadPool s = (Val (), s') \<Longrightarrow>
     ip_step \<lparr>ip = s, pool = ps, stopper = MStopping\<rparr> \<lparr>ip = s', pool = ps, stopper = MPosted\<rparr>"
| stop_3: "set ps \<subseteq> {PDone} \<Longrightarrow> stop_end s = (Val (), s') \<Longrightarrow>
     ip_step \<lparr>ip = s, pool = ps, stopper = MPosted\<rparr> \<lparr>ip = s', pool = ps, stopper = MEnd\<rparr>"

text \<open>The states after \<open>start\<close> has succeeded.\<close>

definition ip_init :: "ip_sys \<Rightarrow> bool" where
  "ip_init x \<longleftrightarrow> (\<exists>lg ks es port conc n s.
     IOCP_start port conc n (IOCP_new lg ks es) = (Val (), s) \<and> x = \<lparr>ip = s, pool = replicate n PTest, stopper = MRun\<rparr>)"

definition ip_reach :: "ip_sys \<Rightarrow> bool" where
  "ip_reach x \<longleftrightarrow> (\<exists>x0. ip_init x0 \<and> ip_step\<^sup>*\<^sup>* x0 x)"

end
