(* ===== verification/Win_Iocp_Props.thy ===== *)
theory Win_Iocp_Props
  imports Win_Iocp "HOL-Library.Sublist"
begin

text \<open>
  What the completion port server guarantees: a client has at most one operation in flight, whose buffer
  is that of a live context; a client is sent what it has sent, in order; the search for an identifier
  ends as long as one is free; a stopped server releases its threads; and the client whose operation
  fails is forgotten.
\<close>

section \<open>The invariant\<close>

lemma ckey_inj [simp]: "ckey i = ckey j \<longleftrightarrow> i = j"
proof
  assume "ckey i = ckey j"
  then have b: "bit (ckey i) n = bit (ckey j) n" for n by simp
  show "i = j"
  proof (rule bit_word_eqI)
    fix n assume "n < LENGTH(32)"
    then show "bit i n = bit j n" using b[of n] by (simp add: ckey_def bit_simps)
  qed
qed simp

fun pkey :: "packet \<Rightarrow> u32" where
  "pkey (GqFail code k) = k"
| "pkey (GqOk n k) = k"

abbreviation NONE_ID :: u32 where "NONE_ID \<equiv> INVALID_CLIENT_CONTEXT_ID"

definition ctx_wf :: "client_context \<Rightarrow> bool" where
  "ctx_wf c \<longleftrightarrow>
     cc_id c \<noteq> NONE_ID \<and> length (cc_buffer c) = BUFFER_SIZE_ip \<and> prefix (cc_out c) (cc_in c) \<and>
     (lastOption c \<noteq> OPTION_NONE \<longrightarrow> (\<exists>n. wsaBuf c = Some (0, n)))"

text \<open>The bytes of the buffer from \<open>m\<close> to the end of what is to be sent.\<close>

definition unsent :: "client_context \<Rightarrow> nat \<Rightarrow> string" where
  "unsent c m = take (unat (numberOfBytesToSend c) - m) (drop m (cc_buffer c))"

fun op_ok :: "client_context \<Rightarrow> io_op \<Rightarrow> bool" where
  "op_ok c (IoRecv off len) =
     (lastOption c = OPTION_RECV \<and> off = 0 \<and> len = BUFFER_SIZE_ip \<and> cc_in c = cc_out c)"
| "op_ok c (IoSend b) =
     (lastOption c = OPTION_SEND \<and> unat (numberOfBytesSent c) < unat (numberOfBytesToSend c) \<and>
      unat (numberOfBytesToSend c) \<le> BUFFER_SIZE_ip \<and> b = unsent c (unat (numberOfBytesSent c)) \<and> cc_in c = cc_out c @ b)"

fun pkt_ok :: "client_context \<Rightarrow> packet \<Rightarrow> bool" where
  "pkt_ok c (GqFail code k) = True"
| "pkt_ok c (GqOk n k) =
     (lastOption c = OPTION_RECV \<and> unat n \<le> BUFFER_SIZE_ip \<and> cc_in c = cc_out c @ take (unat n) (cc_buffer c) \<or>
      lastOption c = OPTION_SEND \<and> unat (numberOfBytesSent c) + unat n \<le> unat (numberOfBytesToSend c) \<and>
      unat (numberOfBytesToSend c) \<le> BUFFER_SIZE_ip \<and>
      cc_in c = cc_out c @ unsent c (unat (numberOfBytesSent c) + unat n))"

text \<open>The clients that have an operation in flight or a packet in the queue.\<close>

definition busy :: "io list \<Rightarrow> packet list \<Rightarrow> u32 list" where
  "busy pe pa = map io_owner pe @ filter (\<lambda>k. k \<noteq> NONE_ID) (map pkey pa)"

type_synonym contexts = "(u64, client_context) omap"

definition live :: "contexts \<Rightarrow> (int \<Rightarrow> u32 option) \<Rightarrow> u32 \<Rightarrow> (client_context \<Rightarrow> bool) \<Rightarrow> bool" where
  "live m po i P \<longleftrightarrow> (\<exists>c. om_get m (ckey i) = Some c \<and> cc_id c = i \<and> po (cc_socket c) = Some i \<and> P c)"

definition wf5 :: "contexts \<Rightarrow> io list \<Rightarrow> packet list \<Rightarrow> (int \<Rightarrow> u32 option) \<Rightarrow> int \<Rightarrow> bool" where
  "wf5 m pe pa po l \<longleftrightarrow>
     om_wf m \<and> (\<forall>k c. om_get m k = Some c \<longrightarrow> k = ckey (cc_id c) \<and> ctx_wf c \<and> cc_socket c \<noteq> l) \<and>
     (\<forall>k c k' c'. om_get m k = Some c \<longrightarrow> om_get m k' = Some c' \<longrightarrow> cc_socket c = cc_socket c' \<longrightarrow> k = k') \<and>
     (\<forall>o1 \<in> set pe. io_key o1 = io_owner o1 \<and> live m po (io_owner o1) (\<lambda>c. op_ok c (io_what o1))) \<and>
     (\<forall>p \<in> set pa. pkey p \<noteq> NONE_ID \<longrightarrow> live m po (pkey p) (\<lambda>c. pkt_ok c p)) \<and>
     distinct (busy pe pa)"

abbreviation ip_wf :: "iocp \<Rightarrow> bool" where
  "ip_wf s \<equiv> wf5 (clientContexts s) (pending s) (packets s) (ports s) (ip_listenSocket s)"

lemma wf5_ctx:
  assumes "wf5 m pe pa po l" "om_get m k = Some c"
  shows "k = ckey (cc_id c)" "ctx_wf c" "cc_socket c \<noteq> l"
  using assms by (auto simp: wf5_def)

lemma wf5_socket:
  "wf5 m pe pa po l \<Longrightarrow> om_get m k = Some c \<Longrightarrow> om_get m k' = Some c' \<Longrightarrow> cc_socket c = cc_socket c' \<Longrightarrow> k = k'"
  unfolding wf5_def by blast

text \<open>
  A context that is not busy may be replaced by another with the same identity, and may be removed, its
  socket closed; then an operation may be started for it.
\<close>

lemma live_put_other: "i \<noteq> j \<Longrightarrow> live (om_put (ckey j) c m) po i P = live m po i P"
  by (simp add: live_def)

lemma live_del_other: "i \<noteq> j \<Longrightarrow> live (om_del (ckey j) m) po i P = live m po i P"
  by (simp add: live_def)

lemma wf5I:
  assumes "om_wf m"
    and "\<And>k c. om_get m k = Some c \<Longrightarrow> k = ckey (cc_id c) \<and> ctx_wf c \<and> cc_socket c \<noteq> l"
    and "\<And>k c k' c'. om_get m k = Some c \<Longrightarrow> om_get m k' = Some c' \<Longrightarrow> cc_socket c = cc_socket c' \<Longrightarrow> k = k'"
    and "\<And>o1. o1 \<in> set pe \<Longrightarrow> io_key o1 = io_owner o1 \<and> live m po (io_owner o1) (\<lambda>c. op_ok c (io_what o1))"
    and "\<And>p. p \<in> set pa \<Longrightarrow> pkey p \<noteq> NONE_ID \<Longrightarrow> live m po (pkey p) (\<lambda>c. pkt_ok c p)"
    and "distinct (busy pe pa)"
  shows "wf5 m pe pa po l"
  using assms unfolding wf5_def by blast

lemma wf5_parts:
  assumes "wf5 m pe pa po l"
  shows "om_wf m" "distinct (busy pe pa)"
    "o1 \<in> set pe \<Longrightarrow> io_key o1 = io_owner o1" "o1 \<in> set pe \<Longrightarrow> live m po (io_owner o1) (\<lambda>c. op_ok c (io_what o1))"
    "p \<in> set pa \<Longrightarrow> pkey p \<noteq> NONE_ID \<Longrightarrow> live m po (pkey p) (\<lambda>c. pkt_ok c p)"
  using assms unfolding wf5_def by blast+

lemma not_busy:
  assumes "i \<notin> set (busy pe pa)"
  shows "o1 \<in> set pe \<Longrightarrow> io_owner o1 \<noteq> i" "p \<in> set pa \<Longrightarrow> pkey p \<noteq> NONE_ID \<Longrightarrow> pkey p \<noteq> i"
  using assms by (auto simp: busy_def)

lemma wf5_put:
  assumes wf: "wf5 m pe pa po l" and c: "om_get m (ckey i) = Some c" and nb: "i \<notin> set (busy pe pa)"
    and c': "cc_id c' = i" "cc_socket c' = cc_socket c" "ctx_wf c'"
  shows "wf5 (om_put (ckey i) c' m) pe pa po l"
proof (rule wf5I)
  show "om_wf (om_put (ckey i) c' m)" using wf5_parts(1)[OF wf] by (rule om_wf_put)
  show "k = ckey (cc_id d) \<and> ctx_wf d \<and> cc_socket d \<noteq> l" if "om_get (om_put (ckey i) c' m) k = Some d" for k d
    using that c' wf5_ctx[OF wf, of k d] wf5_ctx[OF wf c] by (auto split: if_splits)
  show "k = k'" if "om_get (om_put (ckey i) c' m) k = Some d" "om_get (om_put (ckey i) c' m) k' = Some d'"
    "cc_socket d = cc_socket d'" for k k' d d'
    using that wf5_socket[OF wf, of k d k' d'] wf5_socket[OF wf c, of k' d'] wf5_socket[OF wf _ c, of k d] c'(2)
    by (auto split: if_splits)
qed (use not_busy[OF nb] wf5_parts[OF wf] in \<open>simp_all add: live_put_other\<close>)

lemma wf5_del:
  assumes wf: "wf5 m pe pa po l" and nb: "i \<notin> set (busy pe pa)"
  shows "wf5 (om_del (ckey i) m) pe pa po l"
proof (rule wf5I)
  show "k = ckey (cc_id d) \<and> ctx_wf d \<and> cc_socket d \<noteq> l" if "om_get (om_del (ckey i) m) k = Some d" for k d
    using that wf5_ctx[OF wf, of k d] by (auto split: if_splits)
  show "k = k'" if "om_get (om_del (ckey i) m) k = Some d" "om_get (om_del (ckey i) m) k' = Some d'"
    "cc_socket d = cc_socket d'" for k k' d d'
    using that wf5_socket[OF wf, of k d k' d'] by (auto split: if_splits)
qed (use not_busy[OF nb] wf5_parts[OF wf] in \<open>simp_all add: live_del_other om_wf_del\<close>)

text \<open>Changing the port of a socket that no busy client has.\<close>

lemma wf5_port:
  assumes wf: "wf5 m pe pa po l" and sk: "\<And>i c. om_get m (ckey i) = Some c \<Longrightarrow> cc_socket c = sk \<Longrightarrow> i \<notin> set (busy pe pa)"
  shows "wf5 m pe pa (po(sk := v)) l"
proof (rule wf5I)
  have lv: "live m (po(sk := v)) i P" if lv: "live m po i P" and b: "i \<in> set (busy pe pa)" for i P
  proof -
    from lv obtain c where c: "om_get m (ckey i) = Some c" "cc_id c = i" "po (cc_socket c) = Some i" "P c"
      by (auto simp: live_def)
    with sk b have "cc_socket c \<noteq> sk" by blast
    with c show ?thesis by (auto simp: live_def)
  qed
  show "io_key o1 = io_owner o1 \<and> live m (po(sk := v)) (io_owner o1) (\<lambda>c. op_ok c (io_what o1))" if "o1 \<in> set pe" for o1
    using that wf5_parts(3,4)[OF wf that] by (auto intro!: lv simp: busy_def)
  show "live m (po(sk := v)) (pkey p) (\<lambda>c. pkt_ok c p)" if "p \<in> set pa" "pkey p \<noteq> NONE_ID" for p
    using that wf5_parts(5)[OF wf that] by (auto intro!: lv simp: busy_def)
qed (use wf5_parts[OF wf] wf5_ctx[OF wf] wf5_socket[OF wf] in auto)

lemma wf5_port_self:
  assumes wf: "wf5 m pe pa po l" and c: "om_get m (ckey i) = Some c" and nb: "i \<notin> set (busy pe pa)"
  shows "wf5 m pe pa (po(cc_socket c := v)) l"
  using wf
proof (rule wf5_port)
  fix j d assume "om_get m (ckey j) = Some d" "cc_socket d = cc_socket c"
  then have "j = i" using wf5_socket[OF wf _ c, of "ckey j" d] by simp
  with nb show "j \<notin> set (busy pe pa)" by simp
qed

lemma busy_simps [simp]:
  "busy pe (p # pa) = map io_owner pe @ (if pkey p = NONE_ID then [] else [pkey p]) @ filter (\<lambda>k. k \<noteq> NONE_ID) (map pkey pa)"
  by (simp add: busy_def)

lemma wf5_start:
  assumes wf: "wf5 m pe pa po l" and c: "live m po i (\<lambda>c. op_ok c op)" and nb: "i \<notin> set (busy pe pa)"
  shows "wf5 m (pe @ [\<lparr>io_key = i, io_owner = i, io_what = op\<rparr>]) pa po l"
proof (rule wf5I)
  show "distinct (busy (pe @ [\<lparr>io_key = i, io_owner = i, io_what = op\<rparr>]) pa)"
    using wf5_parts(2)[OF wf] nb by (auto simp: busy_def)
qed (use wf5_parts[OF wf] wf5_ctx[OF wf] wf5_socket[OF wf] c in auto)

lemma wf5_pop:
  assumes wf: "wf5 m pe (p # pa) po l"
  shows "wf5 m pe pa po l" "pkey p \<noteq> NONE_ID \<Longrightarrow> pkey p \<notin> set (busy pe pa)"
    "pkey p \<noteq> NONE_ID \<Longrightarrow> live m po (pkey p) (\<lambda>c. pkt_ok c p)"
proof -
  have d: "distinct (busy pe (p # pa))" by (rule wf5_parts(2)[OF wf])
  show "wf5 m pe pa po l"
    using d by (intro wf5I) (use wf5_parts[OF wf] wf5_ctx[OF wf] wf5_socket[OF wf] in \<open>auto simp: busy_def split: if_splits\<close>)
  show "pkey p \<noteq> NONE_ID \<Longrightarrow> pkey p \<notin> set (busy pe pa)"
    using d by (auto simp: busy_def split: if_splits)
  show "pkey p \<noteq> NONE_ID \<Longrightarrow> live m po (pkey p) (\<lambda>c. pkt_ok c p)"
    using wf5_parts(5)[OF wf] by simp
qed

section \<open>The operations keep the invariant\<close>

text \<open>An outcome without undefined behaviour and without exception: the call returns, or a call has not answered.\<close>

abbreviation fine :: "'a outcome \<Rightarrow> bool" where
  "fine r \<equiv> r = Pending \<or> (\<exists>v. r = Val v)"

text \<open>The parts of the state that no operation on clients touches.\<close>

definition frame :: "iocp \<Rightarrow> iocp \<Rightarrow> bool" where
  "frame s s' \<longleftrightarrow> packets s' = packets s \<and> ip_listenSocket s' = ip_listenSocket s \<and> ip_stopped s' = ip_stopped s \<and>
     threadPool s' = threadPool s"

lemma frame_simps [simp]: "frame s s"
  by (simp add: frame_def)

lemma win_cases:
  obtains "k_win s = []" "win c s = (Pending, s\<lparr>win_calls := win_calls s @ [c]\<rparr>)"
  | a ks where "k_win s = a # ks" "win c s = (Val a, s\<lparr>win_calls := win_calls s @ [c], k_win := ks\<rparr>)"
  by (cases "k_win s") (auto simp: win_def Let_def)

lemma CloseSocket_res:
  assumes "CloseSocket sk s = (r, s')"
  shows "fine r" "frame s s'" "clientContexts s' = clientContexts s" "pending s' = pending s"
    "ports s' = ports s \<or> ports s' = (ports s)(sk := None)"
  using assms
  by (cases rule: win_cases[of s "CallClosesocket sk"];
      auto simp: CloseSocket_def LogError_ip_def frame_def cpp_eval split: win_ans.splits)+

lemma remove_wf:
  assumes "ip_wf s" "i \<notin> set (busy (pending s) (packets s))" "removeClientContext i s = (r, s')"
  shows "ip_wf s' \<and> fine r \<and> frame s s' \<and> pending s' = pending s \<and> clientContexts s' = om_del (ckey i) (clientContexts s)"
proof (cases "om_get (clientContexts s) (ckey i)")
  case None
  have "om_del (ckey i) (clientContexts s) = clientContexts s"
    using None by (force simp: om_del_def om_get_def map_of_eq_None_iff intro!: filter_True)
  with assms None show ?thesis
    by (auto simp: removeClientContext_def LogError_ip_def frame_def cpp_eval)
next
  case (Some c)
  let ?s = "s\<lparr>clientContexts := om_del (ckey i) (clientContexts s)\<rparr>"
  have run: "CloseSocket (cc_socket c) ?s = (r, s')"
    using assms(3) Some by (simp add: removeClientContext_def cpp_eval)
  note res = CloseSocket_res[OF run]
  have a: "wf5 (om_del (ckey i) (clientContexts s)) (pending s) (packets s) (ports s) (ip_listenSocket s)"
    by (rule wf5_del[OF assms(1,2)])
  have "wf5 (clientContexts s) (pending s) (packets s) ((ports s)(cc_socket c := None)) (ip_listenSocket s)"
    by (rule wf5_port_self[OF assms(1) Some assms(2)])
  then have b: "wf5 (om_del (ckey i) (clientContexts s)) (pending s) (packets s) ((ports s)(cc_socket c := None)) (ip_listenSocket s)"
    by (rule wf5_del[OF _ assms(2)])
  from a b res show ?thesis by (auto simp: frame_def)
qed

text \<open>Starting an operation for a client that has none.\<close>

lemma launch_wf:
  assumes wf: "ip_wf s" and nb: "i \<notin> set (busy (pending s) (packets s))"
    and c: "om_get (clientContexts s) (ckey i) = Some c" "cc_id c = i" "ports s (cc_socket c) = Some i" "op_ok c op"
    and run: "bnd (start_io i (cc_socket c) op call) (started_or_remove fn what i) s = (r, s')"
  shows "ip_wf s' \<and> fine r \<and> frame s s'"
proof -
  let ?o = "\<lparr>io_key = i, io_owner = i, io_what = op\<rparr>"
  have st: "wf5 (clientContexts s) (pending s @ [?o]) (packets s) (ports s) (ip_listenSocket s)"
    using c by (intro wf5_start[OF wf _ nb]) (auto simp: live_def)
  show ?thesis
  proof (cases rule: win_cases[of s call])
    case 1
    with run wf show ?thesis by (auto simp: start_io_def Let_def cpp_eval frame_def)
  next
    case (2 a ks)
    let ?s = "s\<lparr>win_calls := win_calls s @ [call], k_win := ks\<rparr>"
    consider (ok) "\<exists>v. a = WinOk v" | (pend) "a = WinErr WSA_IO_PENDING" | (err) code where "a = WinErr code" "code \<noteq> WSA_IO_PENDING"
      by (cases a) auto
    then show ?thesis
    proof cases
      case err
      let ?t = "?s\<lparr>ip_lg := Logger_LogError (log_prefix fn # [what @ '' failed, code('', to_string_int code, '')'']) (ip_lg s)\<rparr>"
      have "removeClientContext i ?t = (r, s')"
        using run 2 err by (simp add: start_io_def Let_def started_or_remove_def LogError_ip_def cpp_eval)
      then show ?thesis using remove_wf[of ?t i r s'] wf nb by (auto simp: frame_def)
    qed (use run 2 st c in \<open>auto simp: start_io_def Let_def started_or_remove_def cpp_eval frame_def\<close>)
  qed
qed

lemma upd_ctx_some:
  "om_get (clientContexts s) (ckey i) = Some c \<Longrightarrow>
     upd_ctx i f s = s\<lparr>clientContexts := om_put (ckey i) (f c) (clientContexts s)\<rparr>"
  by (simp add: upd_ctx_def)

lemma relaunch_wf:
  assumes wf: "ip_wf s" and nb: "i \<notin> set (busy (pending s) (packets s))"
    and c: "om_get (clientContexts s) (ckey i) = Some c" "ports s (cc_socket c) = Some i"
    and c': "cc_id c' = i" "cc_socket c' = cc_socket c" "ctx_wf c'" "op_ok c' op"
    and run: "sq (modify (upd_ctx i (\<lambda>_. c'))) (bnd (start_io i (cc_socket c') op call) (started_or_remove fn what i)) s = (r, s')"
  shows "ip_wf s' \<and> fine r \<and> frame s s'"
proof -
  let ?s = "s\<lparr>clientContexts := om_put (ckey i) c' (clientContexts s)\<rparr>"
  have run': "bnd (start_io i (cc_socket c') op call) (started_or_remove fn what i) ?s = (r, s')"
    using run upd_ctx_some[OF c(1), of "\<lambda>_. c'"] by (simp add: sq_eval modify_run)
  have "ip_wf ?s" using wf5_put[OF wf c(1) nb c'(1-3)] by simp
  from launch_wf[OF this _ _ c'(1) _ c'(4) run'] nb c c'(2) show ?thesis by (auto simp: frame_def)
qed

lemma WSASend_inside:
  "off + len \<le> length (cc_buffer c) \<Longrightarrow>
     WSASend c (Some (off, len)) =
       start_io (cc_id c) (cc_socket c) (IoSend (take len (drop off (cc_buffer c)))) (CallSend (cc_socket c) (take len (drop off (cc_buffer c))))"
  by (simp add: WSASend_def Let_def)

lemma WSARecv_inside:
  "off + len \<le> length (cc_buffer c) \<Longrightarrow>
     WSARecv c (Some (off, len)) = start_io (cc_id c) (cc_socket c) (IoRecv off len) (CallRecv (cc_socket c) off len)"
  by (simp add: WSARecv_def)

lemmas cc_setters = setLastOptionRecv_def setLastOptionSend_def isLastOptionRecv_def isLastOptionSend_def

lemma unat_plus_small: "unat (a :: u32) + unat b \<le> BUFFER_SIZE_ip \<Longrightarrow> unat (a + b) = unat a + unat b"
  by (simp add: unat_plus_if' BUFFER_SIZE_ip_def)

lemmas process_simps = process_ip_def getClientContext_def cc_setters bnd_eval gets_run ret_run Let_def

text \<open>Received bytes are sent back; a send is continued until everything is sent, and then the next receive is started.\<close>

lemma process_received_wf:
  assumes wf: "ip_wf s" and nb: "key \<notin> set (busy (pending s) (packets s))"
    and c: "om_get (clientContexts s) (ckey key) = Some c" "cc_id c = key" "ports s (cc_socket c) = Some key" "pkt_ok c (GqOk n key)"
    and n: "key \<noteq> NONE_ID" "n \<noteq> 0" and op: "lastOption c = OPTION_RECV"
    and run: "process_ip (GqOk n key) s = (r, s')"
  shows "ip_wf s' \<and> fine r \<and> frame s s'"
proof -
  let ?c = "setLastOptionSend c\<lparr>numberOfBytesToSend := n, numberOfBytesSent := 0, wsaBuf := Some (0, unat n)\<rparr>"
  have cw: "ctx_wf c" by (rule wf5_ctx[OF wf c(1)])
  have le: "unat n \<le> BUFFER_SIZE_ip" and io: "cc_in c = cc_out c @ take (unat n) (cc_buffer c)"
    using c(4) op by auto
  obtain m where m: "wsaBuf c = Some (0, m)" using cw op by (auto simp: ctx_wf_def)
  show ?thesis
  proof (rule relaunch_wf[OF wf nb c(1,3), where c' = ?c and op = "IoSend (take (unat n) (cc_buffer c))"])
    show "ctx_wf ?c" using cw by (auto simp: ctx_wf_def cc_setters)
    show "op_ok ?c (IoSend (take (unat n) (cc_buffer c)))" using n le io by (simp add: cc_setters unsent_def unat_gt_0)
  qed (use run n c op m le cw in \<open>simp_all add: process_simps WSASend_inside ctx_wf_def\<close>)
qed

lemma process_sent_wf:
  assumes wf: "ip_wf s" and nb: "key \<notin> set (busy (pending s) (packets s))"
    and c: "om_get (clientContexts s) (ckey key) = Some c" "cc_id c = key" "ports s (cc_socket c) = Some key" "pkt_ok c (GqOk n key)"
    and n: "key \<noteq> NONE_ID" "n \<noteq> 0" and op: "lastOption c = OPTION_SEND"
    and run: "process_ip (GqOk n key) s = (r, s')"
  shows "ip_wf s' \<and> fine r \<and> frame s s'"
proof -
  let ?sent = "numberOfBytesSent c + n"
  have cw: "ctx_wf c" by (rule wf5_ctx[OF wf c(1)])
  have le: "unat (numberOfBytesSent c) + unat n \<le> unat (numberOfBytesToSend c)" "unat (numberOfBytesToSend c) \<le> BUFFER_SIZE_ip"
    and io: "cc_in c = cc_out c @ unsent c (unat (numberOfBytesSent c) + unat n)"
    using c(4) op by auto
  have un: "unat ?sent = unat (numberOfBytesSent c) + unat n" using le by (intro unat_plus_small) simp
  show ?thesis
  proof (cases "?sent < numberOfBytesToSend c")
    case True
    let ?c = "setLastOptionSend c\<lparr>numberOfBytesSent := ?sent\<rparr>"
    have lt: "unat ?sent < unat (numberOfBytesToSend c)" using True by (simp add: word_less_nat_alt)
    have d: "unat (numberOfBytesToSend c - ?sent) = unat (numberOfBytesToSend c) - unat ?sent"
      using True by (simp add: unat_sub)
    show ?thesis
    proof (rule relaunch_wf[OF wf nb c(1,3), where c' = ?c and op = "IoSend (unsent c (unat ?sent))"])
      show "ctx_wf ?c" using cw op by (auto simp: ctx_wf_def cc_setters)
      show "op_ok ?c (IoSend (unsent c (unat ?sent)))" using lt io un le by (simp add: cc_setters unsent_def)
    qed (use run n c op True d le cw un lt in \<open>simp_all add: process_simps WSASend_inside ctx_wf_def unsent_def\<close>)
  next
    case False
    let ?c = "setLastOptionRecv c\<lparr>numberOfBytesSent := ?sent\<rparr>"
    have eq: "unat ?sent = unat (numberOfBytesToSend c)" using False le un by (simp add: word_less_nat_alt)
    show ?thesis
    proof (rule relaunch_wf[OF wf nb c(1,3), where c' = ?c and op = "IoRecv 0 BUFFER_SIZE_ip"])
      show "ctx_wf ?c" using cw op by (auto simp: ctx_wf_def cc_setters)
      show "op_ok ?c (IoRecv 0 BUFFER_SIZE_ip)" using io un eq by (simp add: cc_setters unsent_def)
    qed (use run n c op False cw in \<open>simp_all add: process_simps WSARecv_inside ctx_wf_def\<close>)
  qed
qed

lemma process_wf:
  assumes wf: "wf5 (clientContexts s) (pending s) (p # packets s) (ports s) (ip_listenSocket s)"
    and run: "process_ip p s = (r, s')"
  shows "ip_wf s' \<and> fine r \<and> frame s s'"
proof (cases p)
  case (GqFail code k)
  with run wf5_pop(1)[OF wf] show ?thesis by (auto simp: process_ip_def LogError_ip_def cpp_eval frame_def)
next
  case (GqOk n key)
  note wf' = wf5_pop(1)[OF wf]
  show ?thesis
  proof (cases "key = NONE_ID")
    case True
    with run GqOk wf' show ?thesis by (auto simp: process_ip_def cpp_eval)
  next
    case False
    then have nb: "key \<notin> set (busy (pending s) (packets s))" using wf5_pop(2)[OF wf] GqOk by simp
    from False wf5_pop(3)[OF wf] obtain c where c: "om_get (clientContexts s) (ckey key) = Some c"
      "cc_id c = key" "ports s (cc_socket c) = Some key" "pkt_ok c (GqOk n key)" using GqOk by (auto simp: live_def)
    consider "n = 0" | "n \<noteq> 0" "lastOption c = OPTION_RECV" | "n \<noteq> 0" "lastOption c = OPTION_SEND"
      using c(4) by auto
    then show ?thesis
    proof cases
      case 1
      with False run GqOk have "removeClientContext key s = (r, s')" by (simp add: process_ip_def)
      from remove_wf[OF wf' nb this] show ?thesis by blast
    qed (use process_received_wf[OF wf' nb c False] process_sent_wf[OF wf' nb c False] run GqOk in auto)
  qed
qed

text \<open>The kernel completes an operation.\<close>

lemma unat_of_nat_small: "n \<le> BUFFER_SIZE_ip \<Longrightarrow> unat (of_nat n :: u32) = n"
  by (simp add: unat_of_nat BUFFER_SIZE_ip_def)

lemma completion_ctx:
  assumes "ctx_wf c" "op_ok c op" "io_fits op d"
    "c' = (case op of IoRecv off len \<Rightarrow> c\<lparr>cc_buffer := put_bytes off d (cc_buffer c), cc_in := cc_in c @ d\<rparr>
                    | IoSend b \<Rightarrow> c\<lparr>cc_out := cc_out c @ d\<rparr>)"
  shows "ctx_wf c'" "pkt_ok c' (GqOk (of_nat (length d)) k)"
proof -
  show "ctx_wf c'"
  proof (cases op)
    case (IoSend b)
    then have "prefix (cc_out c @ d) (cc_in c)" using assms by (metis io_fits.simps(2) op_ok.simps(2) same_prefix_prefix take_is_prefix)
    with IoSend assms show ?thesis by (auto simp: ctx_wf_def)
  qed (use assms in \<open>auto simp: ctx_wf_def put_bytes_def intro: prefix_prefix\<close>)
  show "pkt_ok c' (GqOk (of_nat (length d)) k)"
  proof (cases op)
    case (IoRecv off len)
    with assms show ?thesis by (simp add: put_bytes_def unat_of_nat_small)
  next
    case (IoSend b)
    have len: "length d \<le> length b" using assms(3) IoSend by (metis io_fits.simps(2) length_take min.cobounded1)
    then have "length d \<le> unat (numberOfBytesToSend c) - unat (numberOfBytesSent c)" "length d \<le> BUFFER_SIZE_ip"
      using assms(1,2) IoSend by (auto simp: unsent_def ctx_wf_def)
    moreover have "b = d @ drop (length d) b" using assms(3) IoSend by (metis append_take_drop_id io_fits.simps(2))
    ultimately show ?thesis using assms IoSend
      by (auto simp: unat_of_nat_small unsent_def drop_take add.commute)
  qed
qed

lemma complete_io_ctx:
  assumes "om_get (clientContexts s) (ckey (io_owner o1)) = Some c"
  shows "complete_io o1 d s = s\<lparr>clientContexts := om_put (ckey (io_owner o1))
     (case io_what o1 of IoRecv off len \<Rightarrow> c\<lparr>cc_buffer := put_bytes off d (cc_buffer c), cc_in := cc_in c @ d\<rparr>
                       | IoSend b \<Rightarrow> c\<lparr>cc_out := cc_out c @ d\<rparr>) (clientContexts s)\<rparr>"
  using assms by (cases "io_what o1") (simp_all add: upd_ctx_def)

lemma complete_wf:
  assumes wf: "ip_wf s" and j: "j < length (pending s)" "o1 = pending s ! j" and fits: "io_fits (io_what o1) d"
    and s': "s' = complete_io o1 d (s\<lparr>pending := take j (pending s) @ drop (Suc j) (pending s)\<rparr>)"
    and p: "p = GqOk (of_nat (length d)) (io_key o1) \<or> p = GqFail code (io_key o1)"
  shows "ip_wf (s'\<lparr>packets := packets s @ [p]\<rparr>)" "frame s (s'\<lparr>packets := packets s\<rparr>)"
proof -
  let ?i = "io_owner o1" and ?pe = "take j (pending s) @ drop (Suc j) (pending s)"
  have sp: "pending s = take j (pending s) @ o1 # drop (Suc j) (pending s)" using j id_take_nth_drop by simp
  have o1: "o1 \<in> set (pending s)" using j by simp
  note key = wf5_parts(3)[OF wf o1]
  from wf5_parts(4)[OF wf o1] obtain c where c: "om_get (clientContexts s) (ckey ?i) = Some c" "cc_id c = ?i"
    "ports s (cc_socket c) = Some ?i" "op_ok c (io_what o1)" by (auto simp: live_def)
  define c' where "c' = (case io_what o1 of IoRecv off len \<Rightarrow> c\<lparr>cc_buffer := put_bytes off d (cc_buffer c), cc_in := cc_in c @ d\<rparr>
                       | IoSend b \<Rightarrow> c\<lparr>cc_out := cc_out c @ d\<rparr>)"
  have cw: "ctx_wf c" by (rule wf5_ctx[OF wf c(1)])
  have s'_eq: "s' = s\<lparr>pending := ?pe, clientContexts := om_put (ckey ?i) c' (clientContexts s)\<rparr>"
    using s' complete_io_ctx[of "s\<lparr>pending := ?pe\<rparr>" o1 c d] c(1) by (simp add: c'_def)
  then show "frame s (s'\<lparr>packets := packets s\<rparr>)" by (simp add: frame_def)
  have c'_same: "cc_id c' = ?i" "cc_socket c' = cc_socket c" using c by (auto simp: c'_def split: io_op.splits)
  have "distinct (busy (take j (pending s) @ o1 # drop (Suc j) (pending s)) (packets s))"
    using wf5_parts(2)[OF wf] sp by simp
  then have d: "distinct (busy ?pe (packets s))" "?i \<notin> set (busy ?pe (packets s))"
    by (auto simp: busy_def)
  have wf': "wf5 (clientContexts s) ?pe (packets s) (ports s) (ip_listenSocket s)"
    by (intro wf5I) (use wf5_parts[OF wf] wf5_ctx[OF wf] wf5_socket[OF wf] d(1) sp in \<open>auto dest: in_set_takeD in_set_dropD\<close>)
  have wf'': "wf5 (om_put (ckey ?i) c' (clientContexts s)) ?pe (packets s) (ports s) (ip_listenSocket s)"
    using wf5_put[OF wf' c(1) d(2) c'_same] completion_ctx(1)[OF cw c(4) fits c'_def] by blast
  have "pkt_ok c' p" using completion_ctx(2)[OF cw c(4) fits c'_def] p by auto
  then have lv: "live (om_put (ckey ?i) c' (clientContexts s)) (ports s) (pkey p) (\<lambda>c. pkt_ok c p)"
    using p key c'_same c(3) by (auto simp: live_def)
  have "wf5 (om_put (ckey ?i) c' (clientContexts s)) ?pe (packets s @ [p]) (ports s) (ip_listenSocket s)"
  proof (rule wf5I)
    show "distinct (busy ?pe (packets s @ [p]))" using d key p by (auto simp: busy_def)
    show "live (om_put (ckey ?i) c' (clientContexts s)) (ports s) (pkey q) (\<lambda>c. pkt_ok c q)"
      if "q \<in> set (packets s @ [p])" "pkey q \<noteq> NONE_ID" for q
      using that lv wf5_parts(5)[OF wf'', of q] by auto
    show "k = k'" if "om_get (om_put (ckey ?i) c' (clientContexts s)) k = Some a"
      "om_get (om_put (ckey ?i) c' (clientContexts s)) k' = Some a'" "cc_socket a = cc_socket a'" for k k' a a'
      using wf5_socket[OF wf'' that] .
  qed (use wf5_parts(1,3,4)[OF wf''] wf5_ctx[OF wf''] in blast)+
  then show "ip_wf (s'\<lparr>packets := packets s @ [p]\<rparr>)" by (simp add: s'_eq)
qed

section \<open>New clients\<close>

lemma find_id_Some:
  assumes "find_id m i = Some j"
  shows "\<not> om_has m (ckey j) \<and> j \<noteq> NONE_ID"
  by (rule find_id.raw_induct[OF _ assms, where P = "\<lambda>m i j. \<not> om_has m (ckey j) \<and> j \<noteq> NONE_ID"])
    (metis option.inject)

lemma unat_dist: "j \<noteq> i \<Longrightarrow> unat (j - i :: u32) = Suc (unat (j - (i + 1)))"
  using unat_minus_one[of "j - i"] unat_gt_0[of "j - i"] by (simp add: algebra_simps)

lemma find_id_ends:
  assumes "\<not> om_has m (ckey j)" "j \<noteq> NONE_ID"
  shows "\<exists>k. find_id m i = Some k"
proof (induction "unat (j - i)" arbitrary: i)
  case 0
  then have "i = j" by (simp add: unat_eq_0)
  with assms show ?case by (simp add: find_id.simps[of m j])
next
  case (Suc n)
  then have "j \<noteq> i" by auto
  with Suc(2) have "n = unat (j - (i + 1))" using unat_dist by simp
  from Suc(1)[OF this] show ?case by (simp add: find_id.simps[of m i])
qed

lemma wf5_add:
  assumes wf: "wf5 m pe pa po l" and i: "om_get m (ckey i) = None" "i \<noteq> NONE_ID"
    and sk: "\<And>k c. om_get m k = Some c \<Longrightarrow> cc_socket c \<noteq> sk" "sk \<noteq> l"
  shows "wf5 (om_put (ckey i) (ClientContext_new i sk) m) pe pa po l" "i \<notin> set (busy pe pa)"
proof -
  let ?m = "om_put (ckey i) (ClientContext_new i sk) m"
  show nb: "i \<notin> set (busy pe pa)"
  proof
    assume "i \<in> set (busy pe pa)"
    then consider o1 where "o1 \<in> set pe" "io_owner o1 = i" | p where "p \<in> set pa" "pkey p = i" "i \<noteq> NONE_ID"
      by (auto simp: busy_def)
    then show False
      by cases (use wf5_parts(4,5)[OF wf] i(1) in \<open>metis live_def option.distinct(1)\<close>)+
  qed
  have cw: "ctx_wf (ClientContext_new i sk)" using i by (simp add: ctx_wf_def ClientContext_new_def)
  show "wf5 ?m pe pa po l"
  proof (rule wf5I)
    show "k = ckey (cc_id d) \<and> ctx_wf d \<and> cc_socket d \<noteq> l" if "om_get ?m k = Some d" for k d
      using that cw sk(2) wf5_ctx[OF wf, of k d] by (auto simp: ClientContext_new_def split: if_splits)
    show "k = k'" if "om_get ?m k = Some d" "om_get ?m k' = Some d'" "cc_socket d = cc_socket d'" for k k' d d'
      using that wf5_socket[OF wf, of k d k' d'] sk(1)[of k d] sk(1)[of k' d']
      by (auto simp: ClientContext_new_def split: if_splits)
  qed (use not_busy[OF nb] wf5_parts[OF wf] in \<open>simp_all add: live_put_other om_wf_put\<close>)
qed

lemma fresh_socketD:
  "fresh_socket s sk \<Longrightarrow> ip_wf s \<Longrightarrow> om_get (clientContexts s) k = Some c \<Longrightarrow> cc_socket c \<noteq> sk"
  using om.entries_get[of "clientContexts s" k c] wf5_parts(1)[of "clientContexts s"] by (fastforce simp: fresh_socket_def)

lemma ClientContext_new_sel [simp]:
  "cc_id (ClientContext_new i sk) = i" "cc_socket (ClientContext_new i sk) = sk"
  "cc_buffer (ClientContext_new i sk) = replicate BUFFER_SIZE_ip (CHR 0x00)"
  "cc_in (ClientContext_new i sk) = []" "cc_out (ClientContext_new i sk) = []"
  by (simp_all add: ClientContext_new_def)

text \<open>The rest of \<open>acceptConnection\<close>, once the socket has a context.\<close>

lemma accepted_wf:
  assumes wf: "ip_wf s" and i: "om_get (clientContexts s) (ckey i) = Some (ClientContext_new i sk)" "i \<noteq> NONE_ID"
    and nb: "i \<notin> set (busy (pending s) (packets s))"
    and c: "c = setLastOptionRecv (ClientContext_new i sk) \<lparr>wsaBuf := Some (0, length (cc_buffer (ClientContext_new i sk)))\<rparr>"
    and run: "bnd (associateWithIOCP i sk) (\<lambda>ok. if ok then sq (modify (upd_ctx i (\<lambda>_. c)))
         (bnd (WSARecv c (wsaBuf c)) (started_or_remove fn what i)) else skip) s = (r, s')"
  shows "ip_wf s' \<and> fine r \<and> frame s s'"
proof (cases rule: win_cases[of s "CallAssociate sk (ip_iocp s) i"])
  case 1
  with run wf show ?thesis by (auto simp: associateWithIOCP_def cpp_eval frame_def)
next
  case (2 a ks)
  show ?thesis
  proof (cases a)
    case (WinErr code)
    with run 2 wf show ?thesis by (auto simp: associateWithIOCP_def LogError_ip_def cpp_eval frame_def)
  next
    case (WinOk v)
    let ?s = "s\<lparr>win_calls := win_calls s @ [CallAssociate sk (ip_iocp s) i], k_win := ks, ports := (ports s)(sk \<mapsto> i)\<rparr>"
    have wf': "ip_wf ?s" using wf5_port_self[OF wf i(1) nb, of "Some i"] by simp
    have "ip_wf s' \<and> fine r \<and> frame ?s s'"
    proof (rule relaunch_wf[OF wf', where c = "ClientContext_new i sk" and c' = c and op = "IoRecv 0 BUFFER_SIZE_ip" and i = i])
      show "ctx_wf c" using i(2) by (simp add: c ctx_wf_def cc_setters)
      have buf: "wsaBuf c = Some (0, BUFFER_SIZE_ip)" "length (cc_buffer c) = BUFFER_SIZE_ip" by (simp_all add: c cc_setters)
      then show "sq (modify (upd_ctx i (\<lambda>_. c))) (bnd (start_io i (cc_socket c) (IoRecv 0 BUFFER_SIZE_ip)
          (CallRecv sk 0 BUFFER_SIZE_ip)) (started_or_remove fn what i)) ?s = (r, s')"
        using run 2 WinOk WSARecv_inside[of 0 BUFFER_SIZE_ip c]
        by (simp add: associateWithIOCP_def bnd_eval[of _ _ s] bnd_eval[of _ _ "s\<lparr>win_calls := x, k_win := ks\<rparr>" for x]
            gets_run sq_eval modify_run ret_run c cc_setters)
    qed (use i nb in \<open>simp_all add: c cc_setters\<close>)
    then show ?thesis by (auto simp: frame_def)
  qed
qed

lemma acceptConnection_wf:
  assumes wf: "ip_wf s" and fresh: "\<And>sk ks. k_win s = WinOk sk # ks \<Longrightarrow> fresh_socket s sk"
    and run: "acceptConnection s = (r, s')"
  shows "ip_wf s' \<and> fine r \<and> frame s s'"
proof (cases rule: win_cases[of s "CallAccept (ip_listenSocket s)"])
  case 1
  with run wf show ?thesis by (auto simp: acceptConnection_def cpp_eval frame_def)
next
  case (2 a ks)
  let ?s = "s\<lparr>win_calls := win_calls s @ [CallAccept (ip_listenSocket s)], k_win := ks\<rparr>"
  show ?thesis
  proof (cases a)
    case (WinErr code)
    with run 2 wf show ?thesis by (auto simp: acceptConnection_def LogError_ip_def cpp_eval frame_def)
  next
    case (WinOk sk)
    have fr: "fresh_socket s sk" using fresh 2 WinOk by simp
    show ?thesis
    proof (cases "find_id (clientContexts s) (static_id s)")
      case None
      with run 2 WinOk wf show ?thesis
        by (auto simp: acceptConnection_def createClientContext_def bnd_eval gets_run frame_def)
    next
      case (Some i)
      let ?t = "?s\<lparr>static_id := i, clientContexts := om_put (ckey i) (ClientContext_new i sk) (clientContexts s)\<rparr>"
      have i: "om_get (clientContexts s) (ckey i) = None" "i \<noteq> NONE_ID"
        using find_id_Some[OF Some] by (auto simp: om_has_def)
      have sk: "cc_socket c \<noteq> sk" if "om_get (clientContexts s) k = Some c" for k c
        using fresh_socketD[OF fr wf that] .
      have "sk \<noteq> ip_listenSocket s" using fr by (simp add: fresh_socket_def)
      note add = wf5_add[OF wf i sk this]
      have "ip_wf s' \<and> fine r \<and> frame ?t s'"
      proof (rule accepted_wf[where c = "setLastOptionRecv (ClientContext_new i sk)
            \<lparr>wsaBuf := Some (0, length (cc_buffer (ClientContext_new i sk)))\<rparr>"])
        show "ip_wf ?t" using add(1) by simp
      qed (use run 2 WinOk Some add(2) i(2) in \<open>simp_all add: acceptConnection_def[unfolded Let_def] createClientContext_def bnd_eval[of _ _ s]
            bnd_eval[of _ _ "s\<lparr>win_calls := x, k_win := ks\<rparr>" for x] gets_run Let_def\<close>)
      then show ?thesis by (auto simp: frame_def)
    qed
  qed
qed

lemma acceptThread_wf:
  assumes wf: "ip_wf s" and fresh: "\<forall>a sk ks. k_win s = a # WinOk sk # ks \<longrightarrow> fresh_socket s sk"
    and run: "acceptThread_body s = (r, s')"
  shows "ip_wf s' \<and> fine r \<and> frame s s'"
proof (cases rule: win_cases[of s "CallWait (ip_acceptEvent s)"])
  case 1
  with run wf show ?thesis by (auto simp: acceptThread_body_def cpp_eval frame_def Let_def)
next
  case (2 a ks)
  show ?thesis
  proof (cases "\<exists>v events es. a = WinOk v \<and> v \<noteq> WSA_WAIT_TIMEOUT \<and> k_enum s = EnumOk events 0 # es \<and> events AND FD_ACCEPT \<noteq> 0")
    case True
    then obtain v events es where en: "a = WinOk v" "v \<noteq> WSA_WAIT_TIMEOUT" "k_enum s = EnumOk events 0 # es" "events AND FD_ACCEPT \<noteq> 0"
      by blast
    let ?s = "s\<lparr>k_win := ks, win_calls := win_calls s @ [CallWait (ip_acceptEvent s), CallEnum (ip_listenSocket s) (ip_acceptEvent s)], k_enum := es\<rparr>"
    have "acceptConnection ?s = (r, s')"
      using run 2 en by (simp add: acceptThread_body_def WSAEnumNetworkEvents_def bnd_eval gets_run Let_def)
    then have "ip_wf s' \<and> fine r \<and> frame ?s s'"
      using acceptConnection_wf[of ?s r s'] wf fresh 2 by (simp add: fresh_socket_def)
    then show ?thesis by (auto simp: frame_def)
  next
    case False
    with run 2 wf show ?thesis
      by (cases a; cases "k_enum s"; cases "hd (k_enum s)")
        (auto simp: acceptThread_body_def WSAEnumNetworkEvents_def LogError_ip_def cpp_eval frame_def Let_def split: if_splits)
  qed
qed

section \<open>Reachable states\<close>

lemma post_packets_res:
  assumes "post_packets n s = (r, s')"
  shows "fine r" "clientContexts s' = clientContexts s" "pending s' = pending s" "ports s' = ports s"
    "ip_listenSocket s' = ip_listenSocket s" "ip_stopped s' = ip_stopped s" "threadPool s' = threadPool s"
    "\<exists>j \<le> n. packets s' = packets s @ replicate j (GqOk 0 NONE_ID) \<and>
       (r = Val () \<longrightarrow> set (take n (k_win s)) \<subseteq> range WinOk \<longrightarrow> j = n)"
proof -
  have "fine r \<and> clientContexts s' = clientContexts s \<and> pending s' = pending s \<and> ports s' = ports s \<and>
    ip_listenSocket s' = ip_listenSocket s \<and> ip_stopped s' = ip_stopped s \<and> threadPool s' = threadPool s \<and>
    (\<exists>j \<le> n. packets s' = packets s @ replicate j (GqOk 0 NONE_ID) \<and>
       (r = Val () \<longrightarrow> set (take n (k_win s)) \<subseteq> range WinOk \<longrightarrow> j = n))"
    using assms
  proof (induction n arbitrary: s)
    case (Suc n)
    let ?c = "CallPost (ip_iocp s) NONE_ID"
    show ?case
    proof (cases rule: win_cases[of s ?c])
      case (2 a ks)
      let ?s = "s\<lparr>win_calls := win_calls s @ [?c], k_win := ks\<rparr>"
      show ?thesis
      proof (cases a)
        case (WinErr code)
        then have "post_packets n (?s\<lparr>ip_lg := Logger_LogError (log_prefix ''IOCP::stopThreadPool'' #
            [''PostQueuedCompletionStatus() failed, code('', to_string_int code, '')'']) (ip_lg s)\<rparr>) = (r, s')"
          using Suc.prems 2 by (simp add: LogError_ip_def bnd_eval sq_eval gets_run modify_run)
        from Suc.IH[OF this] 2 WinErr show ?thesis by (auto simp: le_Suc_eq)
      next
        case (WinOk v)
        then have "post_packets n (?s\<lparr>packets := packets s @ [GqOk 0 NONE_ID]\<rparr>) = (r, s')"
          using Suc.prems 2 by (simp add: bnd_eval sq_eval gets_run modify_run)
        from Suc.IH[OF this] obtain j where "j \<le> n" "packets s' = packets s @ replicate (Suc j) (GqOk 0 NONE_ID)"
          "r = Val () \<longrightarrow> set (take n ks) \<subseteq> range WinOk \<longrightarrow> j = n" by auto
        with Suc.IH[OF \<open>post_packets n _ = _\<close>] 2 WinOk show ?thesis by (intro conjI exI[of _ "Suc j"]) auto
      qed
    qed (use Suc.prems in \<open>auto simp: bnd_eval gets_run\<close>)
  qed (simp add: skip_run)
  then show "fine r" "clientContexts s' = clientContexts s" "pending s' = pending s" "ports s' = ports s"
    "ip_listenSocket s' = ip_listenSocket s" "ip_stopped s' = ip_stopped s" "threadPool s' = threadPool s"
    "\<exists>j \<le> n. packets s' = packets s @ replicate j (GqOk 0 NONE_ID) \<and>
       (r = Val () \<longrightarrow> set (take n (k_win s)) \<subseteq> range WinOk \<longrightarrow> j = n)" by blast+
qed

lemma wf5_post:
  assumes wf: "wf5 m pe pa po l"
  shows "wf5 m pe (pa @ replicate j (GqOk 0 NONE_ID)) po l"
proof (rule wf5I)
  show "distinct (busy pe (pa @ replicate j (GqOk 0 NONE_ID)))"
    using wf5_parts(2)[OF wf] by (simp add: busy_def)
  show "live m po (pkey p) (\<lambda>c. pkt_ok c p)" if "p \<in> set (pa @ replicate j (GqOk 0 NONE_ID))" "pkey p \<noteq> NONE_ID" for p
    using that wf5_parts(5)[OF wf, of p] by auto
qed (use wf5_parts[OF wf] wf5_ctx[OF wf] wf5_socket[OF wf] in blast)+

lemma CloseAcceptEvent_res:
  assumes "CloseAcceptEvent ev s = (r, s')"
  shows "frame s s' \<and> clientContexts s' = clientContexts s \<and> pending s' = pending s \<and> ports s' = ports s"
  using assms
  by (cases rule: win_cases[of s "CallCloseEvent ev"])
    (auto simp: CloseAcceptEvent_def LogError_ip_def frame_def cpp_eval split: win_ans.splits)

lemma CloseIOCP_res:
  assumes "CloseIOCP s = (r, s')"
  shows "frame s s' \<and> clientContexts s' = clientContexts s \<and> pending s' = pending s \<and> ports s' = ports s"
  using assms
  by (cases rule: win_cases[of s "CallCloseHandle (ip_iocp s)"])
    (auto simp: CloseIOCP_def LogError_ip_def frame_def cpp_eval split: win_ans.splits)

lemma stop_end_wf:
  assumes wf: "ip_wf s" and run: "stop_end s = (Val (), s')"
  shows "ip_wf s' \<and> frame s s' \<and> clientContexts s' = clientContexts s \<and> pending s' = pending s"
proof -
  from run obtain s1 s2 where
    1: "CloseAcceptEvent (ip_acceptEvent s) s = (Val (), s1)" and 2: "CloseSocket (ip_listenSocket s1) s1 = (Val (), s2)"
    and 3: "CloseIOCP s2 = (Val (), s')"
    unfolding stop_end_def by (auto elim!: bnd_ValE sq_ValE simp: gets_run)
  note r = CloseAcceptEvent_res[OF 1] CloseSocket_res[OF 2] CloseIOCP_res[OF 3]
  have "wf5 (clientContexts s) (pending s) (packets s) ((ports s)(ip_listenSocket s := None)) (ip_listenSocket s)"
    by (rule wf5_port[OF wf]) (use wf5_ctx(3)[OF wf] in blast)
  with wf r show ?thesis by (auto simp: frame_def)
qed

text \<open>\<open>start\<close> leaves the clients, the operations and the packets alone.\<close>

definition no_clients :: "iocp \<Rightarrow> bool" where
  "no_clients s \<longleftrightarrow> clientContexts s = om_empty \<and> pending s = [] \<and> packets s = [] \<and> \<not> ip_stopped s"

lemma keeps_win_ans:
  "(\<And>x. keeps P (f x)) \<Longrightarrow> (\<And>x. keeps P (g x)) \<Longrightarrow> keeps P (case a of WinErr x \<Rightarrow> f x | WinOk x \<Rightarrow> g x)"
  by (cases a) simp_all

lemma no_clients_keeps:
  "keeps no_clients (win c)" "keeps no_clients (LogError_ip fn args)" "keeps no_clients (CloseSocket sk)"
  "keeps no_clients (CloseAcceptEvent ev)" "keeps no_clients (CreateIOCP n)" "keeps no_clients (CreateListenSocket p)"
  "keeps no_clients (CreateAcceptEvent sk)"
proof -
  show w: "keeps no_clients (win c)" for c
    by (auto simp: keeps_def win_def no_clients_def Let_def split: list.splits)
  show l: "keeps no_clients (LogError_ip fn args)" for fn args
    by (auto simp: LogError_ip_def no_clients_def intro: keeps_modify)
  show c: "keeps no_clients (CloseSocket sk)" for sk
    unfolding CloseSocket_def
    by (rule keeps_bnd[OF w]) (auto simp: no_clients_def l intro: keeps_modify split: win_ans.split)
  show e: "keeps no_clients (CloseAcceptEvent ev)" for ev
    unfolding CloseAcceptEvent_def by (rule keeps_bnd[OF w]) (auto simp: l split: win_ans.split)
  show "keeps no_clients (CreateIOCP n)"
    unfolding CreateIOCP_def by (rule keeps_bnd[OF w]) (auto split: win_ans.split)
  show "keeps no_clients (CreateListenSocket p)"
    unfolding CreateListenSocket_def by (intro keeps_bnd[OF w] keeps_win_ans keeps_throw keeps_sq[OF c] keeps_ret)
  show "keeps no_clients (CreateAcceptEvent sk)"
    unfolding CreateAcceptEvent_def by (intro keeps_bnd[OF w] keeps_win_ans keeps_throw keeps_sq[OF e] keeps_ret)
qed

lemma start_res:
  assumes "IOCP_start port conc n s = (Val (), s')" "no_clients s"
  shows "no_clients s' \<and> threadPool s' = n"
proof
  have "keeps no_clients (IOCP_start port conc n)"
    unfolding IOCP_start_def
    by (intro keeps_bnd keeps_if keeps_throw keeps_sq keeps_gets no_clients_keeps keeps_modify) (auto simp: no_clients_def)
  from keepsD[OF this assms(2)] assms(1) show "no_clients s'" by simp
  show "threadPool s' = n" using assms(1)
    by (auto simp: IOCP_start_def gets_run modify_run throw_run split: if_splits elim!: bnd_ValE sq_ValE)
qed

lemma no_clients_wf: "no_clients s \<Longrightarrow> ip_wf s"
  by (simp add: no_clients_def wf5_def om_empty_def om_get_def om_wf_def busy_def)

definition sys_inv :: "ip_sys \<Rightarrow> bool" where
  "sys_inv x \<longleftrightarrow> ip_wf (ip x) \<and> length (pool x) = threadPool (ip x) \<and> (stopper x \<noteq> MRun \<longrightarrow> ip_stopped (ip x))"

lemma sys_inv_step: "ip_step x y \<Longrightarrow> sys_inv x \<Longrightarrow> sys_inv y"
proof (induction rule: ip_step.induct)
  case (completes j s o1 d s' ps m)
  from complete_wf[OF _ this(1-4) disjI1[OF refl]] completes(5) show ?case by (auto simp: sys_inv_def frame_def)
next
  case (fails j s o1 d s' ps m code)
  from complete_wf[OF _ this(1-3,5) disjI2[OF refl]] fails(6) show ?case by (auto simp: sys_inv_def frame_def)
next
  case (wakes t ps s p pk s' m)
  then have "wf5 (clientContexts s) (pending s) (p # pk) (ports s) (ip_listenSocket s)" by (simp add: sys_inv_def)
  with process_wf[of "s\<lparr>packets := pk\<rparr>" p "Val ()" s'] wakes show ?case by (auto simp: sys_inv_def frame_def)
next
  case (accepts m s s' ps)
  from acceptThread_wf[OF _ this(3,2)] accepts(4) show ?case by (auto simp: sys_inv_def frame_def)
next
  case (stop_2 s s' ps)
  then have "post_packets (threadPool s) s = (Val (), s')" by (simp add: stopThreadPool_def bnd_eval gets_run)
  note r = post_packets_res[OF this]
  from r(8) obtain j where "packets s' = packets s @ replicate j (GqOk 0 NONE_ID)" by blast
  with r(2-7) wf5_post[of _ _ "packets s" _ _ j] stop_2(2) show ?case by (auto simp: sys_inv_def)
next
  case (stop_3 ps s s')
  from stop_end_wf[OF _ this(2)] stop_3(3) show ?case by (auto simp: sys_inv_def frame_def)
qed (auto simp: sys_inv_def stop_begin_def modify_run)

lemma ip_reach_inv: "ip_reach x \<Longrightarrow> sys_inv x"
proof -
  assume "ip_reach x"
  then obtain x0 where x0: "ip_init x0" "ip_step\<^sup>*\<^sup>* x0 x" by (auto simp: ip_reach_def)
  from x0(1) obtain lg ks es port conc n s where s: "IOCP_start port conc n (IOCP_new lg ks es) = (Val (), s)"
    "x0 = \<lparr>ip = s, pool = replicate n PTest, stopper = MRun\<rparr>" by (auto simp: ip_init_def)
  have "no_clients (IOCP_new lg ks es)" by (simp add: no_clients_def IOCP_new_def)
  from start_res[OF s(1) this] s(2) have "sys_inv x0" by (auto simp: sys_inv_def no_clients_wf)
  with x0(2) show "sys_inv x" by (induction rule: rtranclp_induct) (auto dest: sys_inv_step)
qed

section \<open>A client without an operation is never touched again\<close>

text \<open>The client \<open>i\<close> is registered with the context \<open>c\<close>, and no operation or packet of it is left.\<close>

definition stuck :: "u32 \<Rightarrow> client_context \<Rightarrow> iocp \<Rightarrow> bool" where
  "stuck i c s \<longleftrightarrow> om_get (clientContexts s) (ckey i) = Some c \<and> i \<notin> io_owner ` set (pending s)"

lemma stuck_keeps:
  "keeps (stuck i c) (win w)" "keeps (stuck i c) (LogError_ip fn args)" "keeps (stuck i c) (CloseSocket sk)"
  "keeps (stuck i c) (associateWithIOCP j sk)"
  "j \<noteq> i \<Longrightarrow> keeps (stuck i c) (modify (upd_ctx j f))" "j \<noteq> i \<Longrightarrow> keeps (stuck i c) (removeClientContext j)"
  "j \<noteq> i \<Longrightarrow> keeps (stuck i c) (start_io j sk op w)" "j \<noteq> i \<Longrightarrow> keeps (stuck i c) (started_or_remove fn what j r)"
proof -
  show w: "keeps (stuck i c) (win w)" for w
    by (auto simp: keeps_def win_def stuck_def Let_def split: list.splits)
  show l: "keeps (stuck i c) (LogError_ip fn args)" for fn args
    unfolding LogError_ip_def by (rule keeps_modify) (simp add: stuck_def)
  show cs: "keeps (stuck i c) (CloseSocket sk)" for sk
    unfolding CloseSocket_def by (intro keeps_bnd w keeps_win_ans l keeps_modify) (simp add: stuck_def)
  show "keeps (stuck i c) (associateWithIOCP j sk)"
    unfolding associateWithIOCP_def
    by (intro keeps_bnd keeps_gets w keeps_win_ans keeps_sq l keeps_ret keeps_modify) (simp add: stuck_def)
  show "keeps (stuck i c) (modify (upd_ctx j f))" if "j \<noteq> i"
    using that by (intro keeps_modify) (auto simp: stuck_def upd_ctx_def split: option.splits)
  show rm: "keeps (stuck i c) (removeClientContext j)" if "j \<noteq> i"
    unfolding removeClientContext_def
    by (rule keeps_bnd[OF keeps_gets]) (use that l cs in \<open>auto simp: stuck_def split: option.split intro!: keeps_sq keeps_modify\<close>)
  show "keeps (stuck i c) (start_io j sk op w)" if "j \<noteq> i"
    unfolding start_io_def Let_def
    by (intro keeps_bnd w keeps_win_ans keeps_sq keeps_whenb keeps_ret keeps_modify)
      (use that in \<open>auto simp: stuck_def split: option.splits\<close>)
  show "keeps (stuck i c) (started_or_remove fn what j r)" if "j \<noteq> i"
    unfolding started_or_remove_def using that rm l by (auto split: option.split intro!: keeps_whenb keeps_sq)
qed

lemma stuck_send_recv:
  "cc_id c1 \<noteq> i \<Longrightarrow> keeps (stuck i c) (WSASend c1 b)" "cc_id c1 \<noteq> i \<Longrightarrow> keeps (stuck i c) (WSARecv c1 b)"
  by (auto simp: WSASend_def WSARecv_def Let_def stuck_keeps split: option.split)

lemma process_stuck:
  assumes st: "stuck i c s" and p: "pkey p \<noteq> i" and ids: "\<And>k d. om_get (clientContexts s) (ckey k) = Some d \<Longrightarrow> cc_id d = k"
  shows "stuck i c (snd (process_ip p s))"
proof (cases p)
  case (GqFail code k)
  with st show ?thesis by (simp add: process_ip_def LogError_ip_def modify_run stuck_def)
next
  case (GqOk n key)
  with p have k: "key \<noteq> i" by simp
  have rm: "stuck i c (snd (removeClientContext key s))" by (rule keepsD[OF stuck_keeps(6)[OF k] st])
  show ?thesis
  proof (cases "om_get (clientContexts s) (ckey key)")
    case None
    with k GqOk rm st show ?thesis
      by (auto simp: process_simps LogError_ip_def cpp_eval stuck_def)
  next
    case (Some d)
    then have d: "cc_id d = key" by (rule ids)
    have go: "stuck i c (snd (sq (modify (upd_ctx (cc_id d) f)) (bnd m (started_or_remove fn what (cc_id d))) s))"
      if "keeps (stuck i c) m" for f m fn what
    proof (rule keepsD[where P = "stuck i c"])
      show "keeps (stuck i c) (sq (modify (upd_ctx (cc_id d) f)) (bnd m (started_or_remove fn what (cc_id d))))"
        using that k d by (intro keeps_sq keeps_bnd stuck_keeps) simp_all
    qed (rule st)
    show ?thesis using k GqOk Some d rm st
      by (auto simp: process_simps stuck_send_recv skip_run intro!: go)
  qed
qed

lemma accept_stuck:
  assumes "stuck i c s"
  shows "stuck i c (snd (acceptThread_body s))"
proof -
  have new: "keeps (stuck i c) (bnd (createClientContext sk) f)" if "\<And>j. j \<noteq> i \<Longrightarrow> keeps (stuck i c) (f j)" for sk f
  proof (rule keepsI)
    fix t assume t: "stuck i c t"
    show "stuck i c (snd (bnd (createClientContext sk) f t))"
    proof (cases "find_id (clientContexts t) (static_id t)")
      case (Some j)
      have "j \<noteq> i" using find_id_Some[OF Some] t by (auto simp: stuck_def om_has_def)
      then have "stuck i c (t\<lparr>static_id := j, clientContexts := om_put (ckey j) (ClientContext_new j sk) (clientContexts t)\<rparr>)"
        using t by (simp add: stuck_def)
      from keepsD[OF that[OF \<open>j \<noteq> i\<close>], OF this] show ?thesis by (simp add: createClientContext_def bnd_eval Some)
    qed (simp add: createClientContext_def bnd_eval t)
  qed
  have acc: "keeps (stuck i c) acceptConnection"
    unfolding acceptConnection_def Let_def
    by (intro keeps_bnd[OF keeps_gets] keeps_bnd[OF stuck_keeps(1)] keeps_win_ans stuck_keeps(2) new keeps_bnd[OF stuck_keeps(4)]
        keeps_if keeps_sq keeps_skip) (auto simp: cc_setters intro!: stuck_keeps keeps_bnd stuck_send_recv)
  have en: "keeps (stuck i c) (WSAEnumNetworkEvents l ev)" for l ev
    by (auto simp: keeps_def WSAEnumNetworkEvents_def stuck_def Let_def split: list.splits)
  have "keeps (stuck i c) acceptThread_body"
    unfolding acceptThread_body_def Let_def
    by (intro keeps_bnd keeps_gets stuck_keeps keeps_win_ans keeps_if keeps_skip)
      (auto simp: acc en split: enum_ans.split intro: stuck_keeps)
  from keepsD[OF this assms] show ?thesis .
qed

definition forgotten :: "u32 \<Rightarrow> client_context \<Rightarrow> ip_sys \<Rightarrow> bool" where
  "forgotten k c x \<longleftrightarrow> k \<noteq> NONE_ID \<and> stuck k c (ip x) \<and> k \<notin> pkey ` set (packets (ip x)) \<and> sys_inv x"

lemma complete_stuck:
  assumes "stuck k c s" "o1 \<in> set (pending s)" "set pe \<subseteq> set (pending s)"
  shows "stuck k c (complete_io o1 d (s\<lparr>pending := pe\<rparr>))" "io_owner o1 \<noteq> k"
proof -
  show o1: "io_owner o1 \<noteq> k" using assms by (auto simp: stuck_def)
  have s: "stuck k c (s\<lparr>pending := pe\<rparr>)" using assms by (auto simp: stuck_def)
  have "stuck k c (upd_ctx (io_owner o1) f (s\<lparr>pending := pe\<rparr>))" for f
    using keepsD[OF stuck_keeps(5)[OF o1] s, of f] by (simp add: modify_run)
  then show "stuck k c (complete_io o1 d (s\<lparr>pending := pe\<rparr>))" by (cases "io_what o1") simp_all
qed

lemma stuck_packets [simp]: "stuck k c (s\<lparr>packets := pa\<rparr>) = stuck k c s"
  by (simp add: stuck_def)

lemma complete_forgotten:
  assumes "forgotten k c \<lparr>ip = s, pool = ps, stopper = m\<rparr>" "j < length (pending s)" "o1 = pending s ! j"
    and s': "s' = complete_io o1 d (s\<lparr>pending := take j (pending s) @ drop (Suc j) (pending s)\<rparr>)"
    and p: "pkey p = io_key o1"
  shows "stuck k c s' \<and> k \<notin> pkey ` set (packets s @ [p])"
proof -
  have o1: "o1 \<in> set (pending s)" using assms by simp
  have st: "stuck k c s" and wf: "ip_wf s" and pa: "k \<notin> pkey ` set (packets s)"
    using assms(1) by (auto simp: forgotten_def sys_inv_def)
  have "set (take j (pending s) @ drop (Suc j) (pending s)) \<subseteq> set (pending s)"
    by (auto dest: in_set_takeD in_set_dropD)
  from complete_stuck[OF st o1 this] wf5_parts(3)[OF wf o1] p pa s' show ?thesis by auto
qed

lemma forgotten_step: "ip_step x y \<Longrightarrow> forgotten k c x \<Longrightarrow> forgotten k c y"
proof (frule sys_inv_step, simp add: forgotten_def, induction rule: ip_step.induct)
  case (completes j s o1 d s' ps m)
  from complete_forgotten[OF this(5,1,2,4), of "GqOk (of_nat (length d)) (io_key o1)"] completes(5,6) show ?case
    by (auto simp: forgotten_def)
next
  case (fails j s o1 d s' ps m code)
  from complete_forgotten[OF this(6,1,2,5), of "GqFail code (io_key o1)"] fails(6,7) show ?case
    by (auto simp: forgotten_def)
next
  case (wakes t ps s p pk s' m)
  let ?s = "s\<lparr>packets := pk\<rparr>"
  have wf: "ip_wf s" using wakes(5) by (simp add: forgotten_def sys_inv_def)
  have st: "stuck k c ?s" and p: "pkey p \<noteq> k" and pk: "k \<notin> pkey ` set pk" using wakes(3,5) by (auto simp: forgotten_def)
  have "stuck k c (snd (process_ip p ?s))"
    using wf5_ctx(1)[OF wf] by (intro process_stuck[OF st p]) fastforce
  moreover have "wf5 (clientContexts ?s) (pending ?s) (p # packets ?s) (ports ?s) (ip_listenSocket ?s)"
    using wf wakes(3) by simp
  ultimately show ?case using process_wf[of ?s p "Val ()" s'] wakes(4,5,6) pk by (auto simp: forgotten_def frame_def)
next
  case (accepts m s s' ps)
  have st: "stuck k c s" and wf: "ip_wf s" using accepts(4) by (auto simp: forgotten_def sys_inv_def)
  from accept_stuck[OF st] acceptThread_wf[OF wf accepts(3,2)] accepts(2,4,5) show ?case
    by (auto simp: forgotten_def frame_def)
next
  case (stop_2 s s' ps)
  then have "post_packets (threadPool s) s = (Val (), s')" by (simp add: stopThreadPool_def bnd_eval gets_run)
  note r = post_packets_res[OF this]
  from r(8) obtain j where "packets s' = packets s @ replicate j (GqOk 0 NONE_ID)" by blast
  with r(2,3) stop_2(2,3) show ?case by (auto simp: forgotten_def stuck_def)
next
  case (stop_3 ps s s')
  have wf: "ip_wf s" using stop_3(3) by (simp add: forgotten_def sys_inv_def)
  from stop_end_wf[OF wf stop_3(2)] stop_3(3,4) show ?case by (auto simp: forgotten_def stuck_def frame_def)
qed (auto simp: forgotten_def stop_begin_def modify_run stuck_def)

lemma forgotten_steps: "ip_step\<^sup>*\<^sup>* x y \<Longrightarrow> forgotten k c x \<Longrightarrow> forgotten k c y"
  by (induction rule: rtranclp_induct) (auto dest: forgotten_step)

section \<open>Properties\<close>

text \<open>
  C23. Every client is sent what it has sent: the bytes the kernel has taken from its buffer are at any time a
  prefix of the bytes it has put there, and when the server waits for more, all of them have gone out.
\<close>

theorem iocp_echoes:
  assumes "ip_reach x" "om_get (clientContexts (ip x)) k = Some c"
  shows "prefix (cc_out c) (cc_in c) \<and>
    ((\<exists>o1 off len. o1 \<in> set (pending (ip x)) \<and> io_owner o1 = cc_id c \<and> io_what o1 = IoRecv off len) \<longrightarrow> cc_out c = cc_in c)"
proof -
  have wf: "ip_wf (ip x)" using ip_reach_inv[OF assms(1)] by (simp add: sys_inv_def)
  have k: "k = ckey (cc_id c)" by (rule wf5_ctx[OF wf assms(2)])
  have "cc_out c = cc_in c" if "o1 \<in> set (pending (ip x))" "io_owner o1 = cc_id c" "io_what o1 = IoRecv off len" for o1 off len
    using wf5_parts(4)[OF wf that(1)] that assms(2) k by (auto simp: live_def)
  with wf5_ctx(2)[OF wf assms(2)] show ?thesis by (auto simp: ctx_wf_def)
qed

text \<open>
  C22. Memory safety. At any time a client has at most one operation in flight or completed and not yet looked
  at; the buffer of an operation in flight is the buffer of a live context, within its bounds; and
  neither the next packet nor the next pass of the accept thread leads to undefined behaviour or to an
  exception.
\<close>

theorem iocp_memory_safe:
  assumes "ip_reach x" "\<forall>a sk ks. k_win (ip x) = a # WinOk sk # ks \<longrightarrow> fresh_socket (ip x) sk"
  shows "distinct (busy (pending (ip x)) (packets (ip x))) \<and>
    (\<forall>o1 \<in> set (pending (ip x)). \<exists>c. om_get (clientContexts (ip x)) (ckey (io_owner o1)) = Some c \<and>
      (\<forall>off len. io_what o1 = IoRecv off len \<longrightarrow> off + len \<le> length (cc_buffer c))) \<and>
    (\<forall>p pk. packets (ip x) = p # pk \<longrightarrow> fst (process_ip p ((ip x)\<lparr>packets := pk\<rparr>)) \<in> {Val (), Pending}) \<and>
    fst (acceptThread_body (ip x)) \<in> {Val (), Pending}"
proof (intro conjI)
  have wf: "ip_wf (ip x)" using ip_reach_inv[OF assms(1)] by (simp add: sys_inv_def)
  show "distinct (busy (pending (ip x)) (packets (ip x)))" by (rule wf5_parts[OF wf])
  show "\<forall>o1 \<in> set (pending (ip x)). \<exists>c. om_get (clientContexts (ip x)) (ckey (io_owner o1)) = Some c \<and>
      (\<forall>off len. io_what o1 = IoRecv off len \<longrightarrow> off + len \<le> length (cc_buffer c))"
    using wf5_parts(4)[OF wf] wf5_ctx(2)[OF wf] by (fastforce simp: live_def ctx_wf_def)
  show "\<forall>p pk. packets (ip x) = p # pk \<longrightarrow> fst (process_ip p ((ip x)\<lparr>packets := pk\<rparr>)) \<in> {Val (), Pending}"
  proof (intro allI impI)
    fix p pk assume "packets (ip x) = p # pk"
    with wf process_wf[of "(ip x)\<lparr>packets := pk\<rparr>" p, OF _ prod.collapse[symmetric]]
    show "fst (process_ip p ((ip x)\<lparr>packets := pk\<rparr>)) \<in> {Val (), Pending}" by auto
  qed
  show "fst (acceptThread_body (ip x)) \<in> {Val (), Pending}"
    using acceptThread_wf[OF wf assms(2) prod.collapse[symmetric]] by auto
qed

text \<open>
  An operation that fails is reported by \<open>GetQueuedCompletionStatus\<close> returning \<open>FALSE\<close>, with the key of its
  client. \<open>process\<close> only logs the error: from then on, whatever happens, the client stays registered, with
  its socket open and no operation in flight.
\<close>

theorem failed_operation_forgotten:
  assumes "ip_reach x" "packets (ip x) = GqFail code k # pk" "k \<noteq> INVALID_CLIENT_CONTEXT_ID"
    "t < length (pool x)" "pool x ! t = PWait"
  shows "\<exists>c s'. process_ip (GqFail code k) ((ip x)\<lparr>packets := pk\<rparr>) = (Val (), s') \<and>
     ip_step x (x\<lparr>ip := s', pool := (pool x)[t := PTest]\<rparr>) \<and>
     (\<forall>y. ip_step\<^sup>*\<^sup>* (x\<lparr>ip := s', pool := (pool x)[t := PTest]\<rparr>) y \<longrightarrow>
        om_get (clientContexts (ip y)) (ckey k) = Some c \<and> k \<notin> io_owner ` set (pending (ip y)))"
proof -
  have inv: "sys_inv x" by (rule ip_reach_inv[OF assms(1)])
  then have wf: "wf5 (clientContexts (ip x)) (pending (ip x)) (GqFail code k # pk) (ports (ip x)) (ip_listenSocket (ip x))"
    using assms(2) by (simp add: sys_inv_def)
  from wf5_pop(3)[OF wf] assms(3) obtain c where c: "om_get (clientContexts (ip x)) (ckey k) = Some c" by (auto simp: live_def)
  obtain s' where run: "process_ip (GqFail code k) ((ip x)\<lparr>packets := pk\<rparr>) = (Val (), s')"
    and s': "clientContexts s' = clientContexts (ip x)" "pending s' = pending (ip x)" "packets s' = pk"
    by (simp add: process_ip_def LogError_ip_def modify_run)
  let ?y = "x\<lparr>ip := s', pool := (pool x)[t := PTest]\<rparr>"
  have step: "ip_step x ?y"
    using ip_step.wakes[OF assms(4,5,2) run, of "stopper x"] by (cases x) simp
  have "forgotten k c ?y"
    using c s' wf5_pop(2)[OF wf] assms(3) sys_inv_step[OF step inv]
    by (auto simp: forgotten_def stuck_def busy_def)
  then have "forgotten k c y" if "ip_step\<^sup>*\<^sup>* ?y y" for y
    by (rule forgotten_steps[OF that])
  with run step show ?thesis unfolding forgotten_def stuck_def by blast
qed

text \<open>
  The search for an identifier ends exactly when one is free, and finds a free one; otherwise it goes on
  for ever, with the lock held.
\<close>

theorem find_id_ends_iff_free:
  "case find_id m i of
     Some j \<Rightarrow> \<not> om_has m (ckey j) \<and> j \<noteq> INVALID_CLIENT_CONTEXT_ID
   | None \<Rightarrow> (\<forall>j. om_has m (ckey j) \<or> j = INVALID_CLIENT_CONTEXT_ID)"
proof (cases "find_id m i")
  case None
  then show ?thesis using find_id_ends[of m _ i] by force
next
  case (Some j)
  then show ?thesis using find_id_Some by simp
qed

definition released :: "ip_sys \<Rightarrow> bool" where
  "released x \<longleftrightarrow> ip_stopped (ip x) \<and> stopper x \<in> {MPosted, MEnd} \<and>
     length (filter (\<lambda>p. p = PWait) (pool x)) \<le> length (packets (ip x))"

lemma released_step: "ip_step x y \<Longrightarrow> sys_inv x \<Longrightarrow> released x \<Longrightarrow> released y"
proof (induction rule: ip_step.induct)
  case (completes j s o1 d s' ps m)
  from complete_wf(2)[OF _ this(1-4) disjI1[OF refl]] completes(5,6) show ?case by (auto simp: sys_inv_def released_def frame_def)
next
  case (fails j s o1 d s' ps m code)
  from complete_wf(2)[OF _ this(1-3,5) disjI2[OF refl]] fails(6,7) show ?case by (auto simp: sys_inv_def released_def frame_def)
next
  case (test_exit t ps s m)
  then show ?case using filter_update_length[of t ps "\<lambda>p. p = PWait" PDone] by (auto simp: released_def)
next
  case (wakes t ps s p pk s' m)
  then have "wf5 (clientContexts s) (pending s) (p # pk) (ports s) (ip_listenSocket s)" by (simp add: sys_inv_def)
  with process_wf[of "s\<lparr>packets := pk\<rparr>" p "Val ()" s'] wakes show ?case
    using filter_update_length[of t ps "\<lambda>p. p = PWait" PTest] by (auto simp: released_def frame_def)
next
  case (stop_3 ps s s')
  from stop_end_wf[OF _ this(2)] stop_3(3,4) show ?case by (auto simp: sys_inv_def released_def frame_def)
qed (auto simp: released_def)

lemma released_steps: "ip_step\<^sup>*\<^sup>* x y \<Longrightarrow> sys_inv x \<Longrightarrow> released x \<Longrightarrow> sys_inv y \<and> released y"
  by (induction rule: rtranclp_induct) (auto dest: released_step sys_inv_step)

text \<open>
  Stopping. If the packets of \<open>stopThreadPool\<close> are all accepted by the port, every thread of the pool that
  waits has a packet to be woken by, from then on: nobody waits for ever, and the join returns.
\<close>

theorem stop_releases_pool:
  assumes "ip_reach x" "stopper x = MStopping" "stopThreadPool (ip x) = (Val (), s)"
    "set (take (length (pool x)) (k_win (ip x))) \<subseteq> range WinOk"
    "ip_step\<^sup>*\<^sup>* \<lparr>ip = s, pool = pool x, stopper = MPosted\<rparr> y"
  shows "length (filter (\<lambda>p. p = PWait) (pool y)) \<le> length (packets (ip y))"
proof -
  have inv: "sys_inv x" by (rule ip_reach_inv[OF assms(1)])
  let ?x = "\<lparr>ip = s, pool = pool x, stopper = MPosted\<rparr>"
  have step: "ip_step x ?x" using ip_step.stop_2[OF assms(3), of "pool x"] assms(2) by (cases x) simp
  have "post_packets (threadPool (ip x)) (ip x) = (Val (), s)"
    using assms(3) by (simp add: stopThreadPool_def bnd_eval gets_run)
  note r = post_packets_res[OF this]
  have "length (pool x) \<le> length (packets s)" using r(8) assms(4) inv by (auto simp: sys_inv_def)
  then have "length (filter (\<lambda>p. p = PWait) (pool x)) \<le> length (packets s)" by (rule order_trans[OF length_filter_le])
  then have "released ?x" using r(6) inv assms(2) by (simp add: released_def sys_inv_def)
  with released_steps[OF assms(5) sys_inv_step[OF step inv]] show ?thesis by (simp add: released_def)
qed

section \<open>A run\<close>

text \<open>A server with one thread of the pool, one client, whose first receive fails.\<close>

definition ex_start :: iocp where
  "ex_start = IOCP_new \<lparr>logLevel = LEVEL_ALWAYS, log_fs = [], log_cout = []\<rparr>
     [WinOk 1, WinOk 2, WinOk 0, WinOk 0, WinOk 3, WinOk 0, WinOk 0, WinOk 10, WinOk 1, WinErr 997, WinOk 1] [EnumOk 8 0]"

definition ex_started :: iocp where "ex_started = snd (IOCP_start 10001 4 1 ex_start)"
definition ex_accepted :: iocp where "ex_accepted = snd (acceptThread_body ex_started)"

definition ex_client :: client_context where
  "ex_client = (ClientContext_new 0 10)\<lparr>lastOption := OPTION_RECV, wsaBuf := Some (0, BUFFER_SIZE_ip)\<rparr>"

lemma ex_started_run:
  "IOCP_start 10001 4 1 ex_start = (Val (), ex_started)" "clientContexts ex_started = om_empty"
  "k_win ex_started = [WinOk 0, WinOk 10, WinOk 1, WinErr 997, WinOk 1]" "k_enum ex_started = [EnumOk 8 0]"
  "ip_listenSocket ex_started = 2" "static_id ex_started = 0" "pending ex_started = []" "packets ex_started = []"
  by (simp_all add: ex_started_def ex_start_def IOCP_new_def IOCP_start_def CreateIOCP_def CreateListenSocket_def
      CreateAcceptEvent_def win_def cpp_eval)

lemma find_id_first: "find_id om_empty 0 = Some 0"
  by (subst find_id.simps) (simp add: INVALID_CLIENT_CONTEXT_ID_def)

lemma ex_accepted_run:
  "acceptThread_body ex_started = (Val (), ex_accepted)"
  "om_get (clientContexts ex_accepted) (ckey 0) = Some ex_client"
  "pending ex_accepted = [\<lparr>io_key = 0, io_owner = 0, io_what = IoRecv 0 BUFFER_SIZE_ip\<rparr>]"
  "packets ex_accepted = []" "k_win ex_accepted = [WinOk 1]"
  by (simp_all add: ex_accepted_def ex_started_run acceptThread_body_def WSAEnumNetworkEvents_def acceptConnection_def
      createClientContext_def find_id_first associateWithIOCP_def WSARecv_def start_io_def started_or_remove_def
      upd_ctx_def win_def cpp_eval Let_def cc_setters ex_client_def WSA_IO_PENDING_def WSA_WAIT_TIMEOUT_def FD_ACCEPT_def
      INVALID_CLIENT_CONTEXT_ID_def cong: if_cong)

abbreviation ex_sys :: "iocp \<Rightarrow> tpc \<Rightarrow> mpc \<Rightarrow> ip_sys" where
  "ex_sys s t m \<equiv> \<lparr>ip = s, pool = [t], stopper = m\<rparr>"

lemma ex_reach_started: "ip_reach (ex_sys ex_started PTest MRun)"
proof -
  have "ip_init (ex_sys ex_started PTest MRun)"
    unfolding ip_init_def using ex_started_run(1)[unfolded ex_start_def] by (force simp: eval_nat_numeral)
  then show ?thesis unfolding ip_reach_def by blast
qed

lemma ip_reach_step: "ip_reach x \<Longrightarrow> ip_step x y \<Longrightarrow> ip_reach y"
  unfolding ip_reach_def by (meson rtranclp.rtrancl_into_rtrancl)

lemma ex_fresh: "\<forall>a sk ks. k_win ex_started = a # WinOk sk # ks \<longrightarrow> fresh_socket ex_started sk"
  by (simp add: ex_started_run fresh_socket_def om_empty_def)

lemma ex_reach_waiting: "ip_reach (ex_sys ex_started PWait MRun)"
  using ip_step.test_go[of 0 "[PTest]" ex_started MRun]
  by (intro ip_reach_step[OF ex_reach_started])
    (simp add: ex_started_def ex_start_def IOCP_new_def IOCP_start_def CreateIOCP_def CreateListenSocket_def
      CreateAcceptEvent_def win_def cpp_eval)

lemma ex_reach_accepted: "ip_reach (ex_sys ex_accepted PWait MRun)"
  by (rule ip_reach_step[OF ex_reach_waiting]) (rule ip_step.accepts[OF _ ex_accepted_run(1) ex_fresh], simp)

lemma iocp_echoes_witness:
  "\<exists>x k c. ip_reach x \<and> om_get (clientContexts (ip x)) k = Some c \<and> prefix (cc_out c) (cc_in c)"
  using iocp_echoes[OF ex_reach_accepted, of "ckey 0" ex_client] ex_accepted_run(2) ex_reach_accepted by force

lemma iocp_memory_safe_witness:
  "\<exists>x. ip_reach x \<and> (\<forall>a sk ks. k_win (ip x) = a # WinOk sk # ks \<longrightarrow> fresh_socket (ip x) sk) \<and>
     fst (acceptThread_body (ip x)) \<in> {Val (), Pending}"
  using iocp_memory_safe[OF ex_reach_started] ex_fresh ex_reach_started by (metis ip_sys.select_convs(1))

definition ex_failed :: iocp where
  "ex_failed = (complete_io \<lparr>io_key = 0, io_owner = 0, io_what = IoRecv 0 BUFFER_SIZE_ip\<rparr> [] (ex_accepted\<lparr>pending := []\<rparr>))
     \<lparr>packets := [GqFail 64 0]\<rparr>"

lemma ex_reach_failed: "ip_reach (ex_sys ex_failed PWait MRun)"
  by (rule ip_reach_step[OF ex_reach_accepted], unfold ex_failed_def)
    (use ip_step.fails[of 0 ex_accepted _ "[]" _ "[PWait]" MRun 64] in \<open>simp add: ex_accepted_run\<close>)

lemma failed_operation_forgotten_witness:
  "\<exists>x code k pk t. ip_reach x \<and> packets (ip x) = GqFail code k # pk \<and> k \<noteq> INVALID_CLIENT_CONTEXT_ID \<and>
     t < length (pool x) \<and> pool x ! t = PWait \<and>
     (\<exists>c s'. process_ip (GqFail code k) ((ip x)\<lparr>packets := pk\<rparr>) = (Val (), s') \<and>
        om_get (clientContexts s') (ckey k) = Some c)"
proof -
  let ?x = "ex_sys ex_failed PWait MRun"
  have h: "packets (ip ?x) = GqFail 64 0 # []" "(0 :: u32) \<noteq> NONE_ID" "0 < length (pool ?x)" "pool ?x ! 0 = PWait"
    by (simp_all add: ex_failed_def INVALID_CLIENT_CONTEXT_ID_def)
  from failed_operation_forgotten[OF ex_reach_failed h] obtain c s' where
    "process_ip (GqFail 64 0) ((ip ?x)\<lparr>packets := []\<rparr>) = (Val (), s')" "om_get (clientContexts s') (ckey 0) = Some c"
    by fastforce
  with h ex_reach_failed show ?thesis by blast
qed

definition ex_stopping :: iocp where "ex_stopping = ex_accepted\<lparr>ip_stopped := True\<rparr>"

lemma stop_releases_pool_witness:
  "\<exists>x s. ip_reach x \<and> stopper x = MStopping \<and> stopThreadPool (ip x) = (Val (), s) \<and>
     set (take (length (pool x)) (k_win (ip x))) \<subseteq> range WinOk \<and>
     length (filter (\<lambda>p. p = PWait) (pool x)) = 1 \<and> 1 \<le> length (packets s)"
proof -
  let ?x = "ex_sys ex_stopping PWait MStopping"
  have r: "ip_reach ?x"
    by (rule ip_reach_step[OF ex_reach_accepted], rule ip_step.stop_1) (simp add: stop_begin_def modify_run ex_stopping_def)
  have "threadPool ex_stopping = 1" using ip_reach_inv[OF r] by (simp add: sys_inv_def)
  then obtain s where s: "stopThreadPool (ip ?x) = (Val (), s)"
    by (simp add: stopThreadPool_def win_def cpp_eval ex_stopping_def ex_accepted_run Let_def)
  have k: "set (take (length (pool ?x)) (k_win (ip ?x))) \<subseteq> range WinOk"
    by (simp add: ex_stopping_def ex_accepted_run)
  from stop_releases_pool[OF r _ s k rtranclp.rtrancl_refl] have "1 \<le> length (packets s)" by simp
  with r s k show ?thesis by (intro exI[of _ ?x] exI[of _ s]) simp
qed

end
