(* ===== verification/Grpc_Sync.thy ===== *)
theory Grpc_Sync
  imports Grpc_Calls
begin

text \<open>
  The synchronous side of the gRPC example: the services of \<open>learn_grpc/hello_world/src/server/sync\<close>, where gRPC
  calls one function per call and the function reads and writes the stream itself, and the clients of
  \<open>learn_grpc/hello_world/src/client/sync\<close>. Both servers implement the same \<open>.proto\<close> files; the last section
  compares their answers.
\<close>

section \<open>The synchronous server\<close>

text \<open>
  The state of the process: the clock and the log as in the asynchronous server, what \<open>BuildAndStart\<close> will return,
  whether \<open>SyncServer\<close> holds a server and whether that has been shut down; and, for the call in progress, the
  messages the client is still to send and those handed to \<open>Write\<close>. The result of \<open>Write\<close> is not looked at.
\<close>

record ssrv =
  y_clock :: "nat \<Rightarrow> string"
  y_ticks :: nat
  y_log :: "logline list"
  y_build :: bool
  y_server :: bool
  y_down :: bool
  y_in :: "request list"
  y_written :: "message list"

definition LOG_y :: "loglevel \<Rightarrow> string \<Rightarrow> string list \<Rightarrow> (ssrv, unit) cpp" where
  "LOG_y l fmt args = modify (\<lambda>s. s\<lparr>y_log := y_log s @ [(l, fmt, args)]\<rparr>)"

definition time_y :: "(ssrv, string) cpp" where
  "time_y = (\<lambda>s. (Val (y_clock s (y_ticks s)), s\<lparr>y_ticks := y_ticks s + 1\<rparr>))"

definition Write_y :: "message \<Rightarrow> (ssrv, unit) cpp" where
  "Write_y m = modify (\<lambda>s. s\<lparr>y_written := y_written s @ [m]\<rparr>)"

definition fmt_names :: string where
  "fmt_names = ''firstname: {}, lastname: {}''"

definition fmt_words :: string where
  "fmt_words = ''request: {} - '' @ quoted"

definition log_request :: "request \<Rightarrow> (ssrv, unit) cpp" where
  "log_request rq = LOG_y LogInfo fmt_words [fst rq, snd rq]"

definition sayHello_sync :: "request \<Rightarrow> (ssrv, status \<times> message) cpp" where
  "sayHello_sync rq =
     sq (LOG_y LogInfo fmt_names [fst rq, snd rq]) (ret (StatusOK, Greeting (''Hello, '' @ fst rq @ '' '' @ snd rq)))"

definition sayHelloAgain_sync :: "request \<Rightarrow> (ssrv, status \<times> message) cpp" where
  "sayHelloAgain_sync rq =
     sq (LOG_y LogInfo fmt_names [fst rq, snd rq]) (ret (StatusOK, Greeting (''Hello again, '' @ fst rq @ '' '' @ snd rq)))"

definition sayGoodbye_sync :: "request \<Rightarrow> (ssrv, status \<times> message) cpp" where
  "sayGoodbye_sync rq =
     sq (LOG_y LogInfo fmt_names [fst rq, snd rq]) (ret (StatusOK, Greeting (''Goodbye, '' @ fst rq @ '' '' @ snd rq)))"

definition sayGoodbyeAgain_sync :: "request \<Rightarrow> (ssrv, status \<times> message) cpp" where
  "sayGoodbyeAgain_sync rq =
     sq (LOG_y LogInfo fmt_names [fst rq, snd rq]) (ret (StatusOK, Greeting (''Goodbye again, '' @ fst rq @ '' '' @ snd rq)))"

definition greet_sync :: "request \<Rightarrow> (ssrv, status \<times> message) cpp" where
  "greet_sync rq = sq (log_request rq) (bnd time_y (\<lambda>ts. ret (StatusOK, Words ts ''Me too!'')))"

definition listen_sync :: "request \<Rightarrow> (ssrv, status) cpp" where
  "listen_sync rq =
     sq (log_request rq)
    (bnd time_y (\<lambda>t1. sq (Write_y (Words t1 ''aaa''))
    (bnd time_y (\<lambda>t2. sq (Write_y (Words t2 ''bbb''))
    (bnd time_y (\<lambda>t3. sq (Write_y (Words t3 ''ccc'')) (ret StatusOK)))))))"

text \<open>The loops over \<open>Read\<close>, which fails when the client has no more to send.\<close>

fun speak_loop :: "request list \<Rightarrow> (ssrv, unit) cpp" where
  "speak_loop [] = modify (\<lambda>s. s\<lparr>y_in := []\<rparr>)"
| "speak_loop (rq # rqs) = sq (log_request rq) (speak_loop rqs)"

definition speak_sync :: "(ssrv, status \<times> message) cpp" where
  "speak_sync = bnd (gets y_in) (\<lambda>rqs. sq (speak_loop rqs) (bnd time_y (\<lambda>ts. ret (StatusOK, Words ts ''OK.''))))"

fun talk_loop :: "request list \<Rightarrow> (ssrv, unit) cpp" where
  "talk_loop [] = modify (\<lambda>s. s\<lparr>y_in := []\<rparr>)"
| "talk_loop (rq # rqs) =
     sq (log_request rq) (bnd time_y (\<lambda>ts. sq (Write_y (Words ts (snd rq))) (talk_loop rqs)))"

definition talk_sync :: "(ssrv, status) cpp" where
  "talk_sync = bnd (gets y_in) (\<lambda>rqs. sq (talk_loop rqs) (ret StatusOK))"

text \<open>
  \<open>SyncServer::start\<close> and \<open>stop\<close>. \<open>BuildAndStart\<close> returns no server when the port cannot be used, and \<open>start\<close> does not
  look; \<open>Wait\<close> returns once the server has been shut down.
\<close>

definition SyncServer_start :: "nat \<Rightarrow> (ssrv, unit) cpp" where
  "SyncServer_start port =
     sq (LOG_y LogInfo ''SyncServer listening on {}'' [''0.0.0.0:'' @ to_string_nat port])
    (bnd (gets y_build) (\<lambda>ok. sq (modify (\<lambda>s. s\<lparr>y_server := ok\<rparr>))
       (if \<not> ok then undef ''grpcServer is null''
        else bnd (gets y_down) (\<lambda>down. if down then skip else (\<lambda>s. (Pending, s))))))"

definition SyncServer_stop :: "(ssrv, unit) cpp" where
  "SyncServer_stop =
     bnd (gets y_server) (\<lambda>sv. sq (whenb sv (modify (\<lambda>s. s\<lparr>y_down := True\<rparr>))) (LOG_y LogInfo ''SyncServer stopped'' []))"

section \<open>The synchronous clients\<close>

text \<open>
  For a client a method is what comes back for the messages it has sent: the messages received, and the status,
  with the number and the text gRPC gives for a failure. This is gRPC and the server together, a parameter of the
  clients.
\<close>

datatype call_status = RpcOk | RpcError string string

type_synonym service = "rpc \<Rightarrow> request list \<Rightarrow> message list \<times> call_status"

record scli =
  v_clock :: "nat \<Rightarrow> string"
  v_ticks :: nat
  v_log :: "logline list"

definition LOG_v :: "loglevel \<Rightarrow> string \<Rightarrow> string list \<Rightarrow> (scli, unit) cpp" where
  "LOG_v l fmt args = modify (\<lambda>s. s\<lparr>v_log := v_log s @ [(l, fmt, args)]\<rparr>)"

definition time_v :: "(scli, string) cpp" where
  "time_v = (\<lambda>s. (Val (v_clock s (v_ticks s)), s\<lparr>v_ticks := v_ticks s + 1\<rparr>))"

definition log_failure :: "call_status \<Rightarrow> (scli, unit) cpp" where
  "log_failure st = (case st of
       RpcOk \<Rightarrow> skip
     | RpcError code m \<Rightarrow> LOG_v LogError (''rpc failed, error_code({}), error_message: '' @ quoted) [code, m])"

text \<open>The arguments of the log line for a response; the fields of a response that has not come are empty.\<close>

fun fields :: "message \<Rightarrow> string list" where
  "fields (Greeting g) = [g]"
| "fields (Words ts c) = [ts, c]"

definition log_greeting :: "message \<Rightarrow> (scli, unit) cpp" where
  "log_greeting m = LOG_v LogInfo (''response: '' @ quoted) (fields m)"

definition log_words :: "message \<Rightarrow> (scli, unit) cpp" where
  "log_words m = LOG_v LogInfo (''response: {} - '' @ quoted) (fields m)"

definition response :: "message \<Rightarrow> message list \<Rightarrow> message" where
  "response none ms = (case ms of [] \<Rightarrow> none | m # _ \<Rightarrow> m)"

definition greeting_call :: "service \<Rightarrow> rpc \<Rightarrow> (scli, unit) cpp" where
  "greeting_call svc m = (case svc m [(''Foo'', ''Bar'')] of (ms, st) \<Rightarrow>
     if st = RpcOk then log_greeting (response (Greeting []) ms) else log_failure st)"

definition HelloClient_sayHello :: "service \<Rightarrow> (scli, unit) cpp" where
  "HelloClient_sayHello svc = greeting_call svc SayHello"

definition HelloClient_sayHelloAgain :: "service \<Rightarrow> (scli, unit) cpp" where
  "HelloClient_sayHelloAgain svc = greeting_call svc SayHelloAgain"

definition GoodbyeClient_sayGoodbye :: "service \<Rightarrow> (scli, unit) cpp" where
  "GoodbyeClient_sayGoodbye svc = greeting_call svc SayGoodbye"

definition GoodbyeClient_sayGoodbyeAgain :: "service \<Rightarrow> (scli, unit) cpp" where
  "GoodbyeClient_sayGoodbyeAgain svc = greeting_call svc SayGoodbyeAgain"

definition ChatClient_greet :: "service \<Rightarrow> (scli, unit) cpp" where
  "ChatClient_greet svc =
     bnd time_v (\<lambda>ts. case svc Greet [(ts, ''Nice to meet you!'')] of (ms, st) \<Rightarrow>
       if st = RpcOk then log_words (response (Words [] []) ms) else log_failure st)"

primrec log_responses :: "message list \<Rightarrow> (scli, unit) cpp" where
  "log_responses [] = skip"
| "log_responses (m # ms) = sq (log_words m) (log_responses ms)"

definition ChatClient_listen :: "service \<Rightarrow> (scli, unit) cpp" where
  "ChatClient_listen svc =
     bnd time_v (\<lambda>ts. case svc Listen [(ts, ''Speaking!'')] of (ms, st) \<Rightarrow> sq (log_responses ms) (log_failure st))"

definition ChatClient_speak :: "service \<Rightarrow> (scli, unit) cpp" where
  "ChatClient_speak svc =
     bnd time_v (\<lambda>t1. bnd time_v (\<lambda>t2. bnd time_v (\<lambda>t3.
     case svc Speak [(t1, ''111''), (t2, ''222''), (t3, ''333'')] of (ms, st) \<Rightarrow>
       if st = RpcOk then log_words (response (Words [] []) ms) else log_failure st)))"

text \<open>
  In \<open>talk\<close> a second thread writes while the first reads. Only the writer reads the clock and only the reader logs,
  so what each does is the same in every interleaving; the reader's loop ends with the call, after the last message
  of the server.
\<close>

primrec talk_writes :: "nat \<Rightarrow> (scli, request list) cpp" where
  "talk_writes 0 = ret []"
| "talk_writes (Suc i) = bnd (talk_writes i) (\<lambda>rqs. bnd time_v (\<lambda>ts. ret (rqs @ [(ts, to_string_nat i)])))"

definition ChatClient_talk :: "service \<Rightarrow> (scli, unit) cpp" where
  "ChatClient_talk svc =
     bnd (talk_writes 10) (\<lambda>rqs. case svc Talk rqs of (ms, st) \<Rightarrow> sq (log_responses ms) (log_failure st))"

section \<open>The two servers as services\<close>

text \<open>A call of the synchronous server in which gRPC delivers everything.\<close>

definition run_unary :: "(ssrv, status \<times> message) cpp \<Rightarrow> ssrv \<Rightarrow> message list \<times> status list" where
  "run_unary f y = (case f y of (Val (st, m), y') \<Rightarrow> (y_written y' @ [m], [st]) | (_, y') \<Rightarrow> (y_written y', []))"

definition run_stream :: "(ssrv, status) cpp \<Rightarrow> ssrv \<Rightarrow> message list \<times> status list" where
  "run_stream f y = (case f y of (Val st, y') \<Rightarrow> (y_written y', [st]) | (_, y') \<Rightarrow> (y_written y', []))"

fun sync_replies :: "ssrv \<Rightarrow> rpc \<Rightarrow> request list \<Rightarrow> message list \<times> status list" where
  "sync_replies y SayHello rqs = run_unary (sayHello_sync (hd rqs)) (y\<lparr>y_written := []\<rparr>)"
| "sync_replies y SayHelloAgain rqs = run_unary (sayHelloAgain_sync (hd rqs)) (y\<lparr>y_written := []\<rparr>)"
| "sync_replies y SayGoodbye rqs = run_unary (sayGoodbye_sync (hd rqs)) (y\<lparr>y_written := []\<rparr>)"
| "sync_replies y SayGoodbyeAgain rqs = run_unary (sayGoodbyeAgain_sync (hd rqs)) (y\<lparr>y_written := []\<rparr>)"
| "sync_replies y Greet rqs = run_unary (greet_sync (hd rqs)) (y\<lparr>y_written := []\<rparr>)"
| "sync_replies y Listen rqs = run_stream (listen_sync (hd rqs)) (y\<lparr>y_written := []\<rparr>)"
| "sync_replies y Speak rqs = run_unary speak_sync (y\<lparr>y_written := [], y_in := rqs\<rparr>)"
| "sync_replies y Talk rqs = run_stream talk_sync (y\<lparr>y_written := [], y_in := rqs\<rparr>)"

text \<open>
  The same call of the asynchronous server, for the handler with key \<open>k\<close>: the completions gRPC reports when
  everything succeeds, and what the operations started for the key tell the client.
\<close>

fun call_events :: "event_key_t \<Rightarrow> rpc \<Rightarrow> request list \<Rightarrow> (bool \<times> Event \<times> request) list" where
  "call_events k Talk rqs = talk_events k rqs True"
| "call_events k Speak rqs = (True, tok k S_RECEIVE, ([], [])) # map (\<lambda>m. (True, tok k S_READ, m)) rqs @
     [(False, tok k S_READ, ([], [])), (True, tok k S_FINISH, ([], []))]"
| "call_events k Listen rqs = (True, tok k S_RECEIVE, hd rqs) # replicate 3 (True, tok k S_WRITE, ([], [])) @
     [(True, tok k S_FINISH, ([], []))]"
| "call_events k m rqs = [(True, tok k S_RECEIVE, hd rqs), (True, tok k S_FINISH, ([], []))]"

fun told :: "grpc_call list \<Rightarrow> message list \<times> status list" where
  "told [] = ([], [])"
| "told (Write m # ops) = (case told ops of (ms, ss) \<Rightarrow> (m # ms, ss))"
| "told (Finish st (Some m) # ops) = (case told ops of (ms, ss) \<Rightarrow> (m # ms, st # ss))"
| "told (Finish st None # ops) = (case told ops of (ms, ss) \<Rightarrow> (ms, st # ss))"
| "told (_ # ops) = told ops"

definition async_replies :: "event_key_t \<Rightarrow> gsrv \<Rightarrow> rpc \<Rightarrow> request list \<Rightarrow> message list \<times> status list" where
  "async_replies k s m rqs =
     (let s' = snd (completions (call_events k m rqs) s) in told (drop (length (ops_of k s)) (ops_of k s')))"

text \<open>What the client sees of the replies: a call ends with the status that was sent.\<close>

definition service_of :: "(rpc \<Rightarrow> request list \<Rightarrow> message list \<times> status list) \<Rightarrow> service" where
  "service_of replies m rqs = (case replies m rqs of (ms, ss) \<Rightarrow>
     (ms, if ss = [StatusOK] then RpcOk else RpcError ''1'' []))"

section \<open>The servers agree\<close>

lemma sync_speak: "speak_loop rqs y = (Val (), y\<lparr>y_in := [], y_log := y_log y @ map (\<lambda>rq. (LogInfo, fmt_words, [fst rq, snd rq])) rqs\<rparr>)"
  by (induction rqs arbitrary: y) (simp_all add: log_request_def LOG_y_def cpp_eval)

primrec echoes :: "(nat \<Rightarrow> string) \<Rightarrow> nat \<Rightarrow> request list \<Rightarrow> message list" where
  "echoes clk t [] = []"
| "echoes clk t (rq # rqs) = Words (clk t) (snd rq) # echoes clk (t + 1) rqs"

lemma sync_talk: "\<exists>y'. talk_loop rqs y = (Val (), y') \<and> y_written y' = y_written y @ echoes (y_clock y) (y_ticks y) rqs"
proof (induction rqs arbitrary: y)
  case (Cons rq rqs)
  from Cons.IH[of "y\<lparr>y_log := y_log y @ [(LogInfo, fmt_words, [fst rq, snd rq])], y_ticks := Suc (y_ticks y),
      y_written := y_written y @ [Words (y_clock y (y_ticks y)) (snd rq)]\<rparr>"]
  show ?case by (simp add: log_request_def LOG_y_def time_y_def Write_y_def cpp_eval)
qed (simp add: modify_run)

lemmas sync_defs = sayHello_sync_def sayHelloAgain_sync_def sayGoodbye_sync_def sayGoodbyeAgain_sync_def greet_sync_def
  listen_sync_def log_request_def LOG_y_def time_y_def Write_y_def run_unary_def run_stream_def

text \<open>What a whole call of the synchronous server gives the client.\<close>

fun replies :: "(nat \<Rightarrow> string) \<Rightarrow> nat \<Rightarrow> rpc \<Rightarrow> request list \<Rightarrow> message list" where
  "replies clk t SayHello rqs = [Greeting (''Hello, '' @ fst (hd rqs) @ '' '' @ snd (hd rqs))]"
| "replies clk t SayHelloAgain rqs = [Greeting (''Hello again, '' @ fst (hd rqs) @ '' '' @ snd (hd rqs))]"
| "replies clk t SayGoodbye rqs = [Greeting (''Goodbye, '' @ fst (hd rqs) @ '' '' @ snd (hd rqs))]"
| "replies clk t SayGoodbyeAgain rqs = [Greeting (''Goodbye again, '' @ fst (hd rqs) @ '' '' @ snd (hd rqs))]"
| "replies clk t Greet rqs = [Words (clk t) ''Me too!'']"
| "replies clk t Listen rqs = [Words (clk t) ''aaa'', Words (clk (t + 1)) ''bbb'', Words (clk (t + 2)) ''ccc'']"
| "replies clk t Speak rqs = [Words (clk t) ''OK.'']"
| "replies clk t Talk rqs = echoes clk t rqs"

lemma sync_replies_run: "sync_replies y m rqs = (replies (y_clock y) (y_ticks y) m rqs, [StatusOK])"
proof (cases m)
  case Talk
  obtain y' where "talk_loop rqs (y\<lparr>y_written := [], y_in := rqs\<rparr>) = (Val (), y')" "y_written y' = echoes (y_clock y) (y_ticks y) rqs"
    using sync_talk[of rqs "y\<lparr>y_written := [], y_in := rqs\<rparr>"] by auto
  then show ?thesis by (simp add: Talk talk_sync_def run_stream_def cpp_eval)
qed (simp_all add: sync_defs speak_sync_def sync_speak cpp_eval)

text \<open>
  \<open>runs k s xs h cs n s'\<close>: the completions \<open>xs\<close> lead from \<open>s\<close> to \<open>s'\<close>, where \<open>h\<close> is the handler of \<open>k\<close>, after the
  operations \<open>cs\<close> have been started for it and the clock has been read \<open>n\<close> times.
\<close>

definition runs :: "event_key_t \<Rightarrow> gsrv \<Rightarrow> (bool \<times> Event \<times> request) list \<Rightarrow> event_handler option \<Rightarrow> grpc_call list \<Rightarrow> nat \<Rightarrow> gsrv \<Rightarrow> bool" where
  "runs k s xs h cs n s' \<longleftrightarrow> completions xs s = (Val (), s') \<and> hmap s' k = h \<and> ops_of k s' = ops_of k s @ cs \<and>
     clock s' = clock s \<and> ticks s' = ticks s + n"

lemma runs_event:
  assumes "hmap (fill ok (tok k opt) rq s) k = Some h"
    and "case EventHandler_process ok (tok k opt) h (fill ok (tok k opt) rq s) of
      (Val h', s1) \<Rightarrow> h' = g \<and> ops_of k s1 = ops_of k s @ cs \<and> clock s1 = clock s \<and> ticks s1 = ticks s + n | _ \<Rightarrow> False"
  shows "\<exists>s'. runs k s [(ok, tok k opt, rq)] (if isComplete g then None else Some g) cs n s'"
proof -
  obtain s1 where s1: "EventHandler_process ok (tok k opt) h (fill ok (tok k opt) rq s) = (Val g, s1)"
    "ops_of k s1 = ops_of k s @ cs" "clock s1 = clock s" "ticks s1 = ticks s + n"
    using assms(2) by (auto split: prod.splits outcome.splits)
  then have "runs k s [(ok, tok k opt, rq)] (if isComplete g then None else Some g) cs n (handled k g s1)"
    using handle_event_run[of "fill ok (tok k opt) rq s" "tok k opt" h ok g s1] assms(1) by (simp add: runs_def cpp_eval)
  then show ?thesis by blast
qed

lemma completions_append: "completions xs s = (Val (), s') \<Longrightarrow> completions (xs @ ys) s = completions ys s'"
  by (induction xs arbitrary: s) (auto simp: skip_run sq_eval split: prod.splits outcome.splits)

lemma runs_append:
  "runs k s xs h cs n s1 \<Longrightarrow> runs k s1 ys h' ds j s2 \<Longrightarrow> runs k s (xs @ ys) h' (cs @ ds) (n + j) s2"
  by (simp add: runs_def completions_append)

text \<open>\<open>listen\<close> and \<open>speak\<close> in the asynchronous server.\<close>

lemma ops_of_same: "started s' = started s \<Longrightarrow> ops_of k s' = ops_of k s"
  by (simp add: ops_of_def)

lemma listen_receive:
  assumes "hmap s k = Some (ChatListenEventHandler h [])" "\<not> finish h" "room s"
  shows "\<exists>s'. runs k s [(True, tok k S_RECEIVE, rq)]
    (Some (ChatListenEventHandler (h\<lparr>h_request := rq\<rparr>) [Words (clock s (ticks s + 1)) ''bbb'', Words (clock s (ticks s + 2)) ''ccc'']))
    [Write (Words (clock s (ticks s)) ''aaa'')] 3 s'"
proof -
  let ?s = "fill True (tok k S_RECEIVE) rq s" and ?h = "h\<lparr>h_request := rq\<rparr>"
  have r: "room ?s" "hmap ?s k = Some (ChatListenEventHandler ?h [])" using assms by (simp_all add: hmap_fill)
  show ?thesis
    using assms(2) registered_other(2)[OF r, of Listen "h_cq h" "ChatListenEventHandler (blank (h_cq h)) []"]
      runs_event[OF r(2), where g = "ChatListenEventHandler ?h [Words (clock s (ticks s + 1)) ''bbb'', Words (clock s (ticks s + 2)) ''ccc'']"
        and cs = "[Write (Words (clock s (ticks s)) ''aaa'')]" and n = 3]
    by (simp add: ChatListenEventHandler_process_def Let_def new_registered[OF r(1)] cpp_eval ops_of_def isComplete_def
        numeral_2_eq_2 numeral_3_eq_3)
qed

lemma listen_write:
  assumes "hmap s k = Some (ChatListenEventHandler h q)" "\<not> finish h"
  shows "\<exists>s'. runs k s [(True, tok k S_WRITE, rq)] (Some (ChatListenEventHandler h (tl q)))
    [case q of [] \<Rightarrow> Finish StatusOK None | r # _ \<Rightarrow> Write r] 0 s'"
proof -
  have "hmap (fill True (tok k S_WRITE) rq s) k = Some (ChatListenEventHandler h q)" using assms(1) by (simp add: hmap_fill)
  from runs_event[OF this, where g = "ChatListenEventHandler h (tl q)" and n = 0] assms(2) show ?thesis
    by (cases q) (simp_all add: ChatListenEventHandler_process_def cpp_eval ops_of_def isComplete_def)
qed

lemma listen_finish:
  assumes "hmap s k = Some (ChatListenEventHandler h q)"
  shows "\<exists>s'. runs k s [(True, tok k S_FINISH, rq)] None [] 0 s'"
proof -
  have "hmap (fill True (tok k S_FINISH) rq s) k = Some (ChatListenEventHandler h q)" using assms(1) by (simp add: hmap_fill)
  from runs_event[OF this, where g = "ChatListenEventHandler (h\<lparr>finish := True\<rparr>) q" and n = 0 and cs = "[]"] show ?thesis
    by (simp add: ChatListenEventHandler_process_def cpp_eval ops_of_def isComplete_def)
qed

lemma runs_hmap: "runs k s xs h cs n s' \<Longrightarrow> hmap s' k = h"
  by (simp add: runs_def)

text \<open>The queued responses are written one by one, then the call is finished.\<close>

lemma listen_writes:
  assumes "hmap s k = Some (ChatListenEventHandler h q)" "\<not> finish h"
  shows "\<exists>s'. runs k s (replicate (Suc (length q)) (True, tok k S_WRITE, rq) @ [(True, tok k S_FINISH, rq)]) None
    (map Write q @ [Finish StatusOK None]) 0 s'"
  using assms(1)
proof (induction q arbitrary: s)
  case Nil
  obtain s1 where s1: "runs k s [(True, tok k S_WRITE, rq)] (Some (ChatListenEventHandler h [])) [Finish StatusOK None] 0 s1"
    using listen_write[OF Nil assms(2), of rq] by auto
  obtain s2 where "runs k s1 [(True, tok k S_FINISH, rq)] None [] 0 s2" using listen_finish[OF runs_hmap[OF s1], of rq] by blast
  from runs_append[OF s1 this] show ?case by auto
next
  case (Cons r q)
  obtain s1 where s1: "runs k s [(True, tok k S_WRITE, rq)] (Some (ChatListenEventHandler h q)) [Write r] 0 s1"
    using listen_write[OF Cons.prems assms(2), of rq] by auto
  from Cons.IH[OF runs_hmap[OF s1]] runs_append[OF s1] show ?case by fastforce
qed

lemma listen_run:
  assumes "hmap s k = Some (ChatListenEventHandler h [])" "\<not> finish h" "room s"
  shows "\<exists>s'. runs k s (call_events k Listen rqs) None (map Write (replies (clock s) (ticks s) Listen rqs) @ [Finish StatusOK None]) 3 s'"
proof -
  obtain s1 where s1: "runs k s [(True, tok k S_RECEIVE, hd rqs)]
    (Some (ChatListenEventHandler (h\<lparr>h_request := hd rqs\<rparr>) [Words (clock s (ticks s + 1)) ''bbb'', Words (clock s (ticks s + 2)) ''ccc'']))
    [Write (Words (clock s (ticks s)) ''aaa'')] 3 s1"
    using listen_receive[OF assms] by blast
  from listen_writes[OF runs_hmap[OF s1], of "([], [])"] assms(2) runs_append[OF s1] show ?thesis
    by (fastforce simp: numeral_3_eq_3)
qed

lemma speak_receive:
  assumes "hmap s k = Some (ChatSpeakEventHandler h)" "\<not> finish h" "room s"
  shows "\<exists>s'. runs k s [(True, tok k S_RECEIVE, rq)] (Some (ChatSpeakEventHandler (h\<lparr>h_request := rq\<rparr>))) [Read] 0 s'"
proof -
  let ?s = "fill True (tok k S_RECEIVE) rq s" and ?h = "h\<lparr>h_request := rq\<rparr>"
  have r: "room ?s" "hmap ?s k = Some (ChatSpeakEventHandler ?h)" using assms by (simp_all add: hmap_fill)
  show ?thesis
    using assms(2) registered_other(2)[OF r, of Speak "h_cq h" "ChatSpeakEventHandler (blank (h_cq h))"]
      runs_event[OF r(2), where g = "ChatSpeakEventHandler ?h" and cs = "[Read]" and n = 0]
    by (simp add: ChatSpeakEventHandler_process_def new_registered[OF r(1)] cpp_eval ops_of_def isComplete_def)
qed

lemma speak_reads:
  assumes "hmap s k = Some (ChatSpeakEventHandler h)" "\<not> finish h"
  shows "\<exists>s'. runs k s (map (\<lambda>m. (True, tok k S_READ, m)) rqs @ [(False, tok k S_READ, rq), (True, tok k S_FINISH, rq)]) None
    (replicate (length rqs) Read @ [Finish StatusOK (Some (Words (clock s (ticks s)) ''OK.''))]) 1 s'"
  using assms
proof (induction rqs arbitrary: s h)
  case Nil
  have "hmap (fill False (tok k S_READ) rq s) k = Some (ChatSpeakEventHandler h)" using Nil(1) by (simp add: hmap_fill)
  from runs_event[OF this, where g = "ChatSpeakEventHandler h" and n = 1 and cs = "[Finish StatusOK (Some (Words (clock s (ticks s)) ''OK.''))]"]
  obtain s1 where s1: "runs k s [(False, tok k S_READ, rq)] (Some (ChatSpeakEventHandler h))
    [Finish StatusOK (Some (Words (clock s (ticks s)) ''OK.''))] 1 s1"
    using Nil(2) by (auto simp: ChatSpeakEventHandler_process_def cpp_eval ops_of_def isComplete_def)
  have "hmap (fill True (tok k S_FINISH) rq s1) k = Some (ChatSpeakEventHandler h)" using runs_hmap[OF s1] by (simp add: hmap_fill)
  from runs_event[OF this, where g = "ChatSpeakEventHandler (h\<lparr>finish := True\<rparr>)" and n = 0 and cs = "[]"]
  obtain s2 where "runs k s1 [(True, tok k S_FINISH, rq)] None [] 0 s2"
    by (auto simp: ChatSpeakEventHandler_process_def cpp_eval ops_of_def isComplete_def)
  from runs_append[OF s1 this] show ?case by auto
next
  case (Cons m rqs)
  have "hmap (fill True (tok k S_READ) m s) k = Some (ChatSpeakEventHandler (h\<lparr>h_request := m\<rparr>))" using Cons.prems by (simp add: hmap_fill)
  from runs_event[OF this, where g = "ChatSpeakEventHandler (h\<lparr>h_request := m\<rparr>)" and n = 0 and cs = "[Read]"]
  obtain s1 where s1: "runs k s [(True, tok k S_READ, m)] (Some (ChatSpeakEventHandler (h\<lparr>h_request := m\<rparr>))) [Read] 0 s1"
    using Cons.prems(2) by (auto simp: ChatSpeakEventHandler_process_def cpp_eval ops_of_def isComplete_def)
  then have "clock s1 = clock s" "ticks s1 = ticks s" by (auto simp: runs_def)
  with Cons.IH[OF runs_hmap[OF s1]] Cons.prems(2) runs_append[OF s1] show ?case by fastforce
qed

lemma speak_run:
  assumes "hmap s k = Some (ChatSpeakEventHandler h)" "\<not> finish h" "room s"
  shows "\<exists>s'. runs k s (call_events k Speak rqs) None
    (Read # replicate (length rqs) Read @ [Finish StatusOK (Some (Words (clock s (ticks s)) ''OK.''))]) 1 s'"
proof -
  obtain s1 where s1: "runs k s [(True, tok k S_RECEIVE, ([], []))] (Some (ChatSpeakEventHandler (h\<lparr>h_request := ([], [])\<rparr>))) [Read] 0 s1"
    using speak_receive[OF assms] by blast
  then have "clock s1 = clock s" "ticks s1 = ticks s" by (auto simp: runs_def)
  with speak_reads[OF runs_hmap[OF s1], of rqs "([], [])"] assms(2) runs_append[OF s1] show ?thesis by fastforce
qed

section \<open>Equivalence\<close>

text \<open>The handler that waits for a call of a method.\<close>

fun waiting :: "rpc \<Rightarrow> nat \<Rightarrow> event_handler" where
  "waiting SayHello q = HelloEventHandler (blank q)"
| "waiting SayHelloAgain q = HelloAgainEventHandler (blank q)"
| "waiting SayGoodbye q = GoodbyeEventHandler (blank q)"
| "waiting SayGoodbyeAgain q = GoodbyeAgainEventHandler (blank q)"
| "waiting Greet q = ChatGreetEventHandler (blank q)"
| "waiting Listen q = ChatListenEventHandler (blank q) []"
| "waiting Speak q = ChatSpeakEventHandler (blank q)"
| "waiting Talk q = ChatTalkEventHandler (blank q)"

lemma told_talk: "told (talk_ops clk t rqs) = (echoes clk t rqs, [StatusOK])"
  by (induction rqs arbitrary: t) simp_all

lemma told_reads: "told (replicate n Read @ ops) = told ops"
  by (induction n) simp_all

lemma told_writes: "told (map Write ms @ ops) = (ms @ fst (told ops), snd (told ops))"
  by (induction ms) (simp_all split: prod.split)

lemma async_replies_run:
  "completions (call_events k m rqs) s = (Val (), s') \<Longrightarrow> ops_of k s' = ops_of k s @ ops \<Longrightarrow> async_replies k s m rqs = told ops"
  by (simp add: async_replies_def)

lemma async_unary:
  assumes "hmap s k = Some (waiting m q)" "room s" "m \<notin> {Listen, Speak, Talk}"
  shows "async_replies k s m rqs = ([reply (waiting m q) (hd rqs) (clock s (ticks s))], [StatusOK])"
proof -
  have "unary (waiting m q)" "\<not> isComplete (waiting m q)" using assms(3) by (cases m; simp add: unary_def isComplete_def blank_def)+
  from unary_run[OF assms(1) this assms(2), of "hd rqs" True "([], [])"] obtain s' where
    "completions (call_events k m rqs) s = (Val (), s')"
    "ops_of k s' = ops_of k s @ [Finish StatusOK (Some (reply (waiting m q) (hd rqs) (clock s (ticks s))))]"
    using assms(3) by (cases m) auto
  from async_replies_run[OF this] show ?thesis by simp
qed

lemma async_stream:
  assumes "hmap s k = Some (waiting m q)" "room s" "m \<in> {Listen, Speak, Talk}"
  shows "async_replies k s m rqs = (replies (clock s) (ticks s) m rqs, [StatusOK])"
proof (cases m)
  case Listen
  with listen_run[of s k "blank q" rqs] assms(1,2) obtain s' where
    "runs k s (call_events k Listen rqs) None (map Write (replies (clock s) (ticks s) Listen rqs) @ [Finish StatusOK None]) 3 s'"
    by (auto simp: blank_def simp del: call_events.simps replies.simps)
  then show ?thesis unfolding Listen by (subst async_replies_run) (auto simp: runs_def told_writes simp del: call_events.simps replies.simps)
next
  case Speak
  with speak_run[of s k "blank q" rqs] assms(1,2) obtain s' where
    "runs k s (call_events k Speak rqs) None (Read # replicate (length rqs) Read @ [Finish StatusOK (Some (Words (clock s (ticks s)) ''OK.''))]) 1 s'"
    by (auto simp: blank_def simp del: call_events.simps)
  then show ?thesis unfolding Speak by (subst async_replies_run) (auto simp: runs_def told_reads simp del: call_events.simps)
next
  case Talk
  with talk_run[of s k "blank q" rqs True] assms(1,2) obtain s' where
    "completions (call_events k Talk rqs) s = (Val (), s')" "ops_of k s' = ops_of k s @ Read # talk_ops (clock s) (ticks s) rqs"
    by (auto simp: blank_def)
  from async_replies_run[OF this] show ?thesis by (simp add: Talk told_talk)
qed (use assms(3) in simp_all)

text \<open>
  C31. The two servers answer alike, but for two methods. Let a handler of the asynchronous server wait for a call of
  a method, and let both servers read the same clock. When everything gRPC does succeeds, the messages and the
  status that the client gets are the same from the two servers, for any messages it sends, exactly if the method
  is not \<open>sayHelloAgain\<close> or \<open>sayGoodbyeAgain\<close>: the synchronous server says again, the asynchronous one does not.
\<close>

theorem servers_agree:
  assumes "hmap s k = Some (waiting m q)" "room s" "y_clock y = clock s" "y_ticks y = ticks s"
  shows "async_replies k s m rqs = sync_replies y m rqs \<longleftrightarrow> m \<notin> {SayHelloAgain, SayGoodbyeAgain}"
proof (cases "m \<in> {Listen, Speak, Talk}")
  case True
  then show ?thesis using async_stream[OF assms(1,2) True, of rqs] assms(3,4) by (auto simp: sync_replies_run)
next
  case False
  then show ?thesis using async_unary[OF assms(1,2) False, of rqs] assms(3,4) by (cases m) (auto simp: sync_replies_run)
qed

definition sync_start :: ssrv where
  "sync_start = \<lparr>y_clock = (\<lambda>n. replicate n (CHR ''t'')), y_ticks = 0, y_log = [], y_build = True, y_server = False, y_down = False,
     y_in = [], y_written = []\<rparr>"

lemma servers_agree_witness:
  "async_replies 1 (alone (waiting Talk 0)) Talk [([], ''a''), ([], ''b'')] = sync_replies sync_start Talk [([], ''a''), ([], ''b'')] \<and>
   async_replies 1 (alone (waiting SayHelloAgain 0)) SayHelloAgain [(''Foo'', ''Bar'')] \<noteq> sync_replies sync_start SayHelloAgain [(''Foo'', ''Bar'')]"
  using servers_agree[of "alone (waiting Talk 0)" 1 Talk 0 sync_start "[([], ''a''), ([], ''b'')]"]
    servers_agree[of "alone (waiting SayHelloAgain 0)" 1 SayHelloAgain 0 sync_start "[(''Foo'', ''Bar'')]"]
  by (simp add: sync_start_def del: sync_replies.simps)

section \<open>A conversation of the synchronous client\<close>

lemma talk_writes_run:
  "talk_writes n v = (Val (map (\<lambda>i. (v_clock v (v_ticks v + i), to_string_nat i)) [0..<n]), v\<lparr>v_ticks := v_ticks v + n\<rparr>)"
  by (induction n) (simp_all add: time_v_def cpp_eval)

lemma log_responses_run:
  "log_responses ms v = (Val (), v\<lparr>v_log := v_log v @ map (\<lambda>m. (LogInfo, ''response: {} - '' @ quoted, fields m)) ms\<rparr>)"
  by (induction ms arbitrary: v) (simp_all add: log_words_def LOG_v_def cpp_eval)

lemma echoes_map: "echoes clk t rqs = map (\<lambda>i. Words (clk (t + i)) (snd (rqs ! i))) [0..<length rqs]"
proof (induction rqs arbitrary: t)
  case (Cons rq rqs)
  have "[0..<length (rq # rqs)] = 0 # map Suc [0..<length rqs]" by (simp add: upt_conv_Cons map_Suc_upt del: upt_Suc)
  with Cons show ?case by (simp add: comp_def)
qed simp

text \<open>The client after the numbers 0 to 9 have been answered.\<close>

definition heard :: "(nat \<Rightarrow> string) \<Rightarrow> nat \<Rightarrow> scli \<Rightarrow> scli" where
  "heard clk t v = v\<lparr>v_ticks := v_ticks v + 10,
     v_log := v_log v @ map (\<lambda>i. (LogInfo, ''response: {} - '' @ quoted, [clk (t + i), to_string_nat i])) [0..<10]\<rparr>"

text \<open>The contract of a server that the client's conversation relies on: \<open>talk\<close> sends back every content.\<close>

locale talk_service =
  fixes svc :: service and clk :: "nat \<Rightarrow> string" and t :: nat
  assumes talk_echo: "svc Talk rqs = (echoes clk t rqs, RpcOk)"
begin

lemma talk_heard: "ChatClient_talk svc v = (Val (), heard clk t v)"
proof -
  let ?rqs = "map (\<lambda>i. (v_clock v (v_ticks v + i), to_string_nat i)) [0..<10]"
  have "map (\<lambda>m. (LogInfo, ''response: {} - '' @ quoted, fields m)) (echoes clk t ?rqs) =
    map (\<lambda>i. (LogInfo, ''response: {} - '' @ quoted, [clk (t + i), to_string_nat i])) [0..<10]"
    unfolding echoes_map by simp
  then show ?thesis unfolding ChatClient_talk_def heard_def bnd_eval talk_writes_run
    by (simp only: talk_echo log_responses_run sq_eval prod.case outcome.case log_failure_def call_status.case skip_run) simp
qed

end

interpretation sync_talk: talk_service "service_of (sync_replies y)" "y_clock y" "y_ticks y" for y
  by unfold_locales (simp add: service_of_def sync_replies_run del: sync_replies.simps)

text \<open>The asynchronous server keeps it while a handler waits for the call.\<close>

lemma async_talk_service:
  assumes "hmap s k = Some (waiting Talk q)" "room s"
  shows "talk_service (service_of (async_replies k s)) (clock s) (ticks s)"
  using async_stream[OF assms] by unfold_locales (simp add: service_of_def)

interpretation async_talk: talk_service "service_of (async_replies 1 (alone (waiting Talk q)))" "\<lambda>n. replicate n (CHR ''t'')" 0 for q
  using async_talk_service[of "alone (waiting Talk q)" 1 q] by simp

text \<open>
  C32. A conversation of the synchronous client with either server. The client sends the numbers 0 to 9 and logs
  exactly ten responses and no failure: the numbers in order, each with the time at which the server answered it;
  whether the server is the synchronous one or the asynchronous one, whose handler waits for the call.
\<close>

theorem client_talk_echoed:
  assumes "hmap s k = Some (waiting Talk q)" "room s"
  shows "ChatClient_talk (service_of (async_replies k s)) v = (Val (), heard (clock s) (ticks s) v) \<and>
    ChatClient_talk (service_of (sync_replies y)) v = (Val (), heard (y_clock y) (y_ticks y) v)"
  using talk_service.talk_heard[OF async_talk_service[OF assms]] sync_talk.talk_heard by blast

lemma client_talk_echoed_witness:
  "v_log (snd (ChatClient_talk (service_of (async_replies 1 (alone (waiting Talk 0)))) \<lparr>v_clock = (\<lambda>_. []), v_ticks = 0, v_log = []\<rparr>)) =
     map (\<lambda>i. (LogInfo, ''response: {} - '' @ quoted, [replicate i (CHR ''t''), to_string_nat i])) [0..<10]"
  using client_talk_echoed[of "alone (waiting Talk 0)" 1 0 "\<lparr>v_clock = (\<lambda>_. []), v_ticks = 0, v_log = []\<rparr>" sync_start]
  by (simp add: heard_def)

text \<open>A server that cannot be started is used all the same.\<close>

lemma start_without_server: "\<not> y_build y \<Longrightarrow> fst (SyncServer_start port y) = Undef ''grpcServer is null''"
  by (simp add: SyncServer_start_def LOG_y_def cpp_eval)

end
