(* ===== verification/Grpc_Config.thy ===== *)
theory Grpc_Config
  imports Grpc_Sync "HOL-Library.Multiset"
begin

text \<open>
  The configuration of the gRPC example and the programs that start from it: \<open>lib/config/abstract_config.cpp\<close>,
  \<open>server/config/server_config.h\<close>, \<open>client/config/client_config.h\<close>, the parsers of \<open>lib/utils/utils.cpp\<close>,
  \<open>server/main.cpp\<close> and the synchronous part of \<open>client/main.cpp\<close>. \<open>trim\<close> and \<open>split\<close> stand for
  \<open>boost::algorithm::trim\<close> and for \<open>boost::split\<close> at the characters of \<open>is_any_of\<close>.
\<close>

section \<open>AbstractConfig\<close>

text \<open>
  The base class, with the file system (the lines of a file, if it can be opened), the log, and the level of the
  logger.
\<close>

record AbstractConfig =
  configFilePath :: string
  a_files :: "string \<Rightarrow> string list option"
  a_log :: "logline list"
  a_level :: loglevel

definition LOG_a :: "loglevel \<Rightarrow> string \<Rightarrow> string list \<Rightarrow> ('z AbstractConfig_scheme, unit) cpp" where
  "LOG_a l fmt args = modify (\<lambda>s. s\<lparr>a_log := a_log s @ [(l, fmt, args)]\<rparr>)"

definition SetLogLevel_a :: "loglevel \<Rightarrow> ('z AbstractConfig_scheme, unit) cpp" where
  "SetLogLevel_a l = modify (\<lambda>s. s\<lparr>a_level := l\<rparr>)"

definition COMMENT_PREFIX :: char where
  "COMMENT_PREFIX = CHR ''#''"

fun load_lines :: "(string \<Rightarrow> string) \<Rightarrow> (string \<Rightarrow> string list) \<Rightarrow>
    (string \<Rightarrow> string \<Rightarrow> ('s, unit) cpp) \<Rightarrow> string list \<Rightarrow> ('s, unit) cpp" where
  "load_lines trim split setConfig [] = skip"
| "load_lines trim split setConfig (l # ls) =
     (let line = trim l in
      if line = [] \<or> hd line = COMMENT_PREFIX then load_lines trim split setConfig ls
      else let kv = split line in
        if length kv \<noteq> 2 then load_lines trim split setConfig ls
        else sq (setConfig (trim (kv ! 0)) (trim (kv ! 1))) (load_lines trim split setConfig ls))"

definition loadConfigFile :: "(string \<Rightarrow> string) \<Rightarrow> (string \<Rightarrow> string list) \<Rightarrow>
    (string \<Rightarrow> string \<Rightarrow> ('z AbstractConfig_scheme, unit) cpp) \<Rightarrow> ('z AbstractConfig_scheme, unit) cpp" where
  "loadConfigFile trim split setConfig =
     try_catch
      (bnd (gets (\<lambda>s. (configFilePath s, a_files s (configFilePath s)))) (\<lambda>(path, file). case file of
         None \<Rightarrow> LOG_a LogWarn (''failed to open client config file '' @ quoted) [path]
       | Some ls \<Rightarrow> load_lines trim split setConfig ls))
      (\<lambda>e. LOG_a LogError ''Exception: {}'' [case e of RuntimeError m \<Rightarrow> m | InvalidArgument m \<Rightarrow> m | StdOutOfRange m \<Rightarrow> m])"

definition AbstractConfig_init :: "(string \<Rightarrow> string) \<Rightarrow> (string \<Rightarrow> string list) \<Rightarrow> ('z AbstractConfig_scheme, unit) cpp \<Rightarrow>
    (string \<Rightarrow> string \<Rightarrow> ('z AbstractConfig_scheme, unit) cpp) \<Rightarrow> string \<Rightarrow> ('z AbstractConfig_scheme, unit) cpp" where
  "AbstractConfig_init trim split initConfig setConfig path =
     sq (modify (\<lambda>s. s\<lparr>configFilePath := path\<rparr>)) (sq initConfig (loadConfigFile trim split setConfig))"

text \<open>The macro \<open>DEFINE_CONFIG_ITEM\<close>: an item has a name, a parser and a field.\<close>

definition init_item :: "(string \<Rightarrow> exn + 'a) \<Rightarrow> ('a \<Rightarrow> 's \<Rightarrow> 's) \<Rightarrow> string \<Rightarrow> ('s, unit) cpp" where
  "init_item parser upd def_value = bnd (lift_sum (parser def_value)) (\<lambda>x. modify (upd x))"

definition set_item :: "string \<Rightarrow> (string \<Rightarrow> exn + 'a) \<Rightarrow> ('a \<Rightarrow> 's \<Rightarrow> 's) \<Rightarrow> string \<Rightarrow> string \<Rightarrow> ('s, bool) cpp" where
  "set_item item parser upd k v =
     (if k \<noteq> item then ret False
      else bnd (lift_sum (parser v)) (\<lambda>x. sq (modify (upd x)) (ret True)))"

section \<open>The parsers\<close>

definition ParseLogLevel :: "string \<Rightarrow> loglevel" where
  "ParseLogLevel s =
     (if s = ''DEBUG'' then LogDebug else if s = ''INFO'' then LogInfo else if s = ''WARN'' then LogWarn
      else if s = ''ERROR'' then LogError else LogInfo)"

definition StringToBool :: "string \<Rightarrow> bool" where
  "StringToBool s \<longleftrightarrow> s = ''true''"

abbreviation parse_level :: "string \<Rightarrow> exn + loglevel" where
  "parse_level s \<equiv> Inr (ParseLogLevel s)"

abbreviation parse_bool :: "string \<Rightarrow> exn + bool" where
  "parse_bool s \<equiv> Inr (StringToBool s)"

section \<open>ServerConfig\<close>

record ServerConfig = AbstractConfig +
  sc_LOG_LEVEL :: loglevel
  sc_PORT :: int
  sc_ASYNC :: bool
  sc_THREADPOOL_SIZE :: int
  sc_POLLING_INTERVAL :: int

definition ServerConfig_initConfig :: "(ServerConfig, unit) cpp" where
  "ServerConfig_initConfig =
     sq (init_item parse_level (\<lambda>x c. c\<lparr>sc_LOG_LEVEL := x\<rparr>) ''INFO'')
    (sq (init_item stoi (\<lambda>x c. c\<lparr>sc_PORT := x\<rparr>) ''50051'')
    (sq (init_item parse_bool (\<lambda>x c. c\<lparr>sc_ASYNC := x\<rparr>) ''false'')
    (sq (init_item stoi (\<lambda>x c. c\<lparr>sc_THREADPOOL_SIZE := x\<rparr>) ''8'')
        (init_item stoi (\<lambda>x c. c\<lparr>sc_POLLING_INTERVAL := x\<rparr>) ''500''))))"

definition ServerConfig_setConfig :: "string \<Rightarrow> string \<Rightarrow> (ServerConfig, unit) cpp" where
  "ServerConfig_setConfig k v =
     bnd (set_item ''log.level'' parse_level (\<lambda>x c. c\<lparr>sc_LOG_LEVEL := x\<rparr>) k v) (\<lambda>b.
     sq (whenb b (bnd (gets sc_LOG_LEVEL) SetLogLevel_a))
    (bnd (set_item ''grpc.server.port'' stoi (\<lambda>x c. c\<lparr>sc_PORT := x\<rparr>) k v) (\<lambda>_.
     bnd (set_item ''grpc.server.async'' parse_bool (\<lambda>x c. c\<lparr>sc_ASYNC := x\<rparr>) k v) (\<lambda>_.
     bnd (set_item ''grpc.server.async.threadpool.size'' stoi (\<lambda>x c. c\<lparr>sc_THREADPOOL_SIZE := x\<rparr>) k v) (\<lambda>_.
     bnd (set_item ''grpc.server.async.polling.interval.milliseconds'' stoi (\<lambda>x c. c\<lparr>sc_POLLING_INTERVAL := x\<rparr>) k v) (\<lambda>_.
     skip))))))"

definition ServerConfig_init :: "(string \<Rightarrow> string) \<Rightarrow> (string \<Rightarrow> string list) \<Rightarrow> (ServerConfig, unit) cpp" where
  "ServerConfig_init trim split =
     AbstractConfig_init trim split ServerConfig_initConfig ServerConfig_setConfig ''./server.config''"

section \<open>ClientConfig\<close>

record ClientConfig = AbstractConfig +
  cc_LOG_LEVEL :: loglevel
  cc_HOST :: string
  cc_PORT :: int
  cc_ASYNC :: bool
  cc_REQUEST_COUNT :: int
  cc_THREADPOOL_SIZE :: int
  cc_POLLING_INTERVAL :: int

definition ClientConfig_initConfig :: "(ClientConfig, unit) cpp" where
  "ClientConfig_initConfig =
     sq (init_item parse_level (\<lambda>x c. c\<lparr>cc_LOG_LEVEL := x\<rparr>) ''INFO'')
    (sq (init_item Inr (\<lambda>x c. c\<lparr>cc_HOST := x\<rparr>) ''localhost'')
    (sq (init_item stoi (\<lambda>x c. c\<lparr>cc_PORT := x\<rparr>) ''50051'')
    (sq (init_item parse_bool (\<lambda>x c. c\<lparr>cc_ASYNC := x\<rparr>) ''false'')
    (sq (init_item stoi (\<lambda>x c. c\<lparr>cc_REQUEST_COUNT := x\<rparr>) ''3'')
    (sq (init_item stoi (\<lambda>x c. c\<lparr>cc_THREADPOOL_SIZE := x\<rparr>) ''8'')
        (init_item stoi (\<lambda>x c. c\<lparr>cc_POLLING_INTERVAL := x\<rparr>) ''500''))))))"

definition ClientConfig_setConfig :: "string \<Rightarrow> string \<Rightarrow> (ClientConfig, unit) cpp" where
  "ClientConfig_setConfig k v =
     bnd (set_item ''log.level'' parse_level (\<lambda>x c. c\<lparr>cc_LOG_LEVEL := x\<rparr>) k v) (\<lambda>b.
     sq (whenb b (bnd (gets cc_LOG_LEVEL) SetLogLevel_a))
    (bnd (set_item ''grpc.server.host'' Inr (\<lambda>x c. c\<lparr>cc_HOST := x\<rparr>) k v) (\<lambda>_.
     bnd (set_item ''grpc.server.port'' stoi (\<lambda>x c. c\<lparr>cc_PORT := x\<rparr>) k v) (\<lambda>_.
     bnd (set_item ''grpc.client.async'' parse_bool (\<lambda>x c. c\<lparr>cc_ASYNC := x\<rparr>) k v) (\<lambda>_.
     bnd (set_item ''grpc.client.async.request.count'' stoi (\<lambda>x c. c\<lparr>cc_REQUEST_COUNT := x\<rparr>) k v) (\<lambda>_.
     bnd (set_item ''grpc.client.async.threadpool.size'' stoi (\<lambda>x c. c\<lparr>cc_THREADPOOL_SIZE := x\<rparr>) k v) (\<lambda>_.
     bnd (set_item ''grpc.client.async.polling.interval.milliseconds'' stoi (\<lambda>x c. c\<lparr>cc_POLLING_INTERVAL := x\<rparr>) k v) (\<lambda>_.
     skip))))))))"

definition ClientConfig_init :: "(string \<Rightarrow> string) \<Rightarrow> (string \<Rightarrow> string list) \<Rightarrow> (ClientConfig, unit) cpp" where
  "ClientConfig_init trim split =
     AbstractConfig_init trim split ClientConfig_initConfig ClientConfig_setConfig ''./client.config''"

text \<open>\<open>UseSyncClient\<close>: what the client program does when it is not configured to be asynchronous.\<close>

definition UseSyncClient :: "service \<Rightarrow> (scli, unit) cpp" where
  "UseSyncClient svc =
     sq (HelloClient_sayHello svc) (sq (HelloClient_sayHelloAgain svc)
    (sq (GoodbyeClient_sayGoodbye svc) (sq (GoodbyeClient_sayGoodbyeAgain svc)
    (sq (ChatClient_greet svc) (sq (ChatClient_listen svc) (sq (ChatClient_speak svc) (ChatClient_talk svc)))))))"

section \<open>Files that are read back\<close>

text \<open>
  What boost documents: \<open>trim\<close> removes the white space at both ends, and \<open>split\<close> cuts at every separator.
\<close>

definition spaces :: "string \<Rightarrow> bool" where
  "spaces s \<longleftrightarrow> (\<forall>c \<in> set s. isspace c)"

definition tight :: "string \<Rightarrow> bool" where
  "tight s \<longleftrightarrow> (s \<noteq> [] \<longrightarrow> \<not> isspace (hd s) \<and> \<not> isspace (last s))"

definition trims :: "(string \<Rightarrow> string) \<Rightarrow> bool" where
  "trims trim \<longleftrightarrow> (\<forall>a s b. spaces a \<and> tight s \<and> spaces b \<longrightarrow> trim (a @ s @ b) = s)"

definition splits_at :: "char \<Rightarrow> (string \<Rightarrow> string list) \<Rightarrow> bool" where
  "splits_at c split \<longleftrightarrow> (\<forall>s. c \<notin> set s \<longrightarrow> split s = [s]) \<and> (\<forall>s t. c \<notin> set s \<longrightarrow> split (s @ c # t) = s # split t)"

text \<open>A line for an item: name and value, with white space around both.\<close>

type_synonym entry = "string \<times> string \<times> string \<times> string \<times> string \<times> string"

fun entry_line :: "entry \<Rightarrow> string" where
  "entry_line (a, k, b, c, v, d) = a @ k @ b @ CHR ''='' # c @ v @ d"

fun entry_ok :: "entry \<Rightarrow> bool" where
  "entry_ok (a, k, b, c, v, d) \<longleftrightarrow> spaces a \<and> spaces b \<and> spaces c \<and> spaces d \<and> k \<noteq> [] \<and> v \<noteq> [] \<and> tight k \<and> tight v \<and>
     CHR ''='' \<notin> set k \<and> CHR ''='' \<notin> set v \<and> hd k \<noteq> COMMENT_PREFIX"

lemma trims_pad: "trims trim \<Longrightarrow> spaces a \<Longrightarrow> tight s \<Longrightarrow> spaces b \<Longrightarrow> trim (a @ s @ b) = s"
  by (simp add: trims_def)

lemma spaces_no_sep: "spaces a \<Longrightarrow> CHR ''='' \<notin> set a"
proof -
  have "\<not> isspace (CHR ''='')" by (simp add: isspace_def)
  then show "spaces a \<Longrightarrow> CHR ''='' \<notin> set a" unfolding spaces_def by blast
qed

lemma load_entry:
  assumes "trims trim" "splits_at (CHR ''='') split" "entry_ok (a, k, b, c, v, d)"
  shows "load_lines trim split f (entry_line (a, k, b, c, v, d) # ls) = sq (f k v) (load_lines trim split f ls)"
proof -
  let ?t = "k @ b @ CHR ''='' # c @ v"
  have e: "spaces a" "spaces b" "spaces c" "spaces d" "k \<noteq> []" "v \<noteq> []" "tight k" "tight v"
    "CHR ''='' \<notin> set k" "CHR ''='' \<notin> set v" "hd k \<noteq> COMMENT_PREFIX" using assms(3) by auto
  have "tight ?t" using e by (simp add: tight_def)
  then have t: "trim (entry_line (a, k, b, c, v, d)) = ?t" using trims_pad[OF assms(1) e(1) _ e(4), of ?t] by simp
  have n: "CHR ''='' \<notin> set (k @ b)" "CHR ''='' \<notin> set (c @ v)" using e spaces_no_sep by auto
  have "split ((k @ b) @ CHR ''='' # (c @ v)) = (k @ b) # split (c @ v)" using assms(2) n(1) unfolding splits_at_def by blast
  moreover have "split (c @ v) = [c @ v]" using assms(2) n(2) unfolding splits_at_def by blast
  ultimately have "split ?t = [k @ b, c @ v]" by simp
  moreover have "trim (k @ b) = k" "trim (c @ v) = v"
    using trims_pad[OF assms(1), of "[]" k b] trims_pad[OF assms(1), of c v "[]"] e by (simp_all add: spaces_def)
  ultimately show ?thesis using t e(5,11) by (simp add: Let_def)
qed

text \<open>
  A line of a file: an item, a comment (\<open>#\<close> behind white space, then anything), or any other line that does
  not have exactly one \<open>=\<close>, a blank one among them.
\<close>

datatype config_line = Item entry | Comment string string | Other string

fun line_text :: "config_line \<Rightarrow> string" where
  "line_text (Item e) = entry_line e"
| "line_text (Comment a t) = a @ COMMENT_PREFIX # t"
| "line_text (Other l) = l"

fun line_ok :: "config_line \<Rightarrow> bool" where
  "line_ok (Item e) \<longleftrightarrow> entry_ok e"
| "line_ok (Comment a t) \<longleftrightarrow> spaces a"
| "line_ok (Other l) \<longleftrightarrow> count_list l (CHR ''='') \<noteq> 1"

fun entry_kv :: "entry \<Rightarrow> string \<times> string" where
  "entry_kv (a, k, b, c, v, d) = (k, v)"

text \<open>The items a file names, in its order.\<close>

fun items_of :: "config_line list \<Rightarrow> (string \<times> string) list" where
  "items_of [] = []"
| "items_of (Item e # ls) = entry_kv e # items_of ls"
| "items_of (_ # ls) = items_of ls"

primrec set_kvs :: "(string \<Rightarrow> string \<Rightarrow> ('s, unit) cpp) \<Rightarrow> (string \<times> string) list \<Rightarrow> ('s, unit) cpp" where
  "set_kvs setConfig [] = skip"
| "set_kvs setConfig (kv # kvs) = sq (setConfig (fst kv) (snd kv)) (set_kvs setConfig kvs)"

text \<open>Every line is white space, a text that begins and ends with something else, and white space.\<close>

lemma padded:
  obtains a s b where "l = a @ s @ b" "spaces a" "tight s" "spaces b"
proof -
  define r where "r = dropWhile isspace l"
  let ?s = "rev (dropWhile isspace (rev r))" and ?b = "rev (takeWhile isspace (rev r))"
  have r: "r = ?s @ ?b" by (metis rev_append rev_rev_ident takeWhile_dropWhile_id)
  have "tight ?s"
  proof (unfold tight_def, intro impI conjI)
    assume n: "?s \<noteq> []"
    then have "hd r = hd ?s" "r \<noteq> []" using r by (metis hd_append2, metis append_is_Nil_conv)
    then show "\<not> isspace (hd ?s)" using hd_dropWhile[of isspace l] by (simp add: r_def)
    show "\<not> isspace (last ?s)" using n hd_dropWhile[of isspace "rev r"] by (simp add: last_rev)
  qed
  moreover have "spaces (takeWhile isspace l)" "spaces ?b" by (auto simp: spaces_def dest: set_takeWhileD)
  moreover have "l = takeWhile isspace l @ ?s @ ?b" using r by (simp add: r_def)
  ultimately show thesis using that by blast
qed

lemma split_count:
  assumes "splits_at c split"
  shows "length (split s) = count_list s c + 1"
proof (induction s rule: length_induct)
  case (1 s)
  show ?case
  proof (cases "c \<in> set s")
    case True
    then obtain u t where s: "s = u @ c # t" "c \<notin> set u" by (meson split_list_first)
    then have "split s = u # split t" using assms by (simp add: splits_at_def)
    moreover have "count_list u c = 0" using s(2) by (simp add: count_list_0_iff)
    ultimately show ?thesis using 1 s by simp
  next
    case False
    then show ?thesis using assms by (simp add: splits_at_def count_list_0_iff)
  qed
qed

lemma load_comment:
  assumes "trims trim" "spaces a"
  shows "load_lines trim split f ((a @ COMMENT_PREFIX # t) # ls) = load_lines trim split f ls"
proof -
  obtain p s b where l: "COMMENT_PREFIX # t = p @ s @ b" "spaces p" "tight s" "spaces b" by (rule padded)
  have "\<not> isspace COMMENT_PREFIX" by (simp add: COMMENT_PREFIX_def isspace_def)
  then have "p = []" using l(1,2) by (cases p) (auto simp: spaces_def)
  moreover have "s \<noteq> []"
  proof
    assume "s = []"
    with l(1) \<open>p = []\<close> have "b = COMMENT_PREFIX # t" by simp
    with l(4) \<open>\<not> isspace COMMENT_PREFIX\<close> show False by (simp add: spaces_def)
  qed
  ultimately have "hd s = COMMENT_PREFIX" using l(1) by (cases s) auto
  moreover have "trim (a @ COMMENT_PREFIX # t) = s" using trims_pad[OF assms l(3,4)] l(1) \<open>p = []\<close> by simp
  ultimately show ?thesis by (simp add: Let_def)
qed

lemma load_other:
  assumes "trims trim" "splits_at (CHR ''='') split" "count_list l (CHR ''='') \<noteq> 1"
  shows "load_lines trim split f (l # ls) = load_lines trim split f ls"
proof -
  obtain a s b where l: "l = a @ s @ b" "spaces a" "tight s" "spaces b" by (rule padded)
  have "count_list a (CHR ''='') = 0" "count_list b (CHR ''='') = 0"
    using spaces_no_sep[OF l(2)] spaces_no_sep[OF l(4)] by (simp_all add: count_list_0_iff)
  then have "length (split s) \<noteq> 2" using split_count[OF assms(2), of s] assms(3) l(1) by simp
  moreover have "trim l = s" using trims_pad[OF assms(1) l(2,3,4)] l(1) by simp
  ultimately show ?thesis by (simp add: Let_def)
qed

lemma load_items:
  assumes "trims trim" "splits_at (CHR ''='') split" "\<forall>l \<in> set ls. line_ok l"
  shows "load_lines trim split f (map line_text ls) = set_kvs f (items_of ls)"
  using assms(3)
proof (induction ls)
  case (Cons l ls)
  have IH: "load_lines trim split f (map line_text ls) = set_kvs f (items_of ls)" using Cons by simp
  show ?case
  proof (cases l)
    case (Item e)
    obtain a k b c v d where e: "e = (a, k, b, c, v, d)" by (metis prod_cases6)
    show ?thesis using load_entry[OF assms(1,2), of a k b c v d f] Cons.prems IH Item by (simp add: e)
  next
    case (Comment a t)
    then show ?thesis using load_comment[OF assms(1), of a split f t] Cons.prems IH by simp
  next
    case (Other x)
    then show ?thesis using load_other[OF assms(1,2), of x f] Cons.prems IH by simp
  qed
qed simp

fun level_name :: "loglevel \<Rightarrow> string" where
  "level_name LogDebug = ''DEBUG''"
| "level_name LogInfo = ''INFO''"
| "level_name LogWarn = ''WARN''"
| "level_name LogError = ''ERROR''"

definition bool_name :: "bool \<Rightarrow> string" where
  "bool_name b = (if b then ''true'' else ''false'')"

lemma parse_names [simp]: "ParseLogLevel (level_name l) = l" "StringToBool (bool_name b) = b"
  by (cases l; simp add: ParseLogLevel_def) (simp add: StringToBool_def bool_name_def)

definition server_items :: "loglevel \<Rightarrow> int \<Rightarrow> bool \<Rightarrow> int \<Rightarrow> int \<Rightarrow> (string \<times> string) list" where
  "server_items lvl port async pool poll =
     [(''log.level'', level_name lvl), (''grpc.server.port'', to_string_int port), (''grpc.server.async'', bool_name async),
      (''grpc.server.async.threadpool.size'', to_string_int pool),
      (''grpc.server.async.polling.interval.milliseconds'', to_string_int poll)]"

definition in_int :: "int \<Rightarrow> bool" where
  "in_int v \<longleftrightarrow> int_min \<le> v \<and> v \<le> int_max"

lemma stoi_in_int: "in_int v \<Longrightarrow> stoi (to_string_int v) = Inr v"
  by (simp add: in_int_def stoi_to_string_int)

lemma stoi_defaults: "stoi ''50051'' = Inr 50051" "stoi ''8'' = Inr 8" "stoi ''500'' = Inr 500" "stoi ''3'' = Inr 3"
  by (simp_all add: stoi_def Let_def starts_with_digit_def is_digit_def digit_val_def isspace_def int_min_def int_max_def)

lemma server_defaults:
  "ServerConfig_initConfig s = (Val (), s\<lparr>sc_LOG_LEVEL := LogInfo, sc_PORT := 50051, sc_ASYNC := False, sc_THREADPOOL_SIZE := 8,
     sc_POLLING_INTERVAL := 500\<rparr>)"
  by (simp add: ServerConfig_initConfig_def init_item_def stoi_defaults lift_sum_run cpp_eval ParseLogLevel_def StringToBool_def)

lemma server_set:
  "ServerConfig_setConfig ''log.level'' (level_name l) s = (Val (), s\<lparr>sc_LOG_LEVEL := l, a_level := l\<rparr>)"
  "in_int v \<Longrightarrow> ServerConfig_setConfig ''grpc.server.port'' (to_string_int v) s = (Val (), s\<lparr>sc_PORT := v\<rparr>)"
  "ServerConfig_setConfig ''grpc.server.async'' (bool_name b) s = (Val (), s\<lparr>sc_ASYNC := b\<rparr>)"
  "in_int v \<Longrightarrow> ServerConfig_setConfig ''grpc.server.async.threadpool.size'' (to_string_int v) s = (Val (), s\<lparr>sc_THREADPOOL_SIZE := v\<rparr>)"
  "in_int v \<Longrightarrow> ServerConfig_setConfig ''grpc.server.async.polling.interval.milliseconds'' (to_string_int v) s =
     (Val (), s\<lparr>sc_POLLING_INTERVAL := v\<rparr>)"
  by (simp_all add: ServerConfig_setConfig_def set_item_def SetLogLevel_a_def lift_sum_run stoi_in_int cpp_eval)

lemma server_set_items:
  assumes "in_int port" "in_int pool" "in_int poll"
  shows "set_kvs ServerConfig_setConfig (server_items lvl port async pool poll) s =
    (Val (), s\<lparr>sc_LOG_LEVEL := lvl, a_level := lvl, sc_PORT := port, sc_ASYNC := async, sc_THREADPOOL_SIZE := pool, sc_POLLING_INTERVAL := poll\<rparr>)"
  by (simp add: server_items_def server_set assms cpp_eval)

text \<open>The items may come in any order, and names that are none of the five change nothing.\<close>

definition server_names :: "string set" where
  "server_names = {''log.level'', ''grpc.server.port'', ''grpc.server.async'', ''grpc.server.async.threadpool.size'',
     ''grpc.server.async.polling.interval.milliseconds''}"

definition server_apply :: "string \<times> string \<Rightarrow> ServerConfig \<Rightarrow> ServerConfig" where
  "server_apply kv s = snd (ServerConfig_setConfig (fst kv) (snd kv) s)"

lemma server_set_unknown: "k \<notin> server_names \<Longrightarrow> ServerConfig_setConfig k v s = (Val (), s)"
  by (simp add: server_names_def ServerConfig_setConfig_def set_item_def cpp_eval)

lemma server_skip_unknown:
  "set_kvs ServerConfig_setConfig kvs s = set_kvs ServerConfig_setConfig (filter (\<lambda>kv. fst kv \<in> server_names) kvs) s"
  by (induction kvs arbitrary: s) (auto simp: sq_eval server_set_unknown split: prod.splits outcome.splits)

lemma server_item_set:
  assumes "in_int port" "in_int pool" "in_int poll" "kv \<in> set (server_items lvl port async pool poll)"
  shows "ServerConfig_setConfig (fst kv) (snd kv) s = (Val (), server_apply kv s)"
  using assms by (auto simp: server_items_def server_apply_def server_set)

lemma server_items_fold:
  assumes "in_int port" "in_int pool" "in_int poll" "set kvs \<subseteq> set (server_items lvl port async pool poll)"
  shows "set_kvs ServerConfig_setConfig kvs s = (Val (), fold server_apply kvs s)"
  using assms(4)
proof (induction kvs arbitrary: s)
  case (Cons kv kvs)
  have "ServerConfig_setConfig (fst kv) (snd kv) s = (Val (), server_apply kv s)"
    using Cons.prems server_item_set[OF assms(1-3), of kv lvl async] by simp
  then show ?case using Cons by (simp add: sq_eval)
qed (simp add: cpp_eval)

lemma server_apply_commute:
  assumes "in_int port" "in_int pool" "in_int poll"
    and "x \<in> set (server_items lvl port async pool poll)" "y \<in> set (server_items lvl port async pool poll)"
  shows "server_apply x \<circ> server_apply y = server_apply y \<circ> server_apply x"
  using assms by (auto simp: server_items_def server_apply_def server_set fun_eq_iff)

lemma server_set_any_order:
  assumes "in_int port" "in_int pool" "in_int poll"
    and "mset (filter (\<lambda>kv. fst kv \<in> server_names) kvs) = mset (server_items lvl port async pool poll)"
  shows "set_kvs ServerConfig_setConfig kvs s = set_kvs ServerConfig_setConfig (server_items lvl port async pool poll) s"
proof -
  let ?ks = "filter (\<lambda>kv. fst kv \<in> server_names) kvs" and ?is = "server_items lvl port async pool poll"
  have eq: "set ?ks = set ?is" using assms(4) by (rule mset_eq_setD)
  have "fold server_apply ?ks = fold server_apply ?is"
    using server_apply_commute[OF assms(1-3)] eq assms(4) by (intro fold_multiset_equiv) blast+
  then show ?thesis
    unfolding server_skip_unknown[of kvs]
    using server_items_fold[OF assms(1-3) equalityD1[OF eq]] server_items_fold[OF assms(1-3) subset_refl] by simp
qed

text \<open>
  C36. The server's configuration is read back. The lines of the file may be items (a name and a value, with white space
  around both), comments, whatever they contain, and any other lines that do not have exactly one \<open>=\<close>, blank
  ones among them. Then exactly the items reach \<open>setConfig\<close>, in the order of the file. When each of the five names
  occurs once among them, in any order and with other names in between, the file gives exactly the settings it
  was written from, and the logger's level; for every level, both values of a flag and every \<open>int\<close>.
\<close>

theorem server_config_roundtrip:
  assumes "trims trim" "splits_at (CHR ''='') split" "\<forall>l \<in> set ls. line_ok l"
  shows "(\<forall>f :: string \<Rightarrow> string \<Rightarrow> (ServerConfig, unit) cpp.
      load_lines trim split f (map line_text ls) = set_kvs f (items_of ls)) \<and>
    (mset (filter (\<lambda>kv. fst kv \<in> server_names) (items_of ls)) = mset (server_items lvl port async pool poll) \<and>
      in_int port \<and> in_int pool \<and> in_int poll \<and> a_files s ''./server.config'' = Some (map line_text ls) \<longrightarrow>
     ServerConfig_init trim split s = (Val (), s\<lparr>configFilePath := ''./server.config'', a_level := lvl, sc_LOG_LEVEL := lvl,
       sc_PORT := port, sc_ASYNC := async, sc_THREADPOOL_SIZE := pool, sc_POLLING_INTERVAL := poll\<rparr>))"
proof (intro conjI allI impI)
  fix f :: "string \<Rightarrow> string \<Rightarrow> (ServerConfig, unit) cpp"
  show "load_lines trim split f (map line_text ls) = set_kvs f (items_of ls)" by (rule load_items[OF assms])
next
  assume h: "mset (filter (\<lambda>kv. fst kv \<in> server_names) (items_of ls)) = mset (server_items lvl port async pool poll) \<and>
      in_int port \<and> in_int pool \<and> in_int poll \<and> a_files s ''./server.config'' = Some (map line_text ls)"
  then show "ServerConfig_init trim split s = (Val (), s\<lparr>configFilePath := ''./server.config'', a_level := lvl, sc_LOG_LEVEL := lvl,
       sc_PORT := port, sc_ASYNC := async, sc_THREADPOOL_SIZE := pool, sc_POLLING_INTERVAL := poll\<rparr>)"
    using load_items[OF assms, of ServerConfig_setConfig] server_set_any_order[of port pool poll "items_of ls"] server_set_items[of port pool poll lvl async]
    by (simp add: ServerConfig_init_def AbstractConfig_init_def loadConfigFile_def try_catch_def server_defaults cpp_eval)
qed

text \<open>Functions that do what boost documents.\<close>

definition trim_ws :: "string \<Rightarrow> string" where
  "trim_ws s = rev (dropWhile isspace (rev (dropWhile isspace s)))"

fun split_sep :: "char \<Rightarrow> string \<Rightarrow> string list" where
  "split_sep c [] = [[]]"
| "split_sep c (x # xs) =
     (if x = c then [] # split_sep c xs else case split_sep c xs of [] \<Rightarrow> [[x]] | p # ps \<Rightarrow> (x # p) # ps)"

lemma dropWhile_spaces: "spaces a \<Longrightarrow> dropWhile isspace (a @ s) = dropWhile isspace s"
  by (induction a) (auto simp: spaces_def)

lemma dropWhile_tight: "s \<noteq> [] \<Longrightarrow> \<not> isspace (hd s) \<Longrightarrow> dropWhile isspace (s @ b) = s @ b"
  by (cases s) auto

lemma trims_trim_ws: "trims trim_ws"
  unfolding trims_def
proof (intro allI impI)
  fix a s b assume h: "spaces a \<and> tight s \<and> spaces b"
  have r: "spaces (rev b)" using h by (simp add: spaces_def)
  show "trim_ws (a @ s @ b) = s"
  proof (cases "s = []")
    case True
    have "dropWhile isspace b = []" using h by (simp add: spaces_def)
    then show ?thesis using True h dropWhile_spaces[of a b] unfolding trim_ws_def by (metis append_Nil dropWhile.simps(1) rev.simps(1))
  next
    case False
    then have "dropWhile isspace (a @ s @ b) = s @ b" using h dropWhile_spaces[of a "s @ b"] dropWhile_tight[of s b] by (simp add: tight_def)
    moreover have "dropWhile isspace (rev b @ rev s) = rev s"
      using False h dropWhile_spaces[OF r, of "rev s"] dropWhile_tight[of "rev s" "[]"] by (simp add: tight_def hd_rev)
    ultimately show ?thesis by (simp add: trim_ws_def)
  qed
qed

lemma splits_split_sep: "splits_at c (split_sep c)"
proof -
  have "split_sep c s = [s]" if "c \<notin> set s" for s using that by (induction s) auto
  moreover have "split_sep c (s @ c # t) = s # split_sep c t" if "c \<notin> set s" for s t using that by (induction s) auto
  ultimately show ?thesis by (simp add: splits_at_def)
qed

text \<open>A file with a comment, a blank line, a line with two \<open>=\<close>, a name the server does not know, and the items out of order.\<close>

definition ex_file :: "config_line list" where
  "ex_file = [Comment '' '' '' grpc.server.port=1'', Item ([], ''grpc.server.port'', [], [], ''80'', [CHR 0x09]), Other '' '',
     Item ('' '', ''log.level'', [], '' '', ''WARN'', []), Other ''grpc.server.port=81=82'',
     Item ([], ''grpc.server.async.polling.interval.milliseconds'', [], [], ''-1'', [CHR 0x0D]),
     Item ([], ''grpc.server.host'', [], [], ''localhost'', []), Item ([], ''grpc.server.async'', '' '', [], ''true'', []),
     Item ([], ''grpc.server.async.threadpool.size'', [], [], ''2'', [])]"

definition no_config :: ServerConfig where
  "no_config = \<lparr>configFilePath = [], a_files = (\<lambda>_. None), a_log = [], a_level = LogInfo, sc_LOG_LEVEL = LogInfo, sc_PORT = 0,
     sc_ASYNC = False, sc_THREADPOOL_SIZE = 0, sc_POLLING_INTERVAL = 0\<rparr>"

lemma server_config_roundtrip_witness:
  "ServerConfig_init trim_ws (split_sep (CHR ''='')) (no_config\<lparr>a_files := (\<lambda>_. Some (map line_text ex_file))\<rparr>) =
     (Val (), no_config\<lparr>a_files := (\<lambda>_. Some (map line_text ex_file)), configFilePath := ''./server.config'', a_level := LogWarn,
       sc_LOG_LEVEL := LogWarn, sc_PORT := 80, sc_ASYNC := True, sc_THREADPOOL_SIZE := 2, sc_POLLING_INTERVAL := - 1\<rparr>)"
proof -
  let ?s = "no_config\<lparr>a_files := (\<lambda>_. Some (map line_text ex_file))\<rparr>"
  have ok: "\<forall>l \<in> set ex_file. line_ok l" by (simp add: ex_file_def spaces_def tight_def isspace_def COMMENT_PREFIX_def)
  have kv: "mset (filter (\<lambda>kv. fst kv \<in> server_names) (items_of ex_file)) = mset (server_items LogWarn 80 True 2 (- 1))"
    by (simp add: ex_file_def server_names_def server_items_def bool_name_def to_string_int_def to_string_nat.simps digit_char_def
        char_of_def bit_0)
  have i: "in_int 80" "in_int 2" "in_int (- 1)" by (simp_all add: in_int_def int_min_def int_max_def)
  have f: "a_files ?s ''./server.config'' = Some (map line_text ex_file)" by simp
  show ?thesis
    using conjunct2[OF server_config_roundtrip[OF trims_trim_ws splits_split_sep ok, of LogWarn 80 True 2 "- 1" ?s]] kv i f by simp
qed

text \<open>
  A value that is no number ends the reading of the file: the items before it are set, those after it are not, and
  an error is logged. This is so for both configurations, whose parsers throw in the same way.
\<close>

lemma set_item_throws: "parser v = Inl e \<Longrightarrow> set_item item parser upd item v s = (Throw e, s)"
  by (simp add: set_item_def lift_sum_run cpp_eval)

lemma load_lines_append:
  "load_lines trim split f ls s = (Val (), s') \<Longrightarrow> load_lines trim split f (ls @ ms) s = load_lines trim split f ms s'"
  by (induction ls arbitrary: s) (auto simp: Let_def cpp_eval split: prod.splits outcome.splits)

lemma bad_number_stops:
  assumes "trims trim" "splits_at (CHR ''='') split" "entry_ok (a, ''grpc.server.port'', b, c, v, d)" "stoi v = Inl e"
    and "load_lines trim split ServerConfig_setConfig before s = (Val (), s')"
  shows "load_lines trim split ServerConfig_setConfig (before @ entry_line (a, ''grpc.server.port'', b, c, v, d) # rest) s = (Throw e, s')"
  unfolding load_lines_append[OF assms(5)] load_entry[OF assms(1-3)]
  by (simp add: ServerConfig_setConfig_def set_item_throws[where parser = stoi, OF assms(4)] set_item_def[of "''log.level''"] cpp_eval)

text \<open>Without a file the defaults stand.\<close>

lemma no_file_defaults:
  "a_files s ''./client.config'' = None \<Longrightarrow> ClientConfig_init trim split s =
     (Val (), s\<lparr>configFilePath := ''./client.config'', cc_LOG_LEVEL := LogInfo, cc_HOST := ''localhost'', cc_PORT := 50051, cc_ASYNC := False,
        cc_REQUEST_COUNT := 3, cc_THREADPOOL_SIZE := 8, cc_POLLING_INTERVAL := 500,
        a_log := a_log s @ [(LogWarn, ''failed to open client config file '' @ quoted, [''./client.config''])]\<rparr>)"
  by (simp add: ClientConfig_init_def AbstractConfig_init_def loadConfigFile_def ClientConfig_initConfig_def init_item_def stoi_defaults
      lift_sum_run cpp_eval ParseLogLevel_def StringToBool_def try_catch_def LOG_a_def)

end
