(* ===== verification/Nonblock_Read.thy ===== *)
theory Nonblock_Read
  imports Http_Utils
begin

text \<open>
  The programs of \<open>linux_programming/read/nonblock_read\<close> and \<open>linux_programming/epoll/epoll_closed_fd\<close>: each waits for
  input on standard input or on two pipes, with \<open>poll\<close>, \<open>select\<close>, \<open>epoll\<close> or without waiting, reads at most three
  bytes at a time and prints them. The functions the programs share (the class \<open>Epoll\<close>, \<open>GetErrorMsg\<close>) are
  the same text in all of them. The loops have no end of their own; they are run for a number of passes.
\<close>

unbundle bit_operations_syntax

section \<open>State\<close>

datatype call_nb =
    EpollCreate1 | EpollCtlAdd int u32 | FcntlGet int | FcntlSet int int | Creat string | PopenCall string string | CloseCall int

text \<open>
  What a wait returns: an error, or the descriptors that are ready, none after a timeout. The answer of \<open>popen\<close>
  is the descriptor of the stream.
\<close>

datatype wait_nb = WaitErr int | WaitOk "int list"

record nb =
  nb_strerror :: "int \<Rightarrow> string"
  nb_errno :: int
  nb_read :: "read_ans list"
  nb_wait :: "wait_nb list"
  nb_sys :: "sys_ans list"
  nb_calls :: "call_nb list"
  nb_out :: string

definition out :: "string \<Rightarrow> (nb, unit) cpp" where
  "out t = modify (\<lambda>w. w\<lparr>nb_out := nb_out w @ t\<rparr>)"

definition outl :: "string \<Rightarrow> (nb, unit) cpp" where
  "outl t = out (t @ newline)"

definition err_msg :: "string \<Rightarrow> int \<Rightarrow> (nb, string) cpp" where
  "err_msg info code = gets (\<lambda>w. GetErrorMsg (nb_strerror w) info code)"

definition out_err :: "string \<Rightarrow> int \<Rightarrow> (nb, unit) cpp" where
  "out_err info code = bnd (err_msg info code) outl"

definition throw_err :: "string \<Rightarrow> int \<Rightarrow> (nb, 'a) cpp" where
  "throw_err info code = bnd (err_msg info code) (\<lambda>m. throw (RuntimeError m))"

definition sys_nb :: "call_nb \<Rightarrow> (nb, sys_ans) cpp" where
  "sys_nb c = (\<lambda>w. let w' = w\<lparr>nb_calls := nb_calls w @ [c]\<rparr> in
     case nb_sys w of [] \<Rightarrow> (Pending, w') | a # as \<Rightarrow> (Val a, w'\<lparr>nb_sys := as\<rparr>))"

definition next_read :: "(nb, read_ans) cpp" where
  "next_read = (\<lambda>w. case nb_read w of
       [] \<Rightarrow> (Pending, w)
     | ReadErr e # as \<Rightarrow> (Val (ReadErr e), w\<lparr>nb_read := as, nb_errno := e\<rparr>)
     | ReadOk bs # as \<Rightarrow> (Val (ReadOk bs), w\<lparr>nb_read := as\<rparr>))"

definition next_wait :: "(nb, wait_nb) cpp" where
  "next_wait = (\<lambda>w. case nb_wait w of [] \<Rightarrow> (Pending, w) | a # as \<Rightarrow> (Val a, w\<lparr>nb_wait := as\<rparr>))"

text \<open>The bytes of a buffer of \<open>n\<close> bytes as a C string, after \<open>read\<close> has stored \<open>bs\<close> in it.\<close>

definition buf_text :: "nat \<Rightarrow> string \<Rightarrow> (nb, string) cpp" where
  "buf_text n bs = (case c_str (buffer_after n bs) of None \<Rightarrow> undef ''buf'' | Some s \<Rightarrow> ret s)"

definition bufSize_nb :: nat where "bufSize_nb = 3"

section \<open>The shared functions\<close>

definition Epoll_CreateEpollFd_nb :: "(nb, int) cpp" where
  "Epoll_CreateEpollFd_nb =
     bnd (sys_nb EpollCreate1) (\<lambda>r. case r of SysErr code \<Rightarrow> throw_err ''epoll_create1 failed'' code | SysOk fd \<Rightarrow> ret fd)"

definition Epoll_Add_nb :: "int \<Rightarrow> u32 \<Rightarrow> (nb, unit) cpp" where
  "Epoll_Add_nb fd eventMask =
     bnd (sys_nb (EpollCtlAdd fd eventMask)) (\<lambda>r. case r of SysErr code \<Rightarrow> throw_err ''epoll_ctl failed'' code | SysOk _ \<Rightarrow> skip)"

text \<open>\<open>Wait\<close> tries again when a signal interrupts it; the loop follows the script.\<close>

fun Epoll_Wait_loop :: "wait_nb list \<Rightarrow> (nb, int list) cpp" where
  "Epoll_Wait_loop [] = (\<lambda>w. (Pending, w\<lparr>nb_wait := []\<rparr>))"
| "Epoll_Wait_loop (WaitErr code # as) =
     (if code = EINTR then sq (outl ''timeout'') (Epoll_Wait_loop as)
      else sq (modify (\<lambda>w. w\<lparr>nb_wait := as\<rparr>)) (throw_err ''epoll_wait failed'' code))"
| "Epoll_Wait_loop (WaitOk fds # as) = sq (modify (\<lambda>w. w\<lparr>nb_wait := as\<rparr>)) (ret fds)"

definition Epoll_Wait_nb :: "(nb, int list) cpp" where
  "Epoll_Wait_nb = bnd (gets nb_wait) Epoll_Wait_loop"

text \<open>In the edge-triggered program for standard input \<open>Wait\<close> goes on after a timeout, too.\<close>

fun Epoll_Wait_stdin_loop :: "wait_nb list \<Rightarrow> (nb, int list) cpp" where
  "Epoll_Wait_stdin_loop [] = (\<lambda>w. (Pending, w\<lparr>nb_wait := []\<rparr>))"
| "Epoll_Wait_stdin_loop (WaitErr code # as) =
     (if code = EINTR then sq (outl ''timeout'') (Epoll_Wait_stdin_loop as)
      else sq (modify (\<lambda>w. w\<lparr>nb_wait := as\<rparr>)) (throw_err ''epoll_wait failed'' code))"
| "Epoll_Wait_stdin_loop (WaitOk fds # as) =
     (if fds = [] then sq (outl ''timeout'') (Epoll_Wait_stdin_loop as)
      else sq (modify (\<lambda>w. w\<lparr>nb_wait := as\<rparr>)) (ret fds))"

definition Epoll_Wait_stdin :: "(nb, int list) cpp" where
  "Epoll_Wait_stdin = bnd (gets nb_wait) Epoll_Wait_stdin_loop"

definition SetNonBlocking_nb :: "int \<Rightarrow> (nb, unit) cpp" where
  "SetNonBlocking_nb fd =
     bnd (sys_nb (FcntlGet fd)) (\<lambda>r.
     bnd (sys_nb (FcntlSet fd ((case r of SysErr _ \<Rightarrow> - 1 | SysOk v \<Rightarrow> v) OR O_NONBLOCK))) (\<lambda>_. skip))"

definition Popen_nb :: "string \<Rightarrow> string \<Rightarrow> (nb, int) cpp" where
  "Popen_nb command type =
     bnd (sys_nb (PopenCall command type)) (\<lambda>r. case r of SysErr code \<Rightarrow> throw_err ''popen failed'' code | SysOk fd \<Rightarrow> ret fd)"

definition CreateFile_nb :: "string \<Rightarrow> (nb, unit) cpp" where
  "CreateFile_nb filePath =
     bnd (sys_nb (Creat filePath)) (\<lambda>r. case r of
       SysErr code \<Rightarrow> out_err (''creat failed, filePath: '' @ [CHR 0x22] @ filePath @ [CHR 0x22]) code
     | SysOk _ \<Rightarrow> skip)"

definition GetTailCommand :: "string \<Rightarrow> string" where
  "GetTailCommand filePath = ''tail -f '' @ filePath"

definition CloseFile_nb :: "int \<Rightarrow> (nb, unit) cpp" where
  "CloseFile_nb fd =
     bnd (sys_nb (CloseCall fd)) (\<lambda>r. case r of
       SysErr code \<Rightarrow> out_err (''close failed'' @ to_string_int fd) code
     | SysOk _ \<Rightarrow> skip)"

text \<open>\<open>GetInput\<close> of the pipe programs with \<open>poll\<close>, \<open>select\<close> and level-triggered \<open>epoll\<close>.\<close>

definition tagged :: "string \<Rightarrow> int \<Rightarrow> string" where
  "tagged what fd = what @ ''<'' @ to_string_int fd @ ''>''"

definition GetInput_level :: "int \<Rightarrow> (nb, unit) cpp" where
  "GetInput_level fd =
     bnd next_read (\<lambda>a. case a of
       ReadErr code \<Rightarrow> out_err (''read failed'' @ to_string_int fd) code
     | ReadOk bs \<Rightarrow>
         if bs = [] then outl (tagged ''eof'' fd)
         else bnd (buf_text bufSize_nb bs) (\<lambda>s. outl (tagged ''input'' fd @ '': '' @ s)))"

text \<open>\<open>GetInput\<close> of \<open>epoll_closed_fd\<close>, which throws.\<close>

definition GetInput_closed :: "int \<Rightarrow> (nb, unit) cpp" where
  "GetInput_closed fd =
     bnd next_read (\<lambda>a. case a of
       ReadErr code \<Rightarrow> throw_err (tagged ''read failed'' fd) code
     | ReadOk bs \<Rightarrow>
         if bs = [] then outl (tagged ''eof'' fd)
         else bnd (buf_text bufSize_nb bs) (\<lambda>s. outl (tagged ''input'' fd @ '': '' @ s)))"

text \<open>
  The reading loop of the edge-triggered programs. \<open>None\<close> is the return on the end of the input or on an
  error; \<open>Some s\<close> is the text collected until the pipe is empty.
\<close>

fun read_edge :: "string \<Rightarrow> read_ans list \<Rightarrow> (nb, string option) cpp" where
  "read_edge s [] = (\<lambda>w. (Pending, w\<lparr>nb_read := []\<rparr>))"
| "read_edge s (ReadErr code # as) = sq (modify (\<lambda>w. w\<lparr>nb_read := as, nb_errno := code\<rparr>))
     (if code = EAGAIN then sq (out_err ''read to end'' code) (ret (Some s))
      else sq (out_err ''read failed'' code) (ret None))"
| "read_edge s (ReadOk bs # as) =
     (if bs = [] then sq (modify (\<lambda>w. w\<lparr>nb_read := as\<rparr>)) (sq (outl ''eof'') (ret None))
      else bnd (buf_text bufSize_nb bs) (\<lambda>t. read_edge (s @ t) as))"

definition GetInput_edge :: "int \<Rightarrow> (nb, unit) cpp" where
  "GetInput_edge fd =
     bnd (gets nb_read) (\<lambda>as. bnd (read_edge [] as) (\<lambda>r. case r of
       None \<Rightarrow> skip
     | Some s \<Rightarrow> outl (''input: '' @ s)))"

section \<open>The programs\<close>

text \<open>A pass of a loop returns whether it goes on; \<open>passes n\<close> is the loop for at most \<open>n\<close> passes.\<close>

primrec passes :: "nat \<Rightarrow> (nb, bool) cpp \<Rightarrow> (nb, unit) cpp" where
  "passes 0 m = skip"
| "passes (Suc n) m = bnd m (\<lambda>go. if go then passes n m else skip)"

definition STDIN_nb :: int where "STDIN_nb = 0"

text \<open>\<open>read_from_stdin\<close>: what is done with one read, except in the edge-triggered program.\<close>

definition show_read :: "(nb, bool) cpp" where
  "show_read =
     bnd next_read (\<lambda>a. case a of
       ReadErr code \<Rightarrow> sq (out_err ''read failed'' code) (ret True)
     | ReadOk bs \<Rightarrow>
         if bs = [] then sq (outl ''eof'') (ret False)
         else bnd (buf_text bufSize_nb bs) (\<lambda>s. sq (outl (''input: '' @ s)) (ret True)))"

definition Run_stdin_poll :: "nat \<Rightarrow> (nb, unit) cpp" where
  "Run_stdin_poll n = passes n
     (bnd next_wait (\<lambda>a. case a of
        WaitOk fds \<Rightarrow> if fds \<noteq> [] then show_read else sq (outl ''timeout'') (ret True)
      | WaitErr code \<Rightarrow> sq (out_err ''poll failed'' code) (ret False)))"

definition Run_stdin_select :: "nat \<Rightarrow> (nb, unit) cpp" where
  "Run_stdin_select n = passes n
     (bnd next_wait (\<lambda>a. case a of
        WaitOk fds \<Rightarrow> if fds \<noteq> [] then show_read else sq (outl ''timeout'') (ret True)
      | WaitErr code \<Rightarrow> sq (bnd (err_msg ''select failed'' code) out) (ret False)))"

definition Run_stdin_level :: "nat \<Rightarrow> (nb, unit) cpp" where
  "Run_stdin_level n =
     bnd Epoll_CreateEpollFd_nb (\<lambda>_. sq (Epoll_Add_nb STDIN_nb EPOLLIN)
     (passes n (bnd Epoll_Wait_nb (\<lambda>fds. if fds \<noteq> [] then show_read else sq (outl ''timeout'') (ret True)))))"

definition Run_stdin_edge :: "nat \<Rightarrow> (nb, unit) cpp" where
  "Run_stdin_edge n =
     bnd Epoll_CreateEpollFd_nb (\<lambda>_. sq (Epoll_Add_nb STDIN_nb (EPOLLIN OR EPOLLET)) (sq (SetNonBlocking_nb STDIN_nb)
     (passes n (bnd Epoll_Wait_stdin (\<lambda>fds.
        if fds \<noteq> [] then
          bnd (gets nb_read) (\<lambda>as. bnd (read_edge [] as) (\<lambda>r. case r of
            None \<Rightarrow> ret False
          | Some s \<Rightarrow> sq (outl (''input: '' @ s)) (ret True)))
        else ret True)))))"

text \<open>
  \<open>use_loop\<close> compares the number of bytes read with \<open>EAGAIN\<close>. Its buffer has one byte more than it reads.
\<close>

definition Run_stdin_loop :: "nat \<Rightarrow> (nb, unit) cpp" where
  "Run_stdin_loop n = sq (SetNonBlocking_nb STDIN_nb) (passes n
     (bnd next_read (\<lambda>a. case a of
        ReadErr code \<Rightarrow> sq (out_err (if code = EAGAIN then ''no data'' else ''read failed'') code) (ret True)
      | ReadOk bs \<Rightarrow>
          if int (length bs) = EAGAIN then bnd (gets nb_errno) (\<lambda>code. sq (out_err ''no data'' code) (ret True))
          else if bs \<noteq> [] then bnd (buf_text (bufSize_nb + 1) bs) (\<lambda>s. sq (outl (''input: '' @ s)) (ret True))
          else sq (outl ''eof'') (ret False))))"

text \<open>\<open>read_from_pipe\<close>: two \<open>tail\<close> processes are started and both are watched.\<close>

definition open_pipes :: "(nb, int \<times> int) cpp" where
  "open_pipes =
     sq (CreateFile_nb ''/tmp/1.txt'') (sq (CreateFile_nb ''/tmp/2.txt'')
    (bnd (Popen_nb (GetTailCommand ''/tmp/1.txt'') ''r'') (\<lambda>fd1.
     bnd (Popen_nb (GetTailCommand ''/tmp/2.txt'') ''r'') (\<lambda>fd2. ret (fd1, fd2)))))"

definition both_inputs :: "int \<Rightarrow> int \<Rightarrow> int list \<Rightarrow> (nb, unit) cpp" where
  "both_inputs fd1 fd2 fds =
     sq (whenb (fd1 \<in> set fds) (GetInput_level fd1)) (whenb (fd2 \<in> set fds) (GetInput_level fd2))"

definition Run_pipe_poll :: "nat \<Rightarrow> (nb, unit) cpp" where
  "Run_pipe_poll n = bnd open_pipes (\<lambda>(fd1, fd2). passes n
     (bnd next_wait (\<lambda>a. case a of
        WaitOk fds \<Rightarrow> if fds \<noteq> [] then sq (both_inputs fd1 fd2 fds) (ret True) else sq (outl ''timeout'') (ret True)
      | WaitErr code \<Rightarrow> sq (out_err ''poll failed'' code) (ret False))))"

definition Run_pipe_select :: "nat \<Rightarrow> (nb, unit) cpp" where
  "Run_pipe_select n = bnd open_pipes (\<lambda>(fd1, fd2). passes n
     (bnd next_wait (\<lambda>a. case a of
        WaitOk fds \<Rightarrow> if fds \<noteq> [] then sq (both_inputs fd1 fd2 fds) (ret True) else sq (outl ''timeout'') (ret True)
      | WaitErr code \<Rightarrow> sq (bnd (err_msg ''select failed'' code) out) (ret False))))"

primrec each_input :: "(int \<Rightarrow> (nb, unit) cpp) \<Rightarrow> int list \<Rightarrow> (nb, unit) cpp" where
  "each_input f [] = skip"
| "each_input f (fd # fds) = sq (f fd) (each_input f fds)"

definition epoll_pass :: "(int \<Rightarrow> (nb, unit) cpp) \<Rightarrow> (nb, bool) cpp" where
  "epoll_pass f = bnd Epoll_Wait_nb (\<lambda>fds. sq (if fds \<noteq> [] then each_input f fds else outl ''timeout'') (ret True))"

definition Run_pipe_level :: "nat \<Rightarrow> (nb, unit) cpp" where
  "Run_pipe_level n = bnd open_pipes (\<lambda>(fd1, fd2).
     bnd Epoll_CreateEpollFd_nb (\<lambda>_. sq (Epoll_Add_nb fd1 EPOLLIN) (sq (Epoll_Add_nb fd2 EPOLLIN)
     (passes n (epoll_pass GetInput_level)))))"

definition Run_pipe_edge :: "nat \<Rightarrow> (nb, unit) cpp" where
  "Run_pipe_edge n = bnd open_pipes (\<lambda>(fd1, fd2).
     bnd Epoll_CreateEpollFd_nb (\<lambda>_. sq (Epoll_Add_nb fd1 (EPOLLIN OR EPOLLET)) (sq (Epoll_Add_nb fd2 (EPOLLIN OR EPOLLET))
     (sq (SetNonBlocking_nb fd1) (sq (SetNonBlocking_nb fd2)
     (passes n (epoll_pass GetInput_edge)))))))"

definition Run_closed_fd :: "nat \<Rightarrow> (nb, unit) cpp" where
  "Run_closed_fd n =
     bnd Epoll_CreateEpollFd_nb (\<lambda>_. sq (Epoll_Add_nb STDIN_nb EPOLLIN) (sq (CloseFile_nb STDIN_nb)
     (passes n (epoll_pass GetInput_closed))))"

text \<open>\<open>main\<close> is the same in all of them.\<close>

definition main_nb :: "(nb, unit) cpp \<Rightarrow> (nb, int) cpp" where
  "main_nb Run = sq (try_catch Run (\<lambda>e. outl (''exception: '' @
     (case e of RuntimeError m \<Rightarrow> m | InvalidArgument m \<Rightarrow> m | StdOutOfRange m \<Rightarrow> m)))) (ret 0)"

section \<open>What is shown of the input\<close>

lemmas nb_ops = out_def outl_def err_msg_def out_err_def throw_err_def next_read_def buf_text_def

definition short :: "string \<Rightarrow> bool" where
  "short c \<longleftrightarrow> c \<noteq> [] \<and> length c < bufSize_nb \<and> CHR 0x00 \<notin> set c"

lemma buf_text_short: "short c \<Longrightarrow> buf_text bufSize_nb c = ret c"
  by (simp add: buf_text_def short_def c_str_buffer)

lemma read_edge_chunks: "\<forall>c \<in> set cs. short c \<Longrightarrow> read_edge s (map ReadOk cs @ as) w = read_edge (s @ concat cs) as w"
  by (induction cs arbitrary: s) (auto simp: short_def buf_text_short[unfolded short_def] bnd_eval ret_run)

text \<open>When the pipe has been emptied, the edge-triggered program shows all of it at once.\<close>

lemma edge_shows_all:
  assumes "nb_read w = map ReadOk cs @ ReadErr EAGAIN # as" "\<forall>c \<in> set cs. short c"
  shows "\<exists>w'. GetInput_edge fd w = (Val (), w') \<and> nb_read w' = as \<and>
    nb_out w' = nb_out w @ GetErrorMsg (nb_strerror w) ''read to end'' EAGAIN @ newline @ ''input: '' @ concat cs @ newline"
  using assms by (simp add: GetInput_edge_def read_edge_chunks nb_ops cpp_eval)

primrec level_events :: "nat \<Rightarrow> int \<Rightarrow> (nb, unit) cpp" where
  "level_events 0 fd = skip"
| "level_events (Suc n) fd = sq (GetInput_level fd) (level_events n fd)"

definition shown_level :: "int \<Rightarrow> string list \<Rightarrow> string" where
  "shown_level fd cs = concat (map (\<lambda>c. tagged ''input'' fd @ '': '' @ c @ newline) cs)"

lemma level_shows:
  assumes "nb_read w = map ReadOk cs @ as" "\<forall>c \<in> set cs. short c"
  shows "level_events (length cs + k) fd w =
    level_events k fd (w\<lparr>nb_read := as, nb_out := nb_out w @ shown_level fd cs\<rparr>)"
  using assms
proof (induction cs arbitrary: w)
  case Nil
  then have "w\<lparr>nb_read := as\<rparr> = w" by simp
  then show ?case by (simp add: shown_level_def)
next
  case (Cons c cs)
  let ?w = "w\<lparr>nb_read := map ReadOk cs @ as, nb_out := nb_out w @ tagged ''input'' fd @ '': '' @ c @ newline\<rparr>"
  have "GetInput_level fd w = (Val (), ?w)"
    using Cons.prems buf_text_short[of c] by (simp add: GetInput_level_def next_read_def out_def outl_def cpp_eval short_def)
  with Cons.IH[of ?w] Cons.prems(2) show ?case by (simp add: sq_eval shown_level_def)
qed

text \<open>A read that fills the buffer without a zero byte leaves no terminator in it.\<close>

lemma buf_text_full:
  assumes "length b = bufSize_nb" "CHR 0x00 \<notin> set b"
  shows "buf_text bufSize_nb b = undef ''buf''" "b \<noteq> []" "int (length b) \<noteq> EAGAIN"
  using assms by (auto simp: buf_text_def c_str_buffer_full bufSize_nb_def EAGAIN_def)

text \<open>
  C34. Input that is followed by the end of the input is lost by the edge-triggered program, when every read
  delivers one or two bytes and none of them zero: it has collected the bytes, but on the end it says \<open>eof\<close>
  and returns without showing them. The level-triggered program shows every one of them, given the same
  answers of \<open>read\<close>, one for each event. A read that fills the buffer of three bytes, none of them zero, is
  undefined behaviour in both programs, whatever such short reads came before it.
\<close>

theorem edge_loses_last_input:
  assumes "\<forall>c \<in> set cs. short c"
  shows "(\<forall>(w :: nb) as. nb_read w = map ReadOk cs @ ReadOk [] # as \<longrightarrow>
      GetInput_edge fd w = (Val (), w\<lparr>nb_read := as, nb_out := nb_out w @ ''eof'' @ newline\<rparr>) \<and>
      level_events (length cs + 1) fd w = (Val (), w\<lparr>nb_read := as,
        nb_out := nb_out w @ shown_level fd cs @ tagged ''eof'' fd @ newline\<rparr>)) \<and>
    (\<forall>(w :: nb) b as. nb_read w = map ReadOk cs @ ReadOk b # as \<and> length b = bufSize_nb \<and> CHR 0x00 \<notin> set b \<longrightarrow>
      fst (GetInput_edge fd w) = Undef ''buf'' \<and> fst (level_events (length cs + 1) fd w) = Undef ''buf'')"
proof (intro conjI allI impI)
  fix w :: nb and as assume r: "nb_read w = map ReadOk cs @ ReadOk [] # as"
  show "GetInput_edge fd w = (Val (), w\<lparr>nb_read := as, nb_out := nb_out w @ ''eof'' @ newline\<rparr>)"
    using r assms by (simp add: GetInput_edge_def read_edge_chunks nb_ops cpp_eval)
  show "level_events (length cs + 1) fd w = (Val (), w\<lparr>nb_read := as,
      nb_out := nb_out w @ shown_level fd cs @ tagged ''eof'' fd @ newline\<rparr>)"
    using level_shows[OF r assms, of 1 fd] by (simp add: GetInput_level_def nb_ops cpp_eval)
next
  fix w :: nb and b as assume r: "nb_read w = map ReadOk cs @ ReadOk b # as \<and> length b = bufSize_nb \<and> CHR 0x00 \<notin> set b"
  note f = buf_text_full[OF conjunct1[OF conjunct2[OF r]] conjunct2[OF conjunct2[OF r]]]
  show "fst (GetInput_edge fd w) = Undef ''buf''"
    using r assms f by (simp add: GetInput_edge_def read_edge_chunks cpp_eval)
  show "fst (level_events (length cs + 1) fd w) = Undef ''buf''"
    using level_shows[OF conjunct1[OF r] assms, of 1 fd] f by (simp add: GetInput_level_def next_read_def cpp_eval)
qed

lemma edge_loses_last_input_witness:
  "\<exists>w. nb_read w = map ReadOk [''hi'', ''!''] @ ReadOk [] # [] \<and> short ''hi'' \<and> short ''!'' \<and>
     nb_out (snd (GetInput_edge 5 w)) = ''eof'' @ newline \<and>
     fst (GetInput_edge 5 (w\<lparr>nb_read := [ReadOk ''hi'', ReadOk ''!'', ReadOk ''bye'']\<rparr>)) = Undef ''buf''"
proof -
  let ?w = "\<lparr>nb_strerror = (\<lambda>_. []), nb_errno = 0, nb_read = map ReadOk [''hi'', ''!''] @ ReadOk [] # [], nb_wait = [], nb_sys = [],
    nb_calls = [], nb_out = []\<rparr>"
  have h: "\<forall>c \<in> set [''hi'', ''!'']. short c" by (simp add: short_def bufSize_nb_def)
  note both = edge_loses_last_input[OF h, of 5]
  have "GetInput_edge 5 ?w = (Val (), ?w\<lparr>nb_read := [], nb_out := ''eof'' @ newline\<rparr>)"
    using conjunct1[OF both, rule_format, of ?w "[]"] by simp
  moreover have "fst (GetInput_edge 5 (?w\<lparr>nb_read := [ReadOk ''hi'', ReadOk ''!'', ReadOk ''bye'']\<rparr>)) = Undef ''buf''"
    using conjunct2[OF both, rule_format, of "?w\<lparr>nb_read := [ReadOk ''hi'', ReadOk ''!'', ReadOk ''bye'']\<rparr>" "''bye''" "[]"]
    by (simp add: bufSize_nb_def)
  ultimately show ?thesis using h by (intro exI[of _ ?w]) simp
qed

text \<open>All of them read a full buffer as a C string, past its end, except \<open>use_loop\<close>, whose buffer has one byte more.\<close>

lemma full_buffer_undefined:
  assumes "length bs = bufSize_nb" "CHR 0x00 \<notin> set bs"
  shows "buf_text bufSize_nb bs = undef ''buf''" "buf_text (bufSize_nb + 1) bs = ret bs"
  using assms by (simp_all add: buf_text_def c_str_buffer_full c_str_buffer)

end
