(* ===== verification/Udp_Echo.thy ===== *)
theory Udp_Echo
  imports Posix_Io
begin

text \<open>
  \<open>socket/udp\<close>: a datagram echo server, its client (with a connected socket or without, as the source is
  compiled) and a client that broadcasts. The names end in \<open>_udp\<close> where other programs have the same.
\<close>

section \<open>State\<close>

type_synonym addr_udp = "string \<times> u16"

datatype call_udp = USocket | USetsockopt int | UConnect int addr_udp | UBind int addr_udp

text \<open>A datagram arrives whole, with the address of its sender.\<close>

datatype dgram_ans = RecvErr int | RecvOk addr_udp string

text \<open>
  A process: its standard input, the scripts of the kernel, standard output, and the datagrams that were
  sent.
\<close>

record udp =
  u_strerror :: "int \<Rightarrow> string"
  u_errno :: int
  u_fp :: string
  u_sys :: "sys_ans list"
  u_aton :: bool
  u_send :: "write_ans list"
  u_recv :: "dgram_ans list"
  u_calls :: "call_udp list"
  u_out :: string
  u_sent :: "(addr_udp \<times> string) list"

definition MAXLINE :: nat where "MAXLINE = 0xffff - 8"

definition error_udp :: "string \<Rightarrow> int \<Rightarrow> (udp, 'a) cpp" where
  "error_udp fn code = bnd (gets u_strerror) (\<lambda>se. throw (RuntimeError (fn @ '', '' @ se code)))"

definition sys_udp :: "string \<Rightarrow> call_udp \<Rightarrow> (udp, int) cpp" where
  "sys_udp fn c = (\<lambda>w. let w' = w\<lparr>u_calls := u_calls w @ [c]\<rparr> in
     case u_sys w of
       [] \<Rightarrow> (Pending, w')
     | SysErr code # as \<Rightarrow> error_udp fn code (w'\<lparr>u_sys := as\<rparr>)
     | SysOk v # as \<Rightarrow> (Val v, w'\<lparr>u_sys := as\<rparr>))"

section \<open>Wrappers\<close>

definition Socket_udp :: "(udp, int) cpp" where
  "Socket_udp = sys_udp ''Socket'' USocket"

definition Setsockopt_udp :: "int \<Rightarrow> (udp, unit) cpp" where
  "Setsockopt_udp fd = bnd (sys_udp ''Setsockopt'' (USetsockopt fd)) (\<lambda>_. skip)"

definition Connect_udp :: "int \<Rightarrow> addr_udp \<Rightarrow> (udp, unit) cpp" where
  "Connect_udp fd a = bnd (sys_udp ''Connect'' (UConnect fd a)) (\<lambda>_. skip)"

definition SetServAddr :: "string \<Rightarrow> int \<Rightarrow> (udp, addr_udp) cpp" where
  "SetServAddr servIp servPort =
     bnd (gets u_aton) (\<lambda>ok.
       if \<not> ok then bnd (gets u_errno) (error_udp ''SetServAddr'')
       else ret (servIp, htons (of_int servPort)))"

definition Bind_udp :: "int \<Rightarrow> string \<Rightarrow> int \<Rightarrow> (udp, unit) cpp" where
  "Bind_udp fd ip port =
     bnd (gets u_aton) (\<lambda>ok.
       if \<not> ok then bnd (gets u_errno) (error_udp ''Bind'')
       else bnd (sys_udp ''Bind'' (UBind fd (ip, htons (of_int port)))) (\<lambda>_. skip))"

text \<open>\<open>SendTo\<close> and \<open>Write\<close> send a datagram, \<open>RecvFrom\<close> and \<open>Read\<close> receive one; what does not fit is cut off.\<close>

definition send_udp :: "string \<Rightarrow> addr_udp \<Rightarrow> string \<Rightarrow> (udp, int) cpp" where
  "send_udp fn to bs = (\<lambda>w. case u_send w of
       [] \<Rightarrow> (Pending, w)
     | WriteErr code # as \<Rightarrow> error_udp fn code (w\<lparr>u_send := as\<rparr>)
     | WriteOk n # as \<Rightarrow> (Val (int n), w\<lparr>u_send := as, u_sent := u_sent w @ [(to, bs)]\<rparr>))"

definition recv_udp :: "string \<Rightarrow> nat \<Rightarrow> (udp, addr_udp \<times> string) cpp" where
  "recv_udp fn len = (\<lambda>w. case u_recv w of
       [] \<Rightarrow> (Pending, w)
     | RecvErr code # as \<Rightarrow> error_udp fn code (w\<lparr>u_recv := as\<rparr>)
     | RecvOk a bs # as \<Rightarrow> (Val (a, take len bs), w\<lparr>u_recv := as\<rparr>))"

definition SendTo :: "addr_udp \<Rightarrow> string \<Rightarrow> (udp, int) cpp" where
  "SendTo = send_udp ''SendTo''"

definition RecvFrom :: "nat \<Rightarrow> (udp, addr_udp \<times> string) cpp" where
  "RecvFrom = recv_udp ''RecvFrom''"

definition Write_udp :: "addr_udp \<Rightarrow> string \<Rightarrow> (udp, int) cpp" where
  "Write_udp = send_udp ''Write''"

definition Read_udp :: "nat \<Rightarrow> (udp, addr_udp \<times> string) cpp" where
  "Read_udp = recv_udp ''Read''"

section \<open>Clients\<close>

text \<open>
  \<open>fgets(line, n, fp)\<close>: up to and including the next line end, but at most \<open>n - 1\<close> bytes; \<open>None\<close> at the end of the
  file.
\<close>

definition fgets :: "nat \<Rightarrow> string \<Rightarrow> (string \<times> string) option" where
  "fgets n s =
     (if s = [] then None
      else let k = min (case find_char (CHR 0x0A) s of Some p \<Rightarrow> p + 1 | None \<Rightarrow> length s) (n - 1) in
        Some (take k s, drop k s))"

text \<open>What the calls of \<open>fgets\<close> in a client return, one after the other.\<close>

function lines_of :: "string \<Rightarrow> string list" where
  "lines_of s = (case fgets MAXLINE s of None \<Rightarrow> [] | Some (l, r) \<Rightarrow> l # lines_of r)"
  by pat_completeness auto
termination
  by (relation "measure length")
    (auto simp: fgets_def MAXLINE_def Let_def min_def dest: find_char_SomeD split: if_splits option.splits)

declare lines_of.simps [simp del]

text \<open>\<open>strlen\<close> and \<open>fputs\<close> stop at a zero byte.\<close>

definition c_part :: "string \<Rightarrow> string" where
  "c_part bs = takeWhile (\<lambda>c. c \<noteq> CHR 0x00) bs"

text \<open>The body of the clients' loops: a line is sent, an answer is awaited and printed.\<close>

definition exchange :: "(string \<Rightarrow> (udp, int) cpp) \<Rightarrow> (nat \<Rightarrow> (udp, addr_udp \<times> string) cpp) \<Rightarrow> string \<Rightarrow> (udp, unit) cpp" where
  "exchange snd_op rcv_op sendline =
     bnd (snd_op (c_part sendline)) (\<lambda>_.
     bnd (rcv_op MAXLINE) (\<lambda>(a, recvline). modify (\<lambda>w. w\<lparr>u_out := u_out w @ c_part recvline\<rparr>)))"

primrec each_line :: "(string \<Rightarrow> (udp, unit) cpp) \<Rightarrow> string list \<Rightarrow> (udp, unit) cpp" where
  "each_line f [] = skip"
| "each_line f (l # ls) = sq (f l) (each_line f ls)"

definition DgCli_connected :: "int \<Rightarrow> addr_udp \<Rightarrow> (udp, unit) cpp" where
  "DgCli_connected fd serv =
     sq (Connect_udp fd serv)
    (bnd (gets u_fp) (\<lambda>t. each_line (exchange (Write_udp serv) Read_udp) (lines_of t)))"

definition DgCli_unconnected :: "int \<Rightarrow> addr_udp \<Rightarrow> (udp, unit) cpp" where
  "DgCli_unconnected fd serv =
     bnd (gets u_fp) (\<lambda>t. each_line (exchange (SendTo serv) RecvFrom) (lines_of t))"

definition DgCli_broadcast :: "int \<Rightarrow> addr_udp \<Rightarrow> (udp, unit) cpp" where
  "DgCli_broadcast fd serv =
     sq (Setsockopt_udp fd)
    (bnd (gets u_fp) (\<lambda>t. each_line (exchange (SendTo serv) RecvFrom) (lines_of t)))"

definition caught_udp :: "(udp, unit) cpp \<Rightarrow> (udp, int) cpp" where
  "caught_udp m = sq (try_catch m (\<lambda>e. modify (\<lambda>w. w\<lparr>u_out := u_out w @
     (case e of RuntimeError t \<Rightarrow> t | InvalidArgument t \<Rightarrow> t | StdOutOfRange t \<Rightarrow> t) @ newline\<rparr>))) (ret 0)"

text \<open>\<open>main\<close>, given the arguments without the program's name.\<close>

definition client_main :: "string \<Rightarrow> (int \<Rightarrow> addr_udp \<Rightarrow> (udp, unit) cpp) \<Rightarrow> string list \<Rightarrow> (udp, unit) cpp" where
  "client_main usage DgCli args = (case args of
       [ip, port] \<Rightarrow>
         bnd (lift_sum (stoi port)) (\<lambda>servPort.
         bnd (SetServAddr ip servPort) (\<lambda>serv.
         bnd Socket_udp (\<lambda>fd. DgCli fd serv)))
     | _ \<Rightarrow> throw (RuntimeError usage))"

definition main_unicast :: "bool \<Rightarrow> string list \<Rightarrow> (udp, int) cpp" where
  "main_unicast CONNECT args =
     caught_udp (client_main (''wrong args, try:'' @ newline @ ''    client <ip> <port>'')
       (if CONNECT then DgCli_connected else DgCli_unconnected) args)"

definition main_broadcast :: "string list \<Rightarrow> (udp, int) cpp" where
  "main_broadcast args = caught_udp (client_main ''wrong argc'' DgCli_broadcast args)"

section \<open>Server\<close>

text \<open>The loop of \<open>DgEcho\<close>, for \<open>n\<close> passes.\<close>

primrec DgEcho :: "nat \<Rightarrow> (udp, unit) cpp" where
  "DgEcho 0 = skip"
| "DgEcho (Suc n) = bnd (RecvFrom MAXLINE) (\<lambda>(cli, mesg). bnd (SendTo cli mesg) (\<lambda>_. DgEcho n))"

definition main_server :: "nat \<Rightarrow> string list \<Rightarrow> (udp, int) cpp" where
  "main_server n args = caught_udp (case args of
       [port] \<Rightarrow>
         bnd (lift_sum (stoi port)) (\<lambda>serverPort.
         bnd Socket_udp (\<lambda>fd. sq (Bind_udp fd ''0.0.0.0'' serverPort) (DgEcho n)))
     | _ \<Rightarrow> throw (RuntimeError ''wrong argc''))"

section \<open>Echo\<close>

lemma lines_of_nil [simp]: "lines_of [] = []"
  by (simp add: lines_of.simps fgets_def)

lemma lines_of_cons:
  "s \<noteq> [] \<Longrightarrow> \<exists>l r. lines_of s = l # lines_of r \<and> s = l @ r \<and> l \<noteq> [] \<and> length l < MAXLINE \<and> length r < length s"
proof -
  assume s: "s \<noteq> []"
  define k where "k = min (case find_char (CHR 0x0A) s of Some p \<Rightarrow> p + 1 | None \<Rightarrow> length s) (MAXLINE - 1)"
  have k: "0 < k" "k < MAXLINE" using s by (auto simp: k_def MAXLINE_def split: option.split)
  have "lines_of s = take k s # lines_of (drop k s)"
    using s by (subst lines_of.simps) (simp add: fgets_def Let_def k_def)
  with s k show ?thesis by (intro exI[of _ "take k s"] exI[of _ "drop k s"]) auto
qed

lemma lines_of_split:
  "concat (lines_of s) = s \<and> (\<forall>l \<in> set (lines_of s). l \<noteq> [] \<and> length l < MAXLINE \<and> set l \<subseteq> set s)"
proof (induction "length s" arbitrary: s rule: less_induct)
  case less
  show ?case
  proof (cases "s = []")
    case False
    then obtain l r where lr: "lines_of s = l # lines_of r" "s = l @ r" "l \<noteq> []" "length l < MAXLINE" "length r < length s"
      using lines_of_cons by blast
    with less[OF lr(5)] show ?thesis by auto
  qed simp
qed

lemma c_part_id: "CHR 0x00 \<notin> set l \<Longrightarrow> c_part l = l"
  unfolding c_part_def by (subst takeWhile_eq_all_conv) auto

text \<open>A run of exchanges in which every line is answered by itself.\<close>

lemma exchanges_run:
  assumes "\<And>to bs. snd_op to bs = send_udp fn to bs" "\<And>n. rcv_op n = recv_udp fn' n"
    and "\<forall>l \<in> set ls. CHR 0x00 \<notin> set l \<and> length l < MAXLINE"
    and "u_recv w = map (RecvOk a) ls @ rs" "u_send w = map WriteOk ns @ ss" "length ns = length ls"
  shows "each_line (exchange (snd_op serv) rcv_op) ls w =
    (Val (), w\<lparr>u_recv := rs, u_send := ss, u_out := u_out w @ concat ls, u_sent := u_sent w @ map (Pair serv) ls\<rparr>)"
  using assms(3-)
proof (induction ls arbitrary: w ns)
  case Nil
  then show ?case by (simp add: skip_run)
next
  case (Cons l ls)
  then obtain n ns' where ns: "ns = n # ns'" by (cases ns) auto
  let ?w = "w\<lparr>u_recv := map (RecvOk a) ls @ rs, u_send := map WriteOk ns' @ ss, u_out := u_out w @ l,
     u_sent := u_sent w @ [(serv, l)]\<rparr>"
  have "exchange (snd_op serv) rcv_op l w = (Val (), ?w)"
    using Cons.prems ns by (simp add: exchange_def assms(1,2) send_udp_def recv_udp_def c_part_id bnd_eval modify_run)
  with Cons.IH[of ?w ns'] Cons.prems ns show ?case by (simp add: sq_eval)
qed

lemma DgEcho_run:
  assumes "\<forall>l \<in> set ls. length l < MAXLINE"
    and "u_recv w = map (RecvOk a) ls @ rs" "u_send w = map WriteOk ns @ ss" "length ns = length ls"
  shows "DgEcho (length ls) w = (Val (), w\<lparr>u_recv := rs, u_send := ss, u_sent := u_sent w @ map (Pair a) ls\<rparr>)"
  using assms
proof (induction ls arbitrary: w ns)
  case Nil
  then show ?case by (simp add: skip_run)
next
  case (Cons l ls)
  then obtain n ns' where ns: "ns = n # ns'" by (cases ns) auto
  let ?w = "w\<lparr>u_recv := map (RecvOk a) ls @ rs, u_send := map WriteOk ns' @ ss, u_sent := u_sent w @ [(a, l)]\<rparr>"
  from Cons.IH[of ?w ns'] Cons.prems ns show ?case
    by (simp add: RecvFrom_def SendTo_def send_udp_def recv_udp_def bnd_eval)
qed

text \<open>
  C33. Server and client together, over a network that loses and reorders nothing and with sends that succeed: the
  server has received the client's lines and the client, which is the connected one the source compiles,
  receives what the server sent back. Then the client prints exactly what it has read from its standard
  input, provided that has no zero byte; and the server has sent every datagram back to where it came from.
\<close>

theorem udp_echo_roundtrip:
  assumes "CHR 0x00 \<notin> set input" "u_fp c = input" "u_sys c = [SysOk v]"
    and "u_send c = map WriteOk ns" "length ns = length (lines_of input)" "u_send s = map WriteOk ms" "length ms = length (lines_of input)"
    and "u_recv s = map (RecvOk cli) (lines_of input)" "u_sent s = []"
    and "u_recv c = map (\<lambda>d. RecvOk serv (snd d)) (u_sent (snd (DgEcho (length (lines_of input)) s)))"
  shows "\<exists>s' c'. DgEcho (length (lines_of input)) s = (Val (), s') \<and> u_sent s' = map (Pair cli) (lines_of input) \<and>
    DgCli_connected fd serv c = (Val (), c') \<and> u_out c' = u_out c @ input \<and> u_sent c' = u_sent c @ map (Pair serv) (lines_of input) \<and>
    u_calls c' = u_calls c @ [UConnect fd serv]"
proof -
  let ?ls = "lines_of input" and ?c = "c\<lparr>u_calls := u_calls c @ [UConnect fd serv], u_sys := []\<rparr>"
  have ls: "\<forall>l \<in> set ?ls. CHR 0x00 \<notin> set l \<and> length l < MAXLINE" using lines_of_split[of input] assms(1) by blast
  have sv: "DgEcho (length ?ls) s = (Val (), s\<lparr>u_recv := [], u_send := [], u_sent := u_sent s @ map (Pair cli) ?ls\<rparr>)"
    using ls assms(6-8) by (intro DgEcho_run[where rs = "[]" and ss = "[]" and ns = ms]) auto
  have "u_recv ?c = map (RecvOk serv) ?ls @ []" using assms(9,10) sv by (simp add: comp_def)
  from exchanges_run[OF _ _ ls this, where snd_op = Write_udp and rcv_op = Read_udp and ns = ns and ss = "[]" and serv = serv]
  have "each_line (exchange (Write_udp serv) Read_udp) ?ls ?c =
    (Val (), ?c\<lparr>u_recv := [], u_send := [], u_out := u_out c @ concat ?ls, u_sent := u_sent c @ map (Pair serv) ?ls\<rparr>)"
    using assms(4,5) by (simp add: Write_udp_def Read_udp_def)
  moreover have "Connect_udp fd serv c = (Val (), ?c)"
    using assms(3) by (simp add: Connect_udp_def sys_udp_def bnd_eval skip_run)
  ultimately show ?thesis using sv assms(2,9) lines_of_split[of input]
    by (simp add: DgCli_connected_def bnd_eval sq_eval gets_run)
qed

definition ex_udp :: udp where
  "ex_udp = \<lparr>u_strerror = (\<lambda>_. []), u_errno = 0, u_fp = ''hi'', u_sys = [SysOk 0], u_aton = True, u_send = [WriteOk 2],
     u_recv = [RecvOk (''10.0.0.1'', 7) ''hi''], u_calls = [], u_out = [], u_sent = []\<rparr>"

lemma lines_of_hi: "lines_of ''hi'' = [''hi'']"
  by (subst lines_of.simps) (simp add: fgets_def MAXLINE_def)

lemma udp_echo_roundtrip_witness:
  "\<exists>s' c'. DgEcho 1 ex_udp = (Val (), s') \<and> DgCli_connected 3 (''10.0.0.2'', 9) (ex_udp\<lparr>u_recv := [RecvOk (''10.0.0.2'', 9) ''hi'']\<rparr>) =
     (Val (), c') \<and> u_out c' = ''hi''"
proof -
  let ?c = "ex_udp\<lparr>u_recv := [RecvOk (''10.0.0.2'', 9) ''hi'']\<rparr>"
  have run: "DgEcho (length (lines_of ''hi'')) ex_udp = (Val (), ex_udp\<lparr>u_recv := [], u_send := [], u_sent := [((''10.0.0.1'', 7), ''hi'')]\<rparr>)"
    by (simp add: lines_of_hi ex_udp_def RecvFrom_def SendTo_def recv_udp_def send_udp_def MAXLINE_def cpp_eval)
  have hyps: "u_fp ex_udp = ''hi''" "u_send ex_udp = [WriteOk 2]" "u_recv ex_udp = [RecvOk (''10.0.0.1'', 7) ''hi'']" "u_sent ex_udp = []"
    "u_out ex_udp = []" "u_sys ex_udp = [SysOk 0]" by (simp_all add: ex_udp_def)
  have "\<exists>s' c'. DgEcho (length (lines_of ''hi'')) ex_udp = (Val (), s') \<and> u_sent s' = map (Pair (''10.0.0.1'', 7)) (lines_of ''hi'') \<and>
    DgCli_connected 3 (''10.0.0.2'', 9) ?c = (Val (), c') \<and> u_out c' = u_out ?c @ ''hi'' \<and>
    u_sent c' = u_sent ?c @ map (Pair (''10.0.0.2'', 9)) (lines_of ''hi'') \<and> u_calls c' = u_calls ?c @ [UConnect 3 (''10.0.0.2'', 9)]"
    by (rule udp_echo_roundtrip[where ns = "[2]" and ms = "[2]" and v = 0]) (simp_all only: run, simp_all add: hyps lines_of_hi)
  then show ?thesis by (auto simp: hyps lines_of_hi)
qed

end
