(* ===== verification/Shared_Ptr.thy ===== *)
theory Shared_Ptr
  imports Cpp_Strings
begin

text \<open>
  \<open>smart_pointer/my_shared_ptr\<close>: a reference-counted pointer. A \<open>MySharedPtr\<close> holds the addresses of two
  cells on the heap, one with the pointer to the object and one with the number of owners. Reading,
  writing or deleting a cell that is no longer allocated is undefined behaviour, and so is deleting an
  object twice.
\<close>

section \<open>The heap\<close>

type_synonym 'a cells = "nat \<Rightarrow> 'a option"

record sp_heap =
  p_cells :: "nat cells"        \<comment> \<open>the cells of type \<open>T*\<close>\<close>
  n_cells :: "int cells"        \<comment> \<open>the cells of type \<open>int\<close>\<close>
  objects :: "string cells"     \<comment> \<open>the objects of class \<open>A\<close> that are alive, by their names\<close>
  next_cell :: nat
  destroyed :: "nat list"       \<comment> \<open>the objects destroyed, in order\<close>
  sp_cout :: string

record MySharedPtr =
  sp_p :: nat
  sp_n :: nat

definition read_p :: "nat \<Rightarrow> (sp_heap, nat) cpp" where
  "read_p a = (\<lambda>s. case p_cells s a of Some v \<Rightarrow> (Val v, s) | None \<Rightarrow> (Undef ''p: use after free'', s))"

definition read_n :: "nat \<Rightarrow> (sp_heap, int) cpp" where
  "read_n a = (\<lambda>s. case n_cells s a of Some v \<Rightarrow> (Val v, s) | None \<Rightarrow> (Undef ''n: use after free'', s))"

definition write_n :: "nat \<Rightarrow> int \<Rightarrow> (sp_heap, unit) cpp" where
  "write_n a v = (\<lambda>s. if n_cells s a = None then (Undef ''n: use after free'', s)
     else (Val (), s\<lparr>n_cells := (n_cells s)(a \<mapsto> v)\<rparr>))"

definition delete_p :: "nat \<Rightarrow> (sp_heap, unit) cpp" where
  "delete_p a = (\<lambda>s. if p_cells s a = None then (Undef ''p: double free'', s)
     else (Val (), s\<lparr>p_cells := (p_cells s)(a := None)\<rparr>))"

definition delete_n :: "nat \<Rightarrow> (sp_heap, unit) cpp" where
  "delete_n a = (\<lambda>s. if n_cells s a = None then (Undef ''n: double free'', s)
     else (Val (), s\<lparr>n_cells := (n_cells s)(a := None)\<rparr>))"

definition delete_object :: "nat \<Rightarrow> (sp_heap, unit) cpp" where
  "delete_object t = (\<lambda>s. case objects s t of
       Some name \<Rightarrow> (Val (), s\<lparr>objects := (objects s)(t := None), destroyed := destroyed s @ [t],
                         sp_cout := sp_cout s @ ''~A(), '' @ name @ newline\<rparr>)
     | None \<Rightarrow> (Undef ''double delete'', s))"

lemmas heap_ops = read_p_def read_n_def write_n_def delete_p_def delete_n_def delete_object_def

section \<open>my_shared_ptr.h\<close>

text \<open>The decrement is of an \<open>int\<close>; the number of owners is far from its bounds.\<close>

definition reclaim :: "MySharedPtr \<Rightarrow> (sp_heap, unit) cpp" where
  "reclaim this =
     bnd (read_n (sp_n this)) (\<lambda>v.
     sq (write_n (sp_n this) (v - 1))
    (bnd (read_n (sp_n this)) (\<lambda>v.
     whenb (v = 0) (bnd (read_p (sp_p this)) delete_object))))"

definition MySharedPtr_new :: "nat \<Rightarrow> (sp_heap, MySharedPtr) cpp" where
  "MySharedPtr_new t = (\<lambda>s.
     let a = next_cell s in
     (Val \<lparr>sp_p = a, sp_n = a\<rparr>,
      s\<lparr>p_cells := (p_cells s)(a \<mapsto> t), n_cells := (n_cells s)(a \<mapsto> 1), next_cell := a + 1\<rparr>))"

definition MySharedPtr_copy :: "MySharedPtr \<Rightarrow> (sp_heap, MySharedPtr) cpp" where
  "MySharedPtr_copy ptr =
     bnd (read_n (sp_n ptr)) (\<lambda>v. sq (write_n (sp_n ptr) (v + 1)) (ret \<lparr>sp_p = sp_p ptr, sp_n = sp_n ptr\<rparr>))"

text \<open>\<open>operator=\<close> returns what \<open>*this\<close> has become.\<close>

definition MySharedPtr_assign :: "MySharedPtr \<Rightarrow> MySharedPtr \<Rightarrow> (sp_heap, MySharedPtr) cpp" where
  "MySharedPtr_assign this ptr =
     bnd (read_p (sp_p this)) (\<lambda>a. bnd (read_p (sp_p ptr)) (\<lambda>b.
       if a = b then ret this
       else sq (reclaim this)
           (bnd (read_n (sp_n ptr)) (\<lambda>v. sq (write_n (sp_n ptr) (v + 1)) (ret \<lparr>sp_p = sp_p ptr, sp_n = sp_n ptr\<rparr>)))))"

definition MySharedPtr_destroy :: "MySharedPtr \<Rightarrow> (sp_heap, unit) cpp" where
  "MySharedPtr_destroy this = sq (reclaim this) (sq (delete_p (sp_p this)) (delete_n (sp_n this)))"

section \<open>main.cpp\<close>

text \<open>\<open>new A(name)\<close>: the object gets the next address.\<close>

definition A_new :: "string \<Rightarrow> (sp_heap, nat) cpp" where
  "A_new name = (\<lambda>s. let t = next_cell s in
     (Val t, s\<lparr>objects := (objects s)(t \<mapsto> name), next_cell := t + 1, sp_cout := sp_cout s @ ''A(), '' @ name @ newline\<rparr>))"

text \<open>\<open>run\<close>; the local variables are destroyed in the opposite order of their declaration.\<close>

definition run :: "(sp_heap, unit) cpp" where
  "run =
     bnd (A_new ''1'') (\<lambda>a1. bnd (MySharedPtr_new a1) (\<lambda>p1.
     bnd (MySharedPtr_copy p1) (\<lambda>p2.
     bnd (A_new ''2'') (\<lambda>a2. bnd (MySharedPtr_new a2) (\<lambda>p3.
     bnd (MySharedPtr_assign p3 p2) (\<lambda>p3.
     sq (MySharedPtr_destroy p3) (sq (MySharedPtr_destroy p2) (MySharedPtr_destroy p1))))))))"

definition empty_heap :: sp_heap where
  "empty_heap = \<lparr>p_cells = (\<lambda>_. None), n_cells = (\<lambda>_. None), objects = (\<lambda>_. None), next_cell = 0, destroyed = [],
     sp_cout = []\<rparr>"

section \<open>Owners\<close>

text \<open>\<open>owns s h t v\<close>: the cells of \<open>h\<close> are allocated, point to the live object \<open>t\<close> and count \<open>v\<close> owners.\<close>

definition owns :: "sp_heap \<Rightarrow> MySharedPtr \<Rightarrow> nat \<Rightarrow> int \<Rightarrow> bool" where
  "owns s h t v \<longleftrightarrow> p_cells s (sp_p h) = Some t \<and> n_cells s (sp_n h) = Some v \<and> objects s t \<noteq> None"

lemma new_owns:
  assumes "objects s t \<noteq> None"
  shows "\<exists>h s'. MySharedPtr_new t s = (Val h, s') \<and> owns s' h t 1"
  using assms by (simp add: MySharedPtr_new_def owns_def Let_def)

lemma copy_shares:
  assumes "owns s h t v"
  shows "\<exists>s'. MySharedPtr_copy h s = (Val h, s') \<and> owns s' h t (v + 1)"
  using assms by (simp add: MySharedPtr_copy_def owns_def heap_ops cpp_eval)

text \<open>
  An owner alone destroys its object and frees both cells. When there are more, the destructor still
  frees both cells, although the others point to them: from then on copying, assigning and destroying
  any of the others is undefined behaviour.
\<close>

theorem sharing_is_undefined:
  assumes "owns s h t v" "v \<ge> 1" "sp_p h' = sp_p h" "sp_n h' = sp_n h"
  shows "\<exists>s'. MySharedPtr_destroy h s = (Val (), s') \<and> destroyed s' = destroyed s @ (if v = 1 then [t] else []) \<and>
     p_cells s' = (p_cells s)(sp_p h := None) \<and> n_cells s' = (n_cells s)(sp_n h := None) \<and>
     (\<exists>u. fst (MySharedPtr_destroy h' s') = Undef u) \<and> (\<exists>u. fst (MySharedPtr_copy h' s') = Undef u) \<and>
     (\<forall>h2. \<exists>u. fst (MySharedPtr_assign h' h2 s') = Undef u)"
  using assms
  by (auto simp: owns_def MySharedPtr_destroy_def MySharedPtr_copy_def MySharedPtr_assign_def reclaim_def heap_ops cpp_eval)

lemma sharing_is_undefined_witness:
  "\<exists>s h t. owns s h t 2 \<and> (\<exists>s' u. MySharedPtr_destroy h s = (Val (), s') \<and> fst (MySharedPtr_destroy h s') = Undef u)"
proof -
  let ?h = "\<lparr>sp_p = 0, sp_n = 0\<rparr>" let ?s = "empty_heap\<lparr>p_cells := [0 \<mapsto> 7], n_cells := [0 \<mapsto> 2], objects := [7 \<mapsto> ''x'']\<rparr>"
  have o: "owns ?s ?h 7 2" by (simp add: owns_def)
  from sharing_is_undefined[OF o] o show ?thesis by fastforce
qed

text \<open>So the example of the repository itself runs into it, when its second local variable is destroyed.\<close>

lemma run_undefined: "\<exists>s. run empty_heap = (Undef ''n: use after free'', s) \<and> destroyed s = [2] \<and>
    sp_cout s = ''A(), 1'' @ newline @ ''A(), 2'' @ newline @ ''~A(), 2'' @ newline"
  by (simp add: run_def empty_heap_def A_new_def MySharedPtr_new_def MySharedPtr_copy_def MySharedPtr_assign_def
      MySharedPtr_destroy_def reclaim_def heap_ops cpp_eval Let_def)

text \<open>Assigning to the only owner of another object destroys that object, but its cells stay allocated.\<close>

lemma assign_leaks:
  assumes "owns s h t 1" "owns s h' t' v" "t \<noteq> t'" "sp_p h \<noteq> sp_p h'" "sp_n h \<noteq> sp_n h'"
  shows "\<exists>s'. MySharedPtr_assign h h' s = (Val h', s') \<and> destroyed s' = destroyed s @ [t] \<and> owns s' h' t' (v + 1) \<and>
     p_cells s' (sp_p h) = Some t \<and> n_cells s' (sp_n h) = Some 0"
  using assms by (auto simp: owns_def MySharedPtr_assign_def reclaim_def heap_ops cpp_eval)

end
