(* ===== verification/Mock_Malloc.thy ===== *)
theory Mock_Malloc
  imports Cpp_Strings
begin

text \<open>
  \<open>mock_malloc/lib/my_malloc.c\<close>: replacements of \<open>malloc\<close>, \<open>free\<close>, \<open>calloc\<close>, \<open>realloc\<close> and \<open>memalign\<close> that are
  loaded before the C library's and call them. Their addresses come from \<open>dlsym\<close>, which may itself
  allocate: while the first call of \<open>malloc\<close> is looking them up, memory is taken from a static buffer.

  \<open>dlsym\<close> and the allocators of the C library are not part of the repository. Each lookup is answered from the
  script \<open>k_dlsym\<close>: the allocations it makes through the replacements and whether it finds the symbol. The
  pointers that the C library returns come from the script \<open>k_ptrs\<close>; the memory behind them is not modelled.
\<close>

section \<open>The state\<close>

datatype ptr = Null | Tmp nat | Real nat

datatype alloc_req = ReqMalloc u64 | ReqCalloc u64 u64

record mm =
  tmpbuff :: string
  tmppos :: u64
  tmpallocs :: u64
  initializing :: bool
  myfn_calloc :: bool           \<comment> \<open>the five pointers: are they set?\<close>
  myfn_malloc :: bool
  myfn_free :: bool
  myfn_realloc :: bool
  myfn_memalign :: bool
  mm_stdout :: string
  mm_stderr :: string
  dlerror_text :: string
  k_dlsym :: "(alloc_req list \<times> bool) list"
  k_ptrs :: "ptr list"

definition TMPBUFF_SIZE :: u64 where "TMPBUFF_SIZE = 1024"

definition mm_new :: "string \<Rightarrow> (alloc_req list \<times> bool) list \<Rightarrow> ptr list \<Rightarrow> mm" where
  "mm_new err ds ps =
     \<lparr>tmpbuff = replicate (unat TMPBUFF_SIZE) (CHR 0x00), tmppos = 0, tmpallocs = 0, initializing = False,
      myfn_calloc = False, myfn_malloc = False, myfn_free = False, myfn_realloc = False, myfn_memalign = False,
      mm_stdout = [], mm_stderr = [], dlerror_text = err, k_dlsym = ds, k_ptrs = ps\<rparr>"

definition puts_mm :: "string \<Rightarrow> (mm, unit) cpp" where
  "puts_mm t = modify (\<lambda>s. s\<lparr>mm_stdout := mm_stdout s @ t\<rparr>)"

definition exit_mm :: "int \<Rightarrow> (mm, 'a) cpp" where
  "exit_mm n = (\<lambda>s. (Exit n, s))"

text \<open>A call through one of the pointers; through a null pointer it is undefined behaviour.\<close>

definition call_real :: "(mm \<Rightarrow> bool) \<Rightarrow> (mm, ptr) cpp" where
  "call_real fn = (\<lambda>s. if \<not> fn s then (Undef ''call of a null pointer'', s)
     else case k_ptrs s of [] \<Rightarrow> (Pending, s) | p # ps \<Rightarrow> (Val p, s\<lparr>k_ptrs := ps\<rparr>))"

text \<open>\<open>memset\<close> to zero and \<open>memmove\<close>, on the static buffer; beyond its end they are undefined behaviour.\<close>

definition memset0 :: "ptr \<Rightarrow> u64 \<Rightarrow> (mm, unit) cpp" where
  "memset0 p n = (case p of
       Tmp a \<Rightarrow> (\<lambda>s. if length (tmpbuff s) < a + unat n then (Undef ''memset'', s)
          else (Val (), s\<lparr>tmpbuff := take a (tmpbuff s) @ replicate (unat n) (CHR 0x00) @ drop (a + unat n) (tmpbuff s)\<rparr>))
     | _ \<Rightarrow> skip)"

definition memmove_mm :: "ptr \<Rightarrow> ptr \<Rightarrow> u64 \<Rightarrow> (mm, unit) cpp" where
  "memmove_mm dst src n = (\<lambda>s.
     let inside = (\<lambda>p. case p of Tmp a \<Rightarrow> a + unat n \<le> length (tmpbuff s) | _ \<Rightarrow> True) in
     if \<not> (inside dst \<and> inside src) then (Undef ''memmove'', s)
     else case (dst, src) of
       (Tmp a, Tmp b) \<Rightarrow> (Val (), s\<lparr>tmpbuff := take a (tmpbuff s) @ take (unat n) (drop b (tmpbuff s)) @ drop (a + unat n) (tmpbuff s)\<rparr>)
     | _ \<Rightarrow> (Val (), s))"

section \<open>The replacements\<close>

text \<open>The branch of \<open>malloc\<close> for calls made while the symbols are looked up. The sum is taken modulo \<open>2 ^ 64\<close>.\<close>

definition no_room_message :: string where
  "no_room_message = ''jcheck: too much memory requested during initialisation - increase tmpbuff size'' @ newline"

definition tmp_alloc :: "u64 \<Rightarrow> (mm, ptr) cpp" where
  "tmp_alloc sz =
     bnd (gets tmppos) (\<lambda>pos.
       if pos + sz < TMPBUFF_SIZE then
         sq (modify (\<lambda>s. s\<lparr>tmppos := pos + sz, tmpallocs := tmpallocs s + 1\<rparr>)) (ret (Tmp (unat pos)))
       else
         sq (puts_mm no_room_message) (exit_mm 1))"

text \<open>
  \<open>malloc\<close> calls \<open>init\<close>, \<open>init\<close> calls \<open>dlsym\<close>, and \<open>dlsym\<close> calls \<open>malloc\<close> or \<open>calloc\<close>, which find \<open>initializing\<close> set
  and do not call \<open>init\<close> again. So \<open>malloc\<close> and \<open>calloc\<close> take \<open>init\<close> as an argument, and the calls from \<open>dlsym\<close>
  take the place of the nested \<open>init\<close> with an outcome that is never reached.
\<close>

definition malloc_with :: "(mm, unit) cpp \<Rightarrow> u64 \<Rightarrow> (mm, ptr) cpp" where
  "malloc_with init sz =
     bnd (gets myfn_malloc) (\<lambda>m.
       if m then call_real myfn_malloc
       else bnd (gets initializing) (\<lambda>i.
         if \<not> i then
           sq (modify (\<lambda>s. s\<lparr>initializing := True\<rparr>))
          (sq init
          (sq (modify (\<lambda>s. s\<lparr>initializing := False\<rparr>))
          (bnd (gets tmppos) (\<lambda>pos. bnd (gets tmpallocs) (\<lambda>n.
           sq (puts_mm (''jcheck: allocated '' @ to_string_nat (unat pos) @ '' bytes of temp memory in '' @
                 to_string_nat (unat n) @ '' chunks during initialization'' @ newline))
              (call_real myfn_malloc))))))
         else tmp_alloc sz))"

definition calloc_with :: "(mm, unit) cpp \<Rightarrow> u64 \<Rightarrow> u64 \<Rightarrow> (mm, ptr) cpp" where
  "calloc_with init nmemb sz =
     bnd (gets myfn_malloc) (\<lambda>m.
       if \<not> m then
         bnd (malloc_with init (nmemb * sz)) (\<lambda>p.
         sq (whenb (p \<noteq> Null) (memset0 p (nmemb * sz))) (ret p))
       else call_real myfn_calloc)"

fun request_mm :: "alloc_req \<Rightarrow> (mm, ptr) cpp" where
  "request_mm (ReqMalloc n) = malloc_with (undef ''init inside init'') n"
| "request_mm (ReqCalloc m n) = calloc_with (undef ''init inside init'') m n"

primrec requests_mm :: "alloc_req list \<Rightarrow> (mm, unit) cpp" where
  "requests_mm [] = skip"
| "requests_mm (r # rs) = bnd (request_mm r) (\<lambda>_. requests_mm rs)"

definition dlsym :: "(mm, bool) cpp" where
  "dlsym = (\<lambda>s. case k_dlsym s of
       [] \<Rightarrow> (Pending, s)
     | (rs, found) # ds \<Rightarrow> sq (requests_mm rs) (ret found) (s\<lparr>k_dlsym := ds\<rparr>))"

definition init_mm :: "(mm, unit) cpp" where
  "init_mm =
     bnd dlsym (\<lambda>f. sq (modify (\<lambda>s. s\<lparr>myfn_malloc := f\<rparr>))
    (bnd dlsym (\<lambda>f. sq (modify (\<lambda>s. s\<lparr>myfn_free := f\<rparr>))
    (bnd dlsym (\<lambda>f. sq (modify (\<lambda>s. s\<lparr>myfn_calloc := f\<rparr>))
    (bnd dlsym (\<lambda>f. sq (modify (\<lambda>s. s\<lparr>myfn_realloc := f\<rparr>))
    (bnd dlsym (\<lambda>f. sq (modify (\<lambda>s. s\<lparr>myfn_memalign := f\<rparr>))
    (bnd (gets (\<lambda>s. myfn_malloc s \<and> myfn_free s \<and> myfn_calloc s \<and> myfn_realloc s \<and> myfn_memalign s)) (\<lambda>found.
       if found then skip
       else sq (modify (\<lambda>s. s\<lparr>mm_stderr := mm_stderr s @ ''Error in `dlsym`: '' @ dlerror_text s @ newline\<rparr>)) (exit_mm 1))))))))))))"

definition malloc_mm :: "u64 \<Rightarrow> (mm, ptr) cpp" where
  "malloc_mm = malloc_with init_mm"

definition calloc_mm :: "u64 \<Rightarrow> u64 \<Rightarrow> (mm, ptr) cpp" where
  "calloc_mm = calloc_with init_mm"

text \<open>A pointer from the C library is not within the static buffer.\<close>

definition free_mm :: "ptr \<Rightarrow> (mm, unit) cpp" where
  "free_mm p =
     bnd (gets tmppos) (\<lambda>pos.
       case p of
         Tmp a \<Rightarrow> if a \<le> unat pos then puts_mm (''freeing temp memory'' @ newline)
                  else bnd (gets myfn_free) (\<lambda>f. if f then skip else undef ''call of a null pointer'')
       | _ \<Rightarrow> bnd (gets myfn_free) (\<lambda>f. if f then skip else undef ''call of a null pointer''))"

definition realloc_mm :: "ptr \<Rightarrow> u64 \<Rightarrow> (mm, ptr) cpp" where
  "realloc_mm p sz =
     bnd (gets myfn_malloc) (\<lambda>m.
       if \<not> m then
         bnd (malloc_mm sz) (\<lambda>q.
         sq (whenb (q \<noteq> Null \<and> p \<noteq> Null) (sq (memmove_mm q p sz) (free_mm p))) (ret q))
       else call_real myfn_realloc)"

definition memalign_mm :: "u64 \<Rightarrow> u64 \<Rightarrow> (mm, ptr) cpp" where
  "memalign_mm blocksize bytes = call_real myfn_memalign"

section \<open>Memory during the lookup\<close>

text \<open>Calls of \<open>malloc\<close> in sequence.\<close>

primrec mallocs :: "u64 list \<Rightarrow> (mm, ptr list) cpp" where
  "mallocs [] = ret []"
| "mallocs (z # zs) = bnd (malloc_mm z) (\<lambda>p. bnd (mallocs zs) (\<lambda>ps. ret (p # ps)))"

definition looking_up :: "mm \<Rightarrow> bool" where
  "looking_up s \<longleftrightarrow> initializing s \<and> \<not> myfn_malloc s"

lemma malloc_looking_up: "looking_up s \<Longrightarrow> malloc_with ini z s = tmp_alloc z s"
  by (simp add: malloc_with_def looking_up_def bnd_eval gets_run)

lemma tmp_alloc_room:
  assumes "unat (tmppos s) + unat z < 1024"
  shows "tmp_alloc z s = (Val (Tmp (unat (tmppos s))), s\<lparr>tmppos := tmppos s + z, tmpallocs := tmpallocs s + 1\<rparr>)"
    and "unat (tmppos s + z) = unat (tmppos s) + unat z"
proof -
  show u: "unat (tmppos s + z) = unat (tmppos s) + unat z" using assms by (simp add: unat_plus_if')
  with assms have "tmppos s + z < TMPBUFF_SIZE" by (simp add: word_less_nat_alt TMPBUFF_SIZE_def)
  then show "tmp_alloc z s = (Val (Tmp (unat (tmppos s))), s\<lparr>tmppos := tmppos s + z, tmpallocs := tmpallocs s + 1\<rparr>)"
    by (simp add: tmp_alloc_def cpp_eval)
qed

fun offsets :: "nat \<Rightarrow> u64 list \<Rightarrow> nat list" where
  "offsets a [] = []"
| "offsets a (z # zs) = a # offsets (a + unat z) zs"

lemma offsets_length [simp]: "length (offsets a zs) = length zs"
  by (induction a zs rule: offsets.induct) simp_all

lemma offsets_bounds:
  "i < length zs \<Longrightarrow> a \<le> offsets a zs ! i \<and> offsets a zs ! i + unat (zs ! i) \<le> a + sum_list (map unat zs)"
proof (induction a zs arbitrary: i rule: offsets.induct)
  case (2 a z zs)
  then show ?case by (cases i) fastforce+
qed simp

lemma offsets_apart:
  "i < j \<Longrightarrow> j < length zs \<Longrightarrow> offsets a zs ! i + unat (zs ! i) \<le> offsets a zs ! j"
proof (induction a zs arbitrary: i j rule: offsets.induct)
  case (2 a z zs)
  then obtain k where k: "j = Suc k" by (cases j) auto
  show ?case
  proof (cases i)
    case 0
    with 2(3) k offsets_bounds[of k zs "a + unat z"] show ?thesis by simp
  qed (use 2 k in auto)
qed simp

lemma mallocs_run:
  assumes "looking_up s" "unat (tmppos s) + sum_list (map unat zs) < 1024"
  shows "\<exists>s'. mallocs zs s = (Val (map Tmp (offsets (unat (tmppos s)) zs)), s') \<and> looking_up s' \<and>
     unat (tmppos s') = unat (tmppos s) + sum_list (map unat zs)"
  using assms
proof (induction zs arbitrary: s)
  case (Cons z zs)
  have r: "unat (tmppos s) + unat z < 1024" using Cons.prems(2) by simp
  let ?s = "s\<lparr>tmppos := tmppos s + z, tmpallocs := tmpallocs s + 1\<rparr>"
  have l: "looking_up ?s" using Cons.prems(1) by (simp add: looking_up_def)
  have "unat (tmppos ?s) + sum_list (map unat zs) < 1024" using Cons.prems(2) tmp_alloc_room(2)[OF r] by simp
  from Cons.IH[OF l this] obtain s' where "mallocs zs ?s = (Val (map Tmp (offsets (unat (tmppos ?s)) zs)), s')"
    "looking_up s'" "unat (tmppos s') = unat (tmppos ?s) + sum_list (map unat zs)" by blast
  with tmp_alloc_room[OF r] malloc_looking_up[OF Cons.prems(1)] show ?case
    by (auto simp: malloc_mm_def bnd_eval ret_run)
qed (simp add: ret_run)

text \<open>A request that does not fit, and is not so large that the sum wraps around, ends the process.\<close>

lemma tmp_alloc_full:
  assumes "1024 \<le> unat (tmppos s) + unat z" "unat (tmppos s) + unat z < 2 ^ 64"
  shows "tmp_alloc z s = (Exit 1, s\<lparr>mm_stdout := mm_stdout s @ no_room_message\<rparr>)"
proof -
  have "unat (tmppos s + z) = unat (tmppos s) + unat z" using assms(2) by (simp add: unat_plus_if')
  with assms(1) have "\<not> tmppos s + z < TMPBUFF_SIZE" by (simp add: word_less_nat_alt TMPBUFF_SIZE_def)
  then show ?thesis by (simp add: tmp_alloc_def cpp_eval puts_mm_def exit_mm_def)
qed

text \<open>\<open>stops_at k s zs s'\<close>: the first \<open>k\<close> requests were granted, the next is the first that does not fit.\<close>

definition stops_at :: "nat \<Rightarrow> mm \<Rightarrow> u64 list \<Rightarrow> mm \<Rightarrow> bool" where
  "stops_at k s zs s' \<longleftrightarrow> k < length zs \<and> unat (tmppos s) + sum_list (map unat (take k zs)) < 1024 \<and>
     1024 \<le> unat (tmppos s) + sum_list (map unat (take (Suc k) zs)) \<and>
     unat (tmppos s') = unat (tmppos s) + sum_list (map unat (take k zs)) \<and> tmpallocs s' = tmpallocs s + of_nat k \<and>
     mm_stdout s' = mm_stdout s @ no_room_message"

lemma mallocs_full:
  assumes "looking_up s" "unat (tmppos s) < 1024" "\<forall>z \<in> set zs. unat z \<le> 2 ^ 64 - 1024"
    and "1024 \<le> unat (tmppos s) + sum_list (map unat zs)"
  shows "\<exists>k s'. mallocs zs s = (Exit 1, s') \<and> stops_at k s zs s'"
  using assms
proof (induction zs arbitrary: s)
  case (Cons z zs)
  show ?case
  proof (cases "unat (tmppos s) + unat z < 1024")
    case True
    let ?s = "s\<lparr>tmppos := tmppos s + z, tmpallocs := tmpallocs s + 1\<rparr>"
    have "looking_up ?s" "unat (tmppos ?s) < 1024" "1024 \<le> unat (tmppos ?s) + sum_list (map unat zs)"
      using Cons.prems(1,4) tmp_alloc_room(2)[OF True] True by (simp_all add: looking_up_def)
    with Cons.IH[of ?s] Cons.prems(3) obtain k s' where "mallocs zs ?s = (Exit 1, s')" "stops_at k ?s zs s'" by auto
    then have "mallocs (z # zs) s = (Exit 1, s')" "stops_at (Suc k) s (z # zs) s'"
      using tmp_alloc_room[OF True] malloc_looking_up[OF Cons.prems(1)]
      by (simp_all add: malloc_mm_def bnd_eval stops_at_def)
    then show ?thesis by blast
  next
    case False
    have "unat z \<le> 2 ^ 64 - 1024" using Cons.prems(3) by simp
    with Cons.prems(2) have "unat (tmppos s) + unat z < 2 ^ 64" by simp
    with tmp_alloc_full[of s z] False malloc_looking_up[OF Cons.prems(1)] Cons.prems(2) show ?thesis
      by (intro exI[of _ 0]) (simp add: malloc_mm_def bnd_eval stops_at_def)
  qed
qed simp

text \<open>
  C35. The static buffer is never overrun by requests of an ordinary size. While the symbols are looked up, take any
  sequence of calls of \<open>malloc\<close>, none of them for more than \<open>2 ^ 64 - 1024\<close> bytes. If what is handed out
  already and what is asked for add up to less than 1024, every call returns a block, and the blocks lie one
  after the other within the buffer, behind what was handed out, so no two overlap. If not, exactly the calls
  before the first that does not fit are granted, that one writes its message and ends the process with status
  1, and no block is handed out beyond the end. (A larger request makes the sum wrap around, see below.)
\<close>

theorem tmp_blocks_disjoint:
  assumes "looking_up s" "unat (tmppos s) < 1024" "\<forall>z \<in> set zs. unat z \<le> 2 ^ 64 - 1024"
  shows "if unat (tmppos s) + sum_list (map unat zs) < 1024
    then \<exists>offs s'. mallocs zs s = (Val (map Tmp offs), s') \<and> length offs = length zs \<and>
      unat (tmppos s') = unat (tmppos s) + sum_list (map unat zs) \<and>
      (\<forall>i < length zs. unat (tmppos s) \<le> offs ! i \<and> offs ! i + unat (zs ! i) < 1024) \<and>
      (\<forall>j < length zs. \<forall>i < j. offs ! i + unat (zs ! i) \<le> offs ! j)
    else \<exists>k s'. mallocs zs s = (Exit 1, s') \<and> stops_at k s zs s'"
proof (cases "unat (tmppos s) + sum_list (map unat zs) < 1024")
  case True
  let ?o = "offsets (unat (tmppos s)) zs"
  obtain s' where "mallocs zs s = (Val (map Tmp ?o), s')" "unat (tmppos s') = unat (tmppos s) + sum_list (map unat zs)"
    using mallocs_run[OF assms(1) True] by blast
  then have "\<exists>offs s'. mallocs zs s = (Val (map Tmp offs), s') \<and> length offs = length zs \<and>
      unat (tmppos s') = unat (tmppos s) + sum_list (map unat zs) \<and>
      (\<forall>i < length zs. unat (tmppos s) \<le> offs ! i \<and> offs ! i + unat (zs ! i) < 1024) \<and>
      (\<forall>j < length zs. \<forall>i < j. offs ! i + unat (zs ! i) \<le> offs ! j)"
    using True offsets_bounds[of _ zs "unat (tmppos s)"] offsets_apart[of _ _ zs "unat (tmppos s)"]
    by (intro exI[of _ ?o] exI[of _ s']) fastforce
  with True show ?thesis by simp
next
  case False
  with mallocs_full[OF assms] show ?thesis by simp
qed

text \<open>The first lookup of a process with two requests: the second fits, or it is turned away.\<close>

definition first_lookup :: mm where
  "first_lookup = (mm_new [] [] [])\<lparr>initializing := True\<rparr>"

lemma tmp_blocks_disjoint_witness:
  "(\<exists>a b s'. mallocs [32, 100] first_lookup = (Val [Tmp a, Tmp b], s') \<and> a + 32 \<le> b \<and> b + 100 < 1024) \<and>
   (\<exists>s'. mallocs [32, 992] first_lookup = (Exit 1, s') \<and> unat (tmppos s') = 32)"
proof -
  let ?zs = "[32, 100] :: u64 list" and ?ys = "[32, 992] :: u64 list"
  have p: "tmppos first_lookup = 0" by (simp add: first_lookup_def mm_new_def)
  have h: "looking_up first_lookup" "unat (tmppos first_lookup) < 1024"
    by (simp_all add: looking_up_def first_lookup_def mm_new_def)
  have z: "\<forall>z \<in> set ?zs. unat z \<le> 2 ^ 64 - 1024" "\<forall>z \<in> set ?ys. unat z \<le> 2 ^ 64 - 1024" by simp_all
  have c: "unat (tmppos first_lookup) + sum_list (map unat ?zs) < 1024"
    "\<not> unat (tmppos first_lookup) + sum_list (map unat ?ys) < 1024" by (simp_all add: p)
  from tmp_blocks_disjoint[OF h z(1), unfolded if_P[OF c(1)]] obtain offs s' where
    o: "mallocs ?zs first_lookup = (Val (map Tmp offs), s')" and len: "length offs = length ?zs"
    and fit: "\<forall>i < length ?zs. unat (tmppos first_lookup) \<le> offs ! i \<and> offs ! i + unat (?zs ! i) < 1024"
    and apart: "\<forall>j < length ?zs. \<forall>i < j. offs ! i + unat (?zs ! i) \<le> offs ! j" by blast
  obtain a b where ab: "offs = [a, b]" using len by (auto simp: length_Suc_conv)
  have "a + 32 \<le> b" "b + 100 < 1024" using apart[rule_format, of 1 0] fit[rule_format, of 1] ab by simp_all
  moreover from tmp_blocks_disjoint[OF h z(2), unfolded if_not_P[OF c(2)]] obtain k s'' where
    k: "mallocs ?ys first_lookup = (Exit 1, s'')" "stops_at k first_lookup ?ys s''" by blast
  moreover have "k = 1" using k(2) by (cases k) (auto simp: stops_at_def p)
  ultimately show ?thesis using o ab p by (auto simp: stops_at_def)
qed

text \<open>
  The test for room adds modulo \<open>2 ^ 64\<close>: a request so large that the sum wraps around is granted, and the
  next block starts before this one, in memory that has been handed out already.
\<close>

theorem huge_request_granted:
  assumes "looking_up s" "unat (tmppos s) < 1024" "2 ^ 64 \<le> unat (tmppos s) + unat z"
  shows "\<exists>s'. malloc_mm z s = (Val (Tmp (unat (tmppos s))), s') \<and> tmppos s' < tmppos s"
proof -
  have u: "unat (tmppos s + z) = unat (tmppos s) + unat z - 2 ^ 64"
    using assms(3) by (simp add: unat_plus_if')
  have lt: "unat (tmppos s + z) < unat (tmppos s)" using u unsigned_less[of z, where ?'a = nat] assms(3) by simp
  then have "tmppos s + z < TMPBUFF_SIZE" using assms(2) by (simp add: word_less_nat_alt TMPBUFF_SIZE_def)
  with lt malloc_looking_up[OF assms(1)] show ?thesis
    by (simp add: malloc_mm_def tmp_alloc_def cpp_eval word_less_nat_alt)
qed

text \<open>
  The pointer to \<open>malloc\<close> is set first. A later lookup that calls \<open>calloc\<close> finds it set and calls through the
  pointer to \<open>calloc\<close>, which is still null.
\<close>

theorem calloc_during_lookup_crashes:
  assumes "k_dlsym s = ([], True) # (ReqCalloc a b # rs, f) # ds" "\<not> myfn_calloc s"
  shows "\<exists>s'. init_mm s = (Undef ''call of a null pointer'', s')"
  using assms by (simp add: init_mm_def dlsym_def calloc_with_def call_real_def cpp_eval)

end
