(* ===== verification/Semaphore_Test.thy ===== *)
theory Semaphore_Test
  imports Semaphore
begin

text \<open>
  The stress test \<open>TestA\<close> of \<open>thread/semaphore/main.cpp\<close>: threads that acquire and threads that release, and a counter
  that must never reach the capacity before it is incremented. The semaphore is the abstract one, which the class
  implements (\<open>semaphore_refines\<close>); every other access to an atomic variable is a step of its own.
\<close>

section \<open>The threads\<close>

text \<open>The program points of \<open>aq\<close> and \<open>rl\<close>, with the local variables \<open>ac\<close> and \<open>rc\<close> where they matter.\<close>

datatype aq_pc = A_Load | A_Cas int | A_Test int | A_Acquire | A_Add | A_End | A_Thrown

datatype rl_pc = R_Load | R_Load_rc int | R_Cas int int | R_Test int int | R_Dec | R_Release | R_End

record testA =
  ta_sn :: int
  ta_count :: int
  permits :: int
  number :: int
  acquireCount :: int
  releaseCount :: int
  ta_aq :: "aq_pc list"
  ta_rl :: "rl_pc list"

definition TestA_start :: "int \<Rightarrow> nat \<Rightarrow> nat \<Rightarrow> int \<Rightarrow> testA" where
  "TestA_start sn atn rtn count = \<lparr>ta_sn = sn, ta_count = count, permits = sn, number = 0, acquireCount = 0, releaseCount = 0,
     ta_aq = replicate atn A_Load, ta_rl = replicate rtn R_Load\<rparr>"

definition aq_at :: "testA \<Rightarrow> nat \<Rightarrow> aq_pc \<Rightarrow> bool" where
  "aq_at s i p \<longleftrightarrow> i < length (ta_aq s) \<and> ta_aq s ! i = p"

definition aq_to :: "nat \<Rightarrow> aq_pc \<Rightarrow> testA \<Rightarrow> testA" where
  "aq_to i p s = s\<lparr>ta_aq := (ta_aq s)[i := p]\<rparr>"

definition rl_at :: "testA \<Rightarrow> nat \<Rightarrow> rl_pc \<Rightarrow> bool" where
  "rl_at s i p \<longleftrightarrow> i < length (ta_rl s) \<and> ta_rl s ! i = p"

definition rl_to :: "nat \<Rightarrow> rl_pc \<Rightarrow> testA \<Rightarrow> testA" where
  "rl_to i p s = s\<lparr>ta_rl := (ta_rl s)[i := p]\<rparr>"

text \<open>A weak compare-and-exchange may fail although the value is the expected one.\<close>

inductive aq_step :: "nat \<Rightarrow> testA \<Rightarrow> testA \<Rightarrow> bool" for i where
  aq_load: "aq_at s i A_Load \<Longrightarrow> aq_step i s (aq_to i (A_Cas (acquireCount s)) s)"
| aq_cas: "aq_at s i (A_Cas ac) \<Longrightarrow> ac < ta_count s \<Longrightarrow> acquireCount s = ac \<Longrightarrow>
    aq_step i s (aq_to i (A_Test ac) (s\<lparr>acquireCount := ac + 1\<rparr>))"
| aq_again: "aq_at s i (A_Cas ac) \<Longrightarrow> ac < ta_count s \<Longrightarrow> aq_step i s (aq_to i (A_Cas (acquireCount s)) s)"
| aq_leave: "aq_at s i (A_Cas ac) \<Longrightarrow> \<not> ac < ta_count s \<Longrightarrow> aq_step i s (aq_to i (A_Test ac) s)"
| aq_test: "aq_at s i (A_Test ac) \<Longrightarrow> aq_step i s (aq_to i (if ac = ta_count s then A_End else A_Acquire) s)"
| aq_acquire: "aq_at s i A_Acquire \<Longrightarrow> acquire_spec (permits s) = Some n \<Longrightarrow> aq_step i s (aq_to i A_Add (s\<lparr>permits := n\<rparr>))"
| aq_add: "aq_at s i A_Add \<Longrightarrow>
    aq_step i s (aq_to i (if number s \<ge> ta_sn s then A_Thrown else A_Load) (s\<lparr>number := number s + 1\<rparr>))"

inductive rl_step :: "nat \<Rightarrow> testA \<Rightarrow> testA \<Rightarrow> bool" for i where
  rl_load: "rl_at s i R_Load \<Longrightarrow> rl_step i s (rl_to i (R_Load_rc (acquireCount s)) s)"
| rl_load_rc: "rl_at s i (R_Load_rc ac) \<Longrightarrow> rl_step i s (rl_to i (R_Cas ac (releaseCount s)) s)"
| rl_cas: "rl_at s i (R_Cas ac rc) \<Longrightarrow> rc < ac - ta_sn s \<Longrightarrow> releaseCount s = rc \<Longrightarrow>
    rl_step i s (rl_to i (R_Test ac rc) (s\<lparr>releaseCount := rc + 1\<rparr>))"
| rl_again: "rl_at s i (R_Cas ac rc) \<Longrightarrow> rc < ac - ta_sn s \<Longrightarrow> rl_step i s (rl_to i (R_Cas ac (releaseCount s)) s)"
| rl_leave: "rl_at s i (R_Cas ac rc) \<Longrightarrow> \<not> rc < ac - ta_sn s \<Longrightarrow> rl_step i s (rl_to i (R_Test ac rc) s)"
| rl_test: "rl_at s i (R_Test ac rc) \<Longrightarrow>
    rl_step i s (rl_to i (if rc = ta_count s - ta_sn s then R_End else if rc \<ge> ac - ta_sn s then R_Load else R_Dec) s)"
| rl_dec: "rl_at s i R_Dec \<Longrightarrow> rl_step i s (rl_to i R_Release (s\<lparr>number := number s - 1\<rparr>))"
| rl_release: "rl_at s i R_Release \<Longrightarrow> release_spec (ta_sn s) (permits s) = (b, n) \<Longrightarrow>
    rl_step i s (rl_to i (if b then R_Load else R_Release) (s\<lparr>permits := n\<rparr>))"

definition testA_step :: "testA \<Rightarrow> testA \<Rightarrow> bool" where
  "testA_step s s' \<longleftrightarrow> (\<exists>i. aq_step i s s' \<or> rl_step i s s')"

section \<open>Counting\<close>

definition aqs :: "(aq_pc \<Rightarrow> bool) \<Rightarrow> testA \<Rightarrow> int" where
  "aqs P s = int (length (filter P (ta_aq s)))"

definition rls :: "(rl_pc \<Rightarrow> bool) \<Rightarrow> testA \<Rightarrow> int" where
  "rls P s = int (length (filter P (ta_rl s)))"

text \<open>Threads with a call to \<open>acquire\<close> promised and not yet counted, and threads with a release promised.\<close>

fun promised :: "int \<Rightarrow> aq_pc \<Rightarrow> bool" where
  "promised c (A_Test ac) \<longleftrightarrow> ac < c"
| "promised c A_Acquire \<longleftrightarrow> True"
| "promised c A_Add \<longleftrightarrow> True"
| "promised c _ \<longleftrightarrow> False"

fun owing :: "int \<Rightarrow> rl_pc \<Rightarrow> bool" where
  "owing sn (R_Test ac rc) \<longleftrightarrow> rc < ac - sn"
| "owing sn R_Dec \<longleftrightarrow> True"
| "owing sn _ \<longleftrightarrow> False"

lemma aqs_to: "aq_at s i q \<Longrightarrow> aqs P (aq_to i p s) = aqs P s + of_bool (P p) - of_bool (P q)"
  using filter_update_length[of i "ta_aq s" P p] by (auto simp: aqs_def aq_to_def aq_at_def split: if_splits)

lemma rls_to: "rl_at s i q \<Longrightarrow> rls P (rl_to i p s) = rls P s + of_bool (P p) - of_bool (P q)"
  using filter_update_length[of i "ta_rl s" P p] by (auto simp: rls_def rl_to_def rl_at_def split: if_splits)

lemma to_fields [simp]:
  "ta_sn (aq_to i p s) = ta_sn s" "ta_count (aq_to i p s) = ta_count s" "permits (aq_to i p s) = permits s"
  "number (aq_to i p s) = number s" "acquireCount (aq_to i p s) = acquireCount s" "releaseCount (aq_to i p s) = releaseCount s"
  "ta_rl (aq_to i p s) = ta_rl s" "rls R (aq_to i p s) = rls R s"
  "ta_sn (rl_to i q s) = ta_sn s" "ta_count (rl_to i q s) = ta_count s" "permits (rl_to i q s) = permits s"
  "number (rl_to i q s) = number s" "acquireCount (rl_to i q s) = acquireCount s" "releaseCount (rl_to i q s) = releaseCount s"
  "ta_aq (rl_to i q s) = ta_aq s" "aqs Q (rl_to i q s) = aqs Q s"
  by (simp_all add: aq_to_def rl_to_def aqs_def rls_def)

lemma fields_pcs [simp]:
  "aqs P (s\<lparr>permits := n\<rparr>) = aqs P s" "aqs P (s\<lparr>number := n\<rparr>) = aqs P s" "aqs P (s\<lparr>acquireCount := n\<rparr>) = aqs P s"
  "aqs P (s\<lparr>releaseCount := n\<rparr>) = aqs P s" "rls Q (s\<lparr>permits := n\<rparr>) = rls Q s" "rls Q (s\<lparr>number := n\<rparr>) = rls Q s"
  "rls Q (s\<lparr>acquireCount := n\<rparr>) = rls Q s" "rls Q (s\<lparr>releaseCount := n\<rparr>) = rls Q s"
  "aq_at (s\<lparr>permits := n\<rparr>) i p = aq_at s i p" "aq_at (s\<lparr>number := n\<rparr>) i p = aq_at s i p" "aq_at (s\<lparr>acquireCount := n\<rparr>) i p = aq_at s i p"
  "rl_at (s\<lparr>permits := n\<rparr>) i q = rl_at s i q" "rl_at (s\<lparr>number := n\<rparr>) i q = rl_at s i q" "rl_at (s\<lparr>releaseCount := n\<rparr>) i q = rl_at s i q"
  by (simp_all add: aqs_def rls_def aq_at_def rl_at_def)

text \<open>
  Every permit that is out is either about to be counted, or counted, or counted off and about to be returned; and the
  promises account for the difference of the two counts.
\<close>

definition books :: "testA \<Rightarrow> bool" where
  "books s \<longleftrightarrow> 0 \<le> permits s \<and> ta_sn s - permits s = number s + aqs (\<lambda>p. p = A_Add) s + rls (\<lambda>p. p = R_Release) s \<and>
     acquireCount s - releaseCount s = number s + aqs (promised (ta_count s)) s - rls (owing (ta_sn s)) s"

lemma aqs_pos: "aq_at s i p \<Longrightarrow> P p \<Longrightarrow> 1 \<le> aqs P s"
  unfolding aqs_def aq_at_def by (metis filter_empty_conv length_0_conv nth_mem of_nat_0_eq_iff of_nat_0_le_iff int_one_le_iff_zero_less order_le_less)

text \<open>What the local variables say about the counts, which only grow.\<close>

fun aq_seen :: "int \<Rightarrow> int \<Rightarrow> aq_pc \<Rightarrow> bool" where
  "aq_seen c a (A_Cas ac) \<longleftrightarrow> ac \<le> a"
| "aq_seen c a (A_Test ac) \<longleftrightarrow> ac \<le> a"
| "aq_seen c a A_End \<longleftrightarrow> c \<le> a"
| "aq_seen c a A_Thrown \<longleftrightarrow> False"
| "aq_seen c a _ \<longleftrightarrow> True"

fun rl_seen :: "int \<Rightarrow> int \<Rightarrow> int \<Rightarrow> rl_pc \<Rightarrow> bool" where
  "rl_seen d a r (R_Load_rc ac) \<longleftrightarrow> ac \<le> a"
| "rl_seen d a r (R_Cas ac rc) \<longleftrightarrow> ac \<le> a \<and> 0 \<le> rc \<and> rc \<le> r"
| "rl_seen d a r (R_Test ac rc) \<longleftrightarrow> ac \<le> a \<and> 0 \<le> rc \<and> rc \<le> r"
| "rl_seen d a r R_End \<longleftrightarrow> 0 \<le> d \<and> d \<le> r"
| "rl_seen d a r _ \<longleftrightarrow> True"

definition seen :: "testA \<Rightarrow> bool" where
  "seen s \<longleftrightarrow> acquireCount s \<le> ta_count s \<and> 0 \<le> releaseCount s \<and> releaseCount s \<le> max 0 (acquireCount s - ta_sn s) \<and>
     (\<forall>p \<in> set (ta_aq s). aq_seen (ta_count s) (acquireCount s) p) \<and>
     (\<forall>p \<in> set (ta_rl s). rl_seen (ta_count s - ta_sn s) (acquireCount s) (releaseCount s) p)"

lemma aq_seen_mono: "aq_seen c a p \<Longrightarrow> a \<le> a' \<Longrightarrow> aq_seen c a' p"
  by (cases p) auto

lemma rl_seen_mono: "rl_seen d a r p \<Longrightarrow> a \<le> a' \<Longrightarrow> r \<le> r' \<Longrightarrow> rl_seen d a' r' p"
  by (cases p) auto

lemma seen_at:
  "seen s \<Longrightarrow> aq_at s i p \<Longrightarrow> aq_seen (ta_count s) (acquireCount s) p"
  "seen s \<Longrightarrow> rl_at s i q \<Longrightarrow> rl_seen (ta_count s - ta_sn s) (acquireCount s) (releaseCount s) q"
  by (auto simp: seen_def aq_at_def rl_at_def)

lemma seen_aq_to:
  "seen s \<Longrightarrow> acquireCount s \<le> a \<Longrightarrow> a \<le> ta_count s \<Longrightarrow> aq_seen (ta_count s) a p \<Longrightarrow> seen (aq_to i p (s\<lparr>acquireCount := a\<rparr>))"
  unfolding seen_def using set_update_subset_insert[of "ta_aq s" i p]
  by (auto simp: aq_to_def intro: aq_seen_mono rl_seen_mono)

lemma seen_rl_to:
  "seen s \<Longrightarrow> releaseCount s \<le> r \<Longrightarrow> r \<le> max 0 (acquireCount s - ta_sn s) \<Longrightarrow>
     rl_seen (ta_count s - ta_sn s) (acquireCount s) r p \<Longrightarrow> seen (rl_to i p (s\<lparr>releaseCount := r\<rparr>))"
  unfolding seen_def using set_update_subset_insert[of "ta_rl s" i p]
  by (auto simp: rl_to_def intro: rl_seen_mono)

lemma seen_same [simp]: "seen (s\<lparr>permits := n\<rparr>) = seen s" "seen (s\<lparr>number := n\<rparr>) = seen s"
  by (simp_all add: seen_def)

lemma seen_aq_pc: "seen s \<Longrightarrow> aq_seen (ta_count s) (acquireCount s) p \<Longrightarrow> seen (aq_to i p s)"
  using seen_aq_to[of s "acquireCount s" p i] by (simp add: seen_def)

lemma seen_rl_pc: "seen s \<Longrightarrow> rl_seen (ta_count s - ta_sn s) (acquireCount s) (releaseCount s) p \<Longrightarrow> seen (rl_to i p s)"
  using seen_rl_to[of s "releaseCount s" p i] by (simp add: seen_def)

text \<open>A thread about to count a permit finds the counter below the capacity.\<close>

lemma books_add:
  assumes "books s" "aq_at s i A_Add"
  shows "number s < ta_sn s"
proof -
  have "1 \<le> aqs (\<lambda>p. p = A_Add) s" "0 \<le> rls (\<lambda>p. p = R_Release) s" using aqs_pos[OF assms(2)] by (simp_all add: rls_def)
  with assms(1) show ?thesis unfolding books_def by linarith
qed

lemma seen_test:
  "seen s \<Longrightarrow> aq_at s i (A_Test ac) \<Longrightarrow> ac \<le> ta_count s" "seen s \<Longrightarrow> rl_at s i (R_Test ac rc) \<Longrightarrow> ac \<le> ta_count s"
  using seen_at(1)[of s i "A_Test ac"] seen_at(2)[of s i "R_Test ac rc"] by (auto simp: seen_def)

lemma books_aq: "aq_step i s s' \<Longrightarrow> books s \<Longrightarrow> seen s \<Longrightarrow> books s'"
  by (erule aq_step.cases) (auto simp: books_def aqs_to acquire_spec_def dest: seen_test split: if_splits)

lemma books_rl: "rl_step i s s' \<Longrightarrow> books s \<Longrightarrow> seen s \<Longrightarrow> books s'"
  by (erule rl_step.cases) (auto simp: books_def rls_to release_spec_def dest: seen_test split: if_splits)

lemma seen_released: "seen s \<Longrightarrow> 0 \<le> releaseCount s"
  by (simp add: seen_def)

lemma seen_count: "seen s \<Longrightarrow> acquireCount s \<le> ta_count s"
  by (simp add: seen_def)

lemma seen_aq: "aq_step i s s' \<Longrightarrow> books s \<Longrightarrow> seen s \<Longrightarrow> seen s'"
proof (erule aq_step.cases)
  fix s1 ac assume h: "s = s1" "s' = aq_to i (if ac = ta_count s1 then A_End else A_Acquire) s1" "aq_at s1 i (A_Test ac)" "seen s"
  then show "seen s'" using seen_at(1)[of s i "A_Test ac"] seen_count[of s] by (auto intro: seen_aq_pc)
next
  fix s1 assume h: "s = s1" "s' = aq_to i (if ta_sn s1 \<le> number s1 then A_Thrown else A_Load) (s1\<lparr>number := number s1 + 1\<rparr>)"
    "aq_at s1 i A_Add" "seen s" "books s"
  then show "seen s'" using books_add[of s i] by (auto intro!: seen_aq_pc)
next
  fix s1 ac assume h: "s = s1" "s' = aq_to i (A_Test ac) (s1\<lparr>acquireCount := ac + 1\<rparr>)" "ac < ta_count s1" "acquireCount s1 = ac" "seen s"
  then show "seen s'" by (auto intro!: seen_aq_to)
qed (auto intro!: seen_aq_pc dest: seen_at(1))

lemma seen_rl: "rl_step i s s' \<Longrightarrow> seen s \<Longrightarrow> seen s'"
proof (erule rl_step.cases)
  fix s1 ac rc assume h: "s = s1" "s' = rl_to i (R_Test ac rc) (s1\<lparr>releaseCount := rc + 1\<rparr>)" "rl_at s1 i (R_Cas ac rc)"
    "rc < ac - ta_sn s1" "releaseCount s1 = rc" "seen s"
  then show "seen s'" using seen_at(2)[of s i "R_Cas ac rc"] by (auto intro!: seen_rl_to)
next
  fix s1 ac assume h: "s = s1" "s' = rl_to i (R_Cas ac (releaseCount s1)) s1" "rl_at s1 i (R_Load_rc ac)" "seen s"
  then show "seen s'" using seen_at(2)[of s i "R_Load_rc ac"] seen_released[of s] by (auto intro!: seen_rl_pc)
next
  fix s1 ac rc assume h: "s = s1" "s' = rl_to i (R_Cas ac (releaseCount s1)) s1" "rl_at s1 i (R_Cas ac rc)" "seen s"
  then show "seen s'" using seen_at(2)[of s i "R_Cas ac rc"] seen_released[of s] by (auto intro!: seen_rl_pc)
qed (auto intro!: seen_rl_pc dest: seen_at(2))

lemma books_start: "0 \<le> sn \<Longrightarrow> books (TestA_start sn atn rtn count)"
  by (simp add: books_def TestA_start_def aqs_def rls_def)

lemma seen_start: "0 \<le> count \<Longrightarrow> seen (TestA_start sn atn rtn count)"
  by (auto simp: seen_def TestA_start_def)

lemma step_const: "testA_step s s' \<Longrightarrow> ta_sn s' = ta_sn s \<and> ta_count s' = ta_count s \<and> length (ta_aq s') = length (ta_aq s) \<and> length (ta_rl s') = length (ta_rl s)"
  unfolding testA_step_def by (elim exE disjE aq_step.cases rl_step.cases) (simp_all add: aq_to_def rl_to_def)

lemma testA_reach:
  assumes "testA_step\<^sup>*\<^sup>* (TestA_start sn atn rtn count) s" "0 \<le> sn" "0 \<le> count"
  shows "books s \<and> seen s \<and> ta_sn s = sn \<and> ta_count s = count \<and> length (ta_aq s) = atn \<and> length (ta_rl s) = rtn"
  using assms(1)
proof (induction rule: rtranclp_induct)
  case base
  then show ?case using books_start[OF assms(2)] seen_start[OF assms(3)] by (simp add: TestA_start_def)
next
  case (step s s')
  have "books s'" "seen s'" using step books_aq books_rl seen_aq seen_rl unfolding testA_step_def by blast+
  with step step_const[of s s'] show ?case by simp
qed

text \<open>
  C19. The stress test passes. For any capacity and count that are not negative, any numbers of threads, and however the
  threads interleave: no thread that acquires ever finds the counter at the capacity, so the test never throws, and no
  more than the capacity is ever counted. When the count is at least the capacity, there is a thread of each kind and
  all threads have ended, the counter stands at the capacity and all permits are out. When the count is smaller than
  the capacity no thread that releases ever ends, since it waits for a release count below zero: the test then
  hangs in its last joins (\<open>Test1\<close> has no such run).
\<close>

theorem stress_test_passes:
  assumes "testA_step\<^sup>*\<^sup>* (TestA_start sn atn rtn count) s" "0 \<le> sn" "0 \<le> count"
  shows "A_Thrown \<notin> set (ta_aq s) \<and> number s \<le> sn \<and>
    (sn \<le> count \<and> 0 < atn \<and> 0 < rtn \<and> set (ta_aq s) \<subseteq> {A_End} \<and> set (ta_rl s) \<subseteq> {R_End} \<longrightarrow>
      number s = sn \<and> permits s = 0) \<and>
    (count < sn \<longrightarrow> R_End \<notin> set (ta_rl s))"
proof -
  have r: "books s" "seen s" "ta_sn s = sn" "ta_count s = count" "length (ta_aq s) = atn" "length (ta_rl s) = rtn"
    using testA_reach[OF assms] by auto
  have "A_Thrown \<notin> set (ta_aq s)" using r(2) by (force simp: seen_def)
  moreover have "number s \<le> sn" using r(1,3) by (simp add: books_def aqs_def rls_def)
  moreover have "number s = sn \<and> permits s = 0"
    if h: "sn \<le> count" "0 < atn" "0 < rtn" "set (ta_aq s) \<subseteq> {A_End}" "set (ta_rl s) \<subseteq> {R_End}"
  proof -
    have "A_End \<in> set (ta_aq s)" "R_End \<in> set (ta_rl s)"
      using h r(5,6) by (metis length_greater_0_conv list.set_sel(1) subset_singletonD empty_iff singletonD subsetD)+
    then have "acquireCount s = count" "releaseCount s = count - sn" using r(2,3,4) assms(2) h(1) by (auto simp: seen_def)
    moreover have "filter (promised count) (ta_aq s) = []" "filter (owing sn) (ta_rl s) = []"
      "filter (\<lambda>p. p = A_Add) (ta_aq s) = []" "filter (\<lambda>p. p = R_Release) (ta_rl s) = []"
      using h by (auto simp: filter_empty_conv)
    ultimately show ?thesis using r(1,3,4) by (simp add: books_def aqs_def rls_def)
  qed
  moreover have "R_End \<notin> set (ta_rl s)" if "count < sn" using r(2,3,4) that by (force simp: seen_def)
  ultimately show ?thesis by blast
qed

text \<open>The runs of \<open>Test1\<close>.\<close>

definition Test1 :: "(int \<times> nat \<times> nat \<times> int) list" where
  "Test1 = [(1, 1, 1, 10000), (1, 2, 1, 10000), (1, 1, 2, 10000), (1, 5, 3, 10000), (1, 3, 5, 10000), (2, 1, 1, 10000),
      (2, 2, 1, 10000), (2, 1, 2, 10000), (2, 5, 3, 10000), (2, 3, 5, 10000), (3, 1, 1, 10000), (3, 2, 1, 10000),
      (3, 1, 2, 10000), (3, 5, 3, 10000), (3, 3, 5, 10000), (5, 1, 1, 10000), (5, 2, 1, 10000), (5, 1, 2, 10000),
      (5, 5, 3, 10000), (5, 3, 5, 10000)]"

lemma Test1_passes:
  assumes "(sn, atn, rtn, count) \<in> set Test1" "testA_step\<^sup>*\<^sup>* (TestA_start sn atn rtn count) s"
  shows "A_Thrown \<notin> set (ta_aq s) \<and> number s \<le> sn"
proof -
  have "0 \<le> sn" "0 \<le> count" using assms(1) by (auto simp: Test1_def)
  from testA_reach[OF assms(2) this] show ?thesis by (fastforce simp: seen_def books_def aqs_def rls_def)
qed

lemma testA_then: "aq_step i s s' \<or> rl_step i s s' \<Longrightarrow> testA_step\<^sup>*\<^sup>* s' s'' \<Longrightarrow> testA_step\<^sup>*\<^sup>* s s''"
  unfolding testA_step_def by (rule converse_rtranclp_into_rtranclp) blast+

text \<open>One thread of each kind, one permit, one round: the thread that releases has nothing to do.\<close>

definition ta_end :: testA where
  "ta_end = \<lparr>ta_sn = 1, ta_count = 1, permits = 0, number = 1, acquireCount = 1, releaseCount = 0, ta_aq = [A_End], ta_rl = [R_End]\<rparr>"

lemma ta_end_reached: "testA_step\<^sup>*\<^sup>* (TestA_start 1 1 1 1) ta_end"
  unfolding TestA_start_def ta_end_def
  by (rule testA_then[of 0], rule disjI1, rule aq_step.aq_load, simp add: aq_at_def, simp add: aq_to_def,
      rule testA_then[of 0], rule disjI1, rule aq_step.aq_cas[where ac = 0], simp add: aq_at_def, simp, simp, simp add: aq_to_def,
      rule testA_then[of 0], rule disjI1, rule aq_step.aq_test[where ac = 0], simp add: aq_at_def, simp add: aq_to_def,
      rule testA_then[of 0], rule disjI1, rule aq_step.aq_acquire, simp add: aq_at_def, simp add: acquire_spec_def, simp add: aq_to_def,
      rule testA_then[of 0], rule disjI1, rule aq_step.aq_add, simp add: aq_at_def, simp add: aq_to_def,
      rule testA_then[of 0], rule disjI1, rule aq_step.aq_load, simp add: aq_at_def, simp add: aq_to_def,
      rule testA_then[of 0], rule disjI1, rule aq_step.aq_leave[where ac = 1], simp add: aq_at_def, simp, simp add: aq_to_def,
      rule testA_then[of 0], rule disjI1, rule aq_step.aq_test[where ac = 1], simp add: aq_at_def, simp add: aq_to_def,
      rule testA_then[of 0], rule disjI2, rule rl_step.rl_load, simp add: rl_at_def, simp add: rl_to_def,
      rule testA_then[of 0], rule disjI2, rule rl_step.rl_load_rc[where ac = 1], simp add: rl_at_def, simp add: rl_to_def,
      rule testA_then[of 0], rule disjI2, rule rl_step.rl_leave[where ac = 1 and rc = 0], simp add: rl_at_def, simp, simp add: rl_to_def,
      rule testA_then[of 0], rule disjI2, rule rl_step.rl_test[where ac = 1 and rc = 0], simp add: rl_at_def, simp add: rl_to_def)

lemma stress_test_passes_witness: "testA_step\<^sup>*\<^sup>* (TestA_start 1 1 1 1) ta_end \<and> number ta_end = 1 \<and> permits ta_end = 0"
  using stress_test_passes[OF ta_end_reached] ta_end_reached by (simp add: ta_end_def)

end
