(* ===== verification/Semaphore_TestB.thy ===== *)
theory Semaphore_TestB
  imports Semaphore
begin

text \<open>
  The second test of \<open>thread/semaphore/main.cpp\<close>, \<open>TestB\<close>: \<open>atn\<close> threads acquire one permit each of a semaphore of
  capacity \<open>sn\<close>, the main thread waits until all of them are under way and then releases the permits that
  are missing. The counter \<open>ac\<close> the main thread waits for is declared without an initial value, so its first value is a
  parameter. The semaphore is the abstract one, which the class implements (\<open>semaphore_refines\<close>).
\<close>

section \<open>The threads\<close>

datatype tb_pc = B_Inc | B_Acquire | B_End

text \<open>The main thread: creating thread \<open>i\<close>, waiting, in round \<open>i\<close> of the releases, joining thread \<open>i\<close>, returned.\<close>

datatype tb_main = M_Create nat | M_Wait | M_Release nat | M_Join nat | M_End

record testB =
  tb_sn :: int
  tb_atn :: nat
  tb_permits :: int
  tb_ac :: "32 word"
  tb_av :: "tb_pc list"
  tb_main :: tb_main

definition TestB_start :: "int \<Rightarrow> nat \<Rightarrow> 32 word \<Rightarrow> testB" where
  "TestB_start sn atn ac = \<lparr>tb_sn = sn, tb_atn = atn, tb_permits = sn, tb_ac = ac, tb_av = [], tb_main = M_Create 0\<rparr>"

definition tb_at :: "testB \<Rightarrow> nat \<Rightarrow> tb_pc \<Rightarrow> bool" where
  "tb_at s i p \<longleftrightarrow> i < length (tb_av s) \<and> tb_av s ! i = p"

definition tb_to :: "nat \<Rightarrow> tb_pc \<Rightarrow> testB \<Rightarrow> testB" where
  "tb_to i p s = s\<lparr>tb_av := (tb_av s)[i := p]\<rparr>"

text \<open>The lambda \<open>aq\<close>: \<open>ac++; s.acquire();\<close>. The atomic counter wraps around.\<close>

inductive tb_aq :: "nat \<Rightarrow> testB \<Rightarrow> testB \<Rightarrow> bool" for i where
  tb_inc: "tb_at s i B_Inc \<Longrightarrow> tb_aq i s (tb_to i B_Acquire (s\<lparr>tb_ac := tb_ac s + 1\<rparr>))"
| tb_acquire: "tb_at s i B_Acquire \<Longrightarrow> acquire_spec (tb_permits s) = Some n \<Longrightarrow> tb_aq i s (tb_to i B_End (s\<lparr>tb_permits := n\<rparr>))"

text \<open>The body of \<open>TestB\<close>; its two sleeps have no effect of their own.\<close>

inductive TestB_run :: "testB \<Rightarrow> testB \<Rightarrow> bool" where
  tm_create: "tb_main s = M_Create i \<Longrightarrow> i < tb_atn s \<Longrightarrow>
    TestB_run s (s\<lparr>tb_av := tb_av s @ [B_Inc], tb_main := M_Create (i + 1)\<rparr>)"
| tm_created: "tb_main s = M_Create i \<Longrightarrow> \<not> i < tb_atn s \<Longrightarrow> TestB_run s (s\<lparr>tb_main := M_Wait\<rparr>)"
| tm_wait: "tb_main s = M_Wait \<Longrightarrow> sint (tb_ac s) < int (tb_atn s) \<Longrightarrow> TestB_run s s"
| tm_go: "tb_main s = M_Wait \<Longrightarrow> \<not> sint (tb_ac s) < int (tb_atn s) \<Longrightarrow> TestB_run s (s\<lparr>tb_main := M_Release 0\<rparr>)"
| tm_release: "tb_main s = M_Release i \<Longrightarrow> int i < int (tb_atn s) - tb_sn s \<Longrightarrow> release_spec (tb_sn s) (tb_permits s) = (b, n) \<Longrightarrow>
    TestB_run s (s\<lparr>tb_permits := n, tb_main := M_Release (if b then i + 1 else i)\<rparr>)"
| tm_released: "tb_main s = M_Release i \<Longrightarrow> \<not> int i < int (tb_atn s) - tb_sn s \<Longrightarrow> TestB_run s (s\<lparr>tb_main := M_Join 0\<rparr>)"
| tm_join: "tb_main s = M_Join i \<Longrightarrow> i < tb_atn s \<Longrightarrow> tb_at s i B_End \<Longrightarrow> TestB_run s (s\<lparr>tb_main := M_Join (i + 1)\<rparr>)"
| tm_joined: "tb_main s = M_Join i \<Longrightarrow> \<not> i < tb_atn s \<Longrightarrow> TestB_run s (s\<lparr>tb_main := M_End\<rparr>)"

definition testB_step :: "testB \<Rightarrow> testB \<Rightarrow> bool" where
  "testB_step s s' \<longleftrightarrow> TestB_run s s' \<or> (\<exists>i. tb_aq i s s')"

text \<open>The runs of \<open>Test2\<close>.\<close>

definition Test2 :: "(int \<times> nat) list" where
  "Test2 = [(1, 1), (1, 2), (1, 3), (1, 8), (2, 1), (2, 2), (2, 3), (2, 8), (3, 1), (3, 2), (3, 3), (3, 8),
      (1, 8), (1, 16), (1, 32), (1, 64), (3, 8), (3, 16), (3, 32), (3, 64)]"

section \<open>Accounts\<close>

definition tbs :: "(tb_pc \<Rightarrow> bool) \<Rightarrow> testB \<Rightarrow> nat" where
  "tbs P s = length (filter P (tb_av s))"

lemma tbs_to: "tb_at s i q \<Longrightarrow> int (tbs P (tb_to i p s)) = int (tbs P s) + of_bool (P p) - of_bool (P q)"
  using filter_update_length[of i "tb_av s" P p] by (auto simp: tbs_def tb_to_def tb_at_def split: if_splits)

lemma tbs_fields [simp]:
  "tbs P (s\<lparr>tb_ac := a\<rparr>) = tbs P s" "tbs P (s\<lparr>tb_permits := n\<rparr>) = tbs P s" "tbs P (s\<lparr>tb_main := m\<rparr>) = tbs P s"
  "tbs P (s\<lparr>tb_av := tb_av s @ [p]\<rparr>) = tbs P s + of_bool (P p)"
  "tb_at (s\<lparr>tb_ac := a\<rparr>) i p = tb_at s i p" "tb_at (s\<lparr>tb_permits := n\<rparr>) i p = tb_at s i p" "tb_at (s\<lparr>tb_main := m\<rparr>) i p = tb_at s i p"
  by (simp_all add: tbs_def tb_at_def)

lemma tb_to_fields [simp]:
  "tb_sn (tb_to i p s) = tb_sn s" "tb_atn (tb_to i p s) = tb_atn s" "tb_permits (tb_to i p s) = tb_permits s"
  "tb_ac (tb_to i p s) = tb_ac s" "tb_main (tb_to i p s) = tb_main s" "length (tb_av (tb_to i p s)) = length (tb_av s)"
  by (simp_all add: tb_to_def)

text \<open>The permits released so far.\<close>

fun released :: "int \<Rightarrow> nat \<Rightarrow> tb_main \<Rightarrow> int" where
  "released sn atn (M_Create i) = 0"
| "released sn atn M_Wait = 0"
| "released sn atn (M_Release i) = int i"
| "released sn atn (M_Join i) = max 0 (int atn - sn)"
| "released sn atn M_End = max 0 (int atn - sn)"

fun main_ok :: "int \<Rightarrow> nat \<Rightarrow> nat \<Rightarrow> nat \<Rightarrow> tb_main \<Rightarrow> bool" where
  "main_ok sn atn started ended (M_Create i) \<longleftrightarrow> i = started \<and> i \<le> atn"
| "main_ok sn atn started ended (M_Release i) \<longleftrightarrow> started = atn \<and> int i \<le> max 0 (int atn - sn)"
| "main_ok sn atn started ended (M_Join i) \<longleftrightarrow> started = atn \<and> i \<le> atn"
| "main_ok sn atn started ended M_End \<longleftrightarrow> started = atn \<and> ended = atn"
| "main_ok sn atn started ended M_Wait \<longleftrightarrow> started = atn"

definition tb_ok :: "32 word \<Rightarrow> testB \<Rightarrow> bool" where
  "tb_ok a s \<longleftrightarrow> 0 \<le> tb_permits s \<and> tb_permits s \<le> tb_sn s \<and>
     tb_permits s = tb_sn s + released (tb_sn s) (tb_atn s) (tb_main s) - int (tbs (\<lambda>p. p = B_End) s) \<and>
     tb_ac s = a + of_nat (tbs (\<lambda>p. p \<noteq> B_Inc) s) \<and>
     main_ok (tb_sn s) (tb_atn s) (length (tb_av s)) (tbs (\<lambda>p. p = B_End) s) (tb_main s) \<and>
     (\<forall>i j. tb_main s = M_Join i \<longrightarrow> j < i \<longrightarrow> tb_at s j B_End)"

lemma tbs_inc: "tb_at s i B_Inc \<Longrightarrow> tbs (\<lambda>p. p \<noteq> B_Inc) (tb_to i B_Acquire s) = tbs (\<lambda>p. p \<noteq> B_Inc) s + 1"
  using tbs_to[of s i B_Inc "\<lambda>p. p \<noteq> B_Inc" B_Acquire] by simp

lemma tbs_same: "tb_at s i q \<Longrightarrow> P p = P q \<Longrightarrow> tbs P (tb_to i p s) = tbs P s"
  using tbs_to[of s i q P p] by auto

lemma tbs_all: "(\<forall>j < length (tb_av s). tb_at s j B_End) \<Longrightarrow> tbs (\<lambda>p. p = B_End) s = length (tb_av s)"
  by (auto simp: tbs_def tb_at_def in_set_conv_nth intro!: arg_cong[where f = length] filter_True)

lemma tbs_less: "tb_at s i q \<Longrightarrow> \<not> P q \<Longrightarrow> tbs P s < length (tb_av s)"
  unfolding tbs_def tb_at_def by (metis length_filter_less nth_mem)

lemma at_length_tb: "tb_at s i p \<Longrightarrow> i < length (tb_av s)"
  by (simp add: tb_at_def)

lemma tb_at_to: "tb_at (tb_to i p s) j q \<longleftrightarrow> (if j = i then j < length (tb_av s) \<and> p = q else tb_at s j q)"
  by (auto simp: tb_at_def tb_to_def)

lemma tb_ok_aq: "tb_aq i s s' \<Longrightarrow> tb_ok a s \<Longrightarrow> tb_ok a s'"
proof (induction rule: tb_aq.induct)
  case (tb_inc s)
  then have "main_ok (tb_sn s) (tb_atn s) (length (tb_av s)) (tbs (\<lambda>p. p = B_End) s) (tb_main s)" by (simp add: tb_ok_def)
  with tb_inc show ?case
    by (auto simp: tb_ok_def tbs_inc tbs_same[of _ _ B_Inc] tb_at_to) (metis tb_at_def tb_pc.distinct(3))
next
  case (tb_acquire s n)
  have e: "tbs (\<lambda>p. p = B_End) (tb_to i B_End (s\<lparr>tb_permits := m\<rparr>)) = tbs (\<lambda>p. p = B_End) s + 1" for m
    using tbs_to[of "s\<lparr>tb_permits := m\<rparr>" i B_Acquire "\<lambda>p. p = B_End" B_End] tb_acquire(1) by simp
  have "tb_main s \<noteq> M_End" using tb_acquire(1,3) tbs_less[of s i B_Acquire "\<lambda>p. p = B_End"] by (auto simp: tb_ok_def)
  then have "main_ok sn atn st (tbs (\<lambda>p. p = B_End) s + 1) (tb_main s) = main_ok sn atn st (tbs (\<lambda>p. p = B_End) s) (tb_main s)"
    for sn atn st by (cases "tb_main s") auto
  with tb_acquire e show ?case
    by (auto simp: tb_ok_def tbs_same[of _ _ B_Acquire] tb_at_to acquire_spec_def dest: at_length_tb split: if_splits)
qed

lemma tb_ok_run: "TestB_run s s' \<Longrightarrow> tb_ok a s \<Longrightarrow> tb_ok a s'"
proof (induction rule: TestB_run.induct)
  case (tm_joined s i)
  then have "tbs (\<lambda>p. p = B_End) s = length (tb_av s)" by (intro tbs_all) (auto simp: tb_ok_def)
  with tm_joined show ?case by (simp add: tb_ok_def)
qed (auto simp: tb_ok_def release_spec_def tb_at_def nth_append less_Suc_eq split: if_splits)

lemma tb_ok_start: "0 \<le> sn \<Longrightarrow> tb_ok a (TestB_start sn atn a)"
  by (simp add: tb_ok_def TestB_start_def tbs_def)

lemma testB_const: "testB_step s s' \<Longrightarrow> tb_sn s' = tb_sn s \<and> tb_atn s' = tb_atn s"
  unfolding testB_step_def by (elim disjE exE TestB_run.cases tb_aq.cases) simp_all

lemma testB_reach:
  assumes "testB_step\<^sup>*\<^sup>* (TestB_start sn atn a) s" "0 \<le> sn"
  shows "tb_ok a s \<and> tb_sn s = sn \<and> tb_atn s = atn"
  using assms(1)
proof (induction rule: rtranclp_induct)
  case base
  then show ?case using tb_ok_start[OF assms(2)] by (simp add: TestB_start_def)
next
  case (step s s')
  then have "tb_ok a s'" using tb_ok_aq tb_ok_run unfolding testB_step_def by blast
  with step testB_const show ?case by auto
qed

section \<open>Progress\<close>

text \<open>How far the test still has to go.\<close>

fun tb_rank :: "tb_pc \<Rightarrow> nat" where
  "tb_rank B_Inc = 2" | "tb_rank B_Acquire = 1" | "tb_rank B_End = 0"

fun main_rank :: "int \<Rightarrow> nat \<Rightarrow> tb_main \<Rightarrow> nat" where
  "main_rank sn atn (M_Create i) = 3 * (atn - i) + nat (int atn - sn) + atn + 5"
| "main_rank sn atn M_Wait = nat (int atn - sn) + atn + 4"
| "main_rank sn atn (M_Release i) = nat (int atn - sn - int i) + atn + 3"
| "main_rank sn atn (M_Join i) = (atn - i) + 1"
| "main_rank sn atn M_End = 0"

definition to_go :: "testB \<Rightarrow> nat" where
  "to_go s = main_rank (tb_sn s) (tb_atn s) (tb_main s) + sum_list (map tb_rank (tb_av s))"

lemma to_go_aq: "tb_aq i s s' \<Longrightarrow> to_go s' < to_go s"
  by (induction rule: tb_aq.induct)
    (auto simp: to_go_def tb_to_def tb_at_def intro: sum_list_update_less)

text \<open>A thread that acquires, or the main thread, can always do something that brings the test nearer to its end.\<close>

lemma testB_progress:
  assumes "tb_ok a s" "1 \<le> tb_sn s" "tb_main s \<noteq> M_End" "int (tb_atn s) \<le> sint (a + of_nat (tb_atn s))"
  shows "\<exists>s'. testB_step s s' \<and> to_go s' < to_go s"
proof (cases "\<exists>i. tb_at s i B_Inc \<or> tb_at s i B_Acquire \<and> 0 < tb_permits s")
  case True
  then show ?thesis using to_go_aq unfolding testB_step_def by (metis tb_aq.intros acquire_spec_def)
next
  case False
  have ac: "tbs (\<lambda>p. p \<noteq> B_Inc) s = length (tb_av s)"
    using False by (auto simp: tbs_def tb_at_def in_set_conv_nth intro!: arg_cong[where f = length] filter_True)
  have at_end: "\<forall>i < length (tb_av s). tb_at s i B_End" if "0 < tb_permits s"
    using False that by (metis tb_at_def tb_pc.exhaust)
  have run: ?thesis if "TestB_run s (s\<lparr>tb_permits := n, tb_main := m\<rparr>)" "main_rank (tb_sn s) (tb_atn s) m < main_rank (tb_sn s) (tb_atn s) (tb_main s)" for m n
    using that unfolding testB_step_def to_go_def by (intro exI[of _ "s\<lparr>tb_permits := n, tb_main := m\<rparr>"]) simp
  show ?thesis
  proof (cases "tb_main s")
    case (M_Create i)
    show ?thesis
    proof (cases "i < tb_atn s")
      case True
      then have "TestB_run s (s\<lparr>tb_av := tb_av s @ [B_Inc], tb_main := M_Create (i + 1)\<rparr>)" using M_Create by (intro tm_create)
      moreover have "to_go (s\<lparr>tb_av := tb_av s @ [B_Inc], tb_main := M_Create (i + 1)\<rparr>) < to_go s"
        using True M_Create by (simp add: to_go_def)
      ultimately show ?thesis unfolding testB_step_def by blast
    qed (use M_Create run[of M_Wait "tb_permits s"] tm_created[of s i] in simp)
  next
    case M_Wait
    then have "tb_ac s = a + of_nat (tb_atn s)" using assms(1) ac by (simp add: tb_ok_def)
    then show ?thesis using M_Wait assms(4) run[of "M_Release 0" "tb_permits s"] tm_go[of s] by simp
  next
    case (M_Release i)
    show ?thesis
    proof (cases "int i < int (tb_atn s) - tb_sn s")
      case True
      have "tb_permits s < tb_sn s"
        using True M_Release assms(1,2) tbs_all[OF at_end] by (cases "0 < tb_permits s") (auto simp: tb_ok_def)
      then show ?thesis using True M_Release run[of "M_Release (i + 1)" "tb_permits s + 1"]
        tm_release[of s i True "tb_permits s + 1"] by (simp add: release_spec_def)
    qed (use M_Release run[of "M_Join 0" "tb_permits s"] tm_released[of s i] in simp)
  next
    case (M_Join i)
    show ?thesis
    proof (cases "i < tb_atn s")
      case True
      have "tb_at s i B_End"
      proof (rule ccontr)
        assume n: "\<not> tb_at s i B_End"
        have "tbs (\<lambda>p. p = B_End) s < tb_atn s" using n True M_Join assms(1) tbs_less[of s i "tb_av s ! i" "\<lambda>p. p = B_End"]
          by (auto simp: tb_ok_def tb_at_def)
        then have "0 < tb_permits s" using assms(1) M_Join by (auto simp: tb_ok_def)
        with n at_end True M_Join assms(1) show False by (auto simp: tb_ok_def)
      qed
      then show ?thesis using True M_Join run[of "M_Join (i + 1)" "tb_permits s"] tm_join[of s i] by simp
    qed (use M_Join run[of M_End "tb_permits s"] tm_joined[of s i] in simp)
  qed (use assms(3) in simp)
qed

lemma testB_can_end:
  assumes "tb_ok a s" "1 \<le> tb_sn s" "int (tb_atn s) \<le> sint (a + of_nat (tb_atn s))"
  shows "\<exists>s'. testB_step\<^sup>*\<^sup>* s s' \<and> tb_main s' = M_End"
proof (rule progress_reaches[where I = "\<lambda>t. tb_ok a t \<and> tb_sn t = tb_sn s \<and> tb_atn t = tb_atn s" and m = to_go])
  fix t assume t: "tb_ok a t \<and> tb_sn t = tb_sn s \<and> tb_atn t = tb_atn s" and "tb_main t \<noteq> M_End"
  with testB_progress[of a t] assms(2,3) obtain t' where t': "testB_step t t'" "to_go t' < to_go t" by auto
  then have "tb_ok a t'" using t tb_ok_aq tb_ok_run unfolding testB_step_def by blast
  with t t' testB_const[OF t'(1)] show "\<exists>t'. testB_step t t' \<and> (tb_ok a t' \<and> tb_sn t' = tb_sn s \<and> tb_atn t' = tb_atn s) \<and> to_go t' < to_go t" by auto
qed (use assms in simp)

text \<open>
  C20. The second test ends. Let the garbage in \<open>ac\<close> be such that the sum with the number of threads is at least that
  number as a 32-bit signed integer (it is, when \<open>ac\<close> starts at 0). Then for a capacity of at least one, from every state
  the test can get into, however the threads interleave, it can run on to its end, and it can only end with all
  threads joined and \<open>max (sn - atn) 0\<close> permits left; no number of permits outside \<open>0..sn\<close> is ever seen.
\<close>

theorem testB_ends:
  assumes "testB_step\<^sup>*\<^sup>* (TestB_start sn atn a) s" "1 \<le> sn" "int atn \<le> sint (a + of_nat atn)"
  shows "0 \<le> tb_permits s \<and> tb_permits s \<le> sn \<and> (\<exists>s'. testB_step\<^sup>*\<^sup>* s s' \<and> tb_main s' = M_End) \<and>
    (tb_main s = M_End \<longrightarrow> tb_av s = replicate atn B_End \<and> tb_permits s = max (sn - int atn) 0)"
proof -
  have ok: "tb_ok a s" "tb_sn s = sn" "tb_atn s = atn" using testB_reach[OF assms(1)] assms(2) by auto
  have "\<exists>s'. testB_step\<^sup>*\<^sup>* s s' \<and> tb_main s' = M_End" using testB_can_end[OF ok(1)] ok assms(2,3) by simp
  moreover have "tb_av s = replicate atn B_End \<and> tb_permits s = max (sn - int atn) 0" if m: "tb_main s = M_End"
  proof -
    have n: "length (tb_av s) = atn" "tbs (\<lambda>p. p = B_End) s = atn" using ok m by (auto simp: tb_ok_def)
    then have "filter (\<lambda>p. p = B_End) (tb_av s) = tb_av s" unfolding tbs_def by (metis filter_True length_filter_less less_irrefl)
    then have "tb_av s = replicate atn B_End" using n(1) by (intro replicate_eqI) (auto simp: filter_id_conv)
    with n(2) ok m show ?thesis by (simp add: tb_ok_def)
  qed
  ultimately show ?thesis using ok by (simp add: tb_ok_def)
qed

lemma testB_ends_witness:
  "\<exists>s'. testB_step\<^sup>*\<^sup>* (TestB_start 1 2 0) s' \<and> tb_main s' = M_End \<and> tb_av s' = [B_End, B_End] \<and> tb_permits s' = 0"
proof -
  have two: "int 2 \<le> sint (0 + of_nat 2 :: 32 word)" using sint_plus_nat[of 0 2] by simp
  from testB_ends[OF rtranclp.rtrancl_refl _ two, of 1] obtain s' where
    s': "testB_step\<^sup>*\<^sup>* (TestB_start 1 2 0) s'" "tb_main s' = M_End" by auto
  with testB_ends[OF s'(1) _ two] show ?thesis by (auto simp: numeral_2_eq_2)
qed

text \<open>
  With a negative number in the uninitialised \<open>ac\<close> the main thread waits for ever: it never gets to the releases, so
  with more threads than permits the test hangs.
\<close>

definition before_release :: "testB \<Rightarrow> bool" where
  "before_release s \<longleftrightarrow> (case tb_main s of M_Create i \<Rightarrow> True | M_Wait \<Rightarrow> True | _ \<Rightarrow> False)"

theorem testB_garbage_hangs:
  assumes "testB_step\<^sup>*\<^sup>* (TestB_start sn atn a) s" "0 \<le> sn" "sint a < 0" "atn < 2 ^ 31"
  shows "before_release s"
  using assms(1)
proof (induction rule: rtranclp_induct)
  case base
  then show ?case by (simp add: before_release_def TestB_start_def)
next
  case (step s s')
  have ok: "tb_ok a s" "tb_atn s = atn" using testB_reach[OF step(1) assms(2)] by auto
  have "sint (tb_ac s) < int atn" if m: "tb_main s = M_Wait"
  proof -
    have "tbs (\<lambda>p. p \<noteq> B_Inc) s \<le> atn" using ok m length_filter_le[of "\<lambda>p. p \<noteq> B_Inc" "tb_av s"] by (simp add: tb_ok_def tbs_def)
    then show ?thesis using ok(1) assms(3,4) sint_plus_nat[of a "tbs (\<lambda>p. p \<noteq> B_Inc) s"] sint_ge[of a]
      by (simp add: tb_ok_def)
  qed
  with step(2,3) ok(2) show ?case unfolding testB_step_def before_release_def
    by (elim disjE exE TestB_run.cases tb_aq.cases) auto
qed

lemma Test2_ends:
  assumes "(sn, atn) \<in> set Test2" "testB_step\<^sup>*\<^sup>* (TestB_start sn atn 0) s"
  shows "\<exists>s'. testB_step\<^sup>*\<^sup>* s s' \<and> tb_main s' = M_End"
proof -
  have n: "1 \<le> sn" "atn \<le> 64" using assms(1) by (auto simp: Test2_def)
  have "int atn \<le> sint (0 + of_nat atn :: 32 word)" using n(2) sint_plus_nat[of 0 atn] by simp
  with testB_reach[OF assms(2)] n(1) show ?thesis by (intro testB_can_end[of 0 s]) auto
qed

end
