(* ===== verification/Op_New.thy ===== *)
theory Op_New
  imports Cpp_Strings
begin

text \<open>
  \<open>syntax/operator_new/main.cpp\<close>: the replaced global and the class-specific allocation functions, and what the new
  and delete expressions do with them. Memory is made of blocks got from \<open>malloc\<close>; an object lives at an
  offset in a block. To construct outside a block, to destroy what is not alive and to use a null pointer is
  undefined. How many bytes more than the elements need an array new expression asks for (to note the number of
  elements) is up to the implementation, a parameter; the language fixes it to none only for the global
  placement form.
\<close>

section \<open>State\<close>

datatype cls = A | B | C

definition sizeof :: "cls \<Rightarrow> nat" where
  "sizeof k = (case k of A \<Rightarrow> 4 | B \<Rightarrow> 8 | C \<Rightarrow> 4)"

text \<open>What is printed: a line of text, or the name of a function with an address and a size.\<close>

datatype printed = Line string | Called string nat "nat option"

record onew =
  o_blocks :: "nat \<Rightarrow> nat option"
  o_next :: nat
  o_full :: "nat \<Rightarrow> bool"
  o_objs :: "(nat \<times> nat \<times> cls) set"
  o_out :: "printed list"

text \<open>Addresses are block numbers; \<open>malloc\<close> fails when memory is full.\<close>

definition malloc_on :: "nat \<Rightarrow> (onew, nat option) cpp" where
  "malloc_on n = (\<lambda>s. if o_full s (o_next s) then (Val None, s)
     else (Val (Some (o_next s)), s\<lparr>o_blocks := (o_blocks s)(o_next s \<mapsto> n), o_next := o_next s + 1\<rparr>))"

definition free_on :: "nat \<Rightarrow> (onew, unit) cpp" where
  "free_on p = (\<lambda>s. if o_blocks s p = None then (Undef ''free'', s) else (Val (), s\<lparr>o_blocks := (o_blocks s)(p := None)\<rparr>))"

definition print_on :: "printed \<Rightarrow> (onew, unit) cpp" where
  "print_on l = modify (\<lambda>s. s\<lparr>o_out := o_out s @ [l]\<rparr>)"

section \<open>Allocation functions\<close>

definition prefix_of :: "cls \<Rightarrow> string" where
  "prefix_of k = (case k of A \<Rightarrow> [] | B \<Rightarrow> ''B::'' | C \<Rightarrow> ''C::'')"

text \<open>The global functions for \<open>A\<close>, the members of \<open>B\<close>; \<open>C\<close> is only used with the placement forms.\<close>

definition operator_new :: "cls \<Rightarrow> nat \<Rightarrow> (onew, nat) cpp" where
  "operator_new k n =
     bnd (malloc_on n) (\<lambda>p. case p of
       None \<Rightarrow> undef ''operator new returned null''
     | Some p \<Rightarrow> sq (print_on (Called (prefix_of k @ ''operator new'') p (Some n))) (ret p))"

definition operator_delete :: "cls \<Rightarrow> nat \<Rightarrow> (onew, unit) cpp" where
  "operator_delete k p = sq (print_on (Called (prefix_of k @ ''operator delete'') p None)) (free_on p)"

definition operator_new_array :: "cls \<Rightarrow> nat \<Rightarrow> (onew, nat) cpp" where
  "operator_new_array k n =
     bnd (malloc_on n) (\<lambda>p. case p of
       None \<Rightarrow> undef ''operator new[] returned null''
     | Some p \<Rightarrow> sq (print_on (Called (prefix_of k @ ''operator new[]'') p (Some n))) (ret p))"

definition operator_delete_array :: "cls \<Rightarrow> nat \<Rightarrow> (onew, unit) cpp" where
  "operator_delete_array k p = sq (print_on (Called (prefix_of k @ ''operator delete[]'') p None)) (free_on p)"

text \<open>The placement forms of \<open>B\<close> and \<open>C\<close> print; the global ones, used for \<open>A\<close>, do nothing.\<close>

definition placement_new :: "cls \<Rightarrow> string \<Rightarrow> nat \<Rightarrow> nat \<Rightarrow> (onew, unit) cpp" where
  "placement_new k what n p = whenb (k \<noteq> A) (print_on (Called (prefix_of k @ ''Placement '' @ what) p (Some n)))"

definition placement_delete :: "cls \<Rightarrow> string \<Rightarrow> nat \<Rightarrow> (onew, unit) cpp" where
  "placement_delete k what p = whenb (k \<noteq> A) (print_on (Called (prefix_of k @ ''Placement '' @ what) p None))"

section \<open>Construction and destruction\<close>

definition cls_name :: "cls \<Rightarrow> string" where
  "cls_name k = (case k of A \<Rightarrow> ''A'' | B \<Rightarrow> ''B'' | C \<Rightarrow> ''C'')"

text \<open>The constructors; the result is whether it completed: that of \<open>C\<close> throws.\<close>

definition construct :: "cls \<Rightarrow> nat \<Rightarrow> nat \<Rightarrow> (onew, bool) cpp" where
  "construct k p off = (\<lambda>s. case o_blocks s p of
       None \<Rightarrow> (Undef ''object in freed memory'', s)
     | Some n \<Rightarrow> if n < off + sizeof k then (Undef ''object past the end of its block'', s)
         else sq (print_on (Line (cls_name k @ ''()'')))
           (if k = C then ret False
            else sq (modify (\<lambda>s. s\<lparr>o_objs := insert (p, off, k) (o_objs s)\<rparr>)) (ret True)) s)"

definition destroy :: "cls \<Rightarrow> nat \<Rightarrow> nat \<Rightarrow> (onew, unit) cpp" where
  "destroy k p off = (\<lambda>s. if (p, off, k) \<notin> o_objs s then (Undef ''destructor of a dead object'', s)
     else sq (print_on (Line (CHR ''~'' # cls_name k @ ''()'')))
       (modify (\<lambda>s. s\<lparr>o_objs := o_objs s - {(p, off, k)}\<rparr>)) s)"

text \<open>
  The elements of an array are constructed from the first to the last and destroyed in the opposite order, also those
  already constructed when a constructor throws.
\<close>

primrec destroy_array :: "cls \<Rightarrow> nat \<Rightarrow> nat \<Rightarrow> nat \<Rightarrow> (onew, unit) cpp" where
  "destroy_array k p off 0 = skip"
| "destroy_array k p off (Suc n) = sq (destroy k p (off + n * sizeof k)) (destroy_array k p off n)"

primrec construct_array :: "cls \<Rightarrow> nat \<Rightarrow> nat \<Rightarrow> nat \<Rightarrow> (onew, bool) cpp" where
  "construct_array k p off 0 = ret True"
| "construct_array k p off (Suc n) =
     bnd (construct_array k p off n) (\<lambda>ok.
       if \<not> ok then ret False
       else bnd (construct k p (off + n * sizeof k)) (\<lambda>ok.
         if ok then ret True else sq (destroy_array k p off n) (ret False)))"

section \<open>The functions of the program\<close>

text \<open>\<open>False\<close>: an exception leaves the function.\<close>

definition CallNew :: "cls \<Rightarrow> (onew, bool) cpp" where
  "CallNew k =
     bnd (operator_new k (sizeof k)) (\<lambda>p.
     bnd (construct k p 0) (\<lambda>ok.
       if ok then sq (destroy k p 0) (sq (operator_delete k p) (ret True))
       else sq (operator_delete k p) (ret False)))"

definition CallNewArray :: "(cls \<Rightarrow> nat) \<Rightarrow> cls \<Rightarrow> nat \<Rightarrow> (onew, bool) cpp" where
  "CallNewArray overhead k n =
     bnd (operator_new_array k (overhead k + n * sizeof k)) (\<lambda>p.
     bnd (construct_array k p (overhead k) n) (\<lambda>ok.
       if ok then sq (destroy_array k p (overhead k) n) (sq (operator_delete_array k p) (ret True))
       else sq (operator_delete_array k p) (ret False)))"

text \<open>\<open>malloc\<close> is called directly here; its null pointer would be used.\<close>

definition malloc_or_undef :: "nat \<Rightarrow> (onew, nat) cpp" where
  "malloc_or_undef n = bnd (malloc_on n) (\<lambda>p. case p of None \<Rightarrow> undef ''object at the null pointer'' | Some p \<Rightarrow> ret p)"

definition CallPlacementNew :: "cls \<Rightarrow> (onew, unit) cpp" where
  "CallPlacementNew k =
     bnd (malloc_or_undef (sizeof k)) (\<lambda>buf.
     sq (sq (placement_new k ''new'' (sizeof k) buf)
        (bnd (construct k buf 0) (\<lambda>ok.
          if ok then destroy k buf 0
          else sq (placement_delete k ''delete'' buf) (print_on (Line ''exception'')))))
     (free_on buf))"

primrec destroy_first :: "cls \<Rightarrow> nat \<Rightarrow> nat \<Rightarrow> nat \<Rightarrow> (onew, unit) cpp" where
  "destroy_first k p off 0 = skip"
| "destroy_first k p off (Suc n) = sq (destroy k p off) (destroy_first k p off n)"

definition placement_overhead :: "(cls \<Rightarrow> nat) \<Rightarrow> cls \<Rightarrow> nat" where
  "placement_overhead overhead k = (if k = A then 0 else overhead k)"

definition CallPlacementNewArray :: "(cls \<Rightarrow> nat) \<Rightarrow> cls \<Rightarrow> nat \<Rightarrow> (onew, unit) cpp" where
  "CallPlacementNewArray overhead k n =
     (let off = placement_overhead overhead k in
      bnd (malloc_or_undef (sizeof k * n)) (\<lambda>buf.
      sq (sq (placement_new k ''new[]'' (off + n * sizeof k) buf)
         (bnd (construct_array k buf off n) (\<lambda>ok.
           if ok then destroy_first k buf off n
           else sq (placement_delete k ''delete[]'' buf) (print_on (Line ''exception'')))))
      (free_on buf)))"

definition rule_line :: string where
  "rule_line = ''------------------------------------------------------''"

definition heading :: "string \<Rightarrow> (onew, unit) cpp" where
  "heading t = sq (print_on (Line rule_line)) (sq (print_on (Line t)) (print_on (Line [])))"

definition blank_line :: "(onew, unit) cpp" where
  "blank_line = print_on (Line [])"

text \<open>An exception that nothing catches ends the program.\<close>

definition uncaught :: "(onew, bool) cpp \<Rightarrow> (onew, unit) cpp" where
  "uncaught m = bnd m (\<lambda>ok. if ok then skip else (\<lambda>s. (Exit 134, s)))"

primrec seqs :: "('s, unit) cpp list \<Rightarrow> ('s, unit) cpp" where
  "seqs [] = skip"
| "seqs (m # ms) = sq m (seqs ms)"

definition main_on :: "(cls \<Rightarrow> nat) \<Rightarrow> (onew, int) cpp" where
  "main_on overhead = sq (seqs
     [heading ''> operator new'', uncaught (CallNew A), blank_line, uncaught (CallNew B), blank_line,
      heading ''> operator new[]'', uncaught (CallNewArray overhead A 2), blank_line, uncaught (CallNewArray overhead B 2), blank_line,
      heading ''> placement new'', CallPlacementNew A, blank_line, CallPlacementNew B, blank_line,
      heading ''> placement new[]'', CallPlacementNewArray overhead A 2, blank_line, CallPlacementNewArray overhead B 2, blank_line,
      heading ''> placement delete'', CallPlacementNew C, blank_line, CallPlacementNewArray overhead C 2, blank_line])
     (ret 0)"

section \<open>Balance\<close>

text \<open>
  \<open>balanced\<close>: the call ends normally, every block it has taken is freed again, every object it has made is destroyed, and
  what it printed is \<open>ls\<close>. Block numbers from \<open>o_next\<close> on have not been used.
\<close>

definition fresh_ok :: "onew \<Rightarrow> bool" where
  "fresh_ok s \<longleftrightarrow> (\<forall>p \<ge> o_next s. o_blocks s p = None) \<and> (\<forall>(p, off, k) \<in> o_objs s. p < o_next s) \<and> (\<forall>n. \<not> o_full s n)"

definition used_block :: "onew \<Rightarrow> printed list \<Rightarrow> onew" where
  "used_block s ls = s\<lparr>o_next := o_next s + 1, o_out := o_out s @ ls\<rparr>"

lemma fresh_used: "fresh_ok s \<Longrightarrow> fresh_ok (used_block s ls)"
  by (auto simp: fresh_ok_def used_block_def)

lemma block_gone: "fresh_ok s \<Longrightarrow> (o_blocks s)(o_next s := None) = o_blocks s"
  by (auto simp: fresh_ok_def)

lemma objs_gone: "fresh_ok s \<Longrightarrow> (o_next s, off, k) \<notin> o_objs s"
  by (fastforce simp: fresh_ok_def)

lemmas on_defs = operator_new_def operator_delete_def operator_new_array_def operator_delete_array_def malloc_on_def free_on_def
  print_on_def construct_def destroy_def malloc_or_undef_def placement_new_def placement_delete_def

lemma fresh_sel [simp]: "fresh_ok s \<Longrightarrow> \<not> o_full s n"
  by (simp add: fresh_ok_def)

lemma CallNew_run:
  assumes "fresh_ok s" "k \<noteq> C"
  shows "CallNew k s = (Val True, used_block s [Called (prefix_of k @ ''operator new'') (o_next s) (Some (sizeof k)), Line (cls_name k @ ''()''),
    Line (CHR ''~'' # cls_name k @ ''()''), Called (prefix_of k @ ''operator delete'') (o_next s) None])"
  using assms block_gone[OF assms(1)] objs_gone[OF assms(1)]
  by (simp add: CallNew_def on_defs cpp_eval used_block_def)

lemma CallPlacementNew_run:
  assumes "fresh_ok s" "k \<noteq> C"
  shows "CallPlacementNew k s = (Val (), used_block s ((if k = A then [] else
      [Called (prefix_of k @ ''Placement new'') (o_next s) (Some (sizeof k))]) @ [Line (cls_name k @ ''()''), Line (CHR ''~'' # cls_name k @ ''()'')]))"
  using assms block_gone[OF assms(1)] objs_gone[OF assms(1)]
  by (simp add: CallPlacementNew_def on_defs cpp_eval used_block_def)

lemma CallPlacementNew_throws:
  assumes "fresh_ok s"
  shows "CallPlacementNew C s = (Val (), used_block s [Called ''C::Placement new'' (o_next s) (Some 4), Line ''C()'',
    Called ''C::Placement delete'' (o_next s) None, Line ''exception''])"
  using assms block_gone[OF assms(1)]
  by (simp add: CallPlacementNew_def on_defs cpp_eval used_block_def sizeof_def prefix_of_def cls_name_def)

text \<open>Arrays.\<close>

definition elems :: "cls \<Rightarrow> nat \<Rightarrow> nat \<Rightarrow> nat \<Rightarrow> (nat \<times> nat \<times> cls) set" where
  "elems k p off n = (\<lambda>i. (p, off + i * sizeof k, k)) ` {..<n}"

lemma elems_simps [simp]:
  "elems k p off 0 = {}" "elems k p off (Suc n) = insert (p, off + n * sizeof k, k) (elems k p off n)"
  by (simp_all add: elems_def lessThan_Suc)

lemma sizeof_pos [simp]: "0 < sizeof k"
  by (cases k) (simp_all add: sizeof_def)

lemma elems_last: "(p, off + n * sizeof k, k) \<notin> elems k p off n"
  using sizeof_pos[of k] by (auto simp: elems_def simp del: sizeof_pos)

lemma construct_array_run:
  assumes "o_blocks s p = Some b" "off + n * sizeof k \<le> b" "k \<noteq> C"
  shows "construct_array k p off n s =
    (Val True, s\<lparr>o_out := o_out s @ replicate n (Line (cls_name k @ ''()'')), o_objs := o_objs s \<union> elems k p off n\<rparr>)"
  using assms(2)
proof (induction n)
  case (Suc n)
  then have "off + n * sizeof k \<le> b" "\<not> b < off + n * sizeof k + sizeof k" by simp_all
  with Suc.IH assms(1,3) show ?case
    by (simp add: construct_def print_on_def cpp_eval replicate_append_same[symmetric])
qed (simp add: ret_run)

lemma construct_array_overflow:
  assumes "o_blocks s p = Some b" "b < off + Suc n * sizeof k" "k \<noteq> C"
  shows "\<exists>s'. construct_array k p off (Suc n) s = (Undef ''object past the end of its block'', s')"
  using assms(2)
proof (induction n)
  case 0
  then show ?case using assms(1) by (simp add: construct_def cpp_eval)
next
  case (Suc n)
  show ?case
  proof (cases "b < off + Suc n * sizeof k")
    case True
    from Suc.IH[OF this] obtain s' where "construct_array k p off (Suc n) s = (Undef ''object past the end of its block'', s')" by blast
    then show ?thesis unfolding construct_array.simps(2)[of _ _ _ "Suc n"] bnd_eval by simp
  next
    case False
    then have r: "construct_array k p off (Suc n) s =
      (Val True, s\<lparr>o_out := o_out s @ replicate (Suc n) (Line (cls_name k @ ''()'')), o_objs := o_objs s \<union> elems k p off (Suc n)\<rparr>)"
      using construct_array_run[OF assms(1), of off "Suc n" k] assms(3) by simp
    show ?thesis unfolding construct_array.simps(2)[of _ _ _ "Suc n"] bnd_eval r
      using assms(1) Suc.prems by (simp add: construct_def bnd_eval)
  qed
qed

lemma destroy_array_run:
  "elems k p off n \<subseteq> o_objs s \<Longrightarrow> destroy_array k p off n s =
     (Val (), s\<lparr>o_out := o_out s @ replicate n (Line (CHR ''~'' # cls_name k @ ''()'')), o_objs := o_objs s - elems k p off n\<rparr>)"
proof (induction n arbitrary: s)
  case (Suc n)
  let ?s = "s\<lparr>o_out := o_out s @ [Line (CHR ''~'' # cls_name k @ ''()'')], o_objs := o_objs s - {(p, off + n * sizeof k, k)}\<rparr>"
  have "elems k p off n \<subseteq> o_objs ?s" using Suc.prems elems_last[of p off n k] by auto
  from Suc.IH[OF this] Suc.prems show ?case
    by (simp add: destroy_def print_on_def cpp_eval Diff_insert2[symmetric])
qed (simp add: skip_run)

lemma elems_fresh: "fresh_ok s \<Longrightarrow> o_objs s \<union> elems k (o_next s) off n - elems k (o_next s) off n = o_objs s"
  using objs_gone[of s] by (auto simp: elems_def)

lemma CallNewArray_run:
  assumes "fresh_ok s" "k \<noteq> C"
  shows "CallNewArray ov k n s = (Val True, used_block s
    (Called (prefix_of k @ ''operator new[]'') (o_next s) (Some (ov k + n * sizeof k)) # replicate n (Line (cls_name k @ ''()'')) @
     replicate n (Line (CHR ''~'' # cls_name k @ ''()'')) @ [Called (prefix_of k @ ''operator delete[]'') (o_next s) None]))"
proof -
  let ?p = "o_next s" and ?b = "ov k + n * sizeof k"
  let ?s1 = "s\<lparr>o_blocks := (o_blocks s)(?p \<mapsto> ?b), o_next := ?p + 1, o_out := o_out s @ [Called (prefix_of k @ ''operator new[]'') ?p (Some ?b)]\<rparr>"
  let ?s2 = "?s1\<lparr>o_out := o_out ?s1 @ replicate n (Line (cls_name k @ ''()'')), o_objs := o_objs s \<union> elems k ?p (ov k) n\<rparr>"
  have "operator_new_array k ?b s = (Val ?p, ?s1)" using assms(1) by (simp add: operator_new_array_def malloc_on_def print_on_def cpp_eval)
  moreover have "construct_array k ?p (ov k) n ?s1 = (Val True, ?s2)"
    using construct_array_run[of ?s1 ?p ?b "ov k" n k] assms(2) by simp
  moreover have "destroy_array k ?p (ov k) n ?s2 = (Val (), ?s2\<lparr>o_out := o_out ?s2 @ replicate n (Line (CHR ''~'' # cls_name k @ ''()'')), o_objs := o_objs s\<rparr>)"
    using destroy_array_run[of k ?p "ov k" n ?s2] elems_fresh[OF assms(1), of k "ov k" n] by simp
  ultimately show ?thesis using block_gone[OF assms(1)]
    by (simp add: CallNewArray_def operator_delete_array_def print_on_def free_on_def cpp_eval used_block_def)
qed

text \<open>
  What is taken is given back. With memory to spare, for the classes whose constructors return, a new expression
  followed by delete, and the array forms for any number of elements and any overhead, call each the allocation function
  of the class, the constructors, the destructors and the matching deallocation function, and leave every block and every
  object as it was; so does the placement form; and when the constructor throws in it, the matching placement delete
  is called, the exception is caught and the buffer is freed.
\<close>

theorem new_delete_balanced:
  assumes "fresh_ok s" "k \<noteq> C"
  shows "CallNew k s = (Val True, used_block s [Called (prefix_of k @ ''operator new'') (o_next s) (Some (sizeof k)),
      Line (cls_name k @ ''()''), Line (CHR ''~'' # cls_name k @ ''()''), Called (prefix_of k @ ''operator delete'') (o_next s) None]) \<and>
    CallNewArray overhead k n s = (Val True, used_block s
      (Called (prefix_of k @ ''operator new[]'') (o_next s) (Some (overhead k + n * sizeof k)) # replicate n (Line (cls_name k @ ''()'')) @
       replicate n (Line (CHR ''~'' # cls_name k @ ''()'')) @ [Called (prefix_of k @ ''operator delete[]'') (o_next s) None])) \<and>
    (\<exists>ls. CallPlacementNew k s = (Val (), used_block s ls)) \<and>
    CallPlacementNew C s = (Val (), used_block s [Called ''C::Placement new'' (o_next s) (Some 4), Line ''C()'',
      Called ''C::Placement delete'' (o_next s) None, Line ''exception''])"
  using CallNew_run[OF assms] CallNewArray_run[OF assms] CallPlacementNew_run[OF assms] CallPlacementNew_throws[OF assms(1)] by blast

definition on_start :: onew where
  "on_start = \<lparr>o_blocks = (\<lambda>_. None), o_next = 0, o_full = (\<lambda>_. False), o_objs = {}, o_out = []\<rparr>"

lemma fresh_start: "fresh_ok on_start"
  by (simp add: fresh_ok_def on_start_def)

lemma new_delete_balanced_witness:
  "o_out (snd (CallNewArray (\<lambda>_. 8) B 2 on_start)) =
     [Called ''B::operator new[]'' 0 (Some 24), Line ''B()'', Line ''B()'', Line ''~B()'', Line ''~B()'', Called ''B::operator delete[]'' 0 None]"
  using new_delete_balanced[OF fresh_start, of B "\<lambda>_. 8" 2]
  by (simp add: used_block_def on_start_def prefix_of_def sizeof_def cls_name_def numeral_2_eq_2)

section \<open>The placement form for arrays\<close>

lemma destroy_twice:
  "(p, off, k) \<in> o_objs s \<Longrightarrow> \<exists>s'. destroy_first k p off (Suc (Suc n)) s = (Undef ''destructor of a dead object'', s')"
  by (simp add: destroy_def print_on_def cpp_eval)

lemma sq_undef: "\<exists>u s'. m s = (Undef u, s') \<Longrightarrow> \<exists>u s'. sq m k s = (Undef u, s')"
  by (auto simp: sq_eval)

lemma CallPlacementNewArray_undef:
  assumes "fresh_ok s" "k \<noteq> C"
  shows "\<exists>u s'. CallPlacementNewArray ov k (Suc (Suc n)) s = (Undef u, s')"
proof -
  let ?off = "placement_overhead ov k" and ?p = "o_next s" and ?b = "sizeof k * Suc (Suc n)"
  define s0 where "s0 = s\<lparr>o_blocks := (o_blocks s)(?p \<mapsto> ?b), o_next := ?p + 1\<rparr>"
  define s1 where "s1 = snd (placement_new k ''new[]'' (?off + Suc (Suc n) * sizeof k) ?p s0)"
  have m: "malloc_or_undef ?b s = (Val ?p, s0)" using assms(1) by (simp add: malloc_or_undef_def malloc_on_def s0_def cpp_eval)
  have pn: "placement_new k ''new[]'' (?off + Suc (Suc n) * sizeof k) ?p s0 = (Val (), s1)" "o_blocks s1 ?p = Some ?b"
    by (simp_all add: s1_def s0_def placement_new_def print_on_def cpp_eval)
  let ?body = "bnd (construct_array k ?p ?off (Suc (Suc n))) (\<lambda>ok.
      if ok then destroy_first k ?p ?off (Suc (Suc n))
      else sq (placement_delete k ''delete[]'' ?p) (print_on (Line ''exception'')))"
  have "\<exists>u t. ?body s1 = (Undef u, t)"
  proof (cases "?off = 0")
    case True
    have "(?p, ?off, k) \<in> elems k ?p ?off (Suc (Suc n))" by (force simp: elems_def)
    moreover have "construct_array k ?p ?off (Suc (Suc n)) s1 = (Val True, s1\<lparr>o_out := o_out s1 @ replicate (Suc (Suc n)) (Line (cls_name k @ ''()'')),
        o_objs := o_objs s1 \<union> elems k ?p ?off (Suc (Suc n))\<rparr>)"
      by (rule construct_array_run[OF pn(2)]) (use assms(2) True in simp_all)
    ultimately obtain s2 where s2: "construct_array k ?p ?off (Suc (Suc n)) s1 = (Val True, s2)" "(?p, ?off, k) \<in> o_objs s2" by force
    from destroy_twice[OF s2(2), of n] show ?thesis unfolding bnd_eval s2(1) prod.case outcome.case if_P[OF TrueI] by blast
  next
    case False
    then show ?thesis using construct_array_overflow[OF pn(2), of ?off "Suc n" k] assms(2) by (auto simp: bnd_eval simp del: construct_array.simps)
  qed
  then obtain u t where bd: "?body s1 = (Undef u, t)" by blast
  have "sq (placement_new k ''new[]'' (?off + Suc (Suc n) * sizeof k) ?p) ?body s0 = (Undef u, t)"
    unfolding sq_eval[of "placement_new k ''new[]'' (?off + Suc (Suc n) * sizeof k) ?p" ?body s0] pn(1) prod.case outcome.case by (rule bd)
  then have "\<exists>u t. sq (sq (placement_new k ''new[]'' (?off + Suc (Suc n) * sizeof k) ?p) ?body) (free_on ?p) s0 = (Undef u, t)"
    by (intro sq_undef[where m = "sq x y" for x y]) blast
  then show ?thesis unfolding CallPlacementNewArray_def Let_def bnd_eval[of "malloc_or_undef ?b"] m prod.case outcome.case .
qed

lemma fresh_out: "fresh_ok s \<Longrightarrow> fresh_ok (s\<lparr>o_out := ls\<rparr>)"
  by (simp add: fresh_ok_def)

text \<open>\<open>calm\<close>: the call ends normally and again leaves memory to spare.\<close>

definition calm :: "(onew, unit) cpp \<Rightarrow> bool" where
  "calm m \<longleftrightarrow> (\<forall>s. fresh_ok s \<longrightarrow> (\<exists>s'. m s = (Val (), s') \<and> fresh_ok s'))"

lemma calm_parts:
  "calm (heading t)" "calm blank_line" "k \<noteq> C \<Longrightarrow> calm (uncaught (CallNew k))" "k \<noteq> C \<Longrightarrow> calm (uncaught (CallNewArray ov k n))"
  "calm (CallPlacementNew k)"
proof -
  show "calm (heading t)" "calm blank_line" by (simp_all add: calm_def heading_def blank_line_def print_on_def cpp_eval fresh_out)
  show "k \<noteq> C \<Longrightarrow> calm (uncaught (CallNew k))" "k \<noteq> C \<Longrightarrow> calm (uncaught (CallNewArray ov k n))"
    by (simp_all add: calm_def uncaught_def CallNew_run CallNewArray_run cpp_eval fresh_used)
  show "calm (CallPlacementNew k)"
    by (cases "k = C") (simp_all add: calm_def CallPlacementNew_run CallPlacementNew_throws fresh_used)
qed

lemma seqs_undef:
  assumes "\<forall>m \<in> set ms. calm m" "\<And>s. fresh_ok s \<Longrightarrow> \<exists>u s'. m s = (Undef u, s')" "fresh_ok s"
  shows "\<exists>u s'. seqs (ms @ m # ns) s = (Undef u, s')"
  using assms(1,3)
proof (induction ms arbitrary: s)
  case Nil
  then show ?case using assms(2)[of s] by (auto simp: sq_eval)
next
  case (Cons l ms)
  then obtain s1 where "l s = (Val (), s1)" "fresh_ok s1" by (auto simp: calm_def)
  with Cons show ?case by (auto simp: sq_eval)
qed

text \<open>
  The placement form for arrays is undefined for two or more elements: either the objects do not fit into the buffer,
  which has no room for the overhead, or the loop destroys the first object again and again. So the program
  itself, which does so with two elements of \<open>A\<close>, has no defined behaviour.
\<close>

theorem placement_array_undefined:
  assumes "fresh_ok s" "k \<noteq> C" "2 \<le> n"
  shows "(\<exists>u s'. CallPlacementNewArray overhead k n s = (Undef u, s')) \<and> (\<exists>u s'. main_on overhead s = (Undef u, s'))"
proof
  obtain i where n: "n = Suc (Suc i)" using assms(3) by (metis add_2_eq_Suc le_Suc_ex)
  show "\<exists>u s'. CallPlacementNewArray overhead k n s = (Undef u, s')"
    unfolding n by (rule CallPlacementNewArray_undef[OF assms(1,2)])
  have "\<exists>u s'. CallPlacementNewArray overhead A 2 s = (Undef u, s')" if "fresh_ok s" for s
    using CallPlacementNewArray_undef[OF that, of A overhead 0] by (simp add: numeral_2_eq_2)
  then have "\<exists>u s'. seqs ([heading ''> operator new'', uncaught (CallNew A), blank_line, uncaught (CallNew B), blank_line,
      heading ''> operator new[]'', uncaught (CallNewArray overhead A 2), blank_line, uncaught (CallNewArray overhead B 2), blank_line,
      heading ''> placement new'', CallPlacementNew A, blank_line, CallPlacementNew B, blank_line, heading ''> placement new[]''] @
      CallPlacementNewArray overhead A 2 # [blank_line, CallPlacementNewArray overhead B 2, blank_line,
      heading ''> placement delete'', CallPlacementNew C, blank_line, CallPlacementNewArray overhead C 2, blank_line]) s = (Undef u, s')"
    by (intro seqs_undef assms(1)) (simp_all add: calm_parts)
  then show "\<exists>u s'. main_on overhead s = (Undef u, s')"
    unfolding main_on_def append_Cons append_Nil by (rule sq_undef)
qed

lemma placement_array_undefined_witness: "\<exists>u s'. main_on (\<lambda>_. 8) on_start = (Undef u, s')"
  using placement_array_undefined[OF fresh_start, of A 2 "\<lambda>_. 8"] by simp

end
