(* ===== verification/Cond_Var.thy ===== *)
theory Cond_Var
  imports Cpp_Prelude
begin

text \<open>
  \<open>thread/use_condition_variable/main.cpp\<close>: two threads that wait for each other with one mutex, one condition
  variable and the variable \<open>step\<close>, all of them local to \<open>Run\<close>. Every access under the mutex is one step, as is
  every lock and every notification; \<open>cv.wait\<close> looks at its condition under the mutex, gives the mutex up when it goes to
  sleep and takes it again after a wake-up, which may also be spurious.
\<close>

section \<open>The two threads\<close>

text \<open>The program points of \<open>Run\<close> and of the thread it starts.\<close>

datatype run_pc = M_Lock | M_Set | M_Notify | M_Relock | M_Check | M_Asleep | M_Print | M_Returned

datatype thr_pc = T_Lock | T_Check | T_Asleep | T_Print | T_Relock | T_Set | T_Notify | T_Done

record hs =
  m_pc :: run_pc
  t_pc :: thr_pc
  hs_step :: int
  hs_out :: "string list"
  hs_gone :: bool

definition hs_start :: hs where
  "hs_start = \<lparr>m_pc = M_Lock, t_pc = T_Lock, hs_step = 0, hs_out = [], hs_gone = False\<rparr>"

definition m_holds :: "hs \<Rightarrow> bool" where
  "m_holds s \<longleftrightarrow> m_pc s \<in> {M_Set, M_Check}"

definition t_holds :: "hs \<Rightarrow> bool" where
  "t_holds s \<longleftrightarrow> t_pc s \<in> {T_Check, T_Set}"

text \<open>\<open>hs_gone\<close> becomes true when the thread uses the condition variable after \<open>Run\<close> has returned.\<close>

inductive run_step :: "hs \<Rightarrow> hs \<Rightarrow> bool" where
  m_lock: "m_pc s = M_Lock \<Longrightarrow> \<not> t_holds s \<Longrightarrow> run_step s (s\<lparr>m_pc := M_Set\<rparr>)"
| m_set: "m_pc s = M_Set \<Longrightarrow> run_step s (s\<lparr>hs_step := 1, m_pc := M_Notify\<rparr>)"
| m_notify: "m_pc s = M_Notify \<Longrightarrow>
    run_step s (s\<lparr>m_pc := M_Relock, t_pc := (if t_pc s = T_Asleep then T_Lock else t_pc s)\<rparr>)"
| m_relock: "m_pc s = M_Relock \<Longrightarrow> \<not> t_holds s \<Longrightarrow> run_step s (s\<lparr>m_pc := M_Check\<rparr>)"
| m_check: "m_pc s = M_Check \<Longrightarrow> run_step s (s\<lparr>m_pc := (if hs_step s = 2 then M_Print else M_Asleep)\<rparr>)"
| m_print: "m_pc s = M_Print \<Longrightarrow> run_step s (s\<lparr>m_pc := M_Returned, hs_out := hs_out s @ [''step: 2'']\<rparr>)"
| t_lock: "t_pc s = T_Lock \<Longrightarrow> \<not> m_holds s \<Longrightarrow> run_step s (s\<lparr>t_pc := T_Check\<rparr>)"
| t_check: "t_pc s = T_Check \<Longrightarrow> run_step s (s\<lparr>t_pc := (if hs_step s = 1 then T_Print else T_Asleep)\<rparr>)"
| t_print: "t_pc s = T_Print \<Longrightarrow> run_step s (s\<lparr>t_pc := T_Relock, hs_out := hs_out s @ [''step: 1'']\<rparr>)"
| t_relock: "t_pc s = T_Relock \<Longrightarrow> \<not> m_holds s \<Longrightarrow> run_step s (s\<lparr>t_pc := T_Set\<rparr>)"
| t_set: "t_pc s = T_Set \<Longrightarrow> run_step s (s\<lparr>hs_step := 2, t_pc := T_Notify\<rparr>)"
| t_notify: "t_pc s = T_Notify \<Longrightarrow>
    run_step s (s\<lparr>t_pc := T_Done, m_pc := (if m_pc s = M_Asleep then M_Relock else m_pc s),
      hs_gone := (hs_gone s \<or> m_pc s = M_Returned)\<rparr>)"

inductive spurious :: "hs \<Rightarrow> hs \<Rightarrow> bool" where
  m_wakes: "m_pc s = M_Asleep \<Longrightarrow> spurious s (s\<lparr>m_pc := M_Relock\<rparr>)"
| t_wakes: "t_pc s = T_Asleep \<Longrightarrow> spurious s (s\<lparr>t_pc := T_Lock\<rparr>)"

definition any_step :: "hs \<Rightarrow> hs \<Rightarrow> bool" where
  "any_step s s' \<longleftrightarrow> run_step s s' \<or> spurious s s'"

section \<open>Order and progress\<close>

definition t_printed :: "hs \<Rightarrow> bool" where
  "t_printed s \<longleftrightarrow> t_pc s \<in> {T_Relock, T_Set, T_Notify, T_Done}"

definition hs_inv :: "hs \<Rightarrow> bool" where
  "hs_inv s \<longleftrightarrow>
     hs_step s = (if t_pc s \<in> {T_Notify, T_Done} then 2 else if m_pc s \<in> {M_Lock, M_Set} then 0 else 1) \<and>
     (t_pc s = T_Print \<or> t_printed s \<longrightarrow> m_pc s \<notin> {M_Lock, M_Set}) \<and>
     (t_pc s = T_Asleep \<longrightarrow> m_pc s \<in> {M_Lock, M_Set, M_Notify}) \<and>
     (m_pc s = M_Asleep \<longrightarrow> t_pc s \<noteq> T_Done) \<and>
     (m_pc s \<in> {M_Print, M_Returned} \<longrightarrow> t_pc s \<in> {T_Notify, T_Done}) \<and>
     \<not> (m_holds s \<and> t_holds s) \<and>
     hs_out s = (if t_printed s then [''step: 1''] else []) @ (if m_pc s = M_Returned then [''step: 2''] else [])"

lemma hs_inv_start: "hs_inv hs_start"
  by (simp add: hs_inv_def hs_start_def t_printed_def m_holds_def)

lemma hs_inv_step: "any_step s s' \<Longrightarrow> hs_inv s \<Longrightarrow> hs_inv s'"
  unfolding any_step_def
  by (elim disjE run_step.cases spurious.cases) (auto simp: hs_inv_def t_printed_def m_holds_def t_holds_def split: if_splits)

lemma hs_inv_reach: "any_step\<^sup>*\<^sup>* hs_start s \<Longrightarrow> hs_inv s"
  by (induction rule: rtranclp_induct) (use hs_inv_start hs_inv_step in blast)+

lemma run_progress:
  assumes "hs_inv s" "m_pc s \<noteq> M_Returned \<or> t_pc s \<noteq> T_Done"
  shows "\<exists>s'. run_step s s'"
proof (cases "t_pc s \<in> {T_Check, T_Print, T_Set, T_Notify}")
  case True
  then show ?thesis by (auto intro: run_step.intros)
next
  case False
  then have t: "\<not> t_holds s" by (auto simp: t_holds_def)
  show ?thesis
  proof (cases "m_pc s = M_Asleep")
    case True
    then have "t_pc s \<in> {T_Lock, T_Relock}" "\<not> m_holds s" using False assms(1) by (cases "t_pc s"; auto simp: hs_inv_def m_holds_def)+
    then show ?thesis by (auto intro: run_step.intros)
  next
    case asleep: False
    show ?thesis
    proof (cases "m_pc s = M_Returned")
      case True
      then show ?thesis using False assms by (auto simp: hs_inv_def)
    next
      case False
      with asleep t show ?thesis by (cases "m_pc s") (auto intro: run_step.intros)
    qed
  qed
qed

text \<open>
  The threads take turns and never block each other. However their steps interleave, and whatever spurious wake-ups
  there are: unless both have ended, one of them can go on without a spurious wake-up; what has been printed is the
  beginning of \<open>step: 1\<close>, \<open>step: 2\<close>; and when both have ended, both lines have been printed.
\<close>

theorem handshake:
  assumes "any_step\<^sup>*\<^sup>* hs_start s"
  shows "((\<exists>s'. run_step s s') \<or> m_pc s = M_Returned \<and> t_pc s = T_Done \<and> hs_out s = [''step: 1'', ''step: 2'']) \<and>
    (\<exists>n. hs_out s = take n [''step: 1'', ''step: 2''])"
proof -
  note inv = hs_inv_reach[OF assms]
  have "m_pc s = M_Returned \<Longrightarrow> t_printed s" using inv by (auto simp: hs_inv_def t_printed_def)
  then have "hs_out s \<in> {[], [''step: 1''], [''step: 1'', ''step: 2'']}" using inv by (auto simp: hs_inv_def)
  then have "\<exists>n. hs_out s = take n [''step: 1'', ''step: 2'']"
    by (elim insertE emptyE) (auto intro: exI[of _ "0::nat"] exI[of _ "1::nat"] exI[of _ "2::nat"])
  moreover have "m_pc s = M_Returned \<Longrightarrow> t_pc s = T_Done \<Longrightarrow> hs_out s = [''step: 1'', ''step: 2'']"
    using inv by (simp add: hs_inv_def t_printed_def)
  ultimately show ?thesis using run_progress[OF inv] by blast
qed

text \<open>
  The thread is detached, so nothing makes \<open>Run\<close> wait for its last step: it may notify a condition variable that no
  longer exists.
\<close>

lemma steps_trans: "run_step s s' \<Longrightarrow> any_step\<^sup>*\<^sup>* s' s'' \<Longrightarrow> any_step\<^sup>*\<^sup>* s s''"
  by (rule converse_rtranclp_into_rtranclp) (simp_all add: any_step_def)

definition late_notify :: hs where
  "late_notify = \<lparr>m_pc = M_Returned, t_pc = T_Done, hs_step = 2, hs_out = [''step: 1'', ''step: 2''], hs_gone = True\<rparr>"

lemma late_notify_reached: "any_step\<^sup>*\<^sup>* hs_start late_notify"
  unfolding hs_start_def late_notify_def
  by (rule steps_trans, rule run_step.m_lock, simp, simp add: t_holds_def, rule steps_trans, rule run_step.m_set, simp,
        rule steps_trans, rule run_step.m_notify, simp, rule steps_trans, rule run_step.t_lock, simp, simp add: m_holds_def,
        rule steps_trans, rule run_step.t_check, simp, rule steps_trans, rule run_step.t_print, simp,
        rule steps_trans, rule run_step.t_relock, simp, simp add: m_holds_def, rule steps_trans, rule run_step.t_set, simp,
        rule steps_trans, rule run_step.m_relock, simp, simp add: t_holds_def, rule steps_trans, rule run_step.m_check, simp,
        rule steps_trans, rule run_step.m_print, simp, rule steps_trans, rule run_step.t_notify, simp, simp)

lemma notified_after_return: "\<exists>s. any_step\<^sup>*\<^sup>* hs_start s \<and> hs_gone s"
  using late_notify_reached by (intro exI[of _ late_notify]) (simp add: late_notify_def)

lemma handshake_witness: "any_step\<^sup>*\<^sup>* hs_start late_notify \<and> ((\<exists>s'. run_step late_notify s') \<or> hs_out late_notify = [''step: 1'', ''step: 2''])"
  using handshake[OF late_notify_reached] late_notify_reached by blast

end
