(* ===== verification/Bezier.thy ===== *)
theory Bezier
  imports Complex_Main
begin

text \<open>
  The curves of \<open>curve/core\<close>. The coordinates are of any type with the arithmetic that is used, in the order in
  which the source computes; the theorems are about a commutative ring or the real numbers, that is about exact
  arithmetic: the rounding of \<open>double\<close> is not modelled.
\<close>

section \<open>basic_types.h and utils.h\<close>

record 'a Point2D =
  px :: 'a
  py :: 'a

definition scale :: "'a::times \<Rightarrow> 'a Point2D \<Rightarrow> 'a Point2D" where
  "scale v p = \<lparr>px = px p * v, py = py p * v\<rparr>"

definition add :: "'a::plus Point2D \<Rightarrow> 'a Point2D \<Rightarrow> 'a Point2D" where
  "add a b = \<lparr>px = px a + px b, py = py a + py b\<rparr>"

section \<open>bezier_curve.h\<close>

text \<open>
  The template \<open>BezierCurveRecursiveDefine<order>\<close>: an object of order 0 holds a point, one of a higher order two
  curves of the order below. The constructor reads \<open>order + 1\<close> points; \<open>None\<close> is a read past the end of the array.
\<close>

datatype 'a BezierCurve = Curve_0 "'a Point2D" | Curve_Suc "'a BezierCurve" "'a BezierCurve"

fun BezierCurve_new :: "nat \<Rightarrow> 'a Point2D list \<Rightarrow> 'a BezierCurve option" where
  "BezierCurve_new 0 p = (case p of [] \<Rightarrow> None | q # _ \<Rightarrow> Some (Curve_0 q))"
| "BezierCurve_new (Suc order) p =
     (case BezierCurve_new order p of
        None \<Rightarrow> None
      | Some c_a \<Rightarrow> (case p of [] \<Rightarrow> None | _ # q \<Rightarrow> map_option (Curve_Suc c_a) (BezierCurve_new order q)))"

primrec calc :: "'a::{one,minus,plus,times} BezierCurve \<Rightarrow> 'a \<Rightarrow> 'a Point2D" where
  "calc (Curve_0 p) t = p"
| "calc (Curve_Suc c_a c_b) t = add (scale (1 - t) (calc c_a t)) (scale t (calc c_b t))"

section \<open>curve_py.cc\<close>

text \<open>
  The class \<open>BezierCurve\<close> that Python sees: it chooses the order by the number of points and knows the orders up to
  10; without a curve every point is the origin.
\<close>

type_synonym 'a curve_py = "'a BezierCurve option"

definition curve_py_new :: "'a Point2D list \<Rightarrow> 'a curve_py" where
  "curve_py_new control_points =
     (if control_points = [] then None
      else if length control_points - 1 \<le> 10 then BezierCurve_new (length control_points - 1) control_points
      else None)"

definition curve_py_calc :: "'a::{zero,one,minus,plus,times} curve_py \<Rightarrow> 'a \<Rightarrow> 'a Point2D" where
  "curve_py_calc curve t = (case curve of Some c \<Rightarrow> calc c t | None \<Rightarrow> \<lparr>px = 0, py = 0\<rparr>)"

section \<open>The curve in closed form\<close>

lemma point_sel [simp]:
  "px (scale v p) = px p * v" "py (scale v p) = py p * v" "px (add a b) = px a + px b" "py (add a b) = py a + py b"
  by (simp_all add: scale_def add_def)

definition bernstein :: "nat \<Rightarrow> (nat \<Rightarrow> 'a::comm_ring_1) \<Rightarrow> 'a \<Rightarrow> 'a" where
  "bernstein n f t = (\<Sum>i\<le>n. of_nat (n choose i) * t ^ i * (1 - t) ^ (n - i) * f i)"

lemma bernstein_Suc: "bernstein (Suc n) f t = bernstein n f t * (1 - t) + bernstein n (\<lambda>i. f (Suc i)) t * t"
proof -
  let ?u = "1 - t"
  have a: "bernstein n f t * ?u = (\<Sum>i\<le>Suc n. of_nat (n choose i) * t ^ i * ?u ^ (Suc n - i) * f i)"
    unfolding bernstein_def sum_distrib_right by (simp add: Suc_diff_le mult_ac binomial_eq_0)
  have b: "bernstein n (\<lambda>i. f (Suc i)) t * t = (\<Sum>i\<le>n. of_nat (n choose i) * t ^ Suc i * ?u ^ (n - i) * f (Suc i))"
    unfolding bernstein_def sum_distrib_right by (simp add: mult_ac)
  have "bernstein (Suc n) f t = ?u ^ Suc n * f 0 + (\<Sum>i\<le>n. of_nat (Suc n choose Suc i) * t ^ Suc i * ?u ^ (n - i) * f (Suc i))"
    unfolding bernstein_def by (subst sum.atMost_Suc_shift) simp
  also have "\<dots> = ?u ^ Suc n * f 0 + (\<Sum>i\<le>n. of_nat (n choose Suc i) * t ^ Suc i * ?u ^ (n - i) * f (Suc i)) +
      (\<Sum>i\<le>n. of_nat (n choose i) * t ^ Suc i * ?u ^ (n - i) * f (Suc i))"
    by (simp add: sum.distrib[symmetric] distrib_right add.commute add.assoc)
  also have "?u ^ Suc n * f 0 + (\<Sum>i\<le>n. of_nat (n choose Suc i) * t ^ Suc i * ?u ^ (n - i) * f (Suc i)) = bernstein n f t * ?u"
    unfolding a by (subst sum.atMost_Suc_shift) simp
  finally show ?thesis by (simp add: b)
qed

lemma calc_new:
  fixes t :: "'a::comm_ring_1"
  assumes "order < length p"
  shows "\<exists>c. BezierCurve_new order p = Some c \<and>
    px (calc c t) = bernstein order (\<lambda>i. px (p ! i)) t \<and> py (calc c t) = bernstein order (\<lambda>i. py (p ! i)) t"
  using assms
proof (induction order arbitrary: p)
  case 0
  then show ?case by (cases p) (auto simp: bernstein_def)
next
  case (Suc n)
  then obtain q r where p: "p = q # r" by (cases p) auto
  obtain c d where "BezierCurve_new n p = Some c" "BezierCurve_new n r = Some d"
    and "px (calc c t) = bernstein n (\<lambda>i. px (p ! i)) t" "py (calc c t) = bernstein n (\<lambda>i. py (p ! i)) t"
    and "px (calc d t) = bernstein n (\<lambda>i. px (r ! i)) t" "py (calc d t) = bernstein n (\<lambda>i. py (r ! i)) t"
    using Suc.IH[of p] Suc.IH[of r] Suc.prems p by auto
  then show ?case using p by (simp add: bernstein_Suc)
qed

text \<open>
  C37. The recursive definition is the Bernstein form of the curve. For one to eleven control points, both
  coordinates of the point that \<open>BezierCurve::calc\<close> returns for \<open>t\<close> are the sums of the control points' coordinates
  weighted with the Bernstein polynomials; for more points, as for none, every point is the origin.
\<close>

theorem curve_bernstein:
  fixes t :: "'a::comm_ring_1"
  shows "curve_py_calc (curve_py_new p) t =
    (if 1 \<le> length p \<and> length p \<le> 11
     then \<lparr>px = bernstein (length p - 1) (\<lambda>i. px (p ! i)) t, py = bernstein (length p - 1) (\<lambda>i. py (p ! i)) t\<rparr>
     else \<lparr>px = 0, py = 0\<rparr>)"
  using calc_new[of "length p - 1" p t] by (auto simp: curve_py_new_def curve_py_calc_def Suc_le_eq)

text \<open>For a parameter between 0 and 1 the curve stays between the bounds of its control points.\<close>

lemma mix_between:
  fixes t :: "'a::linordered_idom"
  assumes "0 \<le> t" "t \<le> 1" "lo \<le> a" "a \<le> hi" "lo \<le> b" "b \<le> hi"
  shows "lo \<le> a * (1 - t) + b * t" "a * (1 - t) + b * t \<le> hi"
proof -
  have "lo * (1 - t) + lo * t \<le> a * (1 - t) + b * t" "a * (1 - t) + b * t \<le> hi * (1 - t) + hi * t"
    using assms by (auto intro!: add_mono mult_right_mono)
  then show "lo \<le> a * (1 - t) + b * t" "a * (1 - t) + b * t \<le> hi" by (simp_all add: algebra_simps)
qed

lemma calc_between:
  fixes t :: "'a::linordered_idom"
  assumes "0 \<le> t" "t \<le> 1" "\<forall>q \<in> set p. lo \<le> px q \<and> px q \<le> hi" "BezierCurve_new order p = Some c"
  shows "lo \<le> px (calc c t) \<and> px (calc c t) \<le> hi"
  using assms(3,4)
proof (induction order arbitrary: p c)
  case 0
  then show ?case by (auto split: list.splits)
next
  case (Suc n)
  then obtain a q r b where c: "BezierCurve_new n p = Some a" "p = q # r" "BezierCurve_new n r = Some b" "c = Curve_Suc a b"
    by (auto split: option.splits list.splits)
  have "lo \<le> px (calc a t) \<and> px (calc a t) \<le> hi" "lo \<le> px (calc b t) \<and> px (calc b t) \<le> hi"
    using Suc.IH[OF Suc.prems(1) c(1)] Suc.IH[OF _ c(3)] Suc.prems(1) c(2) by auto
  with mix_between[OF assms(1,2), of lo "px (calc a t)" hi "px (calc b t)"] c(4) show ?case by simp
qed

end
