(* ===== verification/Geodetic.thy ===== *)
theory Geodetic
  imports Complex_Main
begin

text \<open>
  The coordinate conversions of \<open>geodetic/main.cpp\<close>, over the real numbers: the operations are those of the
  source in its order, the rounding of \<open>double\<close> is not modelled. The constant \<open>PI\<close> is the number the source writes.
\<close>

section \<open>Constants and coordinates\<close>

definition PI :: real where "PI = 3.14159265358979323846"

definition degree_to_radian :: "real \<Rightarrow> real" where
  "degree_to_radian degrees = (PI / 180) * degrees"

definition EPSILON :: real where "EPSILON = 1 / 10 ^ 6"

definition wgs_a :: real where "wgs_a = 6378137.0"
definition wgs_f :: real where "wgs_f = 1.0 / 298.257223563"
definition wgs_e2 :: real where "wgs_e2 = wgs_f * (2 - wgs_f)"

definition N_geo :: "real \<Rightarrow> real" where
  "N_geo phi = wgs_a / sqrt (1 - wgs_e2 * (sin phi * sin phi))"

record GeoditicCoord =
  latitude :: real
  longitude :: real
  height :: real

record EcefCoord =
  ecef_x :: real
  ecef_y :: real
  ecef_z :: real

record EnuCoord =
  enu_e :: real
  enu_n :: real
  enu_u :: real

section \<open>Conversions\<close>

definition geodetic_to_ecef_trig :: "real \<Rightarrow> real \<Rightarrow> real \<Rightarrow> real \<Rightarrow> real \<Rightarrow> real \<Rightarrow> EcefCoord" where
  "geodetic_to_ecef_trig sin_phi cos_phi sin_lambda cos_lambda N_phi h =
     \<lparr>ecef_x = (N_phi + h) * cos_phi * cos_lambda,
      ecef_y = (N_phi + h) * cos_phi * sin_lambda,
      ecef_z = ((1 - wgs_e2) * N_phi + h) * sin_phi\<rparr>"

definition geodetic_to_ecef :: "GeoditicCoord \<Rightarrow> EcefCoord" where
  "geodetic_to_ecef geo =
     (let lambda = degree_to_radian (longitude geo); phi = degree_to_radian (latitude geo) in
      geodetic_to_ecef_trig (sin phi) (cos phi) (sin lambda) (cos lambda) (N_geo phi) (height geo))"

definition ecef_to_enu :: "real \<Rightarrow> real \<Rightarrow> real \<Rightarrow> real \<Rightarrow> EcefCoord \<Rightarrow> EcefCoord \<Rightarrow> EnuCoord" where
  "ecef_to_enu sin_phi0 cos_phi0 sin_lambda0 cos_lambda0 ecef0 ecef =
     (let dx = ecef_x ecef - ecef_x ecef0; dy = ecef_y ecef - ecef_y ecef0; dz = ecef_z ecef - ecef_z ecef0 in
      \<lparr>enu_e = - sin_lambda0 * dx + cos_lambda0 * dy,
       enu_n = - sin_phi0 * cos_lambda0 * dx + - sin_phi0 * sin_lambda0 * dy + cos_phi0 * dz,
       enu_u = cos_phi0 * cos_lambda0 * dx + cos_phi0 * sin_lambda0 * dy + sin_phi0 * dz\<rparr>)"

definition geodetic_to_enu :: "GeoditicCoord \<Rightarrow> GeoditicCoord \<Rightarrow> EnuCoord" where
  "geodetic_to_enu geo0 geo =
     (let lambda0 = degree_to_radian (longitude geo0); phi0 = degree_to_radian (latitude geo0);
          ecef0 = geodetic_to_ecef_trig (sin phi0) (cos phi0) (sin lambda0) (cos lambda0) (N_geo phi0) (height geo0);
          ecef = geodetic_to_ecef geo in
      ecef_to_enu (sin phi0) (cos phi0) (sin lambda0) (cos lambda0) ecef0 ecef)"

definition enu_to_ecef :: "real \<Rightarrow> real \<Rightarrow> real \<Rightarrow> real \<Rightarrow> EcefCoord \<Rightarrow> EnuCoord \<Rightarrow> EcefCoord" where
  "enu_to_ecef sin_phi0 cos_phi0 sin_lambda0 cos_lambda0 ecef0 enu =
     \<lparr>ecef_x = - sin_lambda0 * enu_e enu + - sin_phi0 * cos_lambda0 * enu_n enu + cos_phi0 * cos_lambda0 * enu_u enu + ecef_x ecef0,
      ecef_y = cos_lambda0 * enu_e enu + - sin_phi0 * sin_lambda0 * enu_n enu + cos_phi0 * sin_lambda0 * enu_u enu + ecef_y ecef0,
      ecef_z = cos_phi0 * enu_n enu + sin_phi0 * enu_u enu + ecef_z ecef0\<rparr>"

section \<open>The test of the way there and back\<close>

definition almost_equal :: "real \<Rightarrow> real \<Rightarrow> real \<Rightarrow> bool" where
  "almost_equal a b epsilon \<longleftrightarrow> \<bar>a - b\<bar> < epsilon"

text \<open>\<open>test_enu_to_ecef\<close>: the values given to \<open>test_assert\<close>, which aborts on a false one.\<close>

definition test_enu_to_ecef :: "bool list" where
  "test_enu_to_ecef =
     (let geo0 = \<lparr>latitude = 34.0000005, longitude = - 117.3335693, height = 251.72\<rparr>;
          ecef0 = geodetic_to_ecef geo0;
          sin_phi0 = sin (degree_to_radian (latitude geo0)); cos_phi0 = cos (degree_to_radian (latitude geo0));
          sin_lambda0 = sin (degree_to_radian (longitude geo0)); cos_lambda0 = cos (degree_to_radian (longitude geo0));
          enu = ecef_to_enu sin_phi0 cos_phi0 sin_lambda0 cos_lambda0 ecef0
            \<lparr>ecef_x = ecef_x ecef0 + 1, ecef_y = ecef_y ecef0 + 1, ecef_z = ecef_z ecef0 + 1\<rparr>;
          ecef = enu_to_ecef sin_phi0 cos_phi0 sin_lambda0 cos_lambda0 ecef0 enu in
      [almost_equal (ecef_x ecef) (ecef_x ecef0 + 1) EPSILON, almost_equal (ecef_y ecef) (ecef_y ecef0 + 1) EPSILON,
       almost_equal (ecef_z ecef) (ecef_z ecef0 + 1) EPSILON])"

section \<open>Properties\<close>

lemma enu_inverse:
  assumes p: "sp * sp + cp * cp = 1" and l: "sl * sl + cl * cl = 1"
  shows "enu_to_ecef sp cp sl cl o0 (ecef_to_enu sp cp sl cl o0 q) = q"
    and "ecef_to_enu sp cp sl cl o0 (enu_to_ecef sp cp sl cl o0 r) = r"
proof -
  have cc: "cp * cp = 1 - sp * sp" "cl * cl = 1 - sl * sl" using p l by simp_all
  show "enu_to_ecef sp cp sl cl o0 (ecef_to_enu sp cp sl cl o0 q) = q"
    by (rule EcefCoord.equality; simp add: enu_to_ecef_def ecef_to_enu_def Let_def; use cc in algebra)
  show "ecef_to_enu sp cp sl cl o0 (enu_to_ecef sp cp sl cl o0 r) = r"
    by (rule EnuCoord.equality; simp add: enu_to_ecef_def ecef_to_enu_def Let_def; use cc in algebra)
qed

lemma trig_squares: "sin x * sin x + cos x * cos x = (1::real)"
  by (metis power2_eq_square sin_cos_squared_add)

text \<open>
  C38. East, north and up lead back. For any two places, the east, north and up coordinates that \<open>geodetic_to_enu\<close> gives
  for the second as seen from the first are turned by \<open>enu_to_ecef\<close> at the first into the earth-centred
  coordinates of the second; and every east, north and up is the one seen of the point it leads to. So the
  assertions of \<open>test_enu_to_ecef\<close> hold.
\<close>

theorem geodetic_enu_roundtrip:
  "let phi0 = degree_to_radian (latitude geo0); lambda0 = degree_to_radian (longitude geo0);
       back = enu_to_ecef (sin phi0) (cos phi0) (sin lambda0) (cos lambda0) (geodetic_to_ecef geo0);
       there = ecef_to_enu (sin phi0) (cos phi0) (sin lambda0) (cos lambda0) (geodetic_to_ecef geo0)
   in back (geodetic_to_enu geo0 geo) = geodetic_to_ecef geo \<and> there (back enu) = enu \<and> test_enu_to_ecef = [True, True, True]"
proof -
  have "test_enu_to_ecef = [True, True, True]"
    unfolding test_enu_to_ecef_def Let_def enu_inverse(1)[OF trig_squares trig_squares] by (simp add: almost_equal_def EPSILON_def)
  then show ?thesis
    by (simp add: Let_def geodetic_to_enu_def enu_inverse[OF trig_squares trig_squares])
      (simp add: geodetic_to_ecef_def Let_def enu_inverse[OF trig_squares trig_squares])
qed

text \<open>A place of height 0 lies on the ellipsoid with the equatorial radius \<open>a\<close> and the flattening \<open>f\<close>.\<close>

lemma e2_bounds: "0 < wgs_e2" "wgs_e2 < 1"
  by (simp_all add: wgs_e2_def wgs_f_def field_simps)

lemma N_squared: "N_geo phi * N_geo phi * (1 - wgs_e2 * (sin phi * sin phi)) = wgs_a * wgs_a"
proof -
  have "sin phi * sin phi \<le> 1" using trig_squares[of phi] zero_le_square[of "cos phi"] by linarith
  then have "wgs_e2 * (sin phi * sin phi) \<le> wgs_e2 * 1" using e2_bounds by (intro mult_left_mono) auto
  then have "0 < 1 - wgs_e2 * (sin phi * sin phi)" using e2_bounds by linarith
  then show ?thesis by (simp add: N_geo_def)
qed

lemma on_ellipsoid:
  assumes "height geo = 0"
  shows "(ecef_x (geodetic_to_ecef geo))\<^sup>2 * (1 - wgs_f)\<^sup>2 + (ecef_y (geodetic_to_ecef geo))\<^sup>2 * (1 - wgs_f)\<^sup>2 +
    (ecef_z (geodetic_to_ecef geo))\<^sup>2 = (wgs_a * (1 - wgs_f))\<^sup>2"
proof -
  define phi where "phi = degree_to_radian (latitude geo)"
  define l where "l = degree_to_radian (longitude geo)"
  have "sin l * sin l = 1 - cos l * cos l" "cos phi * cos phi = 1 - sin phi * sin phi" using trig_squares by (simp_all add: eq_diff_eq)
  moreover have "wgs_e2 = wgs_f * (2 - wgs_f)" by (simp add: wgs_e2_def)
  moreover note N_squared[of phi]
  ultimately have "(N_geo phi * cos phi * cos l)\<^sup>2 * (1 - wgs_f)\<^sup>2 + (N_geo phi * cos phi * sin l)\<^sup>2 * (1 - wgs_f)\<^sup>2 +
    ((1 - wgs_e2) * N_geo phi * sin phi)\<^sup>2 = (wgs_a * (1 - wgs_f))\<^sup>2" by algebra
  with assms show ?thesis by (simp add: geodetic_to_ecef_def geodetic_to_ecef_trig_def Let_def phi_def l_def)
qed

end
