(* ===== verification/Grpc_Driver.thy ===== *)
theory Grpc_Driver
  imports Grpc_Client_Props
begin

text \<open>
  The program around the asynchronous gRPC client, \<open>UseAsyncClient\<close> of \<open>learn_grpc/hello_world/src/client/main.cpp\<close>: the
  pool of threads that poll the completion queues (\<open>startThreadPool\<close>, \<open>waitForComplete\<close>), and the application thread, which
  starts its calls, writes to the streams and closes them while the pool processes what completes.
\<close>

section \<open>The application thread\<close>

text \<open>The statements of \<open>UseAsyncClient\<close>. A \<open>write\<close> or \<open>close\<close> is one to the writer that was obtained last.\<close>

datatype async_stmt =
    D_sayHello | D_sayHelloAgain | D_sayGoodbye | D_sayGoodbyeAgain | D_greet | D_listen
  | D_speak | D_talk | D_write string | D_close

definition hello_round :: "async_stmt list" where
  "hello_round = [D_sayHello, D_sayHelloAgain]"

definition goodbye_round :: "async_stmt list" where
  "goodbye_round = [D_sayGoodbye, D_sayGoodbyeAgain]"

definition chat_round :: "nat \<Rightarrow> async_stmt list" where
  "chat_round i =
     [D_greet, D_listen, D_speak] @
     map (\<lambda>x. D_write (to_string_nat i @ x)) ['' - 1'', '' - 2'', '' - 3'', '' - 4'', '' - 5''] @ [D_close, D_talk] @
     map (\<lambda>x. D_write (to_string_nat i @ x)) ['' - a'', '' - b'', '' - c'', '' - d'', '' - e''] @ [D_close]"

definition UseAsyncClient :: "nat \<Rightarrow> async_stmt list" where
  "UseAsyncClient requestCount = concat (replicate requestCount hello_round) @ concat (replicate requestCount goodbye_round) @
     concat (map chat_round [0..<requestCount])"

text \<open>One statement; \<open>w\<close> is the reference to the writer in use, which \<open>speak\<close> and \<open>talk\<close> replace.\<close>

fun exec_stmt :: "async_stmt \<Rightarrow> event_key_t \<Rightarrow> (gcli, event_key_t) cpp" where
  "exec_stmt D_sayHello w = sq sayHello (ret w)"
| "exec_stmt D_sayHelloAgain w = sq sayHelloAgain (ret w)"
| "exec_stmt D_sayGoodbye w = sq sayGoodbye (ret w)"
| "exec_stmt D_sayGoodbyeAgain w = sq sayGoodbyeAgain (ret w)"
| "exec_stmt D_greet w = sq greet (ret w)"
| "exec_stmt D_listen w = sq client_listen (ret w)"
| "exec_stmt D_speak w = client_speak"
| "exec_stmt D_talk w = client_talk"
| "exec_stmt (D_write msg) w = sq (writer_write w msg) (ret w)"
| "exec_stmt D_close w = sq (writer_close w) (ret w)"

section \<open>The pool\<close>

text \<open>The branch of \<open>asyncCompleteRpc\<close> for a timeout: the thread goes on exactly if a call is registered.\<close>

definition client_timeout :: "(gcli, bool) cpp" where
  "client_timeout =
     bnd (gets c_order) (\<lambda>ord.
     bnd (mgr_c EventHandlerManager_count) (\<lambda>n.
     bnd (mgr_c (EventHandlerManager_getKeys ord)) (\<lambda>ks.
     sq (LOG_c LogDebug ''Timeout, handlerManager count: {}, keys: {}'' [to_string_nat n, ks])
     (ret (n \<noteq> 0)))))"

text \<open>
  The running program: the client, what the application thread has left to do and its writer, the queue every
  call is on, and for every thread of the pool whether it still polls its queue.
\<close>

record driver =
  d_cli :: gcli
  d_todo :: "async_stmt list"
  d_writer :: event_key_t
  d_queue :: "event_key_t \<Rightarrow> nat"
  d_pool :: "bool list"

definition startThreadPool :: "gcli \<Rightarrow> bool list" where
  "startThreadPool s = replicate (c_poolSize s) True"

definition driver_start :: "nat \<Rightarrow> (nat \<Rightarrow> string) \<Rightarrow> (event_key_t list \<Rightarrow> event_key_t list) \<Rightarrow> u32 \<Rightarrow> nat \<Rightarrow> driver" where
  "driver_start n clk ord j requestCount =
     (let s = ClientProactor_new n clk ord j in
      \<lparr>d_cli = s, d_todo = UseAsyncClient requestCount, d_writer = 0, d_queue = (\<lambda>_. 0), d_pool = startThreadPool s\<rparr>)"

text \<open>The queue of the call that a statement has prepared, if it has prepared one.\<close>

definition queue_after :: "gcli \<Rightarrow> gcli \<Rightarrow> (event_key_t \<Rightarrow> nat) \<Rightarrow> event_key_t \<Rightarrow> nat" where
  "queue_after s s' q = (if length (c_calls s) < length (c_calls s') then q(lastKey (c_manager s') := snd (snd (last (c_calls s')))) else q)"

definition polled :: "driver \<Rightarrow> nat \<Rightarrow> bool" where
  "polled d q \<longleftrightarrow> q < length (d_pool d) \<and> d_pool d ! q"

text \<open>
  The application thread does its next statement as soon as it does not have to wait; a thread of the pool
  processes an operation of its queue that has completed, or finds that nothing has completed for a while.
\<close>

inductive driver_step :: "driver \<Rightarrow> driver \<Rightarrow> bool" where
  dr_stmt: "d_todo d = a # as \<Longrightarrow> exec_stmt a (d_writer d) (d_cli d) = (Val w, s') \<Longrightarrow>
     driver_step d (d\<lparr>d_cli := s', d_todo := as, d_writer := w, d_queue := queue_after (d_cli d) s' (d_queue d)\<rparr>)"
| dr_complete: "s = d_cli d \<Longrightarrow> i < length (c_inflight s) \<Longrightarrow> e = snd (c_inflight s ! i) \<Longrightarrow> polled d (d_queue d (getKey e)) \<Longrightarrow>
     client_event ok e (cfill ok e r st (s\<lparr>c_inflight := take_out i (c_inflight s)\<rparr>)) = (Val (), s') \<Longrightarrow>
     driver_step d (d\<lparr>d_cli := s'\<rparr>)"
| dr_timeout: "polled d q \<Longrightarrow> client_timeout (d_cli d) = (Val on, s') \<Longrightarrow>
     driver_step d (d\<lparr>d_cli := s', d_pool := (d_pool d)[q := on]\<rparr>)"

text \<open>\<open>waitForComplete\<close> returns, and the program with it, when no thread of the pool is left.\<close>

definition waitForComplete :: "driver \<Rightarrow> bool" where
  "waitForComplete d \<longleftrightarrow> True \<notin> set (d_pool d)"

lemma timeout_in_loop:
  "c_next s = CNextTimeout # as \<Longrightarrow> asyncCompleteRpc (Suc k) s =
     bnd client_timeout (\<lambda>on. if on then asyncCompleteRpc k else skip) (s\<lparr>c_next := as\<rparr>)"
  by (simp add: client_timeout_def bnd_def sq_def ret_def gets_def mgr_c_def EventHandlerManager_count_def
      EventHandlerManager_getKeys_def LOG_c_def modify_def split: prod.splits outcome.splits)

section \<open>What one statement does\<close>

text \<open>The parts of the client's state that only starting a call changes.\<close>

definition cframe :: "gcli \<Rightarrow> gcli \<Rightarrow> bool" where
  "cframe s s' \<longleftrightarrow> c_calls s' = c_calls s \<and> c_cqIdx s' = c_cqIdx s \<and> c_poolSize s' = c_poolSize s"

lemma cframe_refl [simp]: "cframe s s"
  by (simp add: cframe_def)

lemma prepare_fields:
  assumes "prepareAsyncCall m rq con c s = (Val k, s')"
  shows "lastKey (c_manager s') = k" "c_cqIdx s' = c_cqIdx s + 1" "c_poolSize s' = c_poolSize s"
    "\<exists>q. c_calls s' = c_calls s @ [(m, rq, q)] \<and> q < c_poolSize s"
proof -
  let ?m = "c_manager s"
  obtain k' where k': "next_key (handlers ?m) (lastKey ?m) (lastKey ?m) = Some k'"
    using assms by (cases "next_key (handlers ?m) (lastKey ?m) (lastKey ?m)")
      (simp_all add: prepareAsyncCall_def cpp_eval mgr_c_def EventHandlerManager_add_def)
  have gk: "getKey (Event_of_key j k') = k'" for j by (metis Event_is_tok getKey_tok setOpt_key setOpt_tok)
  have "i smod n < n" if "0 < n" "0 \<le> i smod n" for i n :: int
    using that by (cases "0 \<le> i"; simp add: smod_nonneg smod_neg; use pos_mod_sign[of n "- i"] in linarith)
  from this[of "int (c_poolSize s)" "sint (c_cqIdx s)"]
  have "nat (sint (c_cqIdx s) smod int (c_poolSize s)) < c_poolSize s"
    if "0 < c_poolSize s" "0 \<le> sint (c_cqIdx s) smod int (c_poolSize s)" using that by simp
  with assms k' show "lastKey (c_manager s') = k" "c_cqIdx s' = c_cqIdx s + 1" "c_poolSize s' = c_poolSize s"
    "\<exists>q. c_calls s' = c_calls s @ [(m, rq, q)] \<and> q < c_poolSize s"
    by (auto simp: prepareAsyncCall_def cpp_eval mgr_c_def EventHandlerManager_add_def set_key_def next_cq_def Let_def gk
        split: if_splits)
qed

lemma prepare_runs:
  assumes "0 < c_poolSize s" "0 \<le> sint (c_cqIdx s)" "cmap s k0 = None"
  shows "\<exists>k s'. prepareAsyncCall m rq con c s = (Val k, s')"
proof -
  let ?m = "c_manager s"
  have "\<not> om_has (handlers ?m) k0" using assms(3) by (simp add: om_has_def)
  then obtain k where "next_key (handlers ?m) (lastKey ?m) (lastKey ?m) = Some k"
    using next_key_full[of "handlers ?m" "lastKey ?m"] by (cases "next_key (handlers ?m) (lastKey ?m) (lastKey ?m)") auto
  then show ?thesis using assms(1,2)
    by (auto simp: prepareAsyncCall_def cpp_eval mgr_c_def EventHandlerManager_add_def set_key_def next_cq_def Let_def smod_nonneg)
qed

fun on_writer :: "async_stmt \<Rightarrow> bool" where
  "on_writer (D_write msg) \<longleftrightarrow> True" | "on_writer D_close \<longleftrightarrow> True" | "on_writer _ \<longleftrightarrow> False"

fun opens :: "async_stmt \<Rightarrow> bool" where
  "opens D_speak \<longleftrightarrow> True" | "opens D_talk \<longleftrightarrow> True" | "opens _ \<longleftrightarrow> False"

text \<open>How much a pool thread has to do at most for an operation in flight, successful reads left aside.\<close>

definition wt :: "event_opt_t \<Rightarrow> nat" where
  "wt opt = (if opt = C_START_CALL then 3 else if opt = C_READ then 2 else 1)"

definition op_load :: "operation list \<Rightarrow> nat" where
  "op_load ops = sum_list (map (\<lambda>op. wt (getOpt (snd op))) ops)"

lemma op_load_simps [simp]: "op_load [] = 0" "op_load ((c, tok k opt) # ops) = wt opt + op_load ops" "op_load (ops @ ops') = op_load ops + op_load ops'"
  by (simp_all add: op_load_def)

lemma op_load_take_out: "i < length ops \<Longrightarrow> op_load ops = op_load (take_out i ops) + wt (getOpt (snd (ops ! i)))"
  using arg_cong[where f = op_load, OF take_out_split[of i ops]] by (simp add: take_out_def op_load_def)

lemma wt_simps [simp]: "wt C_START_CALL = 3" "wt C_READ = 2" "wt C_WRITE = 1" "wt C_WRITE_DONE = 1" "wt C_FINISH = 1"
  by (simp_all add: wt_def)

text \<open>A statement that starts a call.\<close>

definition started :: "async_stmt \<Rightarrow> event_key_t \<Rightarrow> gcli \<Rightarrow> event_key_t \<Rightarrow> gcli \<Rightarrow> bool" where
  "started a w s w' s' \<longleftrightarrow> (\<exists>k h ops m rq q. cmap s k = None \<and> cmap s' = (cmap s)(k \<mapsto> h) \<and>
     c_inflight s' = c_inflight s @ ops \<and> (\<forall>op \<in> set ops. getKey (snd op) = k \<and> getOpt (snd op) \<noteq> C_WRITE_DONE) \<and> op_load ops \<le> 4 \<and>
     w' = (if opens a then k else w) \<and>
     (if opens a then \<exists>con c. writer h = Some (con, c) \<and> \<not> c_closed c \<and> canWrite c = 0 else writer h = None) \<and>
     lastKey (c_manager s') = k \<and> c_cqIdx s' = c_cqIdx s + 1 \<and> c_poolSize s' = c_poolSize s \<and>
     c_calls s' = c_calls s @ [(m, rq, q)] \<and> q < c_poolSize s)"

lemma unary_started:
  assumes "unary_call m rq con s = (Val (), s')" "\<And>c. writer (con c) = None" "\<not> opens a"
  shows "started a w s w s'"
proof -
  obtain k s1 where p: "prepareAsyncCall m (Some rq) con new_call s = (Val k, s1)"
    and s': "s' = s1\<lparr>c_inflight := c_inflight s1 @ [(FinishInto, tok k C_FINISH)], c_started := c_started s1 @ [(FinishInto, tok k C_FINISH)]\<rparr>"
    using assms(1) unfolding unary_call_def by (elim bnd_ValE) (simp add: tag_run op_c_run)
  obtain q where "c_calls s1 = c_calls s @ [(m, Some rq, q)]" "q < c_poolSize s" using prepare_fields(4)[OF p] by blast
  with prepare_Val[OF p] prepare_fields(1-3)[OF p] assms(2,3) s' show ?thesis unfolding started_def
    by (intro exI[of _ k] exI[of _ "con (new_call\<lparr>c_key := k\<rparr>)"] exI[of _ "[(FinishInto, tok k C_FINISH)]"] exI[of _ m] exI[of _ "Some rq"] exI[of _ q])
      simp
qed

lemma started_ticks [simp]: "started a w (s\<lparr>c_ticks := t\<rparr>) w' s' = started a w s w' s'"
  by (simp add: started_def)

lemma listen_started:
  assumes "client_listen s = (Val (), s')"
  shows "started D_listen w s w s'"
proof -
  let ?s = "s\<lparr>c_ticks := c_ticks s + 1\<rparr>" and ?rq = "Some (c_clock s (c_ticks s), ''Speaking!'')"
  obtain k s1 where p: "prepareAsyncCall Listen ?rq ListenCall new_call ?s = (Val k, s1)" and l: "ListenCall_start k s1 = (Val (), s')"
    using assms unfolding client_listen_def by (elim bnd_ValE) (simp add: time_c_run)
  obtain q where "c_calls s1 = c_calls s @ [(Listen, ?rq, q)]" "q < c_poolSize s" using prepare_fields(4)[OF p] by auto
  with prepare_Val[OF p] prepare_fields(1-3)[OF p] l show ?thesis unfolding started_def
    by (intro exI[of _ k] exI[of _ "ListenCall (new_call\<lparr>c_key := k\<rparr>)"] exI[of _ "[(StartCall, tok k C_START_CALL)]"] exI[of _ Listen] exI[of _ ?rq] exI[of _ q])
      (auto simp: ListenCall_start_def cpp_eval)
qed

lemma speak_started:
  assumes "client_speak s = (Val k, s')"
  shows "started D_speak w s k s'"
proof -
  let ?s = "s\<lparr>c_ticks := c_ticks s + 1\<rparr>"
  obtain s1 where p: "prepareAsyncCall Speak None SpeakCall new_call ?s = (Val k, s1)" and l: "SpeakCall_start k s1 = (Val (), s')"
    using assms(1) unfolding client_speak_def by (elim bnd_ValE sq_ValE) (simp add: time_c_run ret_run)
  obtain q where "c_calls s1 = c_calls s @ [(Speak, None, q)]" "q < c_poolSize s" using prepare_fields(4)[OF p] by auto
  with prepare_Val[OF p] prepare_fields(1-3)[OF p] l show ?thesis unfolding started_def
    by (intro exI[of _ k] exI[of _ "SpeakCall (new_call\<lparr>c_key := k, canWrite := 0\<rparr>)"]
        exI[of _ "[(StartCall, tok k C_START_CALL), (FinishInto, tok k C_FINISH)]"] exI[of _ Speak] exI[of _ None] exI[of _ q])
      (auto simp: SpeakCall_start_def with_writer_def cpp_eval new_call_def fun_eq_iff)
qed

lemma talk_started:
  assumes "client_talk s = (Val k, s')"
  shows "started D_talk w s k s'"
proof -
  let ?s = "s\<lparr>c_ticks := c_ticks s + 1\<rparr>"
  obtain s1 where p: "prepareAsyncCall Talk None TalkCall new_call ?s = (Val k, s1)" and l: "TalkCall_start k s1 = (Val (), s')"
    using assms(1) unfolding client_talk_def by (elim bnd_ValE sq_ValE) (simp add: time_c_run ret_run)
  obtain q where "c_calls s1 = c_calls s @ [(Talk, None, q)]" "q < c_poolSize s" using prepare_fields(4)[OF p] by auto
  with prepare_Val[OF p] prepare_fields(1-3)[OF p] l show ?thesis unfolding started_def
    by (intro exI[of _ k] exI[of _ "TalkCall (new_call\<lparr>c_key := k, canWrite := 0\<rparr>)"]
        exI[of _ "[(StartCall, tok k C_START_CALL)]"] exI[of _ Talk] exI[of _ None] exI[of _ q])
      (auto simp: TalkCall_start_def with_writer_def cpp_eval new_call_def fun_eq_iff)
qed

lemma exec_started: "exec_stmt a w s = (Val w', s') \<Longrightarrow> \<not> on_writer a \<Longrightarrow> started a w s w' s'"
  by (cases a) (auto simp: sayHello_def sayHelloAgain_def sayGoodbye_def sayGoodbyeAgain_def greet_def time_c_run ret_run
      elim!: sq_ValE bnd_ValE intro: unary_started listen_started speak_started talk_started dest!: unary_started)

lemma exec_runs:
  assumes "\<not> on_writer a" "0 < c_poolSize s" "0 \<le> sint (c_cqIdx s)" "cmap s k0 = None"
  shows "\<exists>w' s'. exec_stmt a w s = (Val w', s')"
proof -
  have u: "\<exists>w' s'. sq (unary_call m rq con) (ret w) t = (Val w', s')" if t: "t = s \<or> t = s\<lparr>c_ticks := n\<rparr>" for m rq con t n
  proof -
    obtain k s1 where "prepareAsyncCall m (Some rq) con new_call t = (Val k, s1)" using prepare_runs[of t k0 m] assms t by force
    then show ?thesis by (simp add: unary_call_def cpp_eval)
  qed
  have p: "\<exists>k s'. prepareAsyncCall m rq con c (s\<lparr>c_ticks := n\<rparr>) = (Val k, s')" for m rq con c n
    using prepare_runs[of "s\<lparr>c_ticks := n\<rparr>" k0 m] assms by simp
  obtain k1 s1 where p1: "prepareAsyncCall Listen (Some (c_clock s (c_ticks s), ''Speaking!'')) ListenCall new_call (s\<lparr>c_ticks := c_ticks s + 1\<rparr>) = (Val k1, s1)"
    using p by blast
  obtain k2 s2 where p2: "prepareAsyncCall Speak None SpeakCall new_call (s\<lparr>c_ticks := c_ticks s + 1\<rparr>) = (Val k2, s2)"
    using p by blast
  obtain k3 s3 where p3: "prepareAsyncCall Talk None TalkCall new_call (s\<lparr>c_ticks := c_ticks s + 1\<rparr>) = (Val k3, s3)"
    using p by blast
  have l: "\<exists>s'. client_listen s = (Val (), s')"
    using p1 by (simp add: client_listen_def ListenCall_start_def cpp_eval)
  have sp: "\<exists>k s'. client_speak s = (Val k, s')" using p2 prepare_Val(2)[OF p2]
    by (simp add: client_speak_def SpeakCall_start_def with_writer_def cpp_eval new_call_def)
  have ta: "\<exists>k s'. client_talk s = (Val k, s')" using p3 prepare_Val(2)[OF p3]
    by (simp add: client_talk_def TalkCall_start_def with_writer_def cpp_eval new_call_def)
  have "sq greet (ret w) s = sq (unary_call Greet (c_clock s (c_ticks s), ''Nice to meet you!'') GreetCall) (ret w) (s\<lparr>c_ticks := c_ticks s + 1\<rparr>)"
    by (simp add: greet_def sq_def bnd_def time_c_def)
  with u[of "s\<lparr>c_ticks := c_ticks s + 1\<rparr>" "c_ticks s + 1"] have g: "\<exists>w' s'. sq greet (ret w) s = (Val w', s')" by simp
  from l sp ta g u[of s] assms(1) show ?thesis
    by (cases a) (auto simp: sayHello_def sayHelloAgain_def sayGoodbye_def sayGoodbyeAgain_def sq_run bnd_run ret_run)
qed

text \<open>A statement that writes or closes takes the permit of its writer, or waits for it.\<close>

lemma exec_on_writer:
  assumes "on_writer a" "cmap s w = Some (con c)" "con = SpeakCall \<or> con = TalkCall"
  shows "if 0 < canWrite c
    then \<exists>op opt s'. exec_stmt a w s = (Val w, s') \<and> cmap s' = (cmap s)(w \<mapsto> con (c\<lparr>canWrite := canWrite c - 1\<rparr>)) \<and>
        c_inflight s' = c_inflight s @ [(op, tok w opt)] \<and> opt = (if a = D_close then C_WRITE_DONE else C_WRITE) \<and> cframe s s' \<and>
        lastKey (c_manager s') = lastKey (c_manager s)
    else fst (exec_stmt a w s) = Pending"
  using assms
  by (cases a) (auto simp: writer_write_def writer_close_def with_writer_def cpp_eval fun_eq_iff cframe_def)

section \<open>What one completion does\<close>

text \<open>
  The call may start operations of its own key, which weigh less than the one that has completed unless that was a
  successful read; only the completion of \<open>WRITE_DONE\<close> closes a writer, and none starts another one.
\<close>

definition processed :: "bool \<Rightarrow> event_key_t \<Rightarrow> event_opt_t \<Rightarrow> client_call \<Rightarrow> gcli \<Rightarrow> client_call \<Rightarrow> gcli \<Rightarrow> bool" where
  "processed ok k opt h s h' s' \<longleftrightarrow> cframe s s' \<and> c_manager s' = c_manager s \<and> (\<exists>ops. c_inflight s' = c_inflight s @ ops \<and>
     (\<forall>op \<in> set ops. getKey (snd op) = k \<and> getOpt (snd op) \<noteq> C_WRITE_DONE) \<and>
     op_load ops + of_bool (\<not> (ok \<and> opt = C_READ)) \<le> wt opt) \<and>
     (\<forall>con c. writer h = Some (con, c) \<longrightarrow> (\<exists>c'. writer h' = Some (con, c') \<and> c_closed c' = (c_closed c \<or> opt = C_WRITE_DONE)))
     \<and> (writer h = None \<longrightarrow> writer h' = None)"

lemma processedI:
  "cframe s s' \<Longrightarrow> c_manager s' = c_manager s \<Longrightarrow> c_inflight s' = c_inflight s @ ops \<Longrightarrow> \<forall>op \<in> set ops. getKey (snd op) = k \<and> getOpt (snd op) \<noteq> C_WRITE_DONE \<Longrightarrow>
    op_load ops + of_bool (\<not> (ok \<and> opt = C_READ)) \<le> wt opt \<Longrightarrow>
    (\<forall>con c. writer h = Some (con, c) \<longrightarrow> (\<exists>c'. writer h' = Some (con, c') \<and> c_closed c' = (c_closed c \<or> opt = C_WRITE_DONE))) \<Longrightarrow>
    (writer h = None \<longrightarrow> writer h' = None) \<Longrightarrow> processed ok k opt h s h' s'"
  unfolding processed_def by blast

lemmas process_defs = SayHelloCall_process_def SayHelloAgainCall_process_def SayGoodbyeCall_process_def
  SayGoodbyeAgainCall_process_def GreetCall_process_def unary_process_def ListenCall_process_def SpeakCall_process_def
  TalkCall_process_def wrong_key_def on_write_def on_write_done_def on_finish_c_def unexpected_c_def canWrite_release_def release_spec_def

lemma wt_pos: "Suc 0 \<le> wt opt"
  by (simp add: wt_def)

lemma client_process_processed:
  assumes "client_process ok (tok k opt) h s = (Val h', s')"
  shows "processed ok k opt h s h' s'"
proof (cases h)
  case (ListenCall c)
  with assms show ?thesis
    by (auto simp: process_defs cpp_eval cframe_def Let_def wt_pos split: if_splits
        intro!: processedI[where ops = "drop (length (c_inflight s)) (c_inflight s')"])
next
  case (SpeakCall c)
  with assms show ?thesis
    by (auto simp: process_defs cpp_eval cframe_def Let_def wt_pos split: if_splits
        intro!: processedI[where ops = "drop (length (c_inflight s)) (c_inflight s')"])
next
  case (TalkCall c)
  with assms show ?thesis
    by (auto simp: process_defs cpp_eval cframe_def Let_def wt_pos split: if_splits
        intro!: processedI[where ops = "drop (length (c_inflight s)) (c_inflight s')"])
qed (use assms wt_pos[of opt] in \<open>auto simp: process_defs cpp_eval cframe_def split: if_splits intro!: processedI[where ops = "[]"]\<close>)

lemma inflight_registered:
  assumes "cli_inv s" "i < length (c_inflight s)"
  obtains h where "cmap s (getKey (snd (c_inflight s ! i))) = Some h"
proof (cases "cmap s (getKey (snd (c_inflight s ! i)))")
  case None
  let ?e = "snd (c_inflight s ! i)"
  have "getOpt ?e \<in> copts" using assms by (auto simp: cli_inv_def)
  with None have "cn s (getKey ?e) (getOpt ?e) = 0" using fresh_zero[OF assms(1)] by blast
  then have "c_inflight s ! i \<notin> set (c_inflight s)" using Event_is_tok[of ?e] by (auto simp: cnl_def filter_empty_conv)
  then show ?thesis using assms(2) by simp
qed

lemma cframe_cfill [simp]: "cframe (cfill ok e r st s) s' = cframe s s'"
  by (simp add: cframe_def cfill_def split: option.split)

lemma writer_map_call: "writer (map_call f h) = map_option (\<lambda>(con, c). (con, f c)) (writer h)"
  by (cases h) simp_all

text \<open>What is left of the writer of a call: closed, and then perhaps gone, only after \<open>WRITE_DONE\<close>.\<close>

definition writer_after :: "event_opt_t \<Rightarrow> client_call \<Rightarrow> client_call option \<Rightarrow> bool" where
  "writer_after opt h ho \<longleftrightarrow> (case writer h of
       None \<Rightarrow> Option.bind ho writer = None
     | Some (con, c) \<Rightarrow> (case ho of None \<Rightarrow> c_closed c \<or> opt = C_WRITE_DONE
         | Some h' \<Rightarrow> \<exists>c'. writer h' = Some (con, c') \<and> c_closed c' = (c_closed c \<or> opt = C_WRITE_DONE)))"

lemma complete_closed: "client_isComplete h \<Longrightarrow> writer h = Some (con, c) \<Longrightarrow> c_closed c"
  by (cases h) auto

lemma completion_effect:
  assumes "cli_inv s" "i < length (c_inflight s)" "e = snd (c_inflight s ! i)"
    and "client_event ok e (cfill ok e r st (s\<lparr>c_inflight := take_out i (c_inflight s)\<rparr>)) = (Val (), s')"
  shows "cframe s s' \<and> (\<exists>ops. c_inflight s' = take_out i (c_inflight s) @ ops \<and>
      (\<forall>op \<in> set ops. getKey (snd op) = getKey e \<and> getOpt (snd op) \<noteq> C_WRITE_DONE) \<and>
      op_load (c_inflight s') + of_bool (\<not> (ok \<and> getOpt e = C_READ)) \<le> op_load (c_inflight s)) \<and>
    (\<exists>h ho. cmap s (getKey e) = Some h \<and> cmap s' = (cmap s)(getKey e := ho) \<and> writer_after (getOpt e) h ho)"
proof -
  let ?k = "getKey e" and ?opt = "getOpt e"
  let ?s1 = "s\<lparr>c_inflight := take_out i (c_inflight s)\<rparr>"
  let ?s0 = "cfill ok e r st ?s1"
  obtain h where h: "cmap s ?k = Some h" using inflight_registered[OF assms(1,2)] assms(3) by blast
  from cmap_cfill[of ok e r st ?s1] obtain f where
    f: "\<And>c. c_closed (f c) = c_closed c" and "cmap ?s0 = (\<lambda>k. if k = ?k then map_option (map_call f) (cmap ?s1 k) else cmap ?s1 k)" by blast
  then have m0: "cmap ?s0 = (\<lambda>k. if k = ?k then map_option (map_call f) (cmap s k) else cmap s k)" by (simp cong: if_cong)
  then have h0: "cmap ?s0 ?k = Some (map_call f h)" using h by simp
  with assms(4) obtain h' s2 where p: "client_process ok e (map_call f h) ?s0 = (Val h', s2)"
    by (auto simp: client_event_def mgr_c_ops om_has_def elim!: bnd_ValE)
  then have pr: "processed ok ?k ?opt (map_call f h) ?s0 h' s2"
    using client_process_processed[of ok ?k ?opt] Event_is_tok[of e] by simp
  have mgr: "c_manager s2 = c_manager ?s0" using pr by (simp add: processed_def)
  have s': "s' = s2\<lparr>c_manager := c_manager s'\<rparr>" "cmap s' = (cmap s2)(?k := if client_isComplete h' then None else Some h')"
    using assms(4) p h0 by (auto simp: client_event_def cpp_eval om_has_def fun_eq_iff split: if_splits)
  obtain ops where ops: "c_inflight s2 = take_out i (c_inflight s) @ ops"
    "\<forall>op \<in> set ops. getKey (snd op) = ?k \<and> getOpt (snd op) \<noteq> C_WRITE_DONE" "op_load ops + of_bool (\<not> (ok \<and> ?opt = C_READ)) \<le> wt ?opt"
    using pr by (auto simp: processed_def)
  have "cframe ?s1 s2" using pr by (simp add: processed_def)
  then have fr: "cframe s s'" by (subst s'(1)) (simp add: cframe_def)
  have infl: "c_inflight s' = c_inflight s2" by (subst s'(1)) simp
  have "op_load (c_inflight s') + of_bool (\<not> (ok \<and> ?opt = C_READ)) \<le> op_load (c_inflight s)"
    using ops(1,3) infl op_load_take_out[OF assms(2)] assms(3) by simp
  moreover have "cmap s' = (cmap s)(?k := if client_isComplete h' then None else Some h')" using s'(2) mgr m0 by (auto simp: fun_eq_iff)
  moreover have "writer_after ?opt h (if client_isComplete h' then None else Some h')"
    using pr f complete_closed[of h'] by (auto simp: writer_after_def processed_def writer_map_call split: option.split)
  ultimately show ?thesis using fr h ops(1,2) infl
    by (intro conjI exI[of _ ops] exI[of _ h] exI[of _ "if client_isComplete h' then None else Some h'"]) simp_all
qed

section \<open>The program as a whole\<close>

text \<open>A writer is used, and used up to its \<open>close\<close>, before the next statement of another kind.\<close>

fun closes_writers :: "bool \<Rightarrow> async_stmt list \<Rightarrow> bool" where
  "closes_writers b [] \<longleftrightarrow> \<not> b"
| "closes_writers b (D_write msg # as) \<longleftrightarrow> b \<and> closes_writers True as"
| "closes_writers b (D_close # as) \<longleftrightarrow> b \<and> closes_writers False as"
| "closes_writers b (a # as) \<longleftrightarrow> \<not> b \<and> closes_writers (opens a) as"

definition needs_writer :: "async_stmt list \<Rightarrow> bool" where
  "needs_writer as \<longleftrightarrow> as \<noteq> [] \<and> on_writer (hd as)"

definition calls_left :: "async_stmt list \<Rightarrow> nat" where
  "calls_left as = length (filter (\<lambda>a. \<not> on_writer a) as)"

lemma closes_Cons: "closes_writers b (a # as) \<longleftrightarrow>
    b = on_writer a \<and> closes_writers (if a = D_close then False else on_writer a \<or> opens a) as"
  by (cases a) auto

lemma closes_needs: "closes_writers b as \<Longrightarrow> needs_writer as = b"
  by (cases as) (auto simp: needs_writer_def closes_Cons)

lemma closes_append: "closes_writers b as \<Longrightarrow> closes_writers False bs \<Longrightarrow> closes_writers b (as @ bs)"
  by (induction as arbitrary: b) (auto simp: closes_Cons)

lemma closes_concat: "(\<And>as. as \<in> set ass \<Longrightarrow> closes_writers False as) \<Longrightarrow> closes_writers False (concat ass)"
  by (induction ass) (auto intro: closes_append)

lemma UseAsyncClient_closes: "closes_writers False (UseAsyncClient n)"
  by (auto simp: UseAsyncClient_def hello_round_def goodbye_round_def chat_round_def intro!: closes_append closes_concat)

lemma calls_left_simps [simp]: "calls_left [] = 0" "calls_left (a # as) = of_bool (\<not> on_writer a) + calls_left as"
  "calls_left (as @ bs) = calls_left as + calls_left bs"
  by (simp_all add: calls_left_def)

lemma UseAsyncClient_calls: "calls_left (UseAsyncClient n) = 8 * n"
proof -
  have "calls_left (concat (replicate n [a, b])) = 2 * n" if "\<not> on_writer a" "\<not> on_writer b" for a b
    using that by (induction n) auto
  moreover have "calls_left (concat (map chat_round [0..<n])) = 4 * n" by (induction n) (simp_all add: chat_round_def)
  ultimately show ?thesis by (simp add: UseAsyncClient_def hello_round_def goodbye_round_def)
qed

text \<open>
  The writer in use is registered, not closed and not closing; every other writer is closed or closing. The number
  of calls started and left is fixed, no more calls are registered than have been started, and every
  registered call is on a queue of the pool.
\<close>

definition closing :: "gcli \<Rightarrow> event_key_t \<Rightarrow> call \<Rightarrow> bool" where
  "closing s k c \<longleftrightarrow> c_closed c \<or> 0 < cn s k C_WRITE_DONE"

definition writers_ok :: "driver \<Rightarrow> bool" where
  "writers_ok d \<longleftrightarrow> (needs_writer (d_todo d) \<longrightarrow> Option.bind (cmap (d_cli d) (d_writer d)) writer \<noteq> None) \<and>
     (\<forall>k con c. Option.bind (cmap (d_cli d) k) writer = Some (con, c) \<longrightarrow>
        closing (d_cli d) k c \<noteq> (needs_writer (d_todo d) \<and> k = d_writer d))"

definition drv_inv :: "nat \<Rightarrow> nat \<Rightarrow> driver \<Rightarrow> bool" where
  "drv_inv n N d \<longleftrightarrow> cli_inv (d_cli d) \<and> writers_ok d \<and> closes_writers (needs_writer (d_todo d)) (d_todo d) \<and>
     c_poolSize (d_cli d) = n \<and> length (d_pool d) = n \<and> c_cqIdx (d_cli d) = of_nat (length (c_calls (d_cli d))) \<and>
     length (c_calls (d_cli d)) + calls_left (d_todo d) = N \<and> card (dom (cmap (d_cli d))) \<le> length (c_calls (d_cli d)) \<and>
     (\<forall>k. cmap (d_cli d) k \<noteq> None \<longrightarrow> d_queue d k < n)"

lemma om_get_empty_map: "om_get om_empty = Map.empty"
  by (simp add: fun_eq_iff)

lemma drv_inv_start: "drv_inv n (8 * m) (driver_start n clk ord j m)"
proof -
  have "closes_writers (needs_writer (UseAsyncClient m)) (UseAsyncClient m)" "needs_writer (UseAsyncClient m) = False"
    using UseAsyncClient_closes[of m] closes_needs[OF UseAsyncClient_closes[of m]] by simp_all
  then show ?thesis using cli_inv_new[of n clk ord j]
    by (simp add: drv_inv_def driver_start_def Let_def writers_ok_def UseAsyncClient_calls startThreadPool_def
        ClientProactor_new_def EventHandlerManager_new_def om_get_empty_map)
qed

lemma exec_cli_step: "exec_stmt a w s = (Val w', s') \<Longrightarrow> cli_step s s'"
  by (cases a) (auto simp: ret_run elim!: sq_ValE dest: cs_unary[of sayHello, simplified] cs_unary[of sayHelloAgain, simplified]
      cs_unary[of sayGoodbye, simplified] cs_unary[of sayGoodbyeAgain, simplified] cs_unary[of greet, simplified]
      cs_unary[of client_listen, simplified] cs_stream[of client_speak, simplified] cs_stream[of client_talk, simplified] cs_write cs_close)

lemma cn_other: "\<forall>op \<in> set ops. getKey (snd op) = k \<Longrightarrow> k' \<noteq> k \<Longrightarrow> cnl ops k' x = 0"
  by (auto simp: cnl_def filter_empty_conv)

lemma cn_no_opt: "\<forall>op \<in> set ops. getOpt (snd op) \<noteq> x \<Longrightarrow> cnl ops k x = 0"
  by (auto simp: cnl_def filter_empty_conv)

lemma drv_inv_call:
  assumes "drv_inv n N d" "d_todo d = a # as" "exec_stmt a (d_writer d) (d_cli d) = (Val w, s')" "\<not> on_writer a"
  shows "drv_inv n N (d\<lparr>d_cli := s', d_todo := as, d_writer := w, d_queue := queue_after (d_cli d) s' (d_queue d)\<rparr>)"
proof -
  let ?s = "d_cli d"
  have inv: "cli_inv s'" using cli_step_ok[OF exec_cli_step[OF assms(3)]] assms(1) by (simp add: drv_inv_def)
  obtain k h ops m rq q where st: "cmap ?s k = None" "cmap s' = (cmap ?s)(k \<mapsto> h)" "c_inflight s' = c_inflight ?s @ ops"
      "\<forall>op \<in> set ops. getKey (snd op) = k \<and> getOpt (snd op) \<noteq> C_WRITE_DONE" "w = (if opens a then k else d_writer d)"
      "if opens a then \<exists>con c. writer h = Some (con, c) \<and> \<not> c_closed c \<and> canWrite c = 0 else writer h = None"
      "lastKey (c_manager s') = k" "c_cqIdx s' = c_cqIdx ?s + 1" "c_poolSize s' = c_poolSize ?s"
      "c_calls s' = c_calls ?s @ [(m, rq, q)]" "q < c_poolSize ?s"
    using exec_started[OF assms(3,4)] unfolding started_def by blast
  have cl: "closes_writers (opens a) as" "needs_writer as = opens a" "\<not> needs_writer (d_todo d)"
    using assms(1,2,4) closes_needs[of "opens a" as] by (auto simp: drv_inv_def closes_Cons needs_writer_def split: if_splits)
  have other: "closing s' k' c = closing ?s k' c" if "k' \<noteq> k" for k' c
    using st(3,4) that cn_other[of ops k k' C_WRITE_DONE] by (auto simp: closing_def)
  have new: "cn s' k C_WRITE_DONE = 0"
    using st(3,4) cn_no_opt[of ops C_WRITE_DONE k] assms(1) fresh_zero[of ?s k C_WRITE_DONE] st(1) by (auto simp: drv_inv_def copts_def)
  have old: "closing ?s k' c" if "Option.bind (cmap ?s k') writer = Some (con, c)" for k' con c
    using assms(1) cl(3) that by (auto simp: drv_inv_def writers_ok_def)
  have "writers_ok (d\<lparr>d_cli := s', d_todo := as, d_writer := w, d_queue := queue_after ?s s' (d_queue d)\<rparr>)"
    using st(1,2,5,6) cl(2) other new old by (auto simp: writers_ok_def closing_def split: if_splits)
  moreover have "card (dom (cmap s')) \<le> length (c_calls s')"
    using assms(1) st(2,10) card_insert_le_m1[of "length (c_calls s')" "dom (cmap ?s)" k] by (simp add: drv_inv_def)
  ultimately show ?thesis using inv assms(1,2,4) cl(1,2) st(2,7-11)
    by (auto simp: drv_inv_def queue_after_def)
qed

lemma drv_inv_writer:
  assumes "drv_inv n N d" "d_todo d = a # as" "exec_stmt a (d_writer d) (d_cli d) = (Val w, s')" "on_writer a"
  shows "drv_inv n N (d\<lparr>d_cli := s', d_todo := as, d_writer := w, d_queue := queue_after (d_cli d) s' (d_queue d)\<rparr>)"
proof -
  let ?s = "d_cli d" and ?w = "d_writer d"
  have inv: "cli_inv s'" using cli_step_ok[OF exec_cli_step[OF assms(3)]] assms(1) by (simp add: drv_inv_def)
  have nw: "needs_writer (d_todo d)" using assms(2,4) by (simp add: needs_writer_def)
  then obtain con c where wr: "Option.bind (cmap ?s ?w) writer = Some (con, c)" using assms(1) by (auto simp: drv_inv_def writers_ok_def)
  then have c: "cmap ?s ?w = Some (con c)" "con = SpeakCall \<or> con = TalkCall" by (auto simp: bind_eq_Some_conv elim!: writer.elims)
  have "0 < canWrite c" using exec_on_writer[OF assms(4) c] assms(3) by (auto split: if_splits)
  with exec_on_writer[OF assms(4) c] assms(3) obtain op opt where st: "w = ?w" "cmap s' = (cmap ?s)(?w \<mapsto> con (c\<lparr>canWrite := canWrite c - 1\<rparr>))"
      "c_inflight s' = c_inflight ?s @ [(op, tok ?w opt)]" "opt = (if a = D_close then C_WRITE_DONE else C_WRITE)" "cframe ?s s'"
    by auto
  have cl: "closes_writers (a \<noteq> D_close) as" "needs_writer as = (a \<noteq> D_close)"
    using assms(1,2,4) closes_needs[of "a \<noteq> D_close" as] by (auto simp: drv_inv_def closes_Cons split: if_splits)
  have other: "closing s' k' c' = closing ?s k' c'" if "k' \<noteq> ?w" for k' c'
    using st(3) that by (auto simp: closing_def)
  have this_one: "closing s' ?w (c\<lparr>canWrite := x\<rparr>) = (a = D_close)" for x
    using st(3,4) wr nw assms(1) cnl_nonneg[of "c_inflight ?s" ?w C_WRITE_DONE]
    by (auto simp: closing_def drv_inv_def writers_ok_def simp del: cnl_nonneg)
  have old: "closing ?s k' c'" if "Option.bind (cmap ?s k') writer = Some (con', c')" "k' \<noteq> ?w" for k' con' c'
    using assms(1) that by (auto simp: drv_inv_def writers_ok_def)
  have wr': "writer (con c') = Some (con, c')" for c' using c(2) by auto
  have "writers_ok (d\<lparr>d_cli := s', d_todo := as, d_writer := w, d_queue := queue_after ?s s' (d_queue d)\<rparr>)"
    using st(1,2) cl(2) other this_one old wr' by (auto simp: writers_ok_def split: if_splits)
  moreover have "dom (cmap s') = dom (cmap ?s)" using st(2) c(1) by auto
  ultimately show ?thesis using inv assms(1,2,4) cl st(1,2,5) c(1)
    by (auto simp: drv_inv_def queue_after_def cframe_def)
qed

lemma cn_completion:
  assumes "i < length (c_inflight s)" "e = snd (c_inflight s ! i)" "c_inflight s' = take_out i (c_inflight s) @ ops"
    and "\<forall>op \<in> set ops. getKey (snd op) = getKey e \<and> getOpt (snd op) \<noteq> C_WRITE_DONE"
  shows "cn s k C_WRITE_DONE = cn s' k C_WRITE_DONE + of_bool (getKey e = k \<and> getOpt e = C_WRITE_DONE)"
  using cnl_take_out[OF assms(1), of "getKey e" "getOpt e" k C_WRITE_DONE] Event_is_tok[of e] assms(2,3)
    cn_no_opt[of ops C_WRITE_DONE k] assms(4) by simp

lemma drv_inv_complete:
  assumes "drv_inv n N d" "i < length (c_inflight (d_cli d))" "e = snd (c_inflight (d_cli d) ! i)"
    and ev: "client_event ok e (cfill ok e r st ((d_cli d)\<lparr>c_inflight := take_out i (c_inflight (d_cli d))\<rparr>)) = (Val (), s')"
  shows "drv_inv n N (d\<lparr>d_cli := s'\<rparr>)"
proof -
  let ?s = "d_cli d" and ?k = "getKey e" and ?nw = "needs_writer (d_todo d)"
  have ci: "cli_inv ?s" using assms(1) by (simp add: drv_inv_def)
  have inv: "cli_inv s'" using cli_step_ok[OF cs_complete[OF assms(2,3) ev] ci] .
  obtain ops h ho where st: "cframe ?s s'" "c_inflight s' = take_out i (c_inflight ?s) @ ops"
      "\<forall>op \<in> set ops. getKey (snd op) = ?k \<and> getOpt (snd op) \<noteq> C_WRITE_DONE"
      "cmap ?s ?k = Some h" "cmap s' = (cmap ?s)(?k := ho)" "writer_after (getOpt e) h ho"
    using completion_effect[OF ci assms(2,3) ev] by blast
  note wd = cn_completion[OF assms(2,3) st(2,3)]
  have other: "closing s' k' c = closing ?s k' c" if "k' \<noteq> ?k" for k' c using wd[of k'] that by (simp add: closing_def)
  have old: "closing ?s k' c \<noteq> (?nw \<and> k' = d_writer d)" if "Option.bind (cmap ?s k') writer = Some (con, c)" for k' con c
    using assms(1) that by (auto simp: drv_inv_def writers_ok_def)
  have this_one: "closing s' ?k c' \<noteq> (?nw \<and> ?k = d_writer d)" if w: "Option.bind ho writer = Some (con, c')" for con c'
  proof -
    obtain h' where h': "ho = Some h'" "writer h' = Some (con, c')" using w by (auto simp: bind_eq_Some_conv)
    with st(6) obtain c where c: "writer h = Some (con, c)" "c_closed c' = (c_closed c \<or> getOpt e = C_WRITE_DONE)"
      by (auto simp: writer_after_def split: option.splits)
    have "closing s' ?k c' = closing ?s ?k c" using c(2) wd[of ?k] cnl_nonneg[of "c_inflight s'" ?k C_WRITE_DONE]
      by (auto simp: closing_def simp del: cnl_nonneg)
    then show ?thesis using old[of ?k con c] c(1) st(4) by simp
  qed
  have "Option.bind (cmap s' (d_writer d)) writer \<noteq> None" if nw: ?nw
  proof (cases "?k = d_writer d")
    case True
    then obtain con c where c: "writer h = Some (con, c)" using nw assms(1) st(4) by (auto simp: drv_inv_def writers_ok_def)
    with old[of ?k con c] True nw st(4) have "\<not> closing ?s ?k c" by simp
    then have "\<not> c_closed c \<and> getOpt e \<noteq> C_WRITE_DONE" using wd[of ?k] cnl_nonneg[of "c_inflight s'" ?k C_WRITE_DONE]
      by (auto simp: closing_def simp del: cnl_nonneg)
    then show ?thesis using st(5,6) c True by (auto simp: writer_after_def split: option.splits)
  next
    case False
    then show ?thesis using nw assms(1) st(5) by (auto simp: drv_inv_def writers_ok_def)
  qed
  with other old this_one st(5) have "writers_ok (d\<lparr>d_cli := s'\<rparr>)" by (auto simp: writers_ok_def split: if_splits)
  moreover have dom: "dom (cmap s') \<subseteq> dom (cmap ?s)" using st(4,5) by (auto split: if_splits)
  then have "card (dom (cmap s')) \<le> card (dom (cmap ?s))" by (intro card_mono) auto
  moreover have "d_queue d k < n" if "cmap s' k \<noteq> None" for k
    using that dom assms(1) by (auto simp: drv_inv_def dom_def)
  ultimately show ?thesis using inv assms(1) st(1) by (auto simp: drv_inv_def cframe_def)
qed

lemma timeout_run: "\<exists>l. client_timeout s = (Val (handlers (c_manager s) \<noteq> []), s\<lparr>c_log := l\<rparr>)"
  by (simp add: client_timeout_def EventHandlerManager_count_def EventHandlerManager_getKeys_def mgr_c_def cpp_eval) blast

lemma drv_inv_log: "drv_inv n N (d\<lparr>d_cli := (d_cli d)\<lparr>c_log := l\<rparr>, d_pool := (d_pool d)[q := b]\<rparr>) = drv_inv n N d"
  by (simp add: drv_inv_def writers_ok_def cli_inv_def closing_def)

lemma drv_inv_step: "driver_step d d' \<Longrightarrow> drv_inv n N d \<Longrightarrow> drv_inv n N d'"
proof (induction rule: driver_step.induct)
  case (dr_stmt d a as w s')
  then show ?case using drv_inv_call[of n N d a as w s'] drv_inv_writer[of n N d a as w s'] by (cases "on_writer a") auto
next
  case (dr_complete s d i e ok r st s')
  then show ?case using drv_inv_complete[of n N d i e ok r st s'] by simp
next
  case (dr_timeout d q on s')
  then show ?case using timeout_run[of "d_cli d"] drv_inv_log[of n N d] by auto
qed

lemma drv_reach: "driver_step\<^sup>*\<^sup>* (driver_start n clk ord j m) d \<Longrightarrow> drv_inv n (8 * m) d"
  by (induction rule: rtranclp_induct) (auto intro: drv_inv_start drv_inv_step)

section \<open>The program ends\<close>

text \<open>An upper bound for the steps that are left, successful reads and timeouts not counted.\<close>

definition work :: "driver \<Rightarrow> nat" where
  "work d = 5 * length (d_todo d) + op_load (c_inflight (d_cli d))"

lemma next_stmt:
  assumes "drv_inv n N d" "d_todo d = a # as" "0 < n" "N \<le> 2 ^ 31"
  shows "(\<exists>w s'. exec_stmt a (d_writer d) (d_cli d) = (Val w, s')) \<or>
    fst (exec_stmt a (d_writer d) (d_cli d)) = Pending \<and> 0 < writes_in_flight (d_writer d) (d_cli d)"
proof (cases "on_writer a")
  case False
  let ?s = "d_cli d"
  have l: "length (c_calls ?s) < 2 ^ 31" using assms(1,2,4) False by (simp add: drv_inv_def)
  have "0 \<le> sint (c_cqIdx ?s)" using assms(1) l sint_plus_nat[of 0 "length (c_calls ?s)"] by (simp add: drv_inv_def)
  moreover have "dom (cmap ?s) \<noteq> UNIV"
  proof
    assume "dom (cmap ?s) = UNIV"
    then have "2 ^ 32 \<le> length (c_calls ?s)" using assms(1) by (simp add: drv_inv_def card_word)
    with l show False by simp
  qed
  then obtain k0 where "cmap ?s k0 = None" by (auto simp: dom_def)
  ultimately show ?thesis using exec_runs[OF False, of ?s k0 "d_writer d"] assms(1,3) by (auto simp: drv_inv_def)
next
  case True
  let ?s = "d_cli d" and ?w = "d_writer d"
  have nw: "needs_writer (d_todo d)" using assms(2) True by (simp add: needs_writer_def)
  then obtain con c where wr: "Option.bind (cmap ?s ?w) writer = Some (con, c)" using assms(1) by (auto simp: drv_inv_def writers_ok_def)
  then have c: "cmap ?s ?w = Some (con c)" "con = SpeakCall \<or> con = TalkCall" by (auto simp: bind_eq_Some_conv elim!: writer.elims)
  show ?thesis
  proof (cases "0 < canWrite c")
    case False
    have "call_ok ?w (cmap ?s ?w) (cn ?s ?w)" "\<not> closing ?s ?w c"
      using assms(1) wr nw by (auto simp: drv_inv_def writers_ok_def cli_inv_def)
    then have "canWrite c + int (writes_in_flight ?w ?s) = 1" using c by (auto simp: call_ok_def closing_def writes_in_flight_cn)
    with False exec_on_writer[OF True c] show ?thesis by auto
  qed (use exec_on_writer[OF True c] in auto)
qed

lemma stmt_work:
  assumes "drv_inv n N d" "d_todo d = a # as" "exec_stmt a (d_writer d) (d_cli d) = (Val w, s')"
  shows "work (d\<lparr>d_cli := s', d_todo := as, d_writer := w, d_queue := queue_after (d_cli d) s' (d_queue d)\<rparr>) < work d"
proof (cases "on_writer a")
  case False
  from exec_started[OF assms(3) False] obtain ops where "c_inflight s' = c_inflight (d_cli d) @ ops" "op_load ops \<le> 4"
    unfolding started_def by blast
  then show ?thesis using assms(2) by (simp add: work_def)
next
  case True
  let ?s = "d_cli d" and ?w = "d_writer d"
  have nw: "needs_writer (d_todo d)" using assms(2) True by (simp add: needs_writer_def)
  then obtain con c where wr: "Option.bind (cmap ?s ?w) writer = Some (con, c)" using assms(1) by (auto simp: drv_inv_def writers_ok_def)
  then have c: "cmap ?s ?w = Some (con c)" "con = SpeakCall \<or> con = TalkCall" by (auto simp: bind_eq_Some_conv elim!: writer.elims)
  then have "0 < canWrite c" using exec_on_writer[OF True c] assms(3) by (auto split: if_splits)
  with exec_on_writer[OF True c] assms(2,3) show ?thesis by (auto simp: work_def split: if_splits)
qed

text \<open>When the application thread is done and nothing is in flight, every call is complete.\<close>

lemma all_complete:
  assumes "drv_inv n N d" "d_todo d = []" "c_inflight (d_cli d) = []"
  shows "handlers (c_manager (d_cli d)) = []"
proof (rule ccontr)
  let ?s = "d_cli d"
  assume "handlers (c_manager ?s) \<noteq> []"
  then obtain k h where "(k, h) \<in> set (handlers (c_manager ?s))" by (metis list.set_intros(1) neq_Nil_conv surj_pair)
  then obtain h where h: "cmap ?s k = Some h" using weak_map_of_SomeI by (fastforce simp: om_get_def)
  have ok: "protocol h k (cnl [] k)" "writer h \<noteq> None \<longrightarrow> \<not> client_isComplete h"
    using assms(1,3) h by (auto simp: drv_inv_def cli_inv_def call_ok_def dest!: spec[of _ k])
  have "closing ?s k c" if "writer h = Some (con, c)" for con c
    using assms(1,2) h that by (auto simp: drv_inv_def writers_ok_def needs_writer_def)
  then have "c_closed c" if "writer h = Some (con, c)" for con c using that assms(3) by (auto simp: closing_def)
  with ok show False by (cases h) auto
qed

lemma complete_step:
  assumes "drv_inv n N d" "c_inflight (d_cli d) \<noteq> []" "False \<notin> set (d_pool d)"
  shows "\<exists>s'. driver_step d (d\<lparr>d_cli := s'\<rparr>) \<and> work (d\<lparr>d_cli := s'\<rparr>) < work d"
proof -
  let ?s = "d_cli d" and ?e = "snd (c_inflight (d_cli d) ! 0)"
  have ci: "cli_inv ?s" "0 < length (c_inflight ?s)" using assms(1,2) by (simp_all add: drv_inv_def)
  obtain h where "cmap ?s (getKey ?e) = Some h" using inflight_registered[OF ci] by blast
  then have "d_queue d (getKey ?e) < length (d_pool d)" using assms(1) by (auto simp: drv_inv_def)
  moreover from this have "d_pool d ! d_queue d (getKey ?e)" using assms(3) by (metis (full_types) nth_mem)
  ultimately have p: "polled d (d_queue d (getKey ?e))" by (simp add: polled_def)
  obtain s' where ev: "client_event False ?e (cfill False ?e ([], []) None (?s\<lparr>c_inflight := take_out 0 (c_inflight ?s)\<rparr>)) = (Val (), s')"
    using client_event_ok[OF ci refl] by blast
  have "driver_step d (d\<lparr>d_cli := s'\<rparr>)" using dr_complete[OF refl ci(2) refl p ev] .
  moreover have "op_load (c_inflight s') < op_load (c_inflight ?s)" using completion_effect[OF ci refl ev] by auto
  ultimately show ?thesis by (auto simp: work_def)
qed

lemma timeouts_end:
  assumes "handlers (c_manager (d_cli d)) = []"
  shows "\<exists>d'. driver_step\<^sup>*\<^sup>* d d' \<and> True \<notin> set (d_pool d') \<and> d_todo d' = d_todo d \<and>
     c_inflight (d_cli d') = c_inflight (d_cli d) \<and> handlers (c_manager (d_cli d')) = [] \<and> c_calls (d_cli d') = c_calls (d_cli d)"
  using assms
proof (induction "length (filter id (d_pool d))" arbitrary: d rule: less_induct)
  case less
  show ?case
  proof (cases "True \<in> set (d_pool d)")
    case True
    then obtain q where q: "q < length (d_pool d)" "d_pool d ! q" by (auto simp: in_set_conv_nth)
    obtain l where "client_timeout (d_cli d) = (Val False, (d_cli d)\<lparr>c_log := l\<rparr>)" using timeout_run[of "d_cli d"] less(2) by auto
    then have st: "driver_step d (d\<lparr>d_cli := (d_cli d)\<lparr>c_log := l\<rparr>, d_pool := (d_pool d)[q := False]\<rparr>)" (is "driver_step d ?d")
      using q by (intro dr_timeout) (auto simp: polled_def)
    have "length (filter id (d_pool ?d)) < length (filter id (d_pool d))"
      using filter_update_length[of q "d_pool d" id False] q by simp
    from less(1)[OF this] less(2) obtain d' where "driver_step\<^sup>*\<^sup>* ?d d'" "True \<notin> set (d_pool d')" "d_todo d' = d_todo d"
      "c_inflight (d_cli d') = c_inflight (d_cli d)" "handlers (c_manager (d_cli d')) = []" "c_calls (d_cli d') = c_calls (d_cli d)" by auto
    then show ?thesis using converse_rtranclp_into_rtranclp[of driver_step, OF st] by blast
  qed (use less(2) in blast)
qed

text \<open>The state in which the program returns.\<close>

definition all_done :: "driver \<Rightarrow> bool" where
  "all_done d \<longleftrightarrow> d_todo d = [] \<and> c_inflight (d_cli d) = [] \<and> handlers (c_manager (d_cli d)) = [] \<and> waitForComplete d"

lemma drive_on:
  assumes "drv_inv n N d" "0 < n" "N \<le> 2 ^ 31" "False \<notin> set (d_pool d)" "\<not> (d_todo d = [] \<and> c_inflight (d_cli d) = [])"
  shows "\<exists>d'. driver_step d d' \<and> d_pool d' = d_pool d \<and> work d' < work d"
proof (cases "c_inflight (d_cli d) = []")
  case False
  from complete_step[OF assms(1) this assms(4)] show ?thesis by fastforce
next
  case True
  with assms(5) obtain a as where todo: "d_todo d = a # as" by (cases "d_todo d") auto
  have "writes_in_flight (d_writer d) (d_cli d) = 0" using True by (simp add: writes_in_flight_def)
  with next_stmt[OF assms(1) todo assms(2,3)] obtain w s' where e: "exec_stmt a (d_writer d) (d_cli d) = (Val w, s')" by auto
  from dr_stmt[OF todo e] stmt_work[OF assms(1) todo e] show ?thesis by fastforce
qed

lemma can_end:
  assumes "drv_inv n N d" "0 < n" "N \<le> 2 ^ 31" "False \<notin> set (d_pool d)"
  shows "\<exists>d'. driver_step\<^sup>*\<^sup>* d d' \<and> all_done d'"
proof -
  let ?I = "\<lambda>d. drv_inv n N d \<and> False \<notin> set (d_pool d)" and ?G = "\<lambda>d. drv_inv n N d \<and> d_todo d = [] \<and> c_inflight (d_cli d) = []"
  have "\<exists>d'. driver_step\<^sup>*\<^sup>* d d' \<and> ?G d'"
  proof (rule progress_reaches[where I = ?I and m = work])
    fix d assume d: "?I d" and "\<not> ?G d"
    with drive_on[of n N d] assms(2,3) obtain d' where "driver_step d d'" "d_pool d' = d_pool d" "work d' < work d" by auto
    with d drv_inv_step[of d d'] show "\<exists>d'. driver_step d d' \<and> ?I d' \<and> work d' < work d" by auto
  qed (use assms in simp)
  then obtain d1 where d1: "driver_step\<^sup>*\<^sup>* d d1" "?G d1" by blast
  with timeouts_end[OF all_complete[of n N d1]] obtain d' where "driver_step\<^sup>*\<^sup>* d1 d'" "all_done d'"
    by (auto simp: all_done_def waitForComplete_def)
  with d1(1) show ?thesis by (meson rtranclp_trans)
qed

text \<open>
  C27. The asynchronous client program gets through. With at least one thread in the pool and at most \<open>2 ^ 28\<close> rounds,
  whatever completes when, well or badly: the next statement of the program never fails, and the writer it uses
  is never gone; it waits only while an operation of that writer, whose completion gives the permit back, is in
  flight. And from every state in which no thread of the pool has given up, the program can run on to its end,
  with every call complete, nothing in flight and the pool joined.
\<close>

theorem async_client_completes:
  assumes "driver_step\<^sup>*\<^sup>* (driver_start n clk ord j m) d" "0 < n" "m \<le> 2 ^ 28"
  shows "(\<forall>a as. d_todo d = a # as \<longrightarrow> (\<exists>w s'. exec_stmt a (d_writer d) (d_cli d) = (Val w, s')) \<or>
      fst (exec_stmt a (d_writer d) (d_cli d)) = Pending \<and> 0 < writes_in_flight (d_writer d) (d_cli d)) \<and>
    (False \<notin> set (d_pool d) \<longrightarrow> (\<exists>d'. driver_step\<^sup>*\<^sup>* d d' \<and> all_done d'))"
  using next_stmt[OF drv_reach[OF assms(1)] _ assms(2)] can_end[OF drv_reach[OF assms(1)] assms(2)] assms(3) by simp

lemma async_client_completes_witness:
  "\<exists>d'. driver_step\<^sup>*\<^sup>* (driver_start 2 (\<lambda>_. []) id 0 1) d' \<and> all_done d'"
  using async_client_completes[OF rtranclp.rtrancl_refl, of 2 1 "\<lambda>_. []" id 0]
  by (simp add: driver_start_def startThreadPool_def ClientProactor_new_def Let_def)

section \<open>The pool may be gone before the first call\<close>

text \<open>With nobody polling, the first statement that needs a permit waits for ever.\<close>

definition abandoned :: "driver \<Rightarrow> bool" where
  "abandoned d \<longleftrightarrow> True \<notin> set (d_pool d) \<and> D_close \<in> set (d_todo d) \<and> closes_writers (needs_writer (d_todo d)) (d_todo d) \<and>
     (needs_writer (d_todo d) \<longrightarrow> (\<exists>con c. cmap (d_cli d) (d_writer d) = Some (con c) \<and> (con = SpeakCall \<or> con = TalkCall) \<and> canWrite c = 0))"

lemma abandoned_step: "driver_step d d' \<Longrightarrow> abandoned d \<Longrightarrow> abandoned d'"
proof (induction rule: driver_step.induct)
  case (dr_stmt d a as w s')
  show ?case
  proof (cases "on_writer a")
    case True
    then obtain con c where c: "cmap (d_cli d) (d_writer d) = Some (con c)" "con = SpeakCall \<or> con = TalkCall" "canWrite c = 0"
      using dr_stmt(1,3) by (auto simp: abandoned_def needs_writer_def)
    with exec_on_writer[OF True c(1,2)] dr_stmt(2) show ?thesis by simp
  next
    case False
    have cl: "closes_writers (opens a) as" "needs_writer as = opens a" "D_close \<in> set as"
      using dr_stmt(1,3) False closes_needs[of "opens a" as] by (auto simp: abandoned_def closes_Cons split: if_splits)
    obtain k h where "cmap s' = (cmap (d_cli d))(k \<mapsto> h)" "opens a \<longrightarrow> w = k \<and> (\<exists>con c. writer h = Some (con, c) \<and> canWrite c = 0)"
      using exec_started[OF dr_stmt(2) False] unfolding started_def by (metis (full_types))
    then have "opens a \<longrightarrow> (\<exists>con c. cmap s' w = Some (con c) \<and> (con = SpeakCall \<or> con = TalkCall) \<and> canWrite c = 0)"
      by (auto elim!: writer.elims)
    with cl dr_stmt(3) show ?thesis by (simp add: abandoned_def)
  qed
qed (metis abandoned_def nth_mem polled_def)+

lemma abandoned_writes:
  assumes "driver_step d d'" "abandoned d"
  shows "filter on_writer (d_todo d') = filter on_writer (d_todo d)"
  using assms
proof (induction rule: driver_step.induct)
  case (dr_stmt d a as w s')
  have "\<not> on_writer a"
  proof
    assume a: "on_writer a"
    then obtain con c where c: "cmap (d_cli d) (d_writer d) = Some (con c)" "con = SpeakCall \<or> con = TalkCall" "canWrite c = 0"
      using dr_stmt(1,3) by (auto simp: abandoned_def needs_writer_def)
    with exec_on_writer[OF a c(1,2)] dr_stmt(2) show False by simp
  qed
  with dr_stmt(1) show ?case by simp
qed simp_all

lemma abandoned_for_ever:
  assumes "driver_step\<^sup>*\<^sup>* d d'" "abandoned d"
  shows "abandoned d' \<and> filter on_writer (d_todo d') = filter on_writer (d_todo d)"
  using assms by (induction rule: rtranclp_induct) (auto intro: abandoned_step dest: abandoned_writes)

text \<open>
  C28. The pool can be gone too early. \<open>UseAsyncClient\<close> starts the threads of the pool before its first call, and a thread
  that finds nothing registered when its wait times out leaves. The program can get into a state in which all threads of
  the pool have left and no call has been started, all of its statements being still to do. From every state with
  all threads gone and all statements to do, when there is at least one round, the program never gets to the end
  of its statements: the calls may be started, but nobody processes what completes, so no statement that writes to
  a stream or closes one is ever done, and the pool stays empty.
\<close>

theorem async_client_can_hang:
  assumes "0 < m"
  shows "(\<exists>d. driver_step\<^sup>*\<^sup>* (driver_start n clk ord j m) d \<and> waitForComplete d \<and> d_todo d = UseAsyncClient m \<and> c_calls (d_cli d) = []) \<and>
    (\<forall>d d'. driver_step\<^sup>*\<^sup>* (driver_start n clk ord j m) d \<and> waitForComplete d \<and> d_todo d = UseAsyncClient m \<and> driver_step\<^sup>*\<^sup>* d d' \<longrightarrow>
      d_todo d' \<noteq> [] \<and> filter on_writer (d_todo d') = filter on_writer (UseAsyncClient m) \<and> waitForComplete d')"
proof (intro conjI allI impI)
  let ?d0 = "driver_start n clk ord j m"
  have "handlers (c_manager (d_cli ?d0)) = []" "c_calls (d_cli ?d0) = []" "d_todo ?d0 = UseAsyncClient m"
    by (simp_all add: driver_start_def Let_def ClientProactor_new_def EventHandlerManager_new_def om_empty_def)
  with timeouts_end[of ?d0]
  show "\<exists>d. driver_step\<^sup>*\<^sup>* ?d0 d \<and> waitForComplete d \<and> d_todo d = UseAsyncClient m \<and> c_calls (d_cli d) = []"
    by (auto simp: waitForComplete_def)
next
  fix d d'
  assume h: "driver_step\<^sup>*\<^sup>* (driver_start n clk ord j m) d \<and> waitForComplete d \<and> d_todo d = UseAsyncClient m \<and> driver_step\<^sup>*\<^sup>* d d'"
  have "D_close \<in> set (UseAsyncClient m)" using assms by (auto simp: UseAsyncClient_def chat_round_def)
  then have "abandoned d" using h UseAsyncClient_closes[of m] closes_needs[OF UseAsyncClient_closes[of m]]
    by (simp add: abandoned_def waitForComplete_def)
  with h abandoned_for_ever[of d d'] have "abandoned d'" and f: "filter on_writer (d_todo d') = filter on_writer (d_todo d)" by auto
  then show "d_todo d' \<noteq> []" "waitForComplete d'" by (auto simp: abandoned_def waitForComplete_def)
  show "filter on_writer (d_todo d') = filter on_writer (UseAsyncClient m)" using f h by simp
qed

lemma async_client_can_hang_witness:
  "\<exists>d. driver_step\<^sup>*\<^sup>* (driver_start 2 (\<lambda>_. []) id 0 1) d \<and> c_calls (d_cli d) = [] \<and>
     \<not> (\<exists>d'. driver_step\<^sup>*\<^sup>* d d' \<and> d_todo d' = [])"
  using async_client_can_hang[OF zero_less_one, of 2 "\<lambda>_. []" id 0] by blast

end
