(* ===== verification/Grpc_Main.thy ===== *)
theory Grpc_Main
  imports Grpc_Driver Grpc_Config
begin

text \<open>
  The two programs of the gRPC example, \<open>server/main.cpp\<close> and \<open>client/main.cpp\<close> of \<open>learn_grpc/hello_world/src\<close>: the server with its
  signal handler, which stops the server from a thread of its own, and the choice of the client.
\<close>

section \<open>The server process\<close>

definition SIGINT :: int where "SIGINT = 2"

definition SIGTERM :: int where "SIGTERM = 15"

text \<open>
  Where the main thread is: before the signal handler is installed, between the two calls of \<open>signal\<close>, before \<open>start\<close>, in
  \<open>grpcServer->Wait()\<close>, behind it; or the process has been killed by a signal, has ended by an exception, or is undefined.
\<close>

datatype sp_phase = SP_Init | SP_Half | SP_Registered | SP_Waiting | SP_Waited | SP_Killed | SP_Failed | SP_Undefined

text \<open>
  The items of the configuration that \<open>main\<close> reads, the two servers (each a singleton, whichever is used), the log of
  \<open>main.cpp\<close>, the main thread, and the threads \<open>HandleSignal\<close> has started that have not run yet, by their signals.
\<close>

record server_proc =
  GET_GRPC_SERVER_ASYNC :: bool
  GET_GRPC_SERVER_PORT :: nat
  sp_sync :: ssrv
  sp_gsrv :: gsrv
  sp_log :: "logline list"
  sp_phase :: sp_phase
  sp_threads :: "int list"

definition server_main_start :: "bool \<Rightarrow> nat \<Rightarrow> ssrv \<Rightarrow> gsrv \<Rightarrow> server_proc" where
  "server_main_start async port sy g = \<lparr>GET_GRPC_SERVER_ASYNC = async, GET_GRPC_SERVER_PORT = port, sp_sync = sy, sp_gsrv = g,
     sp_log = [], sp_phase = SP_Init, sp_threads = []\<rparr>"

text \<open>\<open>SyncServer::getInstance()\<close> and \<open>AsyncServer::getInstance()\<close>.\<close>

definition on_sync :: "(ssrv, 'a) cpp \<Rightarrow> (server_proc, 'a) cpp" where
  "on_sync f m = (case f (sp_sync m) of (r, s) \<Rightarrow> (r, m\<lparr>sp_sync := s\<rparr>))"

definition on_async :: "(gsrv, 'a) cpp \<Rightarrow> (server_proc, 'a) cpp" where
  "on_async f m = (case f (sp_gsrv m) of (r, s) \<Rightarrow> (r, m\<lparr>sp_gsrv := s\<rparr>))"

definition LOG_p :: "loglevel \<Rightarrow> string \<Rightarrow> string list \<Rightarrow> (server_proc, unit) cpp" where
  "LOG_p lv fmt args = modify (\<lambda>m. m\<lparr>sp_log := sp_log m @ [(lv, fmt, args)]\<rparr>)"

text \<open>The thread that \<open>HandleSignal\<close> starts, and \<open>HandleSignal\<close>.\<close>

definition handler_thread :: "int \<Rightarrow> (server_proc, unit) cpp" where
  "handler_thread signum =
     sq (LOG_p LogInfo ''signal({}) received'' [to_string_int signum])
    (bnd (gets GET_GRPC_SERVER_ASYNC) (\<lambda>async. if async then on_async AsyncServer_stop else on_sync SyncServer_stop))"

definition HandleSignal :: "int \<Rightarrow> server_proc \<Rightarrow> server_proc" where
  "HandleSignal signum m =
     (if signum = SIGINT \<or> signum = SIGTERM then m\<lparr>sp_threads := sp_threads m @ [signum]\<rparr> else m)"

text \<open>The part of \<open>main\<close> that starts the server, up to its call of \<open>Wait\<close>, and the test whether \<open>Wait\<close> returns.\<close>

definition start_server :: "(server_proc, unit) cpp" where
  "start_server =
     bnd (gets GET_GRPC_SERVER_PORT) (\<lambda>port.
     bnd (gets GET_GRPC_SERVER_ASYNC) (\<lambda>async. if async then on_async (AsyncServer_start port) else on_sync (SyncServer_start port)))"

definition Wait_returns :: "server_proc \<Rightarrow> bool" where
  "Wait_returns m \<longleftrightarrow> (if GET_GRPC_SERVER_ASYNC m then server_down (sp_gsrv m) else y_down (sp_sync m))"

fun after_start :: "unit outcome \<Rightarrow> sp_phase" where
  "after_start (Val u) = SP_Waiting" | "after_start Pending = SP_Waiting" | "after_start (Throw e) = SP_Failed"
| "after_start (Undef u) = SP_Undefined" | "after_start (Exit n) = SP_Killed"

text \<open>The signals \<open>RegisterSignalHandler\<close> has installed the handler for.\<close>

fun installed :: "sp_phase \<Rightarrow> int set" where
  "installed SP_Init = {}" | "installed SP_Half = {SIGINT}" | "installed _ = {SIGINT, SIGTERM}"

text \<open>
  What the process does on its own: the main thread, and the threads of the signal handler, which run in any order.
  \<open>start\<close> up to \<open>Wait\<close> is one step, and so is a thread of the handler.
\<close>

inductive server_main :: "server_proc \<Rightarrow> server_proc \<Rightarrow> bool" where
  sm_sigint: "sp_phase m = SP_Init \<Longrightarrow> server_main m (m\<lparr>sp_phase := SP_Half\<rparr>)"
| sm_sigterm: "sp_phase m = SP_Half \<Longrightarrow> server_main m (m\<lparr>sp_phase := SP_Registered\<rparr>)"
| sm_start: "sp_phase m = SP_Registered \<Longrightarrow> start_server m = (r, m') \<Longrightarrow> server_main m (m'\<lparr>sp_phase := after_start r\<rparr>)"
| sm_return: "sp_phase m = SP_Waiting \<Longrightarrow> Wait_returns m \<Longrightarrow> server_main m (m\<lparr>sp_phase := SP_Waited\<rparr>)"
| sm_handler: "sp_phase m \<notin> {SP_Killed, SP_Failed, SP_Undefined} \<Longrightarrow> sp_threads m = us @ signum # vs \<Longrightarrow>
    handler_thread signum (m\<lparr>sp_threads := us @ vs\<rparr>) = (Val (), m') \<Longrightarrow> server_main m m'"

text \<open>\<open>SIGINT\<close> or \<open>SIGTERM\<close> is delivered: without a handler it kills the process, otherwise the handler runs.\<close>

definition deliver :: "int \<Rightarrow> server_proc \<Rightarrow> server_proc" where
  "deliver signum m = (if signum \<in> installed (sp_phase m) then HandleSignal signum m else m\<lparr>sp_phase := SP_Killed\<rparr>)"

definition server_step :: "server_proc \<Rightarrow> server_proc \<Rightarrow> bool" where
  "server_step m m' \<longleftrightarrow> server_main m m' \<or> (\<exists>signum \<in> {SIGINT, SIGTERM}. m' = deliver signum m)"

inductive_cases server_mainE: "server_main m m'"

section \<open>What start and stop have to promise\<close>

text \<open>
  \<open>stop\<close> shuts a server down that has been built, and has no lasting effect on \<open>Wait\<close> otherwise; \<open>start\<close>, when it gets to \<open>Wait\<close>, has
  built a server that is not shut down.
\<close>

locale server_control =
  fixes start :: "nat \<Rightarrow> ('s, unit) cpp" and stop :: "('s, unit) cpp" and built :: "'s \<Rightarrow> bool" and down :: "'s \<Rightarrow> bool"
  assumes stop_built: "built s \<Longrightarrow> \<exists>s'. stop s = (Val (), s') \<and> built s' \<and> down s'"
    and stop_not_built: "\<not> built s \<Longrightarrow> \<exists>s'. stop s = (Val (), s') \<and> \<not> built s' \<and> down s' = down s"
    and start_builds: "\<not> down s \<Longrightarrow> start port s = (r, s') \<Longrightarrow> after_start r = SP_Waiting \<Longrightarrow> built s' \<and> \<not> down s'"
begin

lemma stop_keeps: "stop s = (r, s') \<Longrightarrow> r = Val () \<and> built s' = built s \<and> (built s \<longrightarrow> down s') \<and> (\<not> built s \<longrightarrow> down s' = down s)"
  using stop_built[of s] stop_not_built[of s] by (cases "built s") auto

lemma stop_total: obtains s' where "stop s = (Val (), s')"
  using stop_built[of s] stop_not_built[of s] by (cases "built s") auto

end

text \<open>
  The process runs one of the two servers, which the configuration selects: \<open>async\<close> is the selection, \<open>srv\<close> the server in the state of
  the process and \<open>put\<close> its update. The process has to start, to stop and to ask the server that is selected.
\<close>

locale selected_server = server_control start stop built down
  for start :: "nat \<Rightarrow> ('s, unit) cpp" and stop built down +
  fixes async :: bool and srv :: "server_proc \<Rightarrow> 's" and put :: "'s \<Rightarrow> server_proc \<Rightarrow> server_proc"
  assumes starts_selected: "GET_GRPC_SERVER_ASYNC m = async \<Longrightarrow> start_server m = (case start (GET_GRPC_SERVER_PORT m) (srv m) of (r, s) \<Rightarrow> (r, put s m))"
    and stops_selected: "GET_GRPC_SERVER_ASYNC m = async \<Longrightarrow> handler_thread signum m =
      (case stop (srv m) of (r, s) \<Rightarrow> (r, put s (m\<lparr>sp_log := sp_log m @ [(LogInfo, ''signal({}) received'', [to_string_int signum])]\<rparr>)))"
    and waits_selected: "GET_GRPC_SERVER_ASYNC m = async \<Longrightarrow> Wait_returns m = down (srv m)"
    and srv_put [simp]: "srv (put s m) = s"
    and put_frame [simp]: "GET_GRPC_SERVER_ASYNC (put s m) = GET_GRPC_SERVER_ASYNC m" "sp_phase (put s m) = sp_phase m"
      "sp_threads (put s m) = sp_threads m" "sp_log (put s m) = sp_log m"
    and srv_frame [simp]: "srv (m\<lparr>sp_phase := p\<rparr>) = srv m" "srv (m\<lparr>sp_threads := ts\<rparr>) = srv m" "srv (m\<lparr>sp_log := lg\<rparr>) = srv m"
begin

text \<open>While the main thread waits, the selected server is there.\<close>

definition sp_ok :: "server_proc \<Rightarrow> bool" where
  "sp_ok m \<longleftrightarrow> GET_GRPC_SERVER_ASYNC m = async \<and> (case sp_phase m of SP_Waiting \<Rightarrow> built (srv m)
     | SP_Waited \<Rightarrow> built (srv m) \<and> down (srv m) | SP_Killed \<Rightarrow> True | SP_Failed \<Rightarrow> True | SP_Undefined \<Rightarrow> True
     | _ \<Rightarrow> \<not> built (srv m) \<and> \<not> down (srv m))"

lemma after_start_cases: "after_start r = SP_Waiting \<or> after_start r \<in> {SP_Failed, SP_Undefined, SP_Killed}"
  by (cases r) auto

lemma sp_ok_main: "server_main m m' \<Longrightarrow> sp_ok m \<Longrightarrow> sp_ok m'"
proof (induction rule: server_main.induct)
  case (sm_start m r m')
  then obtain s' where "start (GET_GRPC_SERVER_PORT m) (srv m) = (r, s')" "m' = put s' m"
    by (auto simp: sp_ok_def starts_selected split: prod.splits)
  then show ?case using sm_start start_builds[of "srv m" _ r s'] after_start_cases[of r] by (auto simp: sp_ok_def)
next
  case (sm_return m)
  then show ?case by (auto simp: sp_ok_def waits_selected)
next
  case (sm_handler m us signum vs m')
  then obtain r s' lg where "stop (srv m) = (r, s')" "m' = put s' (m\<lparr>sp_threads := us @ vs, sp_log := lg\<rparr>)"
    by (auto simp: sp_ok_def stops_selected split: prod.splits)
  then show ?case using sm_handler stop_keeps[of "srv m" r s'] by (auto simp: sp_ok_def split: sp_phase.splits)
qed (auto simp: sp_ok_def)

lemma sp_ok_deliver: "sp_ok m \<Longrightarrow> sp_ok (deliver signum m)"
  by (auto simp: sp_ok_def deliver_def HandleSignal_def split: sp_phase.splits)

lemma sp_ok_reach:
  assumes "server_step\<^sup>*\<^sup>* m m'" "sp_ok m"
  shows "sp_ok m'"
  using assms by (induction rule: rtranclp_induct) (auto simp: server_step_def dest: sp_ok_main sp_ok_deliver)

text \<open>A signal that arrives while the main thread waits makes \<open>Wait\<close> return.\<close>

lemma signal_while_waiting:
  assumes "sp_ok m" "sp_phase m = SP_Waiting" "signum \<in> {SIGINT, SIGTERM}"
  shows "\<exists>m'. server_main\<^sup>*\<^sup>* (deliver signum m) m' \<and> sp_phase m' = SP_Waited"
proof -
  have b: "built (srv m)" "GET_GRPC_SERVER_ASYNC m = async" using assms by (simp_all add: sp_ok_def)
  obtain s' where s': "stop (srv m) = (Val (), s')" "down s'" using stop_built[OF b(1)] by blast
  have d: "deliver signum m = m\<lparr>sp_threads := sp_threads m @ [signum]\<rparr>"
    using assms(2,3) by (auto simp: deliver_def HandleSignal_def)
  obtain m1 where m1: "handler_thread signum (m\<lparr>sp_threads := sp_threads m\<rparr>) = (Val (), m1)" "srv m1 = s'" "sp_phase m1 = SP_Waiting"
    "GET_GRPC_SERVER_ASYNC m1 = async"
    using stops_selected[of "m\<lparr>sp_threads := sp_threads m\<rparr>" signum] s'(1) b(2) assms(2) by simp
  have "server_main (deliver signum m) m1"
    using sm_handler[of "deliver signum m" "sp_threads m" signum "[]" m1] m1(1) assms(2) by (simp add: d)
  moreover have "server_main m1 (m1\<lparr>sp_phase := SP_Waited\<rparr>)" using sm_return[of m1] m1(2-4) s'(2) waits_selected[of m1] by simp
  ultimately have "server_main\<^sup>*\<^sup>* (deliver signum m) (m1\<lparr>sp_phase := SP_Waited\<rparr>)"
    by (meson r_into_rtranclp rtranclp.rtrancl_into_rtrancl)
  then show ?thesis by (intro exI[of _ "m1\<lparr>sp_phase := SP_Waited\<rparr>"]) simp
qed

text \<open>A process in \<open>Wait\<close> whose server is not shut down, with no thread of the handler left, does nothing until a signal arrives.\<close>

lemma stuck_in_Wait:
  assumes "GET_GRPC_SERVER_ASYNC m = async" "sp_phase m = SP_Waiting" "\<not> down (srv m)" "sp_threads m = []"
  shows "\<not> server_main m m'"
  using assms waits_selected[of m] by (auto elim!: server_mainE)

text \<open>A signal whose thread runs before the server is built is lost: the main thread then waits until another one arrives.\<close>

lemma signal_too_early:
  assumes m: "m = server_main_start async port sy g" and s: "\<not> built (srv m)" "\<not> down (srv m)" "stop (srv m) = (Val (), s1)"
    and st: "start port s1 = (r, s2)" "after_start r = SP_Waiting" and p: "\<And>s m. GET_GRPC_SERVER_PORT (put s m) = GET_GRPC_SERVER_PORT m"
  shows "\<exists>m'. server_step\<^sup>*\<^sup>* m m' \<and> sp_phase m' = SP_Waiting \<and> srv m' = s2 \<and>
    sp_log m' = [(LogInfo, ''signal({}) received'', [to_string_int SIGINT])] \<and> sp_threads m' = [] \<and> \<not> (\<exists>m''. server_main m' m'')"
proof -
  let ?r = "m\<lparr>sp_phase := SP_Registered\<rparr>"
  let ?h = "put s1 (?r\<lparr>sp_log := [(LogInfo, ''signal({}) received'', [to_string_int SIGINT])]\<rparr>)"
  let ?w = "put s2 ?h\<lparr>sp_phase := SP_Waiting\<rparr>"
  have f: "GET_GRPC_SERVER_ASYNC m = async" "GET_GRPC_SERVER_PORT m = port" "sp_phase m = SP_Init" "sp_threads m = []" "sp_log m = []"
    by (simp_all add: m server_main_start_def)
  have "server_step m (m\<lparr>sp_phase := SP_Half\<rparr>)" using sm_sigint[of m] f by (simp add: server_step_def)
  moreover have "server_step (m\<lparr>sp_phase := SP_Half\<rparr>) ?r" using sm_sigterm[of "m\<lparr>sp_phase := SP_Half\<rparr>"] by (simp add: server_step_def)
  moreover have "server_step ?r (?r\<lparr>sp_threads := [SIGINT]\<rparr>)" using f(4) by (auto simp: server_step_def deliver_def HandleSignal_def)
  moreover have "server_step (?r\<lparr>sp_threads := [SIGINT]\<rparr>) ?h"
  proof -
    have "?r\<lparr>sp_threads := []\<rparr> = ?r" using f(4) by simp
    moreover have "handler_thread SIGINT ?r = (Val (), ?h)" using stops_selected[of ?r SIGINT] f s(3) by simp
    ultimately have "handler_thread SIGINT (?r\<lparr>sp_threads := []\<rparr>) = (Val (), ?h)" by (simp only:)
    then show ?thesis using sm_handler[of "?r\<lparr>sp_threads := [SIGINT]\<rparr>" "[]" SIGINT "[]" ?h] by (simp add: server_step_def)
  qed
  moreover have "server_step ?h ?w"
    using sm_start[of ?h r "put s2 ?h"] starts_selected[of ?h] st f p by (simp add: server_step_def)
  ultimately have "server_step\<^sup>*\<^sup>* m ?w" by (meson r_into_rtranclp rtranclp.rtrancl_into_rtrancl)
  moreover have "\<not> down s2" using start_builds[OF _ st] stop_keeps[OF s(3)] s(1,2) by simp
  ultimately show ?thesis using stuck_in_Wait[of ?w] f by (intro exI[of _ ?w]) simp
qed

end

section \<open>The two servers\<close>

interpretation sync_control: server_control SyncServer_start SyncServer_stop y_server y_down
proof
  fix s s' :: ssrv and port r
  show "\<exists>s'. SyncServer_stop s = (Val (), s') \<and> y_server s' \<and> y_down s'" if "y_server s"
    using that by (simp add: SyncServer_stop_def LOG_y_def cpp_eval)
  show "\<exists>s'. SyncServer_stop s = (Val (), s') \<and> \<not> y_server s' \<and> y_down s' = y_down s" if "\<not> y_server s"
    using that by (simp add: SyncServer_stop_def LOG_y_def cpp_eval)
  show "y_server s' \<and> \<not> y_down s'" if "\<not> y_down s" "SyncServer_start port s = (r, s')" "after_start r = SP_Waiting"
    using that by (auto simp: SyncServer_start_def LOG_y_def cpp_eval split: if_splits)
qed

interpretation sync_proc: selected_server SyncServer_start SyncServer_stop y_server y_down False sp_sync "\<lambda>s m. m\<lparr>sp_sync := s\<rparr>"
  by unfold_locales
    (simp_all add: start_server_def handler_thread_def Wait_returns_def on_sync_def LOG_p_def cpp_eval split: prod.splits)

text \<open>Registering the handlers does not touch the server object.\<close>

definition serving :: "gsrv \<Rightarrow> bool" where
  "serving s \<longleftrightarrow> grpcServer s \<and> \<not> server_down s"

lemma keeps_serving: "keeps serving startDemuxer"
proof -
  have r: "keeps serving (registerHandler m q h)" for m q h
    unfolding registerHandler_def LOG_def start_op_def mgr_def
    by (intro keeps_bnd keeps_if keeps_gets keeps_modify keepsI) (auto simp: serving_def split: prod.splits)
  have "keeps serving demux_begin"
    unfolding demux_begin_def new_handlers_def new_defs
    by (intro keeps_bnd keeps_if keeps_gets keeps_undef keeps_sq r keepsI) (simp add: serving_def)
  then have "keeps serving (begin_threads n)" for n by (induction n) auto
  then show ?thesis unfolding startDemuxer_def by (intro keeps_bnd keeps_gets)
qed

text \<open>Nothing in \<open>startDemuxer\<close> blocks.\<close>

definition never_blocks :: "(gsrv, 'a) cpp \<Rightarrow> bool" where
  "never_blocks m \<longleftrightarrow> (\<forall>s. fst (m s) \<noteq> Pending)"

lemma never_blocks_bnd: "never_blocks m \<Longrightarrow> (\<And>a. never_blocks (f a)) \<Longrightarrow> never_blocks (bnd m f)"
  unfolding never_blocks_def by (auto simp: bnd_eval split: prod.splits outcome.splits) (metis fst_conv)

lemma startDemuxer_never_blocks: "never_blocks startDemuxer"
proof -
  have r: "never_blocks (registerHandler m q h)" for m q h
    by (auto simp: never_blocks_def registerHandler_def mgr_def EventHandlerManager_add_def LOG_def start_op_def cpp_eval
        split: prod.splits option.splits)
  have sq: "never_blocks m \<Longrightarrow> never_blocks k \<Longrightarrow> never_blocks (sq m k)" for m :: "(gsrv, unit) cpp" and k :: "(gsrv, unit) cpp"
    unfolding sq_def by (rule never_blocks_bnd)
  have "never_blocks (new_handlers q)" for q unfolding new_handlers_def new_defs by (intro sq r)
  then have "never_blocks demux_begin" by (auto simp: never_blocks_def demux_begin_def cpp_eval)
  then have "never_blocks (begin_threads n)" for n by (induction n) (auto intro: sq simp: never_blocks_def[of skip] cpp_eval)
  then show ?thesis by (simp add: never_blocks_def startDemuxer_def cpp_eval)
qed

lemma AsyncServer_stop_state: "\<exists>l. AsyncServer_stop s =
    (Val (), s\<lparr>stopped := True, server_down := server_down s \<or> grpcServer s, cqs_down := cqs_down s @ cqs s, s_log := l\<rparr>)"
  by (cases "grpcServer s"; simp add: AsyncServer_stop_def ServerProactor_stop_def ServerProactor_shutdown_def LOG_def cpp_eval; blast)

interpretation async_control: server_control AsyncServer_start AsyncServer_stop grpcServer server_down
proof
  fix s s' :: gsrv and port r
  show "\<exists>s'. AsyncServer_stop s = (Val (), s') \<and> grpcServer s' \<and> server_down s'" if "grpcServer s"
    using that AsyncServer_stop_state[of s] by auto
  show "\<exists>s'. AsyncServer_stop s = (Val (), s') \<and> \<not> grpcServer s' \<and> server_down s' = server_down s" if "\<not> grpcServer s"
    using that AsyncServer_stop_state[of s] by auto
  show "grpcServer s' \<and> \<not> server_down s'"
    if d: "\<not> server_down s" and st: "AsyncServer_start port s = (r, s')" and w: "after_start r = SP_Waiting"
  proof -
    let ?s = "s\<lparr>s_log := s_log s @ [(LogInfo, ''SyncServer listening on {}'', [''0.0.0.0:'' @ to_string_nat port])],
      cqs := cqs s @ [0..<threadPoolSize s], grpcServer := g_build s\<rparr>"
    have "AsyncServer_start port s = sq startDemuxer (if g_build s then skip else undef ''grpcServer is null'') ?s"
      by (simp add: AsyncServer_start_def LOG_def add_queues_run cpp_eval)
    moreover have "fst (startDemuxer ?s) \<noteq> Pending" using startDemuxer_never_blocks by (simp add: never_blocks_def)
    ultimately have "g_build s" "snd (startDemuxer ?s) = s'"
      using st w by (auto simp: cpp_eval split: prod.splits outcome.splits if_splits)
    with keepsD[OF keeps_serving, of ?s] d show ?thesis by (auto simp: serving_def)
  qed
qed

interpretation async_proc: selected_server AsyncServer_start AsyncServer_stop grpcServer server_down True sp_gsrv "\<lambda>s m. m\<lparr>sp_gsrv := s\<rparr>"
  by unfold_locales
    (simp_all add: start_server_def handler_thread_def Wait_returns_def on_async_def LOG_p_def cpp_eval split: prod.splits)

text \<open>Without a server the process does not get into \<open>Wait\<close>.\<close>

lemma async_start_without_server:
  assumes "\<not> g_build s"
  shows "after_start (fst (AsyncServer_start port s)) \<noteq> SP_Waiting"
  using assms startDemuxer_never_blocks
  by (auto simp: AsyncServer_start_def LOG_def add_queues_run cpp_eval never_blocks_def split: prod.splits outcome.splits)
    (metis fst_conv)

text \<open>A proactor that has been stopped registers nothing.\<close>

lemma begin_threads_stopped:
  "stopped s \<Longrightarrow> cqIdx s + n \<le> length (cqs s) \<Longrightarrow> \<exists>l. begin_threads n s = (Val (), s\<lparr>cqIdx := cqIdx s + n, s_log := l\<rparr>)"
proof (induction n)
  case (Suc n)
  then obtain l where l: "begin_threads n s = (Val (), s\<lparr>cqIdx := cqIdx s + n, s_log := l\<rparr>)" by auto
  have r: "registerHandler m q h t = (Val (), t\<lparr>s_log := s_log t @ [(LogInfo, ''stopped'', [])]\<rparr>)" if "stopped t" for m q h t
    using that by (simp add: registerHandler_def LOG_def cpp_eval)
  show ?case using Suc(2,3) l by (simp add: demux_begin_def new_handlers_def new_defs r cpp_eval) blast
qed (simp add: cpp_eval exI[of _ "s_log s"])

lemma AsyncServer_start_stopped:
  assumes "stopped s" "cqIdx s = 0" "g_build s"
  shows "\<exists>s'. AsyncServer_start port s = (Val (), s') \<and> handlerManager s' = handlerManager s \<and> inflight s' = inflight s"
proof -
  let ?s = "s\<lparr>s_log := s_log s @ [(LogInfo, ''SyncServer listening on {}'', [''0.0.0.0:'' @ to_string_nat port])]\<rparr>"
  let ?qs = "[0..<threadPoolSize s]"
  obtain l where "begin_threads (threadPoolSize s) (?s\<lparr>cqs := cqs s @ ?qs, grpcServer := True\<rparr>) =
      (Val (), ?s\<lparr>cqs := cqs s @ ?qs, grpcServer := True, cqIdx := threadPoolSize s, s_log := l\<rparr>)"
    using begin_threads_stopped[of "?s\<lparr>cqs := cqs s @ ?qs, grpcServer := True\<rparr>" "threadPoolSize s"] assms by auto
  then show ?thesis using assms(3) by (simp add: AsyncServer_start_def startDemuxer_def LOG_def add_queues_run cpp_eval)
qed

lemma sync_signal_lost:
  assumes "\<not> y_server sy" "\<not> y_down sy" "y_build sy"
  shows "\<exists>m. server_step\<^sup>*\<^sup>* (server_main_start False port sy g) m \<and> sp_phase m = SP_Waiting \<and>
      sp_log m = [(LogInfo, ''signal({}) received'', [to_string_int SIGINT])] \<and> sp_threads m = [] \<and> \<not> (\<exists>m'. server_main m m')"
proof -
  obtain s1 where s1: "SyncServer_stop sy = (Val (), s1)" "\<not> y_down s1" "y_build s1"
    using assms by (simp add: SyncServer_stop_def LOG_y_def cpp_eval)
  obtain s2 where "SyncServer_start port s1 = (Pending, s2)" using s1 by (simp add: SyncServer_start_def LOG_y_def cpp_eval)
  with sync_proc.signal_too_early[OF refl, of port sy g s1 Pending s2] assms(1,2) s1(1) show ?thesis
    by (auto simp: server_main_start_def)
qed

lemma async_signal_lost:
  "\<exists>m. server_step\<^sup>*\<^sup>* (server_main_start True port sy (ServerProactor_new n clk ord j)) m \<and> sp_phase m = SP_Waiting \<and>
      sp_log m = [(LogInfo, ''signal({}) received'', [to_string_int SIGINT])] \<and> sp_threads m = [] \<and>
      handlers (handlerManager (sp_gsrv m)) = [] \<and> \<not> (\<exists>m'. server_main m m')"
proof -
  let ?a = "ServerProactor_new n clk ord j"
  have a: "\<not> grpcServer ?a" "\<not> server_down ?a" by (simp_all add: ServerProactor_new_def)
  obtain l where l: "AsyncServer_stop ?a = (Val (), ?a\<lparr>stopped := True, server_down := False, cqs_down := [], s_log := l\<rparr>)" (is "_ = (_, ?a1)")
    using AsyncServer_stop_state[of ?a] by (auto simp: ServerProactor_new_def)
  obtain t where t: "AsyncServer_start port ?a1 = (Val (), t)" "handlerManager t = handlerManager ?a1"
    using AsyncServer_start_stopped[of ?a1 port] by (auto simp: ServerProactor_new_def)
  have h: "handlers (handlerManager t) = []" using t(2) by (simp add: ServerProactor_new_def EventHandlerManager_new_def om_empty_def)
  have s: "sp_gsrv (server_main_start True port sy ?a) = ?a" by (simp add: server_main_start_def)
  from async_proc.signal_too_early[OF refl, of port sy ?a ?a1 "Val ()" t] a l t(1) h show ?thesis by (auto simp: s)
qed

lemma start_ok:
  "\<not> y_server sy \<Longrightarrow> \<not> y_down sy \<Longrightarrow> sync_proc.sp_ok (server_main_start False port sy g)"
  "\<not> grpcServer g \<Longrightarrow> \<not> server_down g \<Longrightarrow> async_proc.sp_ok (server_main_start True port sy g)"
  by (simp_all add: sync_proc.sp_ok_def async_proc.sp_ok_def server_main_start_def)

text \<open>
  C29. A signal stops a server that waits, and is lost on one that does not wait yet. The process has new servers, the one the
  configuration selects can be built, and \<open>async\<close> says which that is. However the signals and the threads of the handler
  have interleaved before: when the main thread is in \<open>Wait\<close> and \<open>SIGINT\<close> or \<open>SIGTERM\<close> is delivered, the process can get out
  of \<open>Wait\<close> without another signal. But one signal may come too early: the process can reach \<open>Wait\<close> with exactly one
  signal delivered, a \<open>SIGINT\<close>, its thread having run (its line is the only one in the log of \<open>main.cpp\<close>) and
  none left, and then nothing that the process can do on its own is left either. The asynchronous server, whose
  proactor has been stopped, then waits without a single handler registered.
\<close>

theorem server_signals:
  assumes "\<not> y_server sy" "\<not> y_down sy" "y_build sy"
  shows "(\<forall>async m signum. server_step\<^sup>*\<^sup>* (server_main_start async port sy (ServerProactor_new n clk ord j)) m \<and> sp_phase m = SP_Waiting \<and> signum \<in> {SIGINT, SIGTERM} \<longrightarrow>
      (\<exists>m'. server_main\<^sup>*\<^sup>* (deliver signum m) m' \<and> sp_phase m' = SP_Waited)) \<and>
    (\<forall>async. \<exists>m. server_step\<^sup>*\<^sup>* (server_main_start async port sy (ServerProactor_new n clk ord j)) m \<and> sp_phase m = SP_Waiting \<and>
      sp_log m = [(LogInfo, ''signal({}) received'', [to_string_int SIGINT])] \<and> sp_threads m = [] \<and>
      (async \<longrightarrow> handlers (handlerManager (sp_gsrv m)) = []) \<and> \<not> (\<exists>m'. server_main m m'))"
proof (intro conjI allI impI)
  fix async m signum
  assume h: "server_step\<^sup>*\<^sup>* (server_main_start async port sy (ServerProactor_new n clk ord j)) m \<and> sp_phase m = SP_Waiting \<and> signum \<in> {SIGINT, SIGTERM}"
  show "\<exists>m'. server_main\<^sup>*\<^sup>* (deliver signum m) m' \<and> sp_phase m' = SP_Waited"
  proof (cases async)
    case True
    have "async_proc.sp_ok m"
      using async_proc.sp_ok_reach[OF conjunct1[OF h]] start_ok(2) True by (simp add: ServerProactor_new_def)
    with async_proc.signal_while_waiting h show ?thesis by blast
  next
    case False
    have "sync_proc.sp_ok m"
      using sync_proc.sp_ok_reach[OF conjunct1[OF h]] start_ok(1)[OF assms(1,2)] False by simp
    with sync_proc.signal_while_waiting h show ?thesis by blast
  qed
next
  fix async
  show "\<exists>m. server_step\<^sup>*\<^sup>* (server_main_start async port sy (ServerProactor_new n clk ord j)) m \<and> sp_phase m = SP_Waiting \<and>
      sp_log m = [(LogInfo, ''signal({}) received'', [to_string_int SIGINT])] \<and> sp_threads m = [] \<and>
      (async \<longrightarrow> handlers (handlerManager (sp_gsrv m)) = []) \<and> \<not> (\<exists>m'. server_main m m')"
    using async_signal_lost[of port sy n clk ord j] sync_signal_lost[OF assms(1-3), of port] by (cases async) auto
qed

definition new_ssrv :: ssrv where
  "new_ssrv = \<lparr>y_clock = (\<lambda>_. []), y_ticks = 0, y_log = [], y_build = True, y_server = False, y_down = False, y_in = [], y_written = []\<rparr>"

lemma server_signals_witness:
  "\<exists>m m'. server_step\<^sup>*\<^sup>* (server_main_start True 50051 new_ssrv (ServerProactor_new 2 (\<lambda>_. []) id 0)) m \<and> sp_phase m = SP_Waiting \<and>
     sp_threads m = [] \<and> \<not> (\<exists>m'. server_main m m') \<and> server_main\<^sup>*\<^sup>* (deliver SIGTERM m) m' \<and> sp_phase m' = SP_Waited"
proof -
  have "\<not> y_server new_ssrv" "\<not> y_down new_ssrv" "y_build new_ssrv" by (simp_all add: new_ssrv_def)
  note both = server_signals[OF this, of 50051 2 "\<lambda>_. []" id 0]
  obtain m where m: "server_step\<^sup>*\<^sup>* (server_main_start True 50051 new_ssrv (ServerProactor_new 2 (\<lambda>_. []) id 0)) m" "sp_phase m = SP_Waiting"
    "sp_threads m = []" "\<not> (\<exists>m'. server_main m m')"
    using spec[OF conjunct2[OF both], of True] by blast
  from m conjunct1[OF both, rule_format, of True m SIGTERM] show ?thesis by blast
qed

section \<open>The client\<close>

definition serverAddress :: "ClientConfig \<Rightarrow> string" where
  "serverAddress cfg = cc_HOST cfg @ '':'' @ to_string_int (cc_PORT cfg)"

text \<open>\<open>main\<close> of the client: the address, and the program it runs against it.\<close>

definition client_main :: "ClientConfig \<Rightarrow> string \<times> (async_stmt list + (service \<Rightarrow> (scli, unit) cpp))" where
  "client_main cfg = (serverAddress cfg, if cc_ASYNC cfg then Inl (UseAsyncClient (nat (cc_REQUEST_COUNT cfg))) else Inr UseSyncClient)"

text \<open>Without a configuration file the client talks to port 50051 of this machine, and synchronously.\<close>

lemma client_main_default:
  assumes "a_files s ''./client.config'' = None"
  shows "client_main (snd (ClientConfig_init trim split s)) = (''localhost:50051'', Inr UseSyncClient)"
  by (simp add: no_file_defaults[OF assms] client_main_def serverAddress_def to_string_int_def to_string_nat.simps digit_char_def char_of_def bit_0)

text \<open>A client configured to be asynchronous, with a pool of its configured size.\<close>

lemma configured_client_completes:
  assumes "cc_ASYNC cfg" "0 < cc_THREADPOOL_SIZE cfg" "cc_REQUEST_COUNT cfg \<le> 2 ^ 28"
  shows "\<exists>d'. driver_step\<^sup>*\<^sup>* (driver_start (nat (cc_THREADPOOL_SIZE cfg)) clk ord j (nat (cc_REQUEST_COUNT cfg))) d' \<and> all_done d'"
  using assms by (intro can_end[OF drv_inv_start]) (auto simp: driver_start_def startThreadPool_def ClientProactor_new_def Let_def)

end
