(* ===== verification/Thread_Mutex.thy ===== *)
theory Thread_Mutex
  imports Cpp_Prelude
begin

text \<open>
  The program \<open>thread/use_mutex/main.cpp\<close>: threads that print and increment a shared counter under a mutex. Reading
  the counter and writing it back are steps of their own, so that it is the mutex that keeps the threads apart.
\<close>

section \<open>The threads\<close>

text \<open>
  The program points of \<open>Func\<close>, with the number of rounds it has finished: before the lock, before \<open>v\<close> is read, before it is
  written (with the value read), before the lock is given up, at the end.
\<close>

datatype um_pc = U_Lock nat | U_Read nat | U_Write nat int | U_Unlock nat | U_End

datatype um_main = UM_Create nat | UM_Join nat | UM_End

record umutex =
  um_threads :: nat
  um_rounds :: nat
  um_v :: int
  um_owner :: "nat option"
  um_t :: "um_pc list"
  um_main :: um_main
  um_out :: "(nat \<times> int) list"

definition um_start :: "nat \<Rightarrow> nat \<Rightarrow> umutex" where
  "um_start n r = \<lparr>um_threads = n, um_rounds = r, um_v = 0, um_owner = None, um_t = [], um_main = UM_Create 0, um_out = []\<rparr>"

definition um_at :: "umutex \<Rightarrow> nat \<Rightarrow> um_pc \<Rightarrow> bool" where
  "um_at s i p \<longleftrightarrow> i < length (um_t s) \<and> um_t s ! i = p"

definition um_to :: "nat \<Rightarrow> um_pc \<Rightarrow> umutex \<Rightarrow> umutex" where
  "um_to i p s = s\<lparr>um_t := (um_t s)[i := p]\<rparr>"

text \<open>\<open>Func\<close>; the sleep at the end of a round has no effect of its own. A line of the output is \<open>idx\<close> with the value printed.\<close>

inductive um_Func :: "nat \<Rightarrow> umutex \<Rightarrow> umutex \<Rightarrow> bool" for idx where
  uf_lock: "um_at s idx (U_Lock i) \<Longrightarrow> i < um_rounds s \<Longrightarrow> um_owner s = None \<Longrightarrow>
    um_Func idx s (um_to idx (U_Read i) (s\<lparr>um_owner := Some idx\<rparr>))"
| uf_end: "um_at s idx (U_Lock i) \<Longrightarrow> \<not> i < um_rounds s \<Longrightarrow> um_Func idx s (um_to idx U_End s)"
| uf_read: "um_at s idx (U_Read i) \<Longrightarrow> um_Func idx s (um_to idx (U_Write i (um_v s)) s)"
| uf_write: "um_at s idx (U_Write i x) \<Longrightarrow>
    um_Func idx s (um_to idx (U_Unlock i) (s\<lparr>um_v := x + 1, um_out := um_out s @ [(idx, x)]\<rparr>))"
| uf_unlock: "um_at s idx (U_Unlock i) \<Longrightarrow> um_Func idx s (um_to idx (U_Lock (i + 1)) (s\<lparr>um_owner := None\<rparr>))"

text \<open>\<open>Run\<close>: it creates the threads and joins them.\<close>

inductive um_Run :: "umutex \<Rightarrow> umutex \<Rightarrow> bool" where
  ur_create: "um_main s = UM_Create i \<Longrightarrow> i < um_threads s \<Longrightarrow> um_Run s (s\<lparr>um_t := um_t s @ [U_Lock 0], um_main := UM_Create (i + 1)\<rparr>)"
| ur_created: "um_main s = UM_Create i \<Longrightarrow> \<not> i < um_threads s \<Longrightarrow> um_Run s (s\<lparr>um_main := UM_Join 0\<rparr>)"
| ur_join: "um_main s = UM_Join i \<Longrightarrow> i < um_threads s \<Longrightarrow> um_at s i U_End \<Longrightarrow> um_Run s (s\<lparr>um_main := UM_Join (i + 1)\<rparr>)"
| ur_joined: "um_main s = UM_Join i \<Longrightarrow> \<not> i < um_threads s \<Longrightarrow> um_Run s (s\<lparr>um_main := UM_End\<rparr>)"

definition um_step :: "umutex \<Rightarrow> umutex \<Rightarrow> bool" where
  "um_step s s' \<longleftrightarrow> um_Run s s' \<or> (\<exists>i. um_Func i s s')"

section \<open>The invariant\<close>

fun holds :: "um_pc \<Rightarrow> bool" where
  "holds (U_Read i) \<longleftrightarrow> True" | "holds (U_Write i x) \<longleftrightarrow> True" | "holds (U_Unlock i) \<longleftrightarrow> True" | "holds _ \<longleftrightarrow> False"

text \<open>The lines a thread has printed.\<close>

fun lines_of :: "nat \<Rightarrow> um_pc \<Rightarrow> nat" where
  "lines_of r (U_Lock i) = i" | "lines_of r (U_Read i) = i" | "lines_of r (U_Write i x) = i" | "lines_of r (U_Unlock i) = Suc i"
| "lines_of r U_End = r"

fun pc_ok :: "nat \<Rightarrow> int \<Rightarrow> um_pc \<Rightarrow> bool" where
  "pc_ok r v (U_Lock i) \<longleftrightarrow> i \<le> r" | "pc_ok r v (U_Read i) \<longleftrightarrow> i < r" | "pc_ok r v (U_Write i x) \<longleftrightarrow> i < r \<and> x = v"
| "pc_ok r v (U_Unlock i) \<longleftrightarrow> i < r" | "pc_ok r v U_End \<longleftrightarrow> True"

fun um_main_ok :: "nat \<Rightarrow> umutex \<Rightarrow> um_main \<Rightarrow> bool" where
  "um_main_ok n s (UM_Create i) \<longleftrightarrow> i = length (um_t s) \<and> i \<le> n"
| "um_main_ok n s (UM_Join i) \<longleftrightarrow> length (um_t s) = n \<and> i \<le> n \<and> (\<forall>j < i. um_at s j U_End)"
| "um_main_ok n s UM_End \<longleftrightarrow> length (um_t s) = n \<and> (\<forall>j < n. um_at s j U_End)"

definition printed_by :: "nat \<Rightarrow> umutex \<Rightarrow> nat" where
  "printed_by i s = length (filter (\<lambda>l. fst l = i) (um_out s))"

definition um_ok :: "umutex \<Rightarrow> bool" where
  "um_ok s \<longleftrightarrow> um_v s = int (length (um_out s)) \<and> map snd (um_out s) = map int [0..<length (um_out s)] \<and>
     (\<forall>i p. um_at s i p \<longrightarrow> pc_ok (um_rounds s) (um_v s) p \<and> printed_by i s = lines_of (um_rounds s) p \<and> (holds p \<longleftrightarrow> um_owner s = Some i)) \<and>
     (\<forall>i. um_owner s = Some i \<longrightarrow> i < length (um_t s)) \<and> (\<forall>i \<ge> length (um_t s). printed_by i s = 0) \<and> um_main_ok (um_threads s) s (um_main s)"

lemma um_at_to [simp]: "um_at (um_to i p s) j q \<longleftrightarrow> (if j = i then i < length (um_t s) \<and> p = q else um_at s j q)"
  by (auto simp: um_at_def um_to_def)

lemma um_fields [simp]:
  "um_at (s\<lparr>um_v := v\<rparr>) i p = um_at s i p" "um_at (s\<lparr>um_owner := ow\<rparr>) i p = um_at s i p" "um_at (s\<lparr>um_out := ls\<rparr>) i p = um_at s i p"
  "um_at (s\<lparr>um_main := m\<rparr>) i p = um_at s i p" "um_v (um_to i p s) = um_v s" "um_owner (um_to i p s) = um_owner s"
  "um_out (um_to i p s) = um_out s" "um_main (um_to i p s) = um_main s" "um_threads (um_to i p s) = um_threads s"
  "um_rounds (um_to i p s) = um_rounds s" "length (um_t (um_to i p s)) = length (um_t s)" "printed_by j (um_to i p s) = printed_by j s"
  "printed_by j (s\<lparr>um_owner := ow\<rparr>) = printed_by j s" "printed_by j (s\<lparr>um_main := m\<rparr>) = printed_by j s" "printed_by j (s\<lparr>um_t := ts\<rparr>) = printed_by j s"
  by (simp_all add: um_at_def um_to_def printed_by_def)

lemma um_at_bound: "um_at s i p \<Longrightarrow> i < length (um_t s)"
  by (simp add: um_at_def)

lemma um_at_unique: "um_at s i p \<Longrightarrow> um_at s i q \<longleftrightarrow> q = p"
  by (auto simp: um_at_def)

lemma um_main_ok_to: "um_at s i p \<Longrightarrow> p \<noteq> U_End \<Longrightarrow> um_main_ok n s m \<Longrightarrow> um_main_ok n (um_to i q (s\<lparr>um_v := v, um_out := ls, um_owner := ow\<rparr>)) m"
  by (cases m) (auto simp: um_at_unique)

lemma pc_ok_other: "\<not> holds p \<Longrightarrow> pc_ok r v p = pc_ok r v' p"
  by (cases p) auto

lemma um_ok_to:
  assumes ok: "um_ok s" and at: "um_at s i p" "p \<noteq> U_End"
    and v: "v = int (length ls)" "map snd ls = map int [0..<length ls]" "v = um_v s \<or> um_owner s = Some i"
    and q: "pc_ok (um_rounds s) v q" "length (filter (\<lambda>l. fst l = i) ls) = lines_of (um_rounds s) q" "holds q \<longleftrightarrow> ow = Some i"
    and other: "\<And>j. j \<noteq> i \<Longrightarrow> length (filter (\<lambda>l. fst l = j) ls) = printed_by j s" "\<And>j. j \<noteq> i \<Longrightarrow> um_owner s = Some j \<longleftrightarrow> ow = Some j"
  shows "um_ok (um_to i q (s\<lparr>um_v := v, um_out := ls, um_owner := ow\<rparr>))" (is "um_ok ?s")
proof -
  have pr: "printed_by j ?s = length (filter (\<lambda>l. fst l = j) ls)" for j by (simp add: printed_by_def um_to_def)
  have th: "pc_ok (um_rounds s) v p' \<and> printed_by j ?s = lines_of (um_rounds s) p' \<and> (holds p' \<longleftrightarrow> ow = Some j)" if "um_at ?s j p'" for j p'
  proof (cases "j = i")
    case False
    with that have o: "pc_ok (um_rounds s) (um_v s) p'" "printed_by j s = lines_of (um_rounds s) p'" "holds p' \<longleftrightarrow> um_owner s = Some j"
      using ok by (auto simp: um_ok_def)
    have "pc_ok (um_rounds s) v p'"
    proof (cases "v = um_v s")
      case False
      then have "\<not> holds p'" using v(3) o(3) \<open>j \<noteq> i\<close> by simp
      then show ?thesis using o(1) pc_ok_other[of p' _ v] by blast
    qed (use o(1) in simp)
    with o False other pr show ?thesis by simp
  qed (use that q pr in auto)
  have own: "\<forall>j. ow = Some j \<longrightarrow> j < length (um_t s)" using ok other(2) at(1) by (metis um_at_bound um_ok_def)
  have "\<forall>j \<ge> length (um_t s). printed_by j ?s = 0" using ok other(1) pr um_at_bound[OF at(1)] by (auto simp: um_ok_def)
  moreover have "um_main_ok (um_threads s) ?s (um_main s)" using um_main_ok_to[OF at] ok by (simp add: um_ok_def)
  ultimately show ?thesis using th own v(1,2) unfolding um_ok_def by simp
qed

lemma um_ok_at:
  assumes "um_ok s" "um_at s i p"
  shows "pc_ok (um_rounds s) (um_v s) p" "length (filter (\<lambda>l. fst l = i) (um_out s)) = lines_of (um_rounds s) p" "holds p \<longleftrightarrow> um_owner s = Some i"
    "um_v s = int (length (um_out s))" "map snd (um_out s) = map int [0..<length (um_out s)]"
  using assms by (auto simp: um_ok_def printed_by_def)

lemma um_ok_Func: "um_Func i s s' \<Longrightarrow> um_ok s \<Longrightarrow> um_ok s'"
proof (induction rule: um_Func.induct)
  case (uf_lock s k)
  note a = um_ok_at[OF uf_lock(4,1)]
  have "um_ok (um_to i (U_Read k) (s\<lparr>um_v := um_v s, um_out := um_out s, um_owner := Some i\<rparr>))"
    using uf_lock a by (intro um_ok_to[OF uf_lock(4,1)]) (auto simp: printed_by_def)
  then show ?case by simp
next
  case (uf_end s k)
  note a = um_ok_at[OF uf_end(3,1)]
  have "um_ok (um_to i U_End (s\<lparr>um_v := um_v s, um_out := um_out s, um_owner := um_owner s\<rparr>))"
    using uf_end a by (intro um_ok_to[OF uf_end(3,1)]) (auto simp: printed_by_def)
  then show ?case by simp
next
  case (uf_read s k)
  note a = um_ok_at[OF uf_read(2,1)]
  have "um_ok (um_to i (U_Write k (um_v s)) (s\<lparr>um_v := um_v s, um_out := um_out s, um_owner := um_owner s\<rparr>))"
    using a by (intro um_ok_to[OF uf_read(2,1)]) (auto simp: printed_by_def)
  then show ?case by simp
next
  case (uf_write s k x)
  note a = um_ok_at[OF uf_write(2,1)]
  have "um_ok (um_to i (U_Unlock k) (s\<lparr>um_v := x + 1, um_out := um_out s @ [(i, x)], um_owner := um_owner s\<rparr>))"
    using a by (intro um_ok_to[OF uf_write(2,1)]) (auto simp: printed_by_def)
  then show ?case by simp
next
  case (uf_unlock s k)
  note a = um_ok_at[OF uf_unlock(2,1)]
  have "um_ok (um_to i (U_Lock (k + 1)) (s\<lparr>um_v := um_v s, um_out := um_out s, um_owner := None\<rparr>))"
    using a by (intro um_ok_to[OF uf_unlock(2,1)]) (auto simp: printed_by_def)
  then show ?case by simp
qed

lemma um_ok_Run: "um_Run s s' \<Longrightarrow> um_ok s \<Longrightarrow> um_ok s'"
proof (induction rule: um_Run.induct)
  case (ur_create s i)
  then have i: "i = length (um_t s)" "um_owner s \<noteq> Some i" "printed_by i s = 0" by (auto simp: um_ok_def)
  have "um_at (s\<lparr>um_t := um_t s @ [U_Lock 0], um_main := UM_Create (i + 1)\<rparr>) j p \<longleftrightarrow> um_at s j p \<or> j = i \<and> p = U_Lock 0" for j p
    using i(1) by (auto simp: um_at_def nth_append less_Suc_eq)
  then show ?case using ur_create i by (auto simp: um_ok_def less_Suc_eq)
qed (auto simp: um_ok_def less_Suc_eq)

lemma um_ok_start: "um_ok (um_start n r)"
  by (simp add: um_ok_def um_start_def um_at_def printed_by_def)

lemma um_const: "um_step s s' \<Longrightarrow> um_threads s' = um_threads s \<and> um_rounds s' = um_rounds s"
  unfolding um_step_def by (elim disjE exE um_Run.cases um_Func.cases) simp_all

lemma um_ok_step: "um_step s s' \<Longrightarrow> um_ok s \<Longrightarrow> um_ok s'"
  unfolding um_step_def using um_ok_Func um_ok_Run by blast

lemma um_reach:
  assumes "um_step\<^sup>*\<^sup>* (um_start n r) s"
  shows "um_ok s \<and> um_threads s = n \<and> um_rounds s = r"
  using assms
proof (induction rule: rtranclp_induct)
  case base
  then show ?case using um_ok_start by (simp add: um_start_def)
qed (use um_ok_step um_const in auto)

section \<open>Progress\<close>

fun um_rank :: "nat \<Rightarrow> um_pc \<Rightarrow> nat" where
  "um_rank r (U_Lock i) = 4 * (r - i) + 1" | "um_rank r (U_Read i) = 4 * (r - i)" | "um_rank r (U_Write i x) = 4 * (r - i) - 1"
| "um_rank r (U_Unlock i) = 4 * (r - i) - 2" | "um_rank r U_End = 0"

fun um_main_rank :: "nat \<Rightarrow> nat \<Rightarrow> um_main \<Rightarrow> nat" where
  "um_main_rank n r (UM_Create i) = (n - i) * (4 * r + 2) + n + 3" | "um_main_rank n r (UM_Join i) = (n - i) + 1" | "um_main_rank n r UM_End = 0"

definition um_to_go :: "umutex \<Rightarrow> nat" where
  "um_to_go s = um_main_rank (um_threads s) (um_rounds s) (um_main s) + sum_list (map (um_rank (um_rounds s)) (um_t s))"

lemma um_to_go_to:
  assumes "um_at s i p" "um_rank (um_rounds s) q < um_rank (um_rounds s) p"
  shows "um_to_go (um_to i q (s\<lparr>um_v := v, um_out := ls, um_owner := ow\<rparr>)) < um_to_go s"
  using assms sum_list_update_less[of i "um_t s" "um_rank (um_rounds s)" q] by (simp add: um_to_go_def um_to_def um_at_def)

text \<open>A thread that holds the lock can go on, and so can every thread when nobody holds it.\<close>

lemma um_Func_progress:
  assumes "um_ok s" "um_at s i p" "p \<noteq> U_End" "um_owner s = None \<or> um_owner s = Some i"
  shows "\<exists>s'. um_Func i s s' \<and> um_to_go s' < um_to_go s"
proof (cases p)
  case (U_Lock k)
  with assms(2) have at: "um_at s i (U_Lock k)" by simp
  have ow: "um_owner s = None" using um_ok_at(3)[OF assms(1) at] assms(4) by simp
  show ?thesis
  proof (cases "k < um_rounds s")
    case True
    then show ?thesis using uf_lock[OF at True ow] um_to_go_to[OF at, of "U_Read k" "Some i" "um_out s" "um_v s"] by auto
  next
    case False
    then show ?thesis using uf_end[OF at False] um_to_go_to[OF at, of U_End "um_owner s" "um_out s" "um_v s"] by auto
  qed
next
  case (U_Read k)
  with assms(2) have at: "um_at s i (U_Read k)" by simp
  then show ?thesis using uf_read[OF at] um_to_go_to[OF at, of "U_Write k (um_v s)" "um_owner s" "um_out s" "um_v s"] um_ok_at(1)[OF assms(1) at] by auto
next
  case (U_Write k x)
  with assms(2) have at: "um_at s i (U_Write k x)" by simp
  then show ?thesis using uf_write[OF at] um_to_go_to[OF at, of "U_Unlock k" "um_owner s" "um_out s @ [(i, x)]" "x + 1"] um_ok_at(1)[OF assms(1) at] by auto
next
  case (U_Unlock k)
  with assms(2) have at: "um_at s i (U_Unlock k)" by simp
  then show ?thesis using uf_unlock[OF at] um_to_go_to[OF at, of "U_Lock (k + 1)" None "um_out s" "um_v s"] um_ok_at(1)[OF assms(1) at] by auto
qed (use assms(3) in simp)

lemma um_progress:
  assumes "um_ok s" "um_main s \<noteq> UM_End"
  shows "\<exists>s'. um_step s s' \<and> um_to_go s' < um_to_go s"
proof (cases "\<exists>i p. um_at s i p \<and> p \<noteq> U_End")
  case True
  then obtain i p where ip: "um_at s i p" "p \<noteq> U_End" by blast
  show ?thesis
  proof (cases "um_owner s")
    case None
    then show ?thesis using um_Func_progress[OF assms(1) ip] unfolding um_step_def by blast
  next
    case (Some j)
    then have "um_at s j (um_t s ! j)" using assms(1) by (simp add: um_ok_def um_at_def)
    moreover from this have "um_t s ! j \<noteq> U_End" using um_ok_at(3)[OF assms(1)] Some by fastforce
    ultimately show ?thesis using um_Func_progress[OF assms(1)] Some unfolding um_step_def by blast
  qed
next
  case False
  then have all: "um_at s i U_End" if "i < length (um_t s)" for i using that by (auto simp: um_at_def)
  show ?thesis
  proof (cases "um_main s")
    case (UM_Create i)
    show ?thesis
    proof (cases "i < um_threads s")
      case True
      then have "(um_threads s - i) * (4 * um_rounds s + 2) = (um_threads s - Suc i) * (4 * um_rounds s + 2) + (4 * um_rounds s + 2)"
        by (metis Suc_diff_Suc add.commute mult_Suc)
      then have "um_to_go (s\<lparr>um_t := um_t s @ [U_Lock 0], um_main := UM_Create (i + 1)\<rparr>) < um_to_go s"
        using UM_Create by (simp add: um_to_go_def)
      then show ?thesis using ur_create[OF UM_Create True] unfolding um_step_def by blast
    next
      case False
      then show ?thesis using ur_created[OF UM_Create False] UM_Create unfolding um_step_def
        by (intro exI[of _ "s\<lparr>um_main := UM_Join 0\<rparr>"]) (simp add: um_to_go_def)
    qed
  next
    case (UM_Join i)
    show ?thesis
    proof (cases "i < um_threads s")
      case True
      then have "um_at s i U_End" using all assms(1) UM_Join by (simp add: um_ok_def)
      from ur_join[OF UM_Join True this] show ?thesis using UM_Join True unfolding um_step_def
        by (intro exI[of _ "s\<lparr>um_main := UM_Join (i + 1)\<rparr>"]) (simp add: um_to_go_def)
    next
      case False
      then show ?thesis using ur_joined[OF UM_Join False] UM_Join unfolding um_step_def
        by (intro exI[of _ "s\<lparr>um_main := UM_End\<rparr>"]) (simp add: um_to_go_def)
    qed
  qed (use assms(2) in simp)
qed

lemma um_can_end:
  assumes "um_ok s"
  shows "\<exists>s'. um_step\<^sup>*\<^sup>* s s' \<and> um_main s' = UM_End"
  by (rule progress_reaches[where I = um_ok and m = um_to_go, OF assms]) (metis um_progress um_ok_step)

text \<open>
  C39. The mutex makes the counter exact. With any number of threads and rounds, however the threads interleave: no two
  threads are between lock and unlock at the same time, and the values printed so far are \<open>0, 1, 2, ...\<close> in this order,
  without gaps or repetitions; from every state the program can run on to its end, and then every thread has printed as
  many lines as it has rounds.
\<close>

theorem mutex_counter:
  assumes "um_step\<^sup>*\<^sup>* (um_start n r) s"
  shows "(\<forall>i j p q. um_at s i p \<and> um_at s j q \<and> holds p \<and> holds q \<longrightarrow> i = j) \<and>
    map snd (um_out s) = map int [0..<length (um_out s)] \<and> (\<exists>s'. um_step\<^sup>*\<^sup>* s s' \<and> um_main s' = UM_End) \<and>
    (um_main s = UM_End \<longrightarrow> (\<forall>i < n. printed_by i s = r))"
proof -
  have ok: "um_ok s" "um_threads s = n" "um_rounds s = r" using um_reach[OF assms] by auto
  have "i = j" if "um_at s i p" "um_at s j q" "holds p" "holds q" for i j p q
    using um_ok_at(3)[OF ok(1) that(1)] um_ok_at(3)[OF ok(1) that(2)] that(3,4) by simp
  moreover have "printed_by i s = r" if "um_main s = UM_End" "i < n" for i
    using that ok um_ok_at(2)[OF ok(1), of i U_End] by (simp add: um_ok_def printed_by_def)
  ultimately show ?thesis using um_can_end[OF ok(1)] ok(1) by (auto simp: um_ok_def)
qed

text \<open>\<open>main\<close>: ten threads of five rounds.\<close>

definition main_um :: umutex where
  "main_um = um_start 10 5"

lemma mutex_counter_witness:
  "\<exists>s'. um_step\<^sup>*\<^sup>* main_um s' \<and> um_main s' = UM_End \<and> printed_by 3 s' = 5 \<and> map snd (um_out s') = map int [0..<length (um_out s')]"
proof -
  obtain s' where s': "um_step\<^sup>*\<^sup>* main_um s'" "um_main s' = UM_End"
    using mutex_counter[of 10 5 main_um] by (auto simp: main_um_def)
  with mutex_counter[of 10 5 s'] show ?thesis by (auto simp: main_um_def)
qed

end
