(* ===== verification/Thread_Handle.thy ===== *)
theory Thread_Handle
  imports Cpp_Prelude
begin

text \<open>
  Joining and detaching, \<open>thread/join_detach_thread\<close>: what the calls do with a thread object that holds no thread, and threads
  that join or detach themselves through a reference to the object that is being assigned at the same time.
\<close>

section \<open>Thread objects\<close>

text \<open>A \<open>std::thread\<close> holds the number of a thread or nothing. The main thread has number 0.\<close>

type_synonym thread = "nat option"

datatype system_error = Invalid_argument | Resource_deadlock_avoided

fun what :: "system_error \<Rightarrow> string" where
  "what Invalid_argument = ''Invalid argument''"
| "what Resource_deadlock_avoided = ''Resource deadlock avoided''"

text \<open>\<open>join\<close> called by a thread: the error, or the thread to wait for. \<open>detach\<close>: the error, or the thread let go.\<close>

definition thread_join :: "nat \<Rightarrow> thread \<Rightarrow> system_error + nat" where
  "thread_join self t = (case t of
       None \<Rightarrow> Inl Invalid_argument
     | Some i \<Rightarrow> if i = self then Inl Resource_deadlock_avoided else Inr i)"

definition thread_detach :: "thread \<Rightarrow> system_error + nat" where
  "thread_detach t = (case t of None \<Rightarrow> Inl Invalid_argument | Some i \<Rightarrow> Inr i)"

definition joinable :: "thread \<Rightarrow> bool" where
  "joinable t \<longleftrightarrow> t \<noteq> None"

definition exception_line :: "string \<Rightarrow> system_error \<Rightarrow> string" where
  "exception_line f e = ''['' @ f @ ''] exception: '' @ what e"

section \<open>Objects that hold no thread\<close>

text \<open>\<open>t\<close> is moved to \<open>t2\<close>; the thread has printed its line when \<open>t2.join()\<close> returns.\<close>

definition JoinNotJoinableThread1 :: "string list" where
  "JoinNotJoinableThread1 =
     (let t2 = Some 1; t = None in
      case thread_join 0 t2 of
        Inl e \<Rightarrow> [exception_line ''JoinNotJoinableThread1'' e]
      | Inr _ \<Rightarrow> ''run 1'' # (case thread_join 0 t of Inl e \<Rightarrow> [exception_line ''JoinNotJoinableThread1'' e] | Inr _ \<Rightarrow> []))"

definition JoinNotJoinableThread2 :: "string list" where
  "JoinNotJoinableThread2 = (case thread_join 0 None of Inl e \<Rightarrow> [exception_line ''JoinNotJoinableThread2'' e] | Inr _ \<Rightarrow> [])"

definition DetachNotJoinableThread2 :: "string list" where
  "DetachNotJoinableThread2 = (case thread_detach None of Inl e \<Rightarrow> [exception_line ''DetachNotJoinableThread2'' e] | Inr _ \<Rightarrow> [])"

lemma not_joinable_outputs:
  "JoinNotJoinableThread1 = [''run 1'', ''[JoinNotJoinableThread1] exception: Invalid argument'']"
  "JoinNotJoinableThread2 = [''[JoinNotJoinableThread2] exception: Invalid argument'']"
  "DetachNotJoinableThread2 = [''[DetachNotJoinableThread2] exception: Invalid argument'']"
  by (simp_all add: JoinNotJoinableThread1_def JoinNotJoinableThread2_def DetachNotJoinableThread2_def thread_join_def thread_detach_def
      exception_line_def)

section \<open>A thread that joins itself\<close>

text \<open>
  \<open>t = std::thread(...)\<close> starts the thread and then assigns the object; the new thread may look at \<open>t\<close> before that.
  \<open>CallThreadJoin2\<close>, unlike \<open>CallThreadJoin1\<close>, asks \<open>joinable\<close> first.
\<close>

datatype js_main = JM_Start | JM_Assign | JM_Join | JM_End

datatype js_child = JC_None | JC_Test | JC_Join | JC_End

record join_self =
  js_asks :: bool
  js_t :: thread
  js_main :: js_main
  js_child :: js_child
  js_out :: "string list"

definition js_start :: "bool \<Rightarrow> join_self" where
  "js_start asks = \<lparr>js_asks = asks, js_t = None, js_main = JM_Start, js_child = JC_None, js_out = []\<rparr>"

definition js_name :: "join_self \<Rightarrow> string" where
  "js_name s = (if js_asks s then ''CallThreadJoin2'' else ''CallThreadJoin1'')"

text \<open>The main thread, \<open>JoinSelf1\<close> and \<open>JoinSelf2\<close>: its own \<open>join\<close> waits for the end of the new thread.\<close>

inductive JoinSelf :: "join_self \<Rightarrow> join_self \<Rightarrow> bool" where
  jm_start: "js_main s = JM_Start \<Longrightarrow> JoinSelf s (s\<lparr>js_child := if js_asks s then JC_Test else JC_Join, js_main := JM_Assign\<rparr>)"
| jm_assign: "js_main s = JM_Assign \<Longrightarrow> JoinSelf s (s\<lparr>js_t := Some 1, js_main := JM_Join\<rparr>)"
| jm_join: "js_main s = JM_Join \<Longrightarrow> thread_join 0 (js_t s) = Inr 1 \<Longrightarrow> js_child s = JC_End \<Longrightarrow> JoinSelf s (s\<lparr>js_t := None, js_main := JM_End\<rparr>)"
| jm_throw: "js_main s = JM_Join \<Longrightarrow> thread_join 0 (js_t s) = Inl e \<Longrightarrow>
    JoinSelf s (s\<lparr>js_out := js_out s @ [exception_line (if js_asks s then ''JoinSelf2'' else ''JoinSelf1'') e], js_main := JM_End\<rparr>)"

text \<open>The new thread, \<open>CallThreadJoin1\<close> and \<open>CallThreadJoin2\<close>.\<close>

inductive CallThreadJoin :: "join_self \<Rightarrow> join_self \<Rightarrow> bool" where
  jc_joinable: "js_child s = JC_Test \<Longrightarrow> joinable (js_t s) \<Longrightarrow> CallThreadJoin s (s\<lparr>js_child := JC_Join\<rparr>)"
| jc_not_joinable: "js_child s = JC_Test \<Longrightarrow> \<not> joinable (js_t s) \<Longrightarrow>
    CallThreadJoin s (s\<lparr>js_out := js_out s @ [''['' @ js_name s @ ''] not joinable''], js_child := JC_End\<rparr>)"
| jc_throw: "js_child s = JC_Join \<Longrightarrow> thread_join 1 (js_t s) = Inl e \<Longrightarrow>
    CallThreadJoin s (s\<lparr>js_out := js_out s @ [exception_line (js_name s) e], js_child := JC_End\<rparr>)"

definition js_step :: "join_self \<Rightarrow> join_self \<Rightarrow> bool" where
  "js_step s s' \<longleftrightarrow> JoinSelf s s' \<or> CallThreadJoin s s'"

text \<open>The message the comments in \<open>main\<close> announce, and the one a thread prints that looks too early.\<close>

definition announced :: "join_self \<Rightarrow> string" where
  "announced s = exception_line (js_name s) Resource_deadlock_avoided"

definition too_early :: "join_self \<Rightarrow> string" where
  "too_early s = (if js_asks s then ''['' @ js_name s @ ''] not joinable'' else exception_line (js_name s) Invalid_argument)"

definition js_ok :: "join_self \<Rightarrow> bool" where
  "js_ok s \<longleftrightarrow> (case js_main s of
       JM_Start \<Rightarrow> js_child s = JC_None \<and> js_t s = None
     | JM_Assign \<Rightarrow> js_child s \<noteq> JC_None \<and> js_t s = None \<and> (js_asks s \<longrightarrow> js_child s \<noteq> JC_Join)
     | JM_Join \<Rightarrow> js_child s \<noteq> JC_None \<and> js_t s = Some 1
     | JM_End \<Rightarrow> js_child s = JC_End) \<and>
     (js_child s = JC_Test \<longrightarrow> js_asks s) \<and>
     (if js_child s = JC_End then js_out s = [announced s] \<or> js_out s = [too_early s] else js_out s = [])"

lemma js_names [simp]:
  "js_name (s\<lparr>js_t := t\<rparr>) = js_name s" "js_name (s\<lparr>js_main := m\<rparr>) = js_name s" "js_name (s\<lparr>js_child := c\<rparr>) = js_name s"
  "js_name (s\<lparr>js_out := ls\<rparr>) = js_name s"
  by (simp_all add: js_name_def)

lemma js_ok_step: "js_step s s' \<Longrightarrow> js_ok s \<Longrightarrow> js_ok s' \<and> js_asks s' = js_asks s"
  unfolding js_step_def
  by (elim disjE JoinSelf.cases CallThreadJoin.cases)
    (auto simp: js_ok_def thread_join_def joinable_def announced_def too_early_def split: js_main.splits option.splits if_splits)

lemma js_reach: "js_step\<^sup>*\<^sup>* (js_start asks) s \<Longrightarrow> js_ok s \<and> js_asks s = asks"
proof (induction rule: rtranclp_induct)
  case base
  then show ?case by (simp add: js_ok_def js_start_def)
qed (use js_ok_step in auto)

lemma js_then: "JoinSelf s s' \<or> CallThreadJoin s s' \<Longrightarrow> js_step\<^sup>*\<^sup>* s' s'' \<Longrightarrow> js_step\<^sup>*\<^sup>* s s''"
  unfolding js_step_def by (rule converse_rtranclp_into_rtranclp) blast+

fun js_main_rank :: "js_main \<Rightarrow> nat" where
  "js_main_rank JM_Start = 5" | "js_main_rank JM_Assign = 2" | "js_main_rank JM_Join = 1" | "js_main_rank JM_End = 0"

fun js_child_rank :: "js_child \<Rightarrow> nat" where
  "js_child_rank JC_None = 0" | "js_child_rank JC_Test = 2" | "js_child_rank JC_Join = 1" | "js_child_rank JC_End = 0"

definition js_rank :: "join_self \<Rightarrow> nat" where
  "js_rank s = js_main_rank (js_main s) + js_child_rank (js_child s)"

lemma js_progress:
  assumes "js_ok s" "js_main s \<noteq> JM_End"
  shows "\<exists>s'. js_step s s' \<and> js_rank s' < js_rank s"
proof (cases "js_child s")
  case JC_None
  then have m: "js_main s = JM_Start" using assms by (auto simp: js_ok_def split: js_main.splits)
  show ?thesis using jm_start[OF m] m JC_None by (intro exI conjI) (auto simp: js_step_def js_rank_def)
next
  case JC_Test
  then show ?thesis using jc_joinable[OF JC_Test] jc_not_joinable[OF JC_Test]
    by (cases "joinable (js_t s)"; intro exI conjI) (auto simp: js_step_def js_rank_def)
next
  case JC_Join
  have "js_t s = None \<or> js_t s = Some 1" using JC_Join assms by (auto simp: js_ok_def split: js_main.splits)
  then obtain e where "thread_join 1 (js_t s) = Inl e" by (auto simp: thread_join_def)
  from jc_throw[OF JC_Join this] JC_Join show ?thesis by (intro exI conjI) (auto simp: js_step_def js_rank_def)
next
  case JC_End
  then consider "js_main s = JM_Assign" | "js_main s = JM_Join" "thread_join 0 (js_t s) = Inr 1"
    using assms by (auto simp: js_ok_def thread_join_def split: js_main.splits)
  then show ?thesis
  proof cases
    case 1
    from jm_assign[OF 1] 1 show ?thesis by (intro exI conjI) (auto simp: js_step_def js_rank_def)
  next
    case 2
    from jm_join[OF 2 JC_End] 2 show ?thesis by (intro exI conjI) (auto simp: js_step_def js_rank_def)
  qed
qed

lemma js_can_end: "js_ok s \<Longrightarrow> \<exists>s'. js_step\<^sup>*\<^sup>* s s' \<and> js_main s' = JM_End"
  by (rule progress_reaches[where I = js_ok and m = js_rank]) (use js_progress js_ok_step in metis)+

text \<open>
  The race can go either way: the new thread may find the object assigned, or still empty.
\<close>

lemma js_announced: "\<exists>s. js_step\<^sup>*\<^sup>* (js_start asks) s \<and> js_main s = JM_End \<and> js_out s = [announced s]"
proof -
  let ?e = "\<lambda>m c t ls. \<lparr>js_asks = asks, js_t = t, js_main = m, js_child = c, js_out = ls\<rparr>"
  let ?l = "[exception_line (if asks then ''CallThreadJoin2'' else ''CallThreadJoin1'') Resource_deadlock_avoided]"
  have 1: "JoinSelf (js_start asks) (?e JM_Assign (if asks then JC_Test else JC_Join) None [])"
    using jm_start[of "js_start asks"] by (simp add: js_start_def)
  have 2: "JoinSelf (?e JM_Assign (if asks then JC_Test else JC_Join) None []) (?e JM_Join (if asks then JC_Test else JC_Join) (Some 1) [])"
    using jm_assign[of "?e JM_Assign (if asks then JC_Test else JC_Join) None []"] by simp
  have 3: "js_step\<^sup>*\<^sup>* (?e JM_Join (if asks then JC_Test else JC_Join) (Some 1) []) (?e JM_Join JC_Join (Some 1) [])"
    using jc_joinable[of "?e JM_Join JC_Test (Some 1) []"] by (cases asks) (auto simp: js_step_def joinable_def)
  have 4: "CallThreadJoin (?e JM_Join JC_Join (Some 1) []) (?e JM_Join JC_End (Some 1) ?l)"
    using jc_throw[of "?e JM_Join JC_Join (Some 1) []" Resource_deadlock_avoided] by (simp add: thread_join_def js_name_def)
  have 5: "JoinSelf (?e JM_Join JC_End (Some 1) ?l) (?e JM_End JC_End None ?l)"
    using jm_join[of "?e JM_Join JC_End (Some 1) ?l"] by (simp add: thread_join_def)
  have "js_step\<^sup>*\<^sup>* (?e JM_Join JC_Join (Some 1) []) (?e JM_End JC_End None ?l)"
    by (rule js_then[OF disjI2[OF 4] js_then[OF disjI1[OF 5] rtranclp.rtrancl_refl]])
  then have "js_step\<^sup>*\<^sup>* (js_start asks) (?e JM_End JC_End None ?l)"
    using js_then[OF disjI1[OF 1] js_then[OF disjI1[OF 2] rtranclp_trans[OF 3]]] by blast
  then show ?thesis by (rule exI[where x = "?e JM_End JC_End None ?l", OF conjI]) (simp add: announced_def js_name_def)
qed

lemma js_too_early: "\<exists>s. js_step\<^sup>*\<^sup>* (js_start asks) s \<and> js_main s = JM_End \<and> js_out s = [too_early s]"
proof -
  let ?e = "\<lambda>m c t ls. \<lparr>js_asks = asks, js_t = t, js_main = m, js_child = c, js_out = ls\<rparr>"
  let ?f = "if asks then ''CallThreadJoin2'' else ''CallThreadJoin1''"
  let ?l = "[if asks then ''['' @ ?f @ ''] not joinable'' else exception_line ?f Invalid_argument]"
  have 1: "JoinSelf (js_start asks) (?e JM_Assign (if asks then JC_Test else JC_Join) None [])"
    using jm_start[of "js_start asks"] by (simp add: js_start_def)
  have 2: "CallThreadJoin (?e JM_Assign (if asks then JC_Test else JC_Join) None []) (?e JM_Assign JC_End None ?l)"
    using jc_not_joinable[of "?e JM_Assign JC_Test None []"] jc_throw[of "?e JM_Assign JC_Join None []" Invalid_argument]
    by (auto simp: joinable_def thread_join_def js_name_def)
  have 3: "JoinSelf (?e JM_Assign JC_End None ?l) (?e JM_Join JC_End (Some 1) ?l)"
    using jm_assign[of "?e JM_Assign JC_End None ?l"] by simp
  have 4: "JoinSelf (?e JM_Join JC_End (Some 1) ?l) (?e JM_End JC_End None ?l)"
    using jm_join[of "?e JM_Join JC_End (Some 1) ?l"] by (simp add: thread_join_def)
  have "js_step\<^sup>*\<^sup>* (js_start asks) (?e JM_End JC_End None ?l)"
    by (rule js_then[OF disjI1[OF 1] js_then[OF disjI2[OF 2] js_then[OF disjI1[OF 3] js_then[OF disjI1[OF 4] rtranclp.rtrancl_refl]]]])
  then show ?thesis by (rule exI[where x = "?e JM_End JC_End None ?l", OF conjI]) (simp add: too_early_def js_name_def)
qed

text \<open>
  A thread that joins itself. Both variants always come to an end, with one line printed by the new thread; but which one
  depends on the race between that thread and the assignment it was created in: the announced \<open>Resource deadlock
  avoided\<close>, or \<open>Invalid argument\<close> (with the test before it, \<open>not joinable\<close>) if the new thread looks at the object first.
  Both happen.
\<close>

theorem join_self_race:
  "(\<forall>s. js_step\<^sup>*\<^sup>* (js_start asks) s \<longrightarrow> (\<exists>s'. js_step\<^sup>*\<^sup>* s s' \<and> js_main s' = JM_End) \<and>
      (js_main s = JM_End \<longrightarrow> js_out s = [announced s] \<or> js_out s = [too_early s])) \<and>
   (\<exists>s. js_step\<^sup>*\<^sup>* (js_start asks) s \<and> js_main s = JM_End \<and> js_out s = [announced s]) \<and>
   (\<exists>s. js_step\<^sup>*\<^sup>* (js_start asks) s \<and> js_main s = JM_End \<and> js_out s = [too_early s])"
proof (intro conjI allI impI)
  fix s assume r: "js_step\<^sup>*\<^sup>* (js_start asks) s"
  then show "\<exists>s'. js_step\<^sup>*\<^sup>* s s' \<and> js_main s' = JM_End" using js_can_end js_reach by blast
  show "js_out s = [announced s] \<or> js_out s = [too_early s]" if "js_main s = JM_End" using js_reach[OF r] that by (auto simp: js_ok_def)
qed (rule js_announced js_too_early)+

lemma join_self_race_witness:
  "\<exists>s. js_step\<^sup>*\<^sup>* (js_start False) s \<and> js_out s = [''[CallThreadJoin1] exception: Invalid argument'']"
proof -
  obtain s where s: "js_step\<^sup>*\<^sup>* (js_start False) s" "js_out s = [too_early s]" using join_self_race[of False] by blast
  have "too_early s = ''[CallThreadJoin1] exception: Invalid argument''"
    using js_reach[OF s(1)] by (simp add: too_early_def js_name_def exception_line_def)
  with s show ?thesis by auto
qed

section \<open>A thread that is detached\<close>

text \<open>
  \<open>DetachNotJoinableThread1\<close> and, for \<open>ds_self\<close>, \<open>DetachSelf\<close>: the new thread runs on its own, sets \<open>ready\<close> and then notifies;
  the main thread waits for \<open>ready\<close> and leaves the block, which destroys the mutex, the condition variable and \<open>ready\<close>.
  Using them after that is undefined.
\<close>

datatype ds_main = DM_Start | DM_Assign | DM_Wait | DM_Blocked | DM_Leave | DM_End | DM_Terminate

datatype ds_child = DC_None | DC_Begin | DC_Set | DC_Notify | DC_End | DC_Undefined

record detach_run =
  ds_self :: bool
  ds_t :: thread
  ds_ready :: bool
  ds_gone :: bool
  ds_main :: ds_main
  ds_child :: ds_child
  ds_out :: "string list"

definition ds_start :: "bool \<Rightarrow> detach_run" where
  "ds_start self = \<lparr>ds_self = self, ds_t = None, ds_ready = False, ds_gone = False, ds_main = DM_Start, ds_child = DC_None, ds_out = []\<rparr>"

text \<open>
  The main thread. In \<open>DetachNotJoinableThread1\<close> the object has been moved from and detached before it waits, so the
  \<open>detach\<close> at the end throws; in \<open>DetachSelf\<close> the object is destroyed, which would end the program if it still held a thread.
\<close>

inductive Detach_main :: "detach_run \<Rightarrow> detach_run \<Rightarrow> bool" where
  dm_start: "ds_main s = DM_Start \<Longrightarrow> Detach_main s (s\<lparr>ds_child := DC_Begin, ds_main := if ds_self s then DM_Assign else DM_Wait\<rparr>)"
| dm_assign: "ds_main s = DM_Assign \<Longrightarrow> Detach_main s (s\<lparr>ds_t := Some 1, ds_main := DM_Wait\<rparr>)"
| dm_ready: "ds_main s = DM_Wait \<Longrightarrow> ds_ready s \<Longrightarrow> Detach_main s (s\<lparr>ds_main := DM_Leave\<rparr>)"
| dm_block: "ds_main s = DM_Wait \<Longrightarrow> \<not> ds_ready s \<Longrightarrow> Detach_main s (s\<lparr>ds_main := DM_Blocked\<rparr>)"
| dm_spurious: "ds_main s = DM_Blocked \<Longrightarrow> Detach_main s (s\<lparr>ds_main := DM_Wait\<rparr>)"
| dm_leave: "ds_main s = DM_Leave \<Longrightarrow> ds_self s \<Longrightarrow>
    Detach_main s (s\<lparr>ds_gone := True, ds_main := if joinable (ds_t s) then DM_Terminate else DM_End\<rparr>)"
| dm_throw: "ds_main s = DM_Leave \<Longrightarrow> \<not> ds_self s \<Longrightarrow> thread_detach (ds_t s) = Inl e \<Longrightarrow>
    Detach_main s (s\<lparr>ds_out := ds_out s @ [exception_line ''DetachNotJoinableThread1'' e], ds_gone := True, ds_main := DM_End\<rparr>)"

text \<open>The new thread: the lambda of \<open>DetachNotJoinableThread1\<close>, or \<open>CallThreadDetach\<close>.\<close>

inductive CallThreadDetach :: "detach_run \<Rightarrow> detach_run \<Rightarrow> bool" where
  dc_run: "ds_child s = DC_Begin \<Longrightarrow> \<not> ds_self s \<Longrightarrow> CallThreadDetach s (s\<lparr>ds_out := ds_out s @ [''run 1''], ds_child := DC_Set\<rparr>)"
| dc_detach: "ds_child s = DC_Begin \<Longrightarrow> ds_self s \<Longrightarrow> thread_detach (ds_t s) = Inr i \<Longrightarrow> CallThreadDetach s (s\<lparr>ds_t := None, ds_child := DC_Set\<rparr>)"
| dc_throw: "ds_child s = DC_Begin \<Longrightarrow> ds_self s \<Longrightarrow> thread_detach (ds_t s) = Inl e \<Longrightarrow>
    CallThreadDetach s (s\<lparr>ds_out := ds_out s @ [exception_line ''CallThreadDetach'' e], ds_child := DC_End\<rparr>)"
| dc_set: "ds_child s = DC_Set \<Longrightarrow> CallThreadDetach s (if ds_gone s then s\<lparr>ds_child := DC_Undefined\<rparr> else s\<lparr>ds_ready := True, ds_child := DC_Notify\<rparr>)"
| dc_notify: "ds_child s = DC_Notify \<Longrightarrow> CallThreadDetach s (if ds_gone s then s\<lparr>ds_child := DC_Undefined\<rparr>
    else s\<lparr>ds_main := if ds_main s = DM_Blocked then DM_Wait else ds_main s, ds_child := DC_End\<rparr>)"

definition ds_step :: "detach_run \<Rightarrow> detach_run \<Rightarrow> bool" where
  "ds_step s s' \<longleftrightarrow> Detach_main s s' \<or> CallThreadDetach s s'"

lemma ds_then: "Detach_main s s' \<or> CallThreadDetach s s' \<Longrightarrow> ds_step\<^sup>*\<^sup>* s' s'' \<Longrightarrow> ds_step\<^sup>*\<^sup>* s s''"
  unfolding ds_step_def by (rule converse_rtranclp_into_rtranclp) blast+

text \<open>Once the new thread has failed to detach itself, \<open>ready\<close> is never set.\<close>

definition ds_forgotten :: "detach_run \<Rightarrow> bool" where
  "ds_forgotten s \<longleftrightarrow> ds_child s = DC_End \<and> \<not> ds_ready s \<and> ds_main s \<in> {DM_Assign, DM_Wait, DM_Blocked}"

lemma ds_forgotten_step: "ds_step s s' \<Longrightarrow> ds_forgotten s \<Longrightarrow> ds_forgotten s'"
  unfolding ds_step_def by (elim disjE Detach_main.cases CallThreadDetach.cases) (auto simp: ds_forgotten_def)

lemma ds_forgotten_reached: "\<exists>s. ds_step\<^sup>*\<^sup>* (ds_start True) s \<and> ds_forgotten s"
proof -
  let ?e = "\<lambda>c ls. \<lparr>ds_self = True, ds_t = None, ds_ready = False, ds_gone = False, ds_main = DM_Assign, ds_child = c, ds_out = ls\<rparr>"
  have 1: "Detach_main (ds_start True) (?e DC_Begin [])" using dm_start[of "ds_start True"] by (simp add: ds_start_def)
  have 2: "CallThreadDetach (?e DC_Begin []) (?e DC_End [exception_line ''CallThreadDetach'' Invalid_argument])"
    using dc_throw[of "?e DC_Begin []" Invalid_argument] by (simp add: thread_detach_def)
  have "ds_step\<^sup>*\<^sup>* (ds_start True) (?e DC_End [exception_line ''CallThreadDetach'' Invalid_argument])"
    by (rule ds_then[OF disjI1[OF 1] ds_then[OF disjI2[OF 2] rtranclp.rtrancl_refl]])
  then show ?thesis by (rule exI[where x = "?e DC_End _", OF conjI]) (simp add: ds_forgotten_def)
qed

text \<open>The notification may come after the main thread has left.\<close>

lemma ds_undefined_reached: "\<exists>s. ds_step\<^sup>*\<^sup>* (ds_start self) s \<and> ds_child s = DC_Undefined"
proof -
  let ?e = "\<lambda>t rd g m c ls. \<lparr>ds_self = self, ds_t = t, ds_ready = rd, ds_gone = g, ds_main = m, ds_child = c, ds_out = ls\<rparr>"
  let ?l = "if self then [] else [''run 1'']"
  let ?x = "if self then [] else [''run 1'', exception_line ''DetachNotJoinableThread1'' Invalid_argument]"
  have 1: "Detach_main (ds_start self) (?e None False False (if self then DM_Assign else DM_Wait) DC_Begin [])"
    using dm_start[of "ds_start self"] by (simp add: ds_start_def)
  have 2: "ds_step\<^sup>*\<^sup>* (?e None False False (if self then DM_Assign else DM_Wait) DC_Begin [])
      (?e (if self then Some 1 else None) False False DM_Wait DC_Begin [])"
    using dm_assign[of "?e None False False DM_Assign DC_Begin []"] by (cases self) (auto simp: ds_step_def)
  have 3: "CallThreadDetach (?e (if self then Some 1 else None) False False DM_Wait DC_Begin []) (?e None False False DM_Wait DC_Set ?l)"
    using dc_run[of "?e None False False DM_Wait DC_Begin []"] dc_detach[of "?e (Some 1) False False DM_Wait DC_Begin []" 1]
    by (auto simp: thread_detach_def)
  have 4: "CallThreadDetach (?e None False False DM_Wait DC_Set ?l) (?e None True False DM_Wait DC_Notify ?l)"
    using dc_set[of "?e None False False DM_Wait DC_Set ?l"] by simp
  have 5: "Detach_main (?e None True False DM_Wait DC_Notify ?l) (?e None True False DM_Leave DC_Notify ?l)"
    using dm_ready[of "?e None True False DM_Wait DC_Notify ?l"] by simp
  have 6: "Detach_main (?e None True False DM_Leave DC_Notify ?l) (?e None True True DM_End DC_Notify ?x)"
    using dm_leave[of "?e None True False DM_Leave DC_Notify ?l"] dm_throw[of "?e None True False DM_Leave DC_Notify ?l" Invalid_argument]
    by (auto simp: joinable_def thread_detach_def)
  have 7: "CallThreadDetach (?e None True True DM_End DC_Notify ?x) (?e None True True DM_End DC_Undefined ?x)"
    using dc_notify[of "?e None True True DM_End DC_Notify ?x"] by simp
  have "ds_step\<^sup>*\<^sup>* (ds_start self) (?e None True True DM_End DC_Undefined ?x)"
    by (rule ds_then[OF disjI1[OF 1] rtranclp_trans[OF 2 ds_then[OF disjI2[OF 3] ds_then[OF disjI2[OF 4] ds_then[OF disjI1[OF 5]
        ds_then[OF disjI1[OF 6] ds_then[OF disjI2[OF 7] rtranclp.rtrancl_refl]]]]]]])
  then show ?thesis by (rule exI[where x = "?e None True True DM_End DC_Undefined ?x", OF conjI]) simp
qed

text \<open>
  C40. A thread that is detached may find nothing to notify, or nothing to detach. In both programs there is a run in which the
  main thread sees \<open>ready\<close>, leaves and destroys the condition variable before the new thread notifies it, which is
  undefined; and in \<open>DetachSelf\<close> the new thread may call \<open>detach\<close> before the object has been assigned: it throws, \<open>ready\<close> is never
  set, and from then on the main thread can only wait.
\<close>

theorem detach_races:
  "(\<exists>s. ds_step\<^sup>*\<^sup>* (ds_start self) s \<and> ds_child s = DC_Undefined) \<and>
   (\<exists>s. ds_step\<^sup>*\<^sup>* (ds_start True) s \<and> \<not> (\<exists>s'. ds_step\<^sup>*\<^sup>* s s' \<and> ds_main s' \<in> {DM_Leave, DM_End, DM_Terminate}))"
proof (rule conjI[OF ds_undefined_reached])
  obtain s where s: "ds_step\<^sup>*\<^sup>* (ds_start True) s" "ds_forgotten s" using ds_forgotten_reached by blast
  have "ds_forgotten s'" if "ds_step\<^sup>*\<^sup>* s s'" for s' using that s(2) by (induction rule: rtranclp_induct) (auto intro: ds_forgotten_step)
  then show "\<exists>s. ds_step\<^sup>*\<^sup>* (ds_start True) s \<and> \<not> (\<exists>s'. ds_step\<^sup>*\<^sup>* s s' \<and> ds_main s' \<in> {DM_Leave, DM_End, DM_Terminate})"
    using s(1) by (fastforce simp: ds_forgotten_def)
qed

end
