(* ===== verification/Movie_Demo.thy ===== *)
theory Movie_Demo
  imports Cpp_Strings
begin

text \<open>
  The protobuf programs \<open>demos/protobuf_demos/demos/movie\<close> and \<open>movie2\<close>: they write a fixed message to a file, in the text
  format or in the binary one, and read a file back. The two programs differ in one field of the message. The protobuf
  library and the classes it generates from \<open>movie.proto\<close> are parameters; the file system is a map from names
  to contents.
\<close>

section \<open>The environment\<close>

text \<open>
  \<open>mw_room\<close> is the number of bytes the device still takes; a write beyond that fails.
\<close>

record movie_world =
  mw_files :: "string \<rightharpoonup> string"
  mw_may_write :: "string \<Rightarrow> bool"
  mw_may_read :: "string \<Rightarrow> bool"
  mw_room :: nat
  mw_out :: string

text \<open>
  What the programs use of protobuf, for messages of type \<open>'m\<close>. \<open>pb_text_early n\<close> and \<open>pb_bytes_early n\<close> say how many of
  \<open>n\<close> bytes the library and the stream have passed on to the file when the call that writes returns; the rest is in
  buffers, which are emptied when the stream is destroyed.
\<close>

record 'm protobuf =
  pb_print :: "'m \<Rightarrow> string"
  pb_parse :: "string \<Rightarrow> 'm option"
  pb_serialize :: "'m \<Rightarrow> string"
  pb_deserialize :: "string \<Rightarrow> 'm option"
  pb_debug :: "'m \<Rightarrow> string"
  pb_text_early :: "nat \<Rightarrow> nat"
  pb_bytes_early :: "nat \<Rightarrow> nat"

definition say :: "string \<Rightarrow> movie_world \<Rightarrow> movie_world" where
  "say t w = w\<lparr>mw_out := mw_out w @ t\<rparr>"

definition endl :: string where
  "endl = [CHR 0x0A]"

text \<open>Opening a file to write creates it or empties it.\<close>

definition open_trunc :: "string \<Rightarrow> movie_world \<Rightarrow> movie_world option" where
  "open_trunc path w = (if mw_may_write w path then Some (w\<lparr>mw_files := (mw_files w)(path \<mapsto> [])\<rparr>) else None)"

definition open_read :: "string \<Rightarrow> movie_world \<Rightarrow> string option" where
  "open_read path w = (if mw_may_read w path then mw_files w path else None)"

text \<open>Writing \<open>t\<close> to a file that has just been opened: what the device takes is there once the stream is gone.\<close>

definition put_all :: "string \<Rightarrow> string \<Rightarrow> movie_world \<Rightarrow> movie_world" where
  "put_all path t w = w\<lparr>mw_files := (mw_files w)(path \<mapsto> take (mw_room w) t), mw_room := mw_room w - length t\<rparr>"

section \<open>Files\<close>

definition write_to_text_file :: "'m protobuf \<Rightarrow> string \<Rightarrow> 'm \<Rightarrow> movie_world \<Rightarrow> bool \<times> movie_world" where
  "write_to_text_file pb file_path msg w =
     (case open_trunc file_path w of
        None \<Rightarrow> (False, say (''unable to open file '' @ file_path @ '' to write'') w)
      | Some w' \<Rightarrow>
          let t = pb_print pb msg; success = pb_text_early pb (length t) \<le> mw_room w' in
          (success, put_all file_path t w'))"

definition read_from_text_file :: "'m protobuf \<Rightarrow> string \<Rightarrow> movie_world \<Rightarrow> 'm option \<times> movie_world" where
  "read_from_text_file pb file_path w =
     (case open_read file_path w of
        None \<Rightarrow> (None, say (''failed to open file '' @ file_path) w)
      | Some t \<Rightarrow>
          (case pb_parse pb t of
             None \<Rightarrow> (None, say (''failed to parse file '' @ file_path @ '' as text proto'') w)
           | Some msg \<Rightarrow> (Some msg, w)))"

text \<open>The stream is not looked at before the message is written: a file that cannot be opened is reported by the result only.\<close>

definition write_to_bin_file :: "'m protobuf \<Rightarrow> string \<Rightarrow> 'm \<Rightarrow> movie_world \<Rightarrow> bool \<times> movie_world" where
  "write_to_bin_file pb file_path msg w =
     (case open_trunc file_path w of
        None \<Rightarrow> (False, w)
      | Some w' \<Rightarrow>
          let t = pb_serialize pb msg; success = pb_bytes_early pb (length t) \<le> mw_room w' in
          (success, put_all file_path t w'))"

definition read_from_bin_file :: "'m protobuf \<Rightarrow> string \<Rightarrow> movie_world \<Rightarrow> 'm option \<times> movie_world" where
  "read_from_bin_file pb file_path w =
     (case open_read file_path w of
        None \<Rightarrow> (None, say (''failed to open file '' @ file_path) w)
      | Some t \<Rightarrow>
          (case pb_deserialize pb t of
             None \<Rightarrow> (None, say (''failed to parse file '' @ file_path) w)
           | Some msg \<Rightarrow> (Some msg, w)))"

section \<open>The messages\<close>

record Movie =
  title :: string
  rank :: int
  director :: string
  writers :: "string list"
  top_cast :: "string list"

definition gen_movies_msg :: "Movie list" where
  "gen_movies_msg =
     [\<lparr>title = ''The Shawshank Redemption'', rank = 1, director = ''Frank Darabont'', writers = [''Stephen King''],
       top_cast = [''Tim Robbins'', ''Morgan Freeman'', ''Bob Gunton'']\<rparr>,
      \<lparr>title = ''The Godfather'', rank = 2, director = ''Francis Ford Coppola'', writers = [''Mario Puzo'', ''Francis Ford Coppola''],
       top_cast = [''Marlon Brando'', ''Al Pacino'', ''James Caan'']\<rparr>,
      \<lparr>title = ''The Dark Knight'', rank = 3, director = ''Christopher Nolan'',
       writers = [''Jonathan Nolan'', ''Christopher Nolan'', ''David S. Goyer''],
       top_cast = [''Christian Bale'', ''Heath Ledger'', ''Aaron Eckhart'']\<rparr>]"

definition print_movie :: "Movie \<Rightarrow> string" where
  "print_movie m = ''title: '' @ title m @ endl @ ''rank: '' @ to_string_int (rank m) @ endl @ ''director: '' @ director m @ endl @
     concat (map (\<lambda>x. ''writer: '' @ x @ endl) (writers m)) @ concat (map (\<lambda>x. ''top_cast: '' @ x @ endl) (top_cast m))"

definition print_movies :: "Movie list \<Rightarrow> movie_world \<Rightarrow> movie_world" where
  "print_movies msg = say (concat (map print_movie msg))"

text \<open>The second program: \<open>year\<close> instead of \<open>rank\<close>.\<close>

record Movie2 =
  title2 :: string
  year2 :: int
  director2 :: string
  writers2 :: "string list"
  top_cast2 :: "string list"

definition gen_movies_msg2 :: "Movie2 list" where
  "gen_movies_msg2 =
     [\<lparr>title2 = ''The Shawshank Redemption'', year2 = 1994, director2 = ''Frank Darabont'', writers2 = [''Stephen King''],
       top_cast2 = [''Tim Robbins'', ''Morgan Freeman'', ''Bob Gunton'']\<rparr>,
      \<lparr>title2 = ''The Godfather'', year2 = 1972, director2 = ''Francis Ford Coppola'', writers2 = [''Mario Puzo'', ''Francis Ford Coppola''],
       top_cast2 = [''Marlon Brando'', ''Al Pacino'', ''James Caan'']\<rparr>,
      \<lparr>title2 = ''The Dark Knight'', year2 = 2008, director2 = ''Christopher Nolan'',
       writers2 = [''Jonathan Nolan'', ''Christopher Nolan'', ''David S. Goyer''],
       top_cast2 = [''Christian Bale'', ''Heath Ledger'', ''Aaron Eckhart'']\<rparr>]"

definition print_movie2 :: "Movie2 \<Rightarrow> string" where
  "print_movie2 m = ''title: '' @ title2 m @ endl @ ''year: '' @ to_string_int (year2 m) @ endl @ ''director: '' @ director2 m @ endl @
     concat (map (\<lambda>x. ''writer: '' @ x @ endl) (writers2 m)) @ concat (map (\<lambda>x. ''top_cast: '' @ x @ endl) (top_cast2 m))"

definition print_movies2 :: "Movie2 list \<Rightarrow> movie_world \<Rightarrow> movie_world" where
  "print_movies2 msg = say (concat (map print_movie2 msg))"

section \<open>main\<close>

text \<open>
  \<open>main\<close> of both programs, with the message to write and the function that prints: the exit code and the world.
  \<open>argv\<close> includes the name of the program.
\<close>

definition movie_command :: "'m protobuf \<Rightarrow> 'm \<Rightarrow> ('m \<Rightarrow> movie_world \<Rightarrow> movie_world) \<Rightarrow> string list \<Rightarrow> movie_world \<Rightarrow> nat \<times> movie_world" where
  "movie_command pb msg prt argv w =
     (if length argv < 2 then (1, say (''no command'' @ endl) w)
      else if length argv < 3 then (1, say (''no file'' @ endl) w)
      else if argv ! 1 = ''write_text'' then
        (case write_to_text_file pb (argv ! 2) msg w of (ok, w') \<Rightarrow> (if ok then 0 else 1, w'))
      else if argv ! 1 = ''read_text'' then
        (case read_from_text_file pb (argv ! 2) w of
           (Some m, w') \<Rightarrow> (0, say (pb_debug pb m) w') | (None, w') \<Rightarrow> (1, w'))
      else if argv ! 1 = ''write_bin'' then
        (case write_to_bin_file pb (argv ! 2) msg w of (ok, w') \<Rightarrow> (if ok then 0 else 1, w'))
      else if argv ! 1 = ''read_bin'' then
        (case read_from_bin_file pb (argv ! 2) w of
           (Some m, w') \<Rightarrow> (0, prt m (say (pb_debug pb m) w')) | (None, w') \<Rightarrow> (1, w'))
      else (1, w))"

definition main_movie :: "Movie list protobuf \<Rightarrow> string list \<Rightarrow> movie_world \<Rightarrow> nat \<times> movie_world" where
  "main_movie pb = movie_command pb gen_movies_msg print_movies"

definition main_movie2 :: "Movie2 list protobuf \<Rightarrow> string list \<Rightarrow> movie_world \<Rightarrow> nat \<times> movie_world" where
  "main_movie2 pb = movie_command pb gen_movies_msg2 print_movies2"

section \<open>What the programs do\<close>

lemma put_all_file [simp]: "mw_files (put_all f t w) = (mw_files w)(f \<mapsto> take (mw_room w) t)" "mw_out (put_all f t w) = mw_out w"
  "mw_may_read (put_all f t w) = mw_may_read w"
  by (simp_all add: put_all_def)

lemma say_fields [simp]: "mw_files (say t w) = mw_files w" "mw_out (say t w) = mw_out w @ t" "say t (say u w) = say (u @ t) w"
  by (simp_all add: say_def)

lemma open_trunc_Some: "mw_may_write w f \<Longrightarrow> open_trunc f w = Some (w\<lparr>mw_files := (mw_files w)(f \<mapsto> [])\<rparr>)"
  by (simp add: open_trunc_def)

text \<open>What a command that writes leaves behind, for the text it writes.\<close>

definition written :: "string \<Rightarrow> string \<Rightarrow> movie_world \<Rightarrow> movie_world" where
  "written f t w = put_all f t (w\<lparr>mw_files := (mw_files w)(f \<mapsto> [])\<rparr>)"

lemma written_fields [simp]: "mw_files (written f t w) = (mw_files w)(f \<mapsto> take (mw_room w) t)" "mw_out (written f t w) = mw_out w"
  "mw_may_read (written f t w) = mw_may_read w"
  by (simp_all add: written_def)

lemma write_commands:
  assumes "mw_may_write w f"
  shows "movie_command pb msg prt [p, ''write_text'', f] w =
      (if pb_text_early pb (length (pb_print pb msg)) \<le> mw_room w then 0 else 1, written f (pb_print pb msg) w)"
    "movie_command pb msg prt [p, ''write_bin'', f] w =
      (if pb_bytes_early pb (length (pb_serialize pb msg)) \<le> mw_room w then 0 else 1, written f (pb_serialize pb msg) w)"
  using assms by (simp_all add: movie_command_def write_to_text_file_def write_to_bin_file_def open_trunc_Some written_def Let_def)

lemma read_commands:
  assumes "mw_may_read w f" "mw_files w f = Some t"
  shows "pb_parse pb t = Some m \<Longrightarrow> movie_command pb msg prt [p, ''read_text'', f] w = (0, say (pb_debug pb m) w)"
    "pb_deserialize pb t = Some m \<Longrightarrow> movie_command pb msg prt [p, ''read_bin'', f] w = (0, prt m (say (pb_debug pb m) w))"
    "pb_parse pb t = None \<Longrightarrow> movie_command pb msg prt [p, ''read_text'', f] w = (1, say (''failed to parse file '' @ f @ '' as text proto'') w)"
    "pb_deserialize pb t = None \<Longrightarrow> movie_command pb msg prt [p, ''read_bin'', f] w = (1, say (''failed to parse file '' @ f) w)"
  using assms by (simp_all add: movie_command_def read_from_text_file_def read_from_bin_file_def open_read_def)

text \<open>
  What one run of the movie program writes, the next one reads. If the file may be written and read, the
  device has room for the message, and protobuf reads back the message from what it has printed or
  serialised, then writing ends with exit code 0, prints nothing and changes no other file, and reading the
  file ends with exit code 0 and prints the message: in the binary format also title, rank, director, writers and
  cast of the three movies, in order.
\<close>

theorem movie_roundtrip:
  assumes "mw_may_write w f" "mw_may_read w f"
    and "pb_parse pb (pb_print pb gen_movies_msg) = Some gen_movies_msg"
    and "pb_deserialize pb (pb_serialize pb gen_movies_msg) = Some gen_movies_msg"
    and "length (pb_print pb gen_movies_msg) \<le> mw_room w" "length (pb_serialize pb gen_movies_msg) \<le> mw_room w"
    and "\<And>n. pb_text_early pb n \<le> n" "\<And>n. pb_bytes_early pb n \<le> n"
  shows "\<exists>w1 w2. main_movie pb [p, ''write_text'', f] w = (0, w1) \<and> mw_out w1 = mw_out w \<and> mw_files w1 |` (- {f}) = mw_files w |` (- {f}) \<and>
      main_movie pb [p, ''read_text'', f] w1 = (0, say (pb_debug pb gen_movies_msg) w1) \<and>
    main_movie pb [p, ''write_bin'', f] w = (0, w2) \<and> mw_out w2 = mw_out w \<and> mw_files w2 |` (- {f}) = mw_files w |` (- {f}) \<and>
      main_movie pb [p, ''read_bin'', f] w2 = (0, say (pb_debug pb gen_movies_msg @ concat (map print_movie gen_movies_msg)) w2)"
proof (intro exI conjI)
  let ?t = "pb_print pb gen_movies_msg" and ?b = "pb_serialize pb gen_movies_msg"
  show "main_movie pb [p, ''write_text'', f] w = (0, written f ?t w)" "main_movie pb [p, ''write_bin'', f] w = (0, written f ?b w)"
    using order_trans[OF assms(7,5)] order_trans[OF assms(8,6)] by (simp_all add: main_movie_def write_commands[OF assms(1)])
  show "main_movie pb [p, ''read_text'', f] (written f ?t w) = (0, say (pb_debug pb gen_movies_msg) (written f ?t w))"
    using read_commands(1)[of "written f ?t w" f ?t pb] assms(2,3,5) by (simp add: main_movie_def)
  show "main_movie pb [p, ''read_bin'', f] (written f ?b w) =
      (0, say (pb_debug pb gen_movies_msg @ concat (map print_movie gen_movies_msg)) (written f ?b w))"
    using read_commands(2)[of "written f ?b w" f ?b pb] assms(2,4,6) by (simp add: main_movie_def print_movies_def)
qed (auto simp: restrict_map_def fun_eq_iff)

text \<open>A protobuf that knows one message.\<close>

definition one_message_protobuf :: "'m \<Rightarrow> 'm protobuf" where
  "one_message_protobuf m = \<lparr>pb_print = (\<lambda>_. ''text''), pb_parse = (\<lambda>t. if t = ''text'' then Some m else None),
     pb_serialize = (\<lambda>_. ''bin''), pb_deserialize = (\<lambda>t. if t = ''bin'' then Some m else None), pb_debug = (\<lambda>_. ''debug''),
     pb_text_early = (\<lambda>n. n - 8192), pb_bytes_early = (\<lambda>n. n - 8192)\<rparr>"

definition empty_disk :: "nat \<Rightarrow> movie_world" where
  "empty_disk n = \<lparr>mw_files = Map.empty, mw_may_write = (\<lambda>_. True), mw_may_read = (\<lambda>_. True), mw_room = n, mw_out = []\<rparr>"

lemma movie_roundtrip_witness:
  "\<exists>w2. main_movie (one_message_protobuf gen_movies_msg) [''movie'', ''write_bin'', ''f''] (empty_disk 100) = (0, w2) \<and>
     main_movie (one_message_protobuf gen_movies_msg) [''movie'', ''read_bin'', ''f''] w2 =
       (0, say (''debug'' @ concat (map print_movie gen_movies_msg)) w2)"
  using movie_roundtrip[of "empty_disk 100" "''f''" "one_message_protobuf gen_movies_msg" "''movie''"]
  by (simp add: one_message_protobuf_def empty_disk_def) blast

text \<open>
  A full device goes unnoticed. The exit code of a command that writes is 0 exactly if the device takes what the
  library passes on before the call returns; what is still in the buffers then is written when the stream is destroyed, and
  an error there is lost. So with a device that takes that much but not the whole message, the program ends with exit
  code 0, prints nothing, and leaves a file that is cut off.
\<close>

theorem movie_full_device:
  assumes "mw_may_write w f"
    and "pb_text_early pb (length (pb_print pb gen_movies_msg)) \<le> mw_room w" "mw_room w < length (pb_print pb gen_movies_msg)"
  shows "\<exists>w1. main_movie pb [p, ''write_text'', f] w = (0, w1) \<and> mw_out w1 = mw_out w \<and>
    mw_files w1 f = Some (take (mw_room w) (pb_print pb gen_movies_msg)) \<and> mw_files w1 f \<noteq> Some (pb_print pb gen_movies_msg)"
proof (intro exI conjI)
  let ?t = "pb_print pb gen_movies_msg"
  show "main_movie pb [p, ''write_text'', f] w = (0, written f ?t w)"
    using assms(2) by (simp add: main_movie_def write_commands(1)[OF assms(1)])
  have "length (take (mw_room w) ?t) \<noteq> length ?t" using assms(3) by simp
  then show "mw_files (written f ?t w) f \<noteq> Some ?t" by (metis fun_upd_same option.inject written_fields(1))
qed simp_all

lemma movie_full_device_witness:
  "\<exists>w1. main_movie (one_message_protobuf gen_movies_msg) [''movie'', ''write_text'', ''f''] (empty_disk 2) = (0, w1) \<and> mw_files w1 ''f'' = Some ''te''"
  using movie_full_device[of "empty_disk 2" "''f''" "one_message_protobuf gen_movies_msg" "''movie''"]
  by (auto simp: one_message_protobuf_def empty_disk_def numeral_2_eq_2)

text \<open>
  The two programs read each other's binary files as far as protobuf promises it: a field the reader does not know is
  skipped, and a number that is missing is 0. So the second program, given a file of the first, lists the same movies,
  with the year 0.
\<close>

definition as_movie2 :: "Movie \<Rightarrow> Movie2" where
  "as_movie2 m = \<lparr>title2 = title m, year2 = 0, director2 = director m, writers2 = writers m, top_cast2 = top_cast m\<rparr>"

lemma movie2_reads_movie:
  assumes "mw_may_write w f" "mw_may_read w f" "length (pb_serialize pb gen_movies_msg) \<le> mw_room w" "\<And>n. pb_bytes_early pb n \<le> n"
    and "pb_deserialize pb2 (pb_serialize pb gen_movies_msg) = Some (map as_movie2 gen_movies_msg)"
  shows "\<exists>w1. main_movie pb [p, ''write_bin'', f] w = (0, w1) \<and> main_movie2 pb2 [p2, ''read_bin'', f] w1 =
    (0, say (pb_debug pb2 (map as_movie2 gen_movies_msg) @ concat (map (print_movie2 \<circ> as_movie2) gen_movies_msg)) w1)"
proof (intro exI conjI)
  let ?b = "pb_serialize pb gen_movies_msg"
  show "main_movie pb [p, ''write_bin'', f] w = (0, written f ?b w)"
    using order_trans[OF assms(4,3)] by (simp add: main_movie_def write_commands(2)[OF assms(1)])
  show "main_movie2 pb2 [p2, ''read_bin'', f] (written f ?b w) =
      (0, say (pb_debug pb2 (map as_movie2 gen_movies_msg) @ concat (map (print_movie2 \<circ> as_movie2) gen_movies_msg)) (written f ?b w))"
    using read_commands(2)[of "written f ?b w" f ?b pb2] assms(2,3,5) by (simp add: main_movie2_def print_movies2_def)
qed

text \<open>Every way to fail ends with exit code 1 and, but for a binary file that cannot be opened to write and an unknown command, a message.\<close>

lemma movie_failures:
  "main_movie pb [] w = (1, say (''no command'' @ endl) w)" "main_movie pb [p] w = (1, say (''no command'' @ endl) w)"
  "main_movie pb [p, c] w = (1, say (''no file'' @ endl) w)"
  "\<not> mw_may_write w f \<Longrightarrow> main_movie pb [p, ''write_text'', f] w = (1, say (''unable to open file '' @ f @ '' to write'') w)"
  "\<not> mw_may_write w f \<Longrightarrow> main_movie pb [p, ''write_bin'', f] w = (1, w)"
  "mw_files w f = None \<Longrightarrow> main_movie pb [p, ''read_text'', f] w = (1, say (''failed to open file '' @ f) w)"
  "mw_files w f = None \<Longrightarrow> main_movie pb [p, ''read_bin'', f] w = (1, say (''failed to open file '' @ f) w)"
  "c \<notin> {''write_text'', ''read_text'', ''write_bin'', ''read_bin''} \<Longrightarrow> main_movie pb (p # c # f # rest) w = (1, w)"
  by (simp_all add: main_movie_def movie_command_def write_to_text_file_def write_to_bin_file_def read_from_text_file_def
      read_from_bin_file_def open_trunc_def open_read_def)

end
