(* ===== verification/Spec2Isabelle.thy ===== *)
theory Spec2Isabelle
  imports Http_Workers Epoll_Echo_Props Poll_Client Tcp_Tool_Props Grpc_Calls Grpc_Client_Props Win_Iocp_Props
    Grpc_Config Nonblock_Read Udp_Echo Shared_Ptr Mock_Malloc Semaphore_Test Semaphore_TestB Op_New Cond_Var Bezier Geodetic
    Grpc_Main Thread_Mutex Thread_Handle Movie_Demo
begin

text \<open>
  A verification of the programs in this repository. The repository is a collection of C++ programs without a
  common entry point; those that keep state and have something to promise are modelled here, one group
  of theories per program. Paths are relative to \<open>src/\<close>.

  \<^bold>\<open>How programs are modelled.\<close> A C++ function is a function from a state to an outcome and a state
  (\<open>Cpp_Prelude\<close>): it returns a value, throws, has undefined behaviour (\<open>Undef\<close>), calls \<open>exit\<close>, or waits for the outside
  world (\<open>Pending\<close>). The state of a program is a record with its classes' fields and, beside them, what the outside
  world holds. The kernel, Winsock, gRPC, \<open>dlsym\<close> and the clock are not part of the repository: their answers are
  scripts, lists in the state consumed one per call, so a theorem about every script is one about every
  behaviour of theirs; what a theorem needs of them is a hypothesis on the script. Library functions that a program
  calls for their results (\<open>strerror\<close>, boost's \<open>trim\<close> and \<open>split\<close>, protobuf, the service behind a stub) are parameters.
  Memory that the code shares or frees itself is an explicit heap. Threads are step relations whose steps
  are the program's critical sections and atomic accesses. Integers have their width (\<open>16 word\<close>, \<open>32 word\<close>,
  \<open>64 word\<close>) where it matters, and \<open>std::stoi\<close> has the range of \<open>int\<close>.

  \<^bold>\<open>Shared theories.\<close> \<open>Cpp_Prelude\<close>: outcomes, the state-passing combinators, their evaluation rules (the collections
  \<open>cpp_run\<close> and \<open>cpp_eval\<close>) and \<open>keeps\<close>, preservation of a state property however a call ends. \<open>Cpp_Strings\<close>:
  \<open>std::string\<close>, C strings in buffers, \<open>std::to_string\<close>, \<open>std::stoi\<close>. \<open>Std_Map\<close>: \<open>std::map\<close>, the locale \<open>std_map\<close> and sorted
  association lists that keep it. \<open>Posix_Io\<close>: system calls and their scripts, and the locales \<open>chunk_reader\<close> and
  \<open>partial_writer\<close>, the contracts of non-blocking read and write loops; they are interpreted on the loops of
  \<open>SocketHandler\<close>, of \<open>ConnHandler\<close> and of the TCP tool. Further locales: \<open>fifo_queue\<close> (\<open>ConnectionQueue\<close>), \<open>queue_side\<close> (the
  read side and the write side of the connection manager), \<open>talk_service\<close> (the answers of the two gRPC servers), \<open>server_control\<close> (how they start and stop) and
  its extension \<open>selected_server\<close> (that the process starts and stops the one its configuration selects).

  \<^bold>\<open>The HTTP server, \<open>simple_http\<close>.\<close> A server thread waits in epoll and hands sockets to the connection manager, whose read
  and write workers parse requests and send responses. \<open>Http_Utils\<close> (\<open>tcp_server/include/utils.h\<close>), \<open>Http_Log\<close> (\<open>log\<close>),
  \<open>Http_Config\<close> (\<open>config\<close>), \<open>Http_Request\<close> (\<open>http_server/src/http_request.cpp\<close>: the incremental parser and the handler),
  \<open>Http_World\<close> (\<open>SocketHandler\<close> and the state of the whole process), \<open>Http_Epoll\<close>, \<open>Http_Connection\<close> and \<open>Http_Manager\<close>
  (\<open>connection.cpp\<close>), \<open>Http_Server\<close> (\<open>server.cpp\<close>, \<open>main.cpp\<close>). \<open>Http_Request\<close> shows that the way a request is cut into reads
  does not matter and that a request is read back from its text; \<open>Http_Server\<close> follows a client from accept to close
  and states what an event and a shutdown do; \<open>Http_Safety\<close> shows that no sequence of calls dereferences a dead
  connection; \<open>Http_Workers\<close> interleaves the threads: a connection is with one thread at a time, no wake-up is lost,
  closing wakes everybody; \<open>Http_Faults\<close> shows what goes wrong (a partial write, a malformed request, a
  socket error).

  \<^bold>\<open>The echo server and its client, \<open>linux_programming/socket\<close>.\<close> \<open>Epoll_Echo\<close> is the edge-triggered server with its sessions on a
  heap, \<open>Epoll_Echo_Props\<close> shows that the answer depends only on the text received as long as no read fills the
  buffer of three bytes (which is undefined behaviour), that the server's two maps agree and that a shutdown closes everything. \<open>Poll_Client\<close> is the client. The last section of this theory puts
  the two together.

  \<^bold>\<open>Other POSIX programs.\<close> \<open>Tcp_Tool\<close>, \<open>Tcp_Tool_Props\<close> (\<open>socket/tcp\<close>): options, sockets, and the two loops between standard input
  and a socket; typed text is neither lost nor reordered. \<open>Udp_Echo\<close> (\<open>socket/udp\<close>): the datagram echo server and its
  clients, and their round trip. \<open>Nonblock_Read\<close> (\<open>linux_programming/read\<close>, \<open>linux_programming/epoll\<close>): ten programs that read
  pipes or standard input with \<open>poll\<close>, \<open>select\<close>, \<open>epoll\<close> or without waiting.

  \<^bold>\<open>The gRPC example, \<open>learn_grpc/hello_world\<close>.\<close> \<open>Grpc_Event\<close> (\<open>lib/event\<close>): events as tagged tokens and the manager of handlers.
  \<open>Grpc_Api\<close>: the boundary to gRPC. \<open>Grpc_Server\<close>, \<open>Grpc_Server_Props\<close>, \<open>Grpc_Calls\<close> (\<open>server/async\<close>): every handler has one
  operation in flight, calls are answered, a stopped server comes to its end. \<open>Grpc_Client\<close>, \<open>Grpc_Client_Props\<close>
  (\<open>client/async\<close>): one write in flight per call. \<open>Grpc_Driver\<close> (\<open>client/main.cpp\<close>): the program \<open>UseAsyncClient\<close> around that client, with the
  pool of threads that poll the completion queues; it gets through as long as the pool is there, and hangs if the
  pool has given up before the first call. \<open>Grpc_Main\<close> (\<open>client/main.cpp\<close>, \<open>server/main.cpp\<close>): the choice of the client, and the server
  process with its signal handler, over the locales \<open>server_control\<close> and \<open>selected_server\<close>, interpreted on both servers. \<open>Grpc_Sync\<close> (\<open>server/sync\<close>, \<open>client/sync\<close>): the synchronous services and
  clients; the two servers give a client the same answers but for two methods. \<open>Grpc_Config\<close> (\<open>lib/config\<close>,
  \<open>server/config\<close>, \<open>client/config\<close>): the configuration files.

  \<^bold>\<open>Threads and memory.\<close> \<open>Semaphore\<close> (\<open>thread/semaphore\<close>): the class with every atomic access a step; it implements the abstract
  semaphore, which the gRPC client, \<open>Semaphore_Test\<close> and \<open>Semaphore_TestB\<close> (the two tests of the same file) use. \<open>Cond_Var\<close>
  (\<open>thread/use_condition_variable\<close>): a handshake of two threads. \<open>Thread_Mutex\<close> (\<open>thread/use_mutex\<close>): a counter that a mutex keeps
  exact. \<open>Thread_Handle\<close> (\<open>thread/join_detach_thread\<close>): joining and detaching, and what the races in it can do. \<open>Win_Iocp\<close>, \<open>Win_Iocp_Props\<close>
  (\<open>win32_programming/use_iocp/iocp_demo\<close>): the completion port server echoes, and its buffers outlive their
  operations. \<open>Shared_Ptr\<close> (\<open>smart_pointer/my_shared_ptr\<close>), \<open>Mock_Malloc\<close> (\<open>mock_malloc/lib\<close>), \<open>Op_New\<close> (\<open>syntax/operator_new\<close>).

  \<^bold>\<open>Computations and files.\<close> \<open>Bezier\<close> (\<open>curve\<close>) and \<open>Geodetic\<close> (\<open>geodetic\<close>), in exact arithmetic. \<open>Movie_Demo\<close> (\<open>demos/protobuf_demos\<close>): two
  programs that write a message to a file and read it back, with protobuf as a parameter.

  \<^bold>\<open>Bounds.\<close> A loop that ends when a script ends follows the script. A loop that the program runs for ever is run for
  a number of passes that is an argument (\<open>Run_pc n\<close>, \<open>DgEcho n\<close>, \<open>passes n\<close>), and theorems hold for every number. The other
  loops with fuel are the servers' event loops; \<open>Http_Server\<close> shows which bound is enough for its loop
  (\<open>start_loop_bound_enough\<close>), and the remaining recursions are structural or have a measure.

  \<^bold>\<open>Granularity.\<close> What runs between two steps of a step relation is atomic. In the completion port server one handled
  completion is a step, so posting an operation before its context is updated would not be seen. In the gRPC example a
  handled event, \<open>start\<close> up to \<open>Wait\<close>, and \<open>stop\<close> are steps; \<open>Shutdown\<close> sets a flag at once, while gRPC's returns when the
  pending calls are over; the two reads of the number of calls in the client's timeout branch are one. \<open>SocketHandler::Read\<close>
  is recorded as one entry of the trace of system calls, whatever the number of its reads.

  \<^bold>\<open>Not modelled.\<close> The text of log lines is kept, the locking of the log is not. \<open>sleep\<close> and timeouts are steps without
  a duration. The rounding of \<open>double\<close>. Of the gRPC example: the set-up of spdlog and the tests. Of the completion port
  server: \<open>main.cpp\<close>. The demonstrations of language and library features under \<open>syntax\<close>, \<open>template\<close>, \<open>trick\<close>, \<open>chrono\<close>, \<open>random\<close>,
  \<open>string\<close>, \<open>stream_based_io\<close> and \<open>shared_library\<close>, and those under \<open>thread\<close> that create threads, pass arguments to them or use
  futures, print what a feature does and keep no state; \<open>database\<close> and the rest of \<open>demos\<close> call third-party libraries.
\<close>

section \<open>The echo server and its client together\<close>

text \<open>
  C30. The edge-triggered server answers what is typed into its client, as long as no read of the server fills its
  buffer. The client has run for any number of passes and has nothing left to send; the connection has
  delivered exactly the bytes the client's writes accepted, spread in any way over readable events and over
  reads of one or two bytes, none of them zero. (A read of three bytes is undefined behaviour in the
  server.) If the text typed, without its line ends, is a sequence of pieces without dots, each followed by a
  dot, and a rest, then the session holds the pieces reversed and in brackets as its answer, and the rest as
  unfinished input.
\<close>

theorem typed_text_answered:
  assumes client: "Run_pc n c = (Val (Some l), c')" "fits_pc (k_stdin c)" "sent_pc c = []" "r_pc l = []" "k_stdin c = used @ k_stdin c'"
    and typed: "typed_of used = concat (map (\<lambda>t. t @ ''.'') ts) @ rest" "\<forall>t \<in> set ts. CHR ''.'' \<notin> set t" "CHR ''.'' \<notin> set rest"
    and session: "om_get (sessions w) i = Some a" "heap_et w a = Some ss" "idle ss" "ss_input ss = []" "ss_output ss = []"
    and delivered: "concat (concat css) = sent_pc c'" "r_read w = readable_events css" "\<forall>cs \<in> set css. short_reads cs"
  shows "\<exists>w' ss'. CanRead_events i (length css) w = (Val (), w') \<and> heap_et w' a = Some ss' \<and>
    ss_output ss' = concat (map bracket ts) \<and> ss_input ss' = rest"
proof -
  from Run_Val[OF client(1,2)] client(3,4,5) have "sent_pc c' = typed_of used" by auto
  with delivered(1) typed(1) have "concat (concat css) = concat (map (\<lambda>t. t @ ''.'') ts) @ rest" by simp
  from feed_text[OF this typed(2,3)] CanRead_events_run[OF session(1-3) delivered(2,3)] session(4,5) show ?thesis by fastforce
qed

lemma typed_text_answered_witness:
  "\<exists>w' ss'. CanRead_events 1 2 (some_et\<lparr>r_read := [ReadOk ''ab'', ReadErr EAGAIN, ReadOk ''.c'', ReadErr EAGAIN]\<rparr>) =
     (Val (), w') \<and> heap_et w' 0 = Some ss' \<and> ss_output ss' = ''[ba]'' \<and> ss_input ss' = ''c''"
proof -
  obtain l c' where c: "Run_pc 3 ex_client_pc = (Val (Some l), c')" "r_pc l = []" "sent_pc c' = ''ab.c''" "k_stdin c' = []"
    using ex_client_run by blast
  show ?thesis
    using typed_text_answered[OF c(1) _ _ c(2), of "[ReadOk (''ab.c'' @ [CHR 0x0A])]" "[''ab'']" "''c''"
        "some_et\<lparr>r_read := [ReadOk ''ab'', ReadErr EAGAIN, ReadOk ''.c'', ReadErr EAGAIN]\<rparr>" 1 0
        "Session_new 1 \<lparr>ch_fd = 7, ch_ip = ''10.0.0.1'', ch_port = 4000, isEof = False\<rparr>" "[[''ab''], [''.c'']]"] c(3,4)
    by (simp add: readable_events_def some_et_def ex_client_pc_def om_get_def Session_new_def idle_def bracket_def numeral_2_eq_2 fits_pc_def BUF_SIZE_pc_def)
qed

end
